(* ===== verification/Prelude.thy ===== *)
theory Prelude
  imports Main "HOL-Library.AList" "HOL-Library.List_Lexorder" "HOL-Library.Char_ord"
begin

text \<open>
  Shared vocabulary of the development: Python's string operations on lists of characters, the
  exception monad in which every partial operation of the program runs, ordered dictionaries, and
  the simplification rules the component theories use.

  A Python \<open>str\<close> is a \<open>string\<close> whose characters are code points below 256.  The other code
  points the program's messages use, U+2014 (em dash) and U+2013 (en dash), are written \<open>em_dash\<close>
  and \<open>en_dash\<close>: the C1 control characters \<open>0x97\<close> and \<open>0x96\<close>, which the program never produces,
  stand for them, as they do in Windows-1252.
\<close>

named_theorems res_simps \<open>rules that run the exception monad\<close>
named_theorems dict_simps \<open>rules that look keys up in dictionaries\<close>
named_theorems gate_simps \<open>definitions of the decision procedures\<close>

abbreviation em_dash :: string where "em_dash \<equiv> [CHR 0x97]"
abbreviation en_dash :: string where "en_dash \<equiv> [CHR 0x96]"
abbreviation newline :: char where "newline \<equiv> CHR 0x0A"

section \<open>Exceptions\<close>

text \<open>
  The exceptions the program raises or lets through.  A class the program itself constructs carries
  its message; a class the interpreter raises carries none.
\<close>

datatype pyerr =
    TypeError | AttributeError | IndexError | KeyError | OverflowError
  | ValueError string
  | ContractError string
  | FileNotFound string
  | RuntimeError string
  | KatelloClientError string
  | SystemExit string
  | ValidationError string

type_synonym 'a res = "pyerr + 'a"

definition ebind :: "'a res \<Rightarrow> ('a \<Rightarrow> 'b res) \<Rightarrow> 'b res" where
  "ebind m f = (case m of Inl e \<Rightarrow> Inl e | Inr x \<Rightarrow> f x)"

definition eguard :: "bool \<Rightarrow> pyerr \<Rightarrow> unit res" where
  "eguard ok e = (if ok then Inr () else Inl e)"

lemma ebind_simps [simp, res_simps]:
  "ebind (Inl e) f = Inl e"
  "ebind (Inr x) f = f x"
  by (simp_all add: ebind_def)

lemma ebind_Inr_iff [res_simps]:
  "ebind m f = Inr y \<longleftrightarrow> (\<exists>x. m = Inr x \<and> f x = Inr y)"
  by (cases m) auto

lemma ebind_Inl_iff [res_simps]:
  "ebind m f = Inl e \<longleftrightarrow> m = Inl e \<or> (\<exists>x. m = Inr x \<and> f x = Inl e)"
  by (cases m) auto

lemma ebind_assoc: "ebind (ebind m f) g = ebind m (\<lambda>x. ebind (f x) g)"
  by (cases m) auto

lemma ebind_cong [fundef_cong]:
  "m = m' \<Longrightarrow> (\<And>x. m' = Inr x \<Longrightarrow> f x = g x) \<Longrightarrow> ebind m f = ebind m' g"
  by (cases m') (auto simp: ebind_def)

lemma eguard_Inr_iff [simp, res_simps]: "eguard b e = Inr u \<longleftrightarrow> b"
  by (simp add: eguard_def)

lemma eguard_Inl_iff [simp, res_simps]: "eguard b e = Inl e' \<longleftrightarrow> \<not> b \<and> e' = e"
  by (auto simp: eguard_def)

lemma eguard_True [simp]: "eguard True e = Inr ()"
  by (simp add: eguard_def)

text \<open>A loop whose body may raise: the first exception ends it.\<close>

fun emap :: "('a \<Rightarrow> 'b res) \<Rightarrow> 'a list \<Rightarrow> 'b list res" where
  "emap f [] = Inr []"
| "emap f (x # xs) = ebind (f x) (\<lambda>y. ebind (emap f xs) (\<lambda>ys. Inr (y # ys)))"

fun efold :: "('a \<Rightarrow> 's \<Rightarrow> 's res) \<Rightarrow> 'a list \<Rightarrow> 's \<Rightarrow> 's res" where
  "efold f [] s = Inr s"
| "efold f (x # xs) s = ebind (f x s) (efold f xs)"

lemma emap_Inr_length: "emap f xs = Inr ys \<Longrightarrow> length ys = length xs"
  by (induction xs arbitrary: ys) (auto simp: res_simps)

lemma emap_Inr_nth:
  "emap f xs = Inr ys \<Longrightarrow> i < length xs \<Longrightarrow> f (xs ! i) = Inr (ys ! i)"
  by (induction xs arbitrary: ys i) (auto simp: res_simps nth_Cons split: nat.splits)

lemma emap_Inr_map:
  "(\<And>x. x \<in> set xs \<Longrightarrow> f x = Inr (g x)) \<Longrightarrow> emap f xs = Inr (map g xs)"
  by (induction xs) auto

lemma efold_append: "efold f (xs @ ys) s = ebind (efold f xs s) (efold f ys)"
  by (induction xs arbitrary: s) (simp_all add: ebind_assoc ebind_def split: sum.splits)

lemma efold_invariant:
  assumes "efold f xs s = Inr t" and "P s"
    and "\<And>x s t. x \<in> set xs \<Longrightarrow> P s \<Longrightarrow> f x s = Inr t \<Longrightarrow> P t"
  shows "P t"
  using assms
  by (induction xs arbitrary: s) (auto simp: res_simps)

section \<open>Error messages\<close>

text \<open>\<open>if c: errors.append(msg)\<close>, and the messages of a sequence of checks; a check that raises ends it.\<close>

definition note_if :: "bool \<Rightarrow> string \<Rightarrow> string list" where
  "note_if c msg = (if c then [msg] else [])"

lemma note_if_Nil [simp]: "note_if c msg = [] \<longleftrightarrow> \<not> c"
  by (simp add: note_if_def)

definition collect :: "string list res list \<Rightarrow> string list res" where
  "collect parts = ebind (emap (\<lambda>x. x) parts) (\<lambda>ess. Inr (concat ess))"

lemma collect_simps:
  "collect [] = Inr []"
  "collect (p # ps) = ebind p (\<lambda>es. ebind (collect ps) (\<lambda>fs. Inr (es @ fs)))"
  by (auto simp: collect_def ebind_def split: sum.splits)

lemma collect_Nil_iff [simp]: "collect ps = Inr [] \<longleftrightarrow> list_all (\<lambda>p. p = Inr []) ps"
  by (induction ps) (auto simp: collect_simps res_simps)

lemma collect_Inl: "collect ps = Inl e \<Longrightarrow> Inl e \<in> set ps"
  by (induction ps) (auto simp: collect_simps res_simps)

lemma collect_total: "list_all (\<lambda>p. \<exists>es. p = Inr es) ps \<Longrightarrow> \<exists>es. collect ps = Inr es"
  by (induction ps) (auto simp: collect_simps)

section \<open>Strings\<close>

fun join :: "string \<Rightarrow> string list \<Rightarrow> string" where
  "join sep [] = []"
| "join sep [s] = s"
| "join sep (s # ss) = s @ sep @ join sep ss"

definition starts_with :: "string \<Rightarrow> string \<Rightarrow> bool" where
  "starts_with p s \<longleftrightarrow> take (length p) s = p"

definition ends_with :: "string \<Rightarrow> string \<Rightarrow> bool" where
  "ends_with p s \<longleftrightarrow> length p \<le> length s \<and> drop (length s - length p) s = p"

lemma starts_with_append [simp]: "starts_with p (p @ s)"
  by (simp add: starts_with_def)

lemma starts_with_iff: "starts_with p s \<longleftrightarrow> (\<exists>t. s = p @ t)"
  by (metis append_eq_conv_conj append_take_drop_id starts_with_def)

lemma ends_with_iff: "ends_with p s \<longleftrightarrow> (\<exists>t. s = t @ p)"
proof
  assume "ends_with p s"
  then have "s = take (length s - length p) s @ p"
    by (metis append_take_drop_id ends_with_def)
  then show "\<exists>t. s = t @ p" by blast
qed (auto simp: ends_with_def)

text \<open>\<open>sub in s\<close>: substring search.\<close>

fun contains :: "string \<Rightarrow> string \<Rightarrow> bool" where
  "contains p [] = (p = [])"
| "contains p (c # cs) = (starts_with p (c # cs) \<or> contains p cs)"

text \<open>\<open>s.split(c)\<close> for a one-character separator; the result is never empty.\<close>

fun split_on :: "char \<Rightarrow> string \<Rightarrow> string list" where
  "split_on c [] = [[]]"
| "split_on c (x # xs) =
     (if x = c then [] # split_on c xs
      else (case split_on c xs of [] \<Rightarrow> [[x]] | w # ws \<Rightarrow> (x # w) # ws))"

lemma split_on_nonempty [simp]: "split_on c s \<noteq> []"
  by (induction s) (auto split: list.splits)

lemma split_on_no_sep: "c \<notin> set s \<Longrightarrow> split_on c s = [s]"
  by (induction s) auto

lemma split_on_append: "c \<notin> set s \<Longrightarrow> split_on c (s @ c # t) = s # split_on c t"
  by (induction s) auto

definition replace_char :: "char \<Rightarrow> string \<Rightarrow> string \<Rightarrow> string" where
  "replace_char c r s = concat (map (\<lambda>x. if x = c then r else [x]) s)"

text \<open>\<open>s.replace(old, new)\<close> for a non-empty \<open>old\<close>.\<close>

function replace_str :: "string \<Rightarrow> string \<Rightarrow> string \<Rightarrow> string" where
  "replace_str old new s =
     (case s of [] \<Rightarrow> []
      | c # cs \<Rightarrow> if old \<noteq> [] \<and> starts_with old s
                  then new @ replace_str old new (drop (length old) s)
                  else c # replace_str old new cs)"
  by pat_completeness auto
termination
  by (relation "measure (\<lambda>(old, new, s). length s)") auto

declare replace_str.simps [simp del]

text \<open>\<open>s.lower()\<close>, one code point at a time.\<close>

definition lower_char :: "char \<Rightarrow> char" where
  "lower_char c = (let n = (of_char c :: nat) in
     if 65 \<le> n \<and> n \<le> 90 \<or> 192 \<le> n \<and> n \<le> 222 \<and> n \<noteq> 215 then char_of (n + 32) else c)"

definition lower :: "string \<Rightarrow> string" where
  "lower s = map lower_char s"

definition rstrip_char :: "char \<Rightarrow> string \<Rightarrow> string" where
  "rstrip_char c s = rev (dropWhile (\<lambda>x. x = c) (rev s))"

lemma ends_with_rstrip_char: "\<not> ends_with [c] (rstrip_char c s)"
proof -
  have "dropWhile (\<lambda>x. x = c) (rev s) \<noteq> c # t" for t
    by (metis (mono_tags, lifting) dropWhile_eq_Cons_conv)
  then show ?thesis
    by (auto simp: ends_with_iff rstrip_char_def rev_swap)
qed

text \<open>Reading back the two sides of the first separator.\<close>

lemma split_at_sep:
  assumes "xs @ c # ys = xs' @ c # ys'" and "c \<notin> set xs" and "c \<notin> set xs'"
  shows "xs = xs' \<and> ys = ys'"
  using assms by (induction xs arbitrary: xs') (auto simp: Cons_eq_append_conv)

text \<open>\<open>str.isspace\<close>, \<open>str.isalnum\<close> and \<open>str.isprintable\<close> on one code point below 256.\<close>

definition is_space :: "char \<Rightarrow> bool" where
  "is_space c \<longleftrightarrow> of_char c \<in> set ([9, 10, 11, 12, 13, 28, 29, 30, 31, 32, 133, 160] :: nat list)"

definition is_alnum :: "char \<Rightarrow> bool" where
  "is_alnum c = (let n = (of_char c :: nat) in
     48 \<le> n \<and> n \<le> 57 \<or> 65 \<le> n \<and> n \<le> 90 \<or> 97 \<le> n \<and> n \<le> 122
     \<or> n \<in> set [170, 178, 179, 181, 185, 186, 188, 189, 190]
     \<or> 192 \<le> n \<and> n \<noteq> 215 \<and> n \<noteq> 247)"

definition is_printable :: "char \<Rightarrow> bool" where
  "is_printable c = (let n = (of_char c :: nat) in
     32 \<le> n \<and> n \<noteq> 173 \<and> \<not> (127 \<le> n \<and> n \<le> 160))"

definition lstrip :: "string \<Rightarrow> string" where
  "lstrip s = dropWhile is_space s"

definition rstrip :: "string \<Rightarrow> string" where
  "rstrip s = rev (dropWhile is_space (rev s))"

definition strip :: "string \<Rightarrow> string" where
  "strip s = rstrip (lstrip s)"

text \<open>\<open>s.strip(c)\<close> for one character.\<close>

definition strip_char :: "char \<Rightarrow> string \<Rightarrow> string" where
  "strip_char c s = rstrip_char c (dropWhile (\<lambda>x. x = c) s)"

lemma rstrip_newline [simp]: "rstrip (s @ [newline]) = rstrip s"
  by (simp add: rstrip_def is_space_def)

text \<open>A string that \<open>strip\<close> leaves alone.\<close>

definition trimmed :: "string \<Rightarrow> bool" where
  "trimmed s \<longleftrightarrow> s = [] \<or> \<not> is_space (hd s) \<and> \<not> is_space (last s)"

lemma strip_trimmed: "trimmed s \<Longrightarrow> strip s = s"
  by (cases "s = []")
    (auto simp: trimmed_def strip_def lstrip_def rstrip_def hd_rev dropWhile_eq_self_iff [THEN iffD2])

lemma strip_newline [simp]: "strip (s @ [newline]) = strip s"
proof (cases "\<forall>c \<in> set s. is_space c")
  case True
  then have "dropWhile is_space s = []" and "dropWhile is_space (s @ [newline]) = []"
    by (simp_all add: dropWhile_eq_Nil_conv is_space_def)
  then show ?thesis by (simp only: strip_def lstrip_def)
next
  case False
  then have "dropWhile is_space (s @ [newline]) = dropWhile is_space s @ [newline]"
    by (auto simp: dropWhile_append)
  then show ?thesis by (simp add: strip_def lstrip_def)
qed

section \<open>Decimal printing\<close>

fun nat_str :: "nat \<Rightarrow> string" where
  "nat_str n = (if n < 10 then [''0123456789'' ! n]
                else nat_str (n div 10) @ [''0123456789'' ! (n mod 10)])"

declare nat_str.simps [simp del]

definition int_str :: "int \<Rightarrow> string" where
  "int_str i = (if i < 0 then ''-'' @ nat_str (nat (- i)) else nat_str (nat i))"

lemma nat_str_nonempty [simp]: "nat_str n \<noteq> []"
  by (subst nat_str.simps) simp

text \<open>\<open>f"{n:08d}"\<close>: left padding with zeros to a width.\<close>

definition pad_zeros :: "nat \<Rightarrow> string \<Rightarrow> string" where
  "pad_zeros w s = replicate (w - length s) CHR ''0'' @ s"

section \<open>Dictionaries\<close>

text \<open>
  A Python dict is an association list in insertion order.  Assigning to a key that is present
  replaces the value in place, assigning to a new key appends it: this is \<open>AList.update\<close>.
\<close>

type_synonym 'v dict = "(string \<times> 'v) list"

definition dget :: "'v dict \<Rightarrow> string \<Rightarrow> 'v \<Rightarrow> 'v" where
  "dget d k v = (case map_of d k of None \<Rightarrow> v | Some x \<Rightarrow> x)"

definition dhas :: "'v dict \<Rightarrow> string \<Rightarrow> bool" where
  "dhas d k \<longleftrightarrow> k \<in> set (map fst d)"

definition dset :: "string \<Rightarrow> 'v \<Rightarrow> 'v dict \<Rightarrow> 'v dict" where
  "dset k v d = AList.update k v d"

definition dsetdefault :: "string \<Rightarrow> 'v \<Rightarrow> 'v dict \<Rightarrow> 'v dict" where
  "dsetdefault k v d = (if dhas d k then d else d @ [(k, v)])"

lemma dget_Nil [simp, dict_simps]: "dget [] k v = v"
  by (simp add: dget_def)

lemma dget_Cons [simp, dict_simps]: "dget ((k', x) # d) k v = (if k' = k then x else dget d k v)"
  by (simp add: dget_def)

lemma dhas_Nil [simp, dict_simps]: "\<not> dhas [] k"
  by (simp add: dhas_def)

lemma dhas_Cons [simp, dict_simps]: "dhas ((k', x) # d) k \<longleftrightarrow> k = k' \<or> dhas d k"
  by (simp add: dhas_def)

lemma dhas_map_of: "dhas d k \<longleftrightarrow> map_of d k \<noteq> None"
  by (simp add: dhas_def map_of_eq_None_iff)

lemma dget_absent: "\<not> dhas d k \<Longrightarrow> dget d k v = v"
  by (simp add: dhas_map_of dget_def)

lemma dset_Nil [simp]: "dset k v [] = [(k, v)]"
  by (simp add: dset_def)

lemma dset_Cons [simp]:
  "dset k v ((k', x) # d) = (if k' = k then (k', v) # d else (k', x) # dset k v d)"
  by (simp add: dset_def)

lemma dget_dset [simp, dict_simps]: "dget (dset k v d) k' w = (if k = k' then v else dget d k' w)"
  by (simp add: dget_def dset_def update_conv)

lemma map_of_dset: "map_of (dset k v d) = (map_of d)(k \<mapsto> v)"
  by (simp add: dset_def update_conv')

lemma dhas_dset [simp, dict_simps]: "dhas (dset k v d) k' \<longleftrightarrow> k' = k \<or> dhas d k'"
  by (auto simp: dhas_map_of map_of_dset)

lemma keys_dset: "map fst (dset k v d) = (if dhas d k then map fst d else map fst d @ [k])"
  by (simp add: dset_def update_keys dhas_def)

lemma distinct_keys_dset: "distinct (map fst d) \<Longrightarrow> distinct (map fst (dset k v d))"
  by (simp add: keys_dset dhas_def)

lemma length_dset: "length (dset k v d) = (if dhas d k then length d else Suc (length d))"
  by (metis keys_dset length_append_singleton length_map)

lemma list_all_dset: "list_all P d \<Longrightarrow> (\<And>k'. P (k', v)) \<Longrightarrow> list_all P (dset k v d)"
  by (induction d) auto

lemma dget_dsetdefault [simp, dict_simps]:
  "dget (dsetdefault k v d) k' w =
     (if k = k' \<and> \<not> dhas d k then v else dget d k' w)"
  by (auto simp: dsetdefault_def dget_def dhas_map_of map_add_def split: option.splits)

text \<open>\<open>sorted(required - set(record))\<close>: the missing keys in order.\<close>

definition missing_keys :: "string list \<Rightarrow> 'v dict \<Rightarrow> string list" where
  "missing_keys required d = sort [k \<leftarrow> required. \<not> dhas d k]"

lemma set_missing_keys [simp]: "set (missing_keys required d) = {k \<in> set required. \<not> dhas d k}"
  by (simp add: missing_keys_def)

lemma missing_keys_empty_iff:
  "missing_keys required d = [] \<longleftrightarrow> (\<forall>k \<in> set required. dhas d k)"
  by (metis (mono_tags, lifting) empty_filter_conv missing_keys_def set_empty set_sort)

text \<open>\<open>sorted(set(xs))\<close>.\<close>

definition sorted_set :: "string list \<Rightarrow> string list" where
  "sorted_set xs = sort (remdups xs)"

lemma set_sorted_set [simp]: "set (sorted_set xs) = set xs"
  by (simp add: sorted_set_def)

lemma sorted_sorted_set [simp]: "sorted (sorted_set xs)"
  by (simp add: sorted_set_def)

lemma sorted_set_Nil_iff [simp]: "sorted_set xs = [] \<longleftrightarrow> xs = []"
  by (metis set_empty set_sorted_set)

end
