(* ===== verification/Py_Value.thy ===== *)
theory Py_Value
  imports Prelude
begin

text \<open>
  The dynamically typed values the program reads from JSON and passes between its functions, with
  the Python operations it applies to them: truth value, \<open>isinstance\<close>, \<open>get\<close> and subscripting with
  the exceptions they raise on a value of another type, membership in a set (which raises on an
  unhashable value), \<open>str\<close>, \<open>repr\<close> and \<open>int\<close>.
\<close>

section \<open>Values\<close>

text \<open>
  A finite float is given by the decimal its \<open>repr\<close> shows, \<open>Dec m e\<close> for \<open>m * 10 ^ e\<close>.  The shortest
  decimal that reads back as a double determines the double and is ordered as the doubles are, so
  comparisons between doubles, decimal literals of the source and integers are comparisons of these
  decimals.  Negative zero is identified with zero.
\<close>

datatype pyfloat = Dec int int | PosInf | NegInf | NaN

datatype json =
    JNull
  | JBool bool
  | JInt int
  | JFloat pyfloat
  | JStr string
  | JList "json list"
  | JObj "(string \<times> json) list"

type_synonym jdict = "json dict"

abbreviation strs :: "string list \<Rightarrow> json" where
  "strs xs \<equiv> JList (map JStr xs)"

definition opt_str :: "string option \<Rightarrow> json" where
  "opt_str o_s = (case o_s of None \<Rightarrow> JNull | Some s \<Rightarrow> JStr s)"

lemma opt_str_simps [simp]: "opt_str None = JNull" "opt_str (Some s) = JStr s"
  by (simp_all add: opt_str_def)

section \<open>Floats\<close>

text \<open>\<open>m * 10 ^ e \<le> m' * 10 ^ e'\<close>, on integers.\<close>

definition dec_le :: "int \<Rightarrow> int \<Rightarrow> int \<Rightarrow> int \<Rightarrow> bool" where
  "dec_le m e m' e' \<longleftrightarrow> m * 10 ^ nat (e - min e e') \<le> m' * 10 ^ nat (e' - min e e')"

fun float_le :: "pyfloat \<Rightarrow> pyfloat \<Rightarrow> bool" where
  "float_le NaN _ = False"
| "float_le _ NaN = False"
| "float_le NegInf _ = True"
| "float_le _ PosInf = True"
| "float_le (Dec m e) (Dec m' e') = dec_le m e m' e'"
| "float_le _ _ = False"

definition float_lt :: "pyfloat \<Rightarrow> pyfloat \<Rightarrow> bool" where
  "float_lt x y \<longleftrightarrow> float_le x y \<and> \<not> float_le y x"

lemma dec_le_iff_real:
  "dec_le m e m' e' \<longleftrightarrow>
     of_int m * 10 powi e \<le> (of_int m' * 10 powi e' :: 'a::linordered_field)"
proof -
  let ?k = "min e e'"
  have split: "of_int x * 10 powi f = (of_int (x * 10 ^ nat (f - ?k)) :: 'a) * 10 powi ?k"
    if "?k \<le> f" for x f
  proof -
    have "f = int (nat (f - ?k)) + ?k" using that by simp
    then have "(10 :: 'a) powi f = 10 ^ nat (f - ?k) * 10 powi ?k"
      by (metis power_int_add power_int_of_nat zero_neq_numeral)
    then show ?thesis by simp
  qed
  have pos: "(0 :: 'a) < 10 powi ?k" by simp
  have left: "of_int m * 10 powi e = (of_int (m * 10 ^ nat (e - ?k)) :: 'a) * 10 powi ?k"
    and right: "of_int m' * 10 powi e' = (of_int (m' * 10 ^ nat (e' - ?k)) :: 'a) * 10 powi ?k"
    by (rule split; simp)+
  have "of_int m * 10 powi e \<le> (of_int m' * 10 powi e' :: 'a) \<longleftrightarrow>
      (of_int (m * 10 ^ nat (e - ?k)) :: 'a) \<le> of_int (m' * 10 ^ nat (e' - ?k))"
    unfolding left right by (rule mult_le_cancel_right_pos [OF pos])
  then show ?thesis unfolding dec_le_def by (simp only: of_int_le_iff)
qed

text \<open>\<open>repr\<close> of a float: fixed notation when the decimal point is at most 16 places right and
  less than 4 places left of the first digit, else scientific.\<close>

definition dec_repr :: "string \<Rightarrow> int \<Rightarrow> string" where
  "dec_repr ds e = (let n = int (length ds); point = n + e in
     if - 4 < point \<and> point \<le> 16 then
       (if point \<le> 0 then ''0.'' @ replicate (nat (- point)) CHR ''0'' @ ds
        else if n \<le> point then ds @ replicate (nat (point - n)) CHR ''0'' @ ''.0''
        else take (nat point) ds @ ''.'' @ drop (nat point) ds)
     else
       take 1 ds @ (if n = 1 then '''' else ''.'' @ drop 1 ds) @ ''e''
       @ (if point - 1 < 0 then ''-'' else ''+'') @ pad_zeros 2 (nat_str (nat \<bar>point - 1\<bar>)))"

fun float_repr :: "pyfloat \<Rightarrow> string" where
  "float_repr PosInf = ''inf''"
| "float_repr NegInf = ''-inf''"
| "float_repr NaN = ''nan''"
| "float_repr (Dec m e) =
     (if m = 0 then ''0.0''
      else (if m < 0 then ''-'' else '''') @ dec_repr (nat_str (nat \<bar>m\<bar>)) e)"

section \<open>Types and truth values\<close>

fun truthy :: "json \<Rightarrow> bool" where
  "truthy JNull = False"
| "truthy (JBool b) = b"
| "truthy (JInt i) = (i \<noteq> 0)"
| "truthy (JFloat (Dec m e)) = (m \<noteq> 0)"
| "truthy (JFloat _) = True"
| "truthy (JStr s) = (s \<noteq> '''')"
| "truthy (JList xs) = (xs \<noteq> [])"
| "truthy (JObj d) = (d \<noteq> [])"

lemma truthy_opt_str [simp]: "truthy (opt_str v) \<longleftrightarrow> v \<noteq> None \<and> v \<noteq> Some ''''"
  by (cases v) auto

fun is_dict :: "json \<Rightarrow> bool" where
  "is_dict (JObj _) = True" | "is_dict _ = False"

fun is_list :: "json \<Rightarrow> bool" where
  "is_list (JList _) = True" | "is_list _ = False"

fun is_str :: "json \<Rightarrow> bool" where
  "is_str (JStr _) = True" | "is_str _ = False"

fun is_bool :: "json \<Rightarrow> bool" where
  "is_bool (JBool _) = True" | "is_bool _ = False"

text \<open>\<open>isinstance(v, int)\<close>: \<open>bool\<close> is a subclass of \<open>int\<close>.\<close>

fun int_value :: "json \<Rightarrow> int option" where
  "int_value (JInt i) = Some i"
| "int_value (JBool b) = Some (if b then 1 else 0)"
| "int_value _ = None"

definition is_int :: "json \<Rightarrow> bool" where
  "is_int v \<longleftrightarrow> int_value v \<noteq> None"

lemma is_dictE: "is_dict v \<Longrightarrow> (\<And>d. v = JObj d \<Longrightarrow> P) \<Longrightarrow> P"
  by (cases v) auto

lemma is_listE: "is_list v \<Longrightarrow> (\<And>xs. v = JList xs \<Longrightarrow> P) \<Longrightarrow> P"
  by (cases v) auto

lemma is_strE: "is_str v \<Longrightarrow> (\<And>s. v = JStr s \<Longrightarrow> P) \<Longrightarrow> P"
  by (cases v) auto

lemma is_boolE: "is_bool v \<Longrightarrow> (\<And>b. v = JBool b \<Longrightarrow> P) \<Longrightarrow> P"
  by (cases v) auto

text \<open>The value as a number, for the operators that accept \<open>int\<close> and \<open>float\<close>.\<close>

fun num_value :: "json \<Rightarrow> pyfloat option" where
  "num_value (JInt i) = Some (Dec i 0)"
| "num_value (JBool b) = Some (Dec (if b then 1 else 0) 0)"
| "num_value (JFloat x) = Some x"
| "num_value _ = None"

text \<open>\<open>v == n\<close> for an integer \<open>n\<close>.\<close>

definition eq_int :: "json \<Rightarrow> int \<Rightarrow> bool" where
  "eq_int v n = (case num_value v of None \<Rightarrow> False
     | Some x \<Rightarrow> float_le x (Dec n 0) \<and> float_le (Dec n 0) x)"

lemma eq_int_JInt [simp]: "eq_int (JInt i) n \<longleftrightarrow> i = n"
  by (auto simp: eq_int_def dec_le_def)

section \<open>Dictionaries and subscripts\<close>

text \<open>\<open>v.get(k, d)\<close>.\<close>

fun jget :: "json \<Rightarrow> string \<Rightarrow> json \<Rightarrow> json res" where
  "jget (JObj d) k v = Inr (dget d k v)"
| "jget _ k v = Inl AttributeError"

text \<open>\<open>v[k]\<close> for a string key.\<close>

fun jsub :: "json \<Rightarrow> string \<Rightarrow> json res" where
  "jsub (JObj d) k = (case map_of d k of None \<Rightarrow> Inl KeyError | Some x \<Rightarrow> Inr x)"
| "jsub _ k = Inl TypeError"

text \<open>\<open>v[0]\<close>.\<close>

fun jfirst :: "json \<Rightarrow> json res" where
  "jfirst (JList (x # xs)) = Inr x"
| "jfirst (JList []) = Inl IndexError"
| "jfirst (JStr (c # cs)) = Inr (JStr [c])"
| "jfirst (JStr []) = Inl IndexError"
| "jfirst (JObj d) = Inl KeyError"
| "jfirst _ = Inl TypeError"

text \<open>\<open>d.get(k)\<close> on a value known to be a dict.\<close>

abbreviation dget0 :: "jdict \<Rightarrow> string \<Rightarrow> json" where
  "dget0 d k \<equiv> dget d k JNull"

lemma dget_present: "dhas d k \<Longrightarrow> dget d k v = dget0 d k"
  by (auto simp: dget_def dhas_map_of)

lemma dget_value: "dget0 d k = v \<Longrightarrow> v \<noteq> JNull \<Longrightarrow> dget d k w = v"
  by (auto simp: dget_def split: option.splits)

text \<open>The entries of a dict-valued field, and no entries for a value of another type: the idiom
  \<open>x if isinstance(x, dict) else {}\<close>.\<close>

fun dict_or_empty :: "json \<Rightarrow> jdict" where
  "dict_or_empty (JObj d) = d"
| "dict_or_empty _ = []"

lemma jget_Inr_iff [res_simps]: "jget v k w = Inr x \<longleftrightarrow> (\<exists>d. v = JObj d \<and> x = dget d k w)"
  by (cases v) auto

lemma jget_Inl_iff [res_simps]: "jget v k w = Inl e \<longleftrightarrow> \<not> is_dict v \<and> e = AttributeError"
  by (cases v) auto

text \<open>A value can be looked up in a set or used as a dict key unless it is a list or a dict.\<close>

fun hashable :: "json \<Rightarrow> bool" where
  "hashable (JList _) = False"
| "hashable (JObj _) = False"
| "hashable _ = True"

text \<open>\<open>v in S\<close> for a set of strings \<open>S\<close>.\<close>

definition in_set :: "json \<Rightarrow> string list \<Rightarrow> bool res" where
  "in_set v S = (if hashable v then Inr (\<exists>s \<in> set S. v = JStr s) else Inl TypeError)"

lemma in_set_JStr [simp]: "in_set (JStr s) S = Inr (s \<in> set S)"
  by (auto simp: in_set_def)

lemma in_set_JNull [simp]: "in_set JNull S = Inr False"
  by (auto simp: in_set_def)

lemma in_set_Inr_True: "in_set v S = Inr True \<longleftrightarrow> (\<exists>s \<in> set S. v = JStr s)"
  by (auto simp: in_set_def)

lemma in_set_Inl_iff: "in_set v S = Inl e \<longleftrightarrow> \<not> hashable v \<and> e = TypeError"
  by (auto simp: in_set_def)

section \<open>Conversions\<close>

definition hex_digit :: "nat \<Rightarrow> char" where
  "hex_digit n = ''0123456789abcdef'' ! n"

definition hex2 :: "nat \<Rightarrow> string" where
  "hex2 n = [hex_digit (n div 16), hex_digit (n mod 16)]"

definition repr_char :: "char \<Rightarrow> char \<Rightarrow> string" where
  "repr_char q c =
     (if c = q \<or> c = CHR 0x5C then [CHR 0x5C, c]
      else if c = CHR 0x0A then [CHR 0x5C, CHR ''n'']
      else if c = CHR 0x0D then [CHR 0x5C, CHR ''r'']
      else if c = CHR 0x09 then [CHR 0x5C, CHR ''t'']
      else if \<not> is_printable c then [CHR 0x5C, CHR ''x''] @ hex2 (of_char c)
      else [c])"

definition repr_str :: "string \<Rightarrow> string" where
  "repr_str s = (let q = (if CHR 0x27 \<in> set s \<and> CHR 0x22 \<notin> set s then CHR 0x22 else CHR 0x27)
                 in [q] @ concat (map (repr_char q) s) @ [q])"

fun py_repr :: "json \<Rightarrow> string" where
  "py_repr JNull = ''None''"
| "py_repr (JBool b) = (if b then ''True'' else ''False'')"
| "py_repr (JInt i) = int_str i"
| "py_repr (JFloat x) = float_repr x"
| "py_repr (JStr s) = repr_str s"
| "py_repr (JList xs) = ''['' @ join '', '' (map py_repr xs) @ '']''"
| "py_repr (JObj d) =
     ''{'' @ join '', '' (map (\<lambda>(k, v). repr_str k @ '': '' @ py_repr v) d) @ ''}''"

fun py_str :: "json \<Rightarrow> string" where
  "py_str (JStr s) = s"
| "py_str v = py_repr v"

text \<open>\<open>int(s)\<close> for a string: surrounding white space, a sign and single underscores between digits
  are accepted.\<close>

fun digit_value :: "char \<Rightarrow> nat option" where
  "digit_value c = (let n = of_char c in if 48 \<le> n \<and> n \<le> (57::nat) then Some (n - 48) else None)"

fun digits_value :: "nat \<Rightarrow> string \<Rightarrow> nat option" where
  "digits_value acc [] = Some acc"
| "digits_value acc (c # cs) =
     (if c = CHR ''_'' then
        (case cs of [] \<Rightarrow> None
         | d # ds \<Rightarrow> (case digit_value d of None \<Rightarrow> None | Some k \<Rightarrow> digits_value (10 * acc + k) ds))
      else (case digit_value c of None \<Rightarrow> None | Some k \<Rightarrow> digits_value (10 * acc + k) cs))"

definition unsigned_value :: "string \<Rightarrow> nat option" where
  "unsigned_value s = (case s of [] \<Rightarrow> None
     | c # cs \<Rightarrow> (case digit_value c of None \<Rightarrow> None | Some k \<Rightarrow> digits_value k cs))"

definition int_of_str :: "string \<Rightarrow> int res" where
  "int_of_str s =
     (let t = strip s;
          r = (if starts_with ''-'' t then map_option (\<lambda>n. - int n) (unsigned_value (drop 1 t))
               else if starts_with ''+'' t then map_option int (unsigned_value (drop 1 t))
               else map_option int (unsigned_value t))
      in case r of None \<Rightarrow> Inl (ValueError ''invalid literal for int() with base 10'')
         | Some i \<Rightarrow> Inr i)"

definition trunc_dec :: "int \<Rightarrow> int \<Rightarrow> int" where
  "trunc_dec m e = (if 0 \<le> e then m * 10 ^ nat e else sgn m * (\<bar>m\<bar> div 10 ^ nat (- e)))"

text \<open>\<open>int(v)\<close>.\<close>

fun py_int :: "json \<Rightarrow> int res" where
  "py_int (JInt i) = Inr i"
| "py_int (JBool b) = Inr (if b then 1 else 0)"
| "py_int (JFloat (Dec m e)) = Inr (trunc_dec m e)"
| "py_int (JFloat NaN) = Inl (ValueError ''cannot convert float NaN to integer'')"
| "py_int (JFloat _) = Inl OverflowError"
| "py_int (JStr s) = int_of_str s"
| "py_int _ = Inl TypeError"

text \<open>\<open>int(v or 0)\<close>.\<close>

definition int_or_zero :: "json \<Rightarrow> int res" where
  "int_or_zero v = (if truthy v then py_int v else Inr 0)"

lemma int_or_zero_JInt [simp]: "int_or_zero (JInt i) = Inr i"
  by (simp add: int_or_zero_def)

section \<open>Sets of values\<close>

text \<open>\<open>for x in v\<close>.\<close>

fun py_iter :: "json \<Rightarrow> json list res" where
  "py_iter (JList xs) = Inr xs"
| "py_iter (JStr s) = Inr (map (\<lambda>c. JStr [c]) s)"
| "py_iter (JObj d) = Inr (map (\<lambda>(k, v). JStr k) d)"
| "py_iter _ = Inl TypeError"

text \<open>\<open>v or w\<close>.\<close>

definition py_or :: "json \<Rightarrow> json \<Rightarrow> json" where
  "py_or v w = (if truthy v then v else w)"

text \<open>Equality of two hashable values: numbers are compared by value, whatever their type.  A set
  keeps the first of several equal elements; a \<open>NaN\<close> read by \<open>json\<close> is one object and equal to itself
  there.\<close>

definition py_eq :: "json \<Rightarrow> json \<Rightarrow> bool" where
  "py_eq v w \<longleftrightarrow> v = w \<or>
     (case (num_value v, num_value w) of (Some x, Some y) \<Rightarrow> float_le x y \<and> float_le y x | _ \<Rightarrow> False)"

fun dedup :: "json list \<Rightarrow> json list" where
  "dedup [] = []"
| "dedup (x # xs) = x # [y \<leftarrow> dedup xs. \<not> py_eq x y]"

text \<open>\<open>set(v)\<close> for a list, a string or a dict, with the \<open>TypeError\<close> for a value that cannot be iterated or an
  element that cannot be hashed, and \<open>set(v) - S\<close> for a set of strings \<open>S\<close>.\<close>

fun set_of :: "json \<Rightarrow> json list res" where
  "set_of (JList xs) = (if list_all hashable xs then Inr (dedup xs) else Inl TypeError)"
| "set_of (JStr s) = Inr (dedup (map (\<lambda>c. JStr [c]) s))"
| "set_of (JObj d) = Inr (map (\<lambda>(k, v). JStr k) d)"
| "set_of _ = Inl TypeError"

definition set_minus :: "json \<Rightarrow> string list \<Rightarrow> json list res" where
  "set_minus v S = ebind (set_of v) (\<lambda>xs. Inr [x \<leftarrow> xs. x \<notin> JStr ` set S])"

text \<open>\<open>sorted\<close> of a set: strings or numbers in order; two elements of different kinds cannot be
  compared.\<close>

fun str_value :: "json \<Rightarrow> string" where
  "str_value (JStr s) = s" | "str_value _ = ''''"

fun insert_number :: "json \<Rightarrow> json list \<Rightarrow> json list" where
  "insert_number v [] = [v]"
| "insert_number v (w # ws) =
     (case (num_value v, num_value w) of
        (Some x, Some y) \<Rightarrow> if float_lt y x then w # insert_number v ws else v # w # ws
      | _ \<Rightarrow> v # w # ws)"

definition sorted_values :: "json list \<Rightarrow> json list res" where
  "sorted_values xs =
     (if length xs \<le> 1 then Inr xs
      else if list_all is_str xs then Inr (map JStr (sort (map str_value xs)))
      else if list_all (\<lambda>x. num_value x \<noteq> None) xs then Inr (foldr insert_number xs [])
      else Inl TypeError)"

end
