(* ===== verification/Interfaces.thy ===== *)
theory Interfaces
  imports Prelude
begin

text \<open>
  The contracts the components rely on, each a locale whose client lemmas are proved once: a store
  addressed by key, an append-only log, a gate that grants nothing it cannot justify, and a machine
  whose steps keep an invariant.  The theory of the component that provides a contract interprets
  the locale on the component's own operations.
\<close>

section \<open>A store addressed by key\<close>

locale keyed_store =
  fixes get :: "'s \<Rightarrow> 'k \<Rightarrow> 'v option"
    and put :: "'k \<Rightarrow> 'v \<Rightarrow> 's \<Rightarrow> 's"
  assumes get_put_same: "get (put k v s) k = Some v"
    and get_put_other: "k \<noteq> k' \<Longrightarrow> get (put k v s) k' = get s k'"
begin

lemma get_put: "get (put k v s) k' = (if k = k' then Some v else get s k')"
  by (simp add: get_put_same get_put_other)

lemma put_overwrites: "get (put k v (put k u s)) = get (put k v s)"
  by (rule ext) (simp add: get_put)

lemma put_commutes: "k \<noteq> l \<Longrightarrow> get (put k v (put l u s)) = get (put l u (put k v s))"
  by (rule ext) (auto simp: get_put)

lemma get_fold_put:
  "get (fold (\<lambda>(k, v). put k v) kvs s) k' =
     (case map_of (rev kvs) k' of None \<Rightarrow> get s k' | Some v \<Rightarrow> Some v)"
proof (induction kvs arbitrary: s)
  case (Cons kv kvs)
  obtain k v where "kv = (k, v)" by fastforce
  with Cons show ?case
    by (auto simp: get_put map_add_def split: option.splits)
qed simp

lemma dom_get_put: "dom (get (put k v s)) = insert k (dom (get s))"
  by (auto simp: get_put dom_def)

end

section \<open>An append-only log\<close>

locale append_log =
  fixes entries :: "'s \<Rightarrow> 'e list"
    and append :: "'e \<Rightarrow> 's \<Rightarrow> 's"
    and wf :: "'s \<Rightarrow> bool"
    and ok :: "'e \<Rightarrow> bool"
  assumes entries_append: "wf s \<Longrightarrow> ok e \<Longrightarrow> entries (append e s) = entries s @ [e]"
    and wf_append: "wf s \<Longrightarrow> ok e \<Longrightarrow> wf (append e s)"
begin

lemma wf_fold_append: "wf s \<Longrightarrow> \<forall>e \<in> set es. ok e \<Longrightarrow> wf (fold append es s)"
  by (induction es arbitrary: s) (auto intro: wf_append)

lemma entries_fold_append:
  "wf s \<Longrightarrow> \<forall>e \<in> set es. ok e \<Longrightarrow> entries (fold append es s) = entries s @ es"
  by (induction es arbitrary: s) (auto simp: entries_append wf_append)

lemma never_loses_entries:
  "wf s \<Longrightarrow> \<forall>e \<in> set es. ok e \<Longrightarrow> set (entries s) \<subseteq> set (entries (fold append es s))"
  by (simp add: entries_fold_append)

end

section \<open>A gate\<close>

text \<open>\<open>justified\<close> is what a grant has to rest on; a gate that raises grants nothing.\<close>

locale decision_gate =
  fixes decide :: "'i \<Rightarrow> 'd res"
    and granted :: "'d \<Rightarrow> bool"
    and justified :: "'i \<Rightarrow> bool"
  assumes sound: "decide i = Inr d \<Longrightarrow> granted d \<Longrightarrow> justified i"
    and complete: "justified i \<Longrightarrow> \<exists>d. decide i = Inr d \<and> granted d"
begin

lemma granted_iff: "(\<exists>d. decide i = Inr d \<and> granted d) \<longleftrightarrow> justified i"
  using sound complete by blast

lemma refuses_unjustified: "\<not> justified i \<Longrightarrow> decide i = Inr d \<Longrightarrow> \<not> granted d"
  using sound by blast

lemma granted_all_justified:
  "emap decide is = Inr ds \<Longrightarrow> list_all granted ds \<Longrightarrow> list_all justified is"
proof (induction "is" arbitrary: ds)
  case (Cons i "is")
  then show ?case by (auto simp: res_simps intro: sound)
qed simp

end

section \<open>A machine with an invariant\<close>

locale invariant_machine =
  fixes step :: "'s \<Rightarrow> 's \<Rightarrow> bool"
    and inv :: "'s \<Rightarrow> bool"
  assumes inv_step: "step s t \<Longrightarrow> inv s \<Longrightarrow> inv t"
begin

lemma inv_reachable: "step\<^sup>*\<^sup>* s t \<Longrightarrow> inv s \<Longrightarrow> inv t"
  by (induction rule: rtranclp_induct) (auto intro: inv_step)

lemma never_bad: "step\<^sup>*\<^sup>* s t \<Longrightarrow> inv s \<Longrightarrow> (\<And>u. inv u \<Longrightarrow> \<not> bad u) \<Longrightarrow> \<not> bad t"
  using inv_reachable by blast

end

end
