(* ===== verification/Release_Attestation.thy ===== *)
theory Release_Attestation
  imports Py_Value Interfaces
begin

text \<open>
  \<open>release_attestation.py\<close>: the decision whether a release attestation authorises a switch to one
  content-view version.  \<open>minisign\<close> is an external program: whether it is on the path and how a run
  ends for a key, a message and a signature are arguments (\<open>minisign\<close>).  An injected verifier is an
  argument too.
\<close>

section \<open>Definitions\<close>

definition ATTESTATION_SCHEMA :: string where
  "ATTESTATION_SCHEMA = ''sourceos.release-attestation/v0.1''"

definition REQUIRED_FIELDS :: "string list" where
  "REQUIRED_FIELDS = [''artifactId'', ''signer'', ''algorithm'', ''timestamp'', ''signatureRef'']"

definition expected_artifact_id :: "string \<Rightarrow> string \<Rightarrow> string \<Rightarrow> string" where
  "expected_artifact_id org content_view version =
     ''urn:srcos:content-view:'' @ org @ '':'' @ content_view @ '':'' @ version"

record attestation_decision =
  dec_ok :: bool
  dec_reason :: string
  dec_level :: string
  dec_signer :: json
  dec_artifact_id :: "string option"

definition decision_to_dict :: "attestation_decision \<Rightarrow> json" where
  "decision_to_dict d = JObj [
     (''ok'', JBool (dec_ok d)),
     (''reason'', JStr (dec_reason d)),
     (''epistemicLevel'', JStr (dec_level d)),
     (''signer'', dec_signer d),
     (''artifactId'', opt_str (dec_artifact_id d))]"

text \<open>The external program: \<open>ms_run key message signature\<close> is its exit code, \<open>None\<close> when starting it or
  waiting for it raises.\<close>

record minisign =
  ms_present :: bool
  ms_run :: "string \<Rightarrow> string \<Rightarrow> string \<Rightarrow> int option"

type_synonym verifier = "jdict \<Rightarrow> string option \<Rightarrow> bool"

definition default_attestation_verifier :: "minisign \<Rightarrow> verifier" where
  "default_attestation_verifier ms attestation trusted_key =
     (case trusted_key of
        None \<Rightarrow> False
      | Some key \<Rightarrow>
         if key = '''' then False
         else
           let signature = dget0 attestation ''signatureRef'';
               artifact = dget0 attestation ''artifactId''
           in if \<not> truthy signature \<or> \<not> truthy artifact then False
              else if \<not> ms_present ms then False
              else (case signature of
                      JStr sig \<Rightarrow>
                        ms_run ms key (py_str artifact @ [newline])
                          (if ends_with [newline] sig then sig else sig @ [newline]) = Some 0
                    | _ \<Rightarrow> False))"

definition refusal :: "string \<Rightarrow> json \<Rightarrow> string option \<Rightarrow> attestation_decision" where
  "refusal why who artifact =
     \<lparr>dec_ok = False, dec_reason = why, dec_level = ''Speculative'', dec_signer = who,
      dec_artifact_id = artifact\<rparr>"

definition absent_reason :: "json \<Rightarrow> string" where
  "absent_reason version = ''no release attestation for version '' @ py_repr version
     @ '' '' @ em_dash @ '' absence returns Speculative, not Proved''"

definition missing_reason :: "string list \<Rightarrow> string" where
  "missing_reason missing = ''attestation missing required SignedArtifact field(s) ''
     @ py_repr (strs missing) @ '' '' @ em_dash @ '' unsigned or malformed''"

definition mismatch_reason :: "json \<Rightarrow> json \<Rightarrow> string \<Rightarrow> string" where
  "mismatch_reason found version expected =
     ''attestation artifactId '' @ py_repr found @ '' does not bind version '' @ py_repr version
     @ '' (expected '' @ repr_str expected @ '') '' @ em_dash
     @ '' an attestation for another artifact is not authorization for this switch''"

definition unverified_reason :: string where
  "unverified_reason = ''signature did not verify against the trusted key (or the verifier could not run ''
     @ em_dash @ '' fail closed: a gate that cannot fail is not a gate)''"

definition verified_reason :: string where
  "verified_reason = ''release attestation verified and bound to this exact version''"

definition chosen_verifier :: "minisign \<Rightarrow> verifier option \<Rightarrow> verifier" where
  "chosen_verifier ms v = (case v of None \<Rightarrow> default_attestation_verifier ms | Some f \<Rightarrow> f)"

text \<open>The attestation is the value loaded from its file; \<open>None\<close> is \<open>JNull\<close>.\<close>

definition verify_release_attestation ::
  "minisign \<Rightarrow> json \<Rightarrow> string \<Rightarrow> string \<Rightarrow> json \<Rightarrow> string option \<Rightarrow> verifier option
   \<Rightarrow> attestation_decision res" where
  "verify_release_attestation ms attestation org content_view version trusted_key v =
     (case attestation of
        JNull \<Rightarrow> Inr (refusal (absent_reason version) JNull None)
      | JObj att \<Rightarrow>
         let missing = [k \<leftarrow> REQUIRED_FIELDS. \<not> truthy (dget0 att k)];
             expected = expected_artifact_id org content_view (py_str version)
         in if missing \<noteq> [] then
              Inr (refusal (missing_reason missing) (dget0 att ''signer'') None)
            else if dget0 att ''artifactId'' \<noteq> JStr expected then
              Inr (refusal (mismatch_reason (dget0 att ''artifactId'') version expected)
                     (dget0 att ''signer'') None)
            else if \<not> chosen_verifier ms v att trusted_key then
              Inr (refusal unverified_reason (dget0 att ''signer'') (Some expected))
            else
              Inr \<lparr>dec_ok = True, dec_reason = verified_reason, dec_level = ''Proved'',
                   dec_signer = dget0 att ''signer'', dec_artifact_id = Some expected\<rparr>
      | _ \<Rightarrow> Inl AttributeError)"

definition make_release_attestation ::
  "string \<Rightarrow> string \<Rightarrow> string \<Rightarrow> string \<Rightarrow> string \<Rightarrow> string \<Rightarrow> string option \<Rightarrow> string option \<Rightarrow> string
   \<Rightarrow> jdict" where
  "make_release_attestation org content_view version who signature_ref algorithm issuer timestamp now = [
     (''schema'', JStr ATTESTATION_SCHEMA),
     (''artifactId'', JStr (expected_artifact_id org content_view version)),
     (''signer'', JStr who),
     (''algorithm'', JStr algorithm),
     (''timestamp'', JStr (case timestamp of None \<Rightarrow> now | Some t \<Rightarrow> if t = '''' then now else t)),
     (''issuer'', opt_str issuer),
     (''signatureRef'', JStr signature_ref)]"

section \<open>What a grant rests on\<close>

definition attestation_valid ::
  "minisign \<Rightarrow> json \<Rightarrow> string \<Rightarrow> string \<Rightarrow> json \<Rightarrow> string option \<Rightarrow> verifier option \<Rightarrow> bool" where
  "attestation_valid ms attestation org content_view version trusted_key v \<longleftrightarrow>
     (case attestation of
        JObj att \<Rightarrow> (\<forall>k \<in> set REQUIRED_FIELDS. truthy (dget0 att k))
          \<and> dget0 att ''artifactId'' = JStr (expected_artifact_id org content_view (py_str version))
          \<and> chosen_verifier ms v att trusted_key
      | _ \<Rightarrow> False)"

lemma missing_fields_Nil:
  "[k \<leftarrow> REQUIRED_FIELDS. \<not> truthy (dget0 att k)] = [] \<longleftrightarrow>
     (\<forall>k \<in> set REQUIRED_FIELDS. truthy (dget0 att k))"
  by (simp add: filter_empty_conv)

lemma refusal_simps [simp]:
  "dec_ok (refusal w s a) = False" "dec_level (refusal w s a) = ''Speculative''"
  "dec_reason (refusal w s a) = w" "dec_signer (refusal w s a) = s"
  "dec_artifact_id (refusal w s a) = a"
  by (simp_all add: refusal_def)

lemma verify_raises_iff:
  "(\<exists>e. verify_release_attestation ms a org cv ver key v = Inl e) \<longleftrightarrow> a \<noteq> JNull \<and> \<not> is_dict a"
  by (cases a) (auto simp: verify_release_attestation_def Let_def)

lemma verify_ok_valid:
  assumes "verify_release_attestation ms a org cv ver key v = Inr d" and "dec_ok d"
  shows "attestation_valid ms a org cv ver key v"
  using assms
  by (cases a)
    (auto simp: verify_release_attestation_def attestation_valid_def Let_def missing_fields_Nil
      split: if_splits)

lemma verify_valid_ok:
  assumes "attestation_valid ms a org cv ver key v"
  shows "\<exists>d. verify_release_attestation ms a org cv ver key v = Inr d \<and> dec_ok d"
  using assms
  by (auto simp: verify_release_attestation_def attestation_valid_def Let_def missing_fields_Nil
      split: json.splits)

lemma verify_level:
  assumes "verify_release_attestation ms a org cv ver key v = Inr d"
  shows "dec_level d = (if dec_ok d then ''Proved'' else ''Speculative'')"
proof (cases a)
  case (JObj att)
  with assms show ?thesis
    unfolding verify_release_attestation_def Let_def json.case JObj
    by (simp split: if_split_asm) auto
qed (use assms in \<open>auto simp add: verify_release_attestation_def\<close>)

interpretation release_gate: decision_gate
  "\<lambda>(ms, a, org, cv, ver, key, v). verify_release_attestation ms a org cv ver key v"
  dec_ok
  "\<lambda>(ms, a, org, cv, ver, key, v). attestation_valid ms a org cv ver key v"
  by unfold_locales (auto intro: verify_ok_valid verify_valid_ok)

lemma verify_ok_iff:
  "(\<exists>d. verify_release_attestation ms a org cv ver key v = Inr d \<and> dec_ok d) \<longleftrightarrow>
     attestation_valid ms a org cv ver key v"
  using release_gate.granted_iff [of "(ms, a, org, cv, ver, key, v)"] by simp

lemma attestation_validE:
  assumes "attestation_valid ms a org cv ver key v"
  obtains att where "a = JObj att" and "\<And>k. k \<in> set REQUIRED_FIELDS \<Longrightarrow> truthy (dget0 att k)"
    and "dget0 att ''artifactId'' = JStr (expected_artifact_id org cv (py_str ver))"
    and "chosen_verifier ms v att key"
  using assms by (cases a) (auto simp: attestation_valid_def)

lemma default_verifier_iff:
  "default_attestation_verifier ms att (Some key) \<longleftrightarrow>
     key \<noteq> '''' \<and> truthy (dget0 att ''artifactId'') \<and> ms_present ms
     \<and> (\<exists>sig. dget0 att ''signatureRef'' = JStr sig \<and> sig \<noteq> ''''
          \<and> ms_run ms key (py_str (dget0 att ''artifactId'') @ [newline])
               (if ends_with [newline] sig then sig else sig @ [newline]) = Some 0)"
  by (cases "dget0 att ''signatureRef''") (auto simp: default_attestation_verifier_def Let_def)

section \<open>The identifier binds the version\<close>

lemma expected_artifact_id_inj:
  assumes "expected_artifact_id org cv ver = expected_artifact_id org' cv' ver'"
    and "CHR '':'' \<notin> set org" "CHR '':'' \<notin> set org'" "CHR '':'' \<notin> set cv" "CHR '':'' \<notin> set cv'"
  shows "org = org' \<and> cv = cv' \<and> ver = ver'"
proof -
  from assms(1)
  have "org @ CHR '':'' # cv @ CHR '':'' # ver = org' @ CHR '':'' # cv' @ CHR '':'' # ver'"
    by (simp add: expected_artifact_id_def)
  from split_at_sep [OF this assms(2,3)] split_at_sep [OF _ assms(4,5)]
  show ?thesis by blast
qed

section \<open>A release for the examples\<close>

definition ex_attestation :: jdict where
  "ex_attestation = make_release_attestation ''Org'' ''cv'' ''2.0'' ''release'' ''sig'' ''minisign-ed25519''
     None None ''2026-01-01T00:00:00Z''"

definition ex_minisign :: minisign where
  "ex_minisign = \<lparr>ms_present = True,
     ms_run = (\<lambda>key msg sig. Some (if key = ''RWSkey''
        \<and> msg = ''urn:srcos:content-view:Org:cv:2.0'' @ [newline] \<and> sig = ''sig'' @ [newline]
        then 0 else 1))\<rparr>"

lemma ex_verified:
  "\<exists>d. verify_release_attestation ex_minisign (JObj ex_attestation) ''Org'' ''cv'' (JStr ''2.0'')
     (Some ''RWSkey'') None = Inr d \<and> dec_ok d"
  by (simp add: verify_ok_iff) code_simp

section \<open>Properties\<close>

text \<open>
  C2: With the verifier the daemon uses, an attestation authorises a version exactly when it is an
  object that has the five required fields, names the artifact of that organisation, content view
  and version, and carries a signature that minisign, being present, accepts for the trusted key and
  for the line with that artifact name.  Every other input is refused or raises.
\<close>

theorem release_authorised_iff:
  "(\<exists>d. verify_release_attestation ms a org cv ver (Some key) None = Inr d \<and> dec_ok d) \<longleftrightarrow>
     (\<exists>att sig. a = JObj att
        \<and> list_all (\<lambda>k. truthy (dget0 att k))
            [''artifactId'', ''signer'', ''algorithm'', ''timestamp'', ''signatureRef'']
        \<and> dget0 att ''artifactId'' = JStr (expected_artifact_id org cv (py_str ver))
        \<and> dget0 att ''signatureRef'' = JStr sig
        \<and> key \<noteq> '''' \<and> ms_present ms
        \<and> ms_run ms key (expected_artifact_id org cv (py_str ver) @ [newline])
            (if ends_with [newline] sig then sig else sig @ [newline]) = Some 0)"
proof (cases a)
  case (JObj att)
  let ?id = "expected_artifact_id org cv (py_str ver)"
  have fields: "list_all (\<lambda>k. truthy (dget0 att k))
      [''artifactId'', ''signer'', ''algorithm'', ''timestamp'', ''signatureRef''] \<longleftrightarrow>
      (\<forall>k \<in> set REQUIRED_FIELDS. truthy (dget0 att k))"
    unfolding REQUIRED_FIELDS_def list_all_iff ..
  have nonempty: "truthy (dget0 att ''artifactId'')" "truthy (dget0 att ''signatureRef'')"
    if "\<forall>k \<in> set REQUIRED_FIELDS. truthy (dget0 att k)"
    using that by (simp_all add: REQUIRED_FIELDS_def)
  have logic: "F \<and> A = JStr ID \<and> K \<and> truthy A \<and> P
        \<and> (\<exists>sig. S = JStr sig \<and> sig \<noteq> [] \<and> R (py_str A) sig) \<longleftrightarrow>
      (\<exists>att' sig. att = att' \<and> F' att' \<and> A' att' = JStr ID \<and> S' att' = JStr sig \<and> K \<and> P \<and> R ID sig)"
    if "F \<Longrightarrow> truthy A" "F \<Longrightarrow> truthy S" "F' att = F" "A' att = A" "S' att = S"
    for F A ID K P S R F' A' S'
    using that by auto
  show ?thesis
    unfolding verify_ok_iff JObj attestation_valid_def json.case chosen_verifier_def option.case
      default_verifier_iff json.inject
    by (rule logic) (use nonempty fields in \<open>simp_all only:\<close>)
qed (auto simp: verify_ok_iff attestation_valid_def)

text \<open>
  One attestation authorises one release.  If the same attestation is accepted for two
  releases whose organisation and content-view names hold no colon, the releases are the same,
  whatever the keys and the verifiers.
\<close>

theorem attestation_for_one_artifact:
  assumes "verify_release_attestation ms a org cv ver key v = Inr d" and "dec_ok d"
    and "verify_release_attestation ms a org' cv' ver' key' v' = Inr d'" and "dec_ok d'"
    and "CHR '':'' \<notin> set (org @ org' @ cv @ cv')"
  shows "org = org' \<and> cv = cv' \<and> py_str ver = py_str ver'"
  using verify_ok_valid [OF assms(1,2)] verify_ok_valid [OF assms(3,4)] assms(5)
  by (auto elim!: attestation_validE dest!: expected_artifact_id_inj)

theorem attestation_for_one_artifact_witness:
  "\<exists>d. verify_release_attestation ex_minisign (JObj ex_attestation) ''Org'' ''cv'' (JStr ''2.0'')
       (Some ''RWSkey'') None = Inr d \<and> dec_ok d
     \<and> ''Org'' = ''Org'' \<and> ''cv'' = ''cv'' \<and> py_str (JStr ''2.0'') = py_str (JStr ''2.0'')"
proof -
  from ex_verified obtain d where d: "verify_release_attestation ex_minisign (JObj ex_attestation)
      ''Org'' ''cv'' (JStr ''2.0'') (Some ''RWSkey'') None = Inr d" "dec_ok d" by blast
  from attestation_for_one_artifact [OF d d] d show ?thesis by simp
qed

text \<open>
  The restriction of the previous property to names without colons is needed: the parts of an
  artifact identifier are joined by colons and not escaped, so an attestation for the content view
  \<open>cv:x\<close> at version \<open>y\<close> is accepted for the content view \<open>cv\<close> at version \<open>x:y\<close>.
\<close>

theorem colons_shift_the_binding:
  "(\<exists>d. verify_release_attestation ms a org (cv @ '':'' @ x) (JStr y) key v = Inr d \<and> dec_ok d) \<longleftrightarrow>
     (\<exists>d. verify_release_attestation ms a org cv (JStr (x @ '':'' @ y)) key v = Inr d \<and> dec_ok d)"
  by (cases a) (simp_all add: verify_ok_iff attestation_valid_def expected_artifact_id_def)

end
