(* ===== verification/Katello_Client.thy ===== *)
theory Katello_Client
  imports Py_Value
begin

text \<open>
  \<open>katello_client.py\<close>: discovery of the latest content-view version.  The Katello server and the
  network are an argument, the answer \<open>fetch\<close> gives for a URL; the URLs, the errors and the reading
  of the answers are the code's.
\<close>

record katello_artifact =
  a_name :: string
  a_content_url :: string
  a_sha256 :: "string option"
  a_size_bytes :: "int option"

text \<open>\<open>version\<close> and \<open>description\<close> are whatever value the server sent.\<close>

record content_view_manifest =
  m_org :: string
  m_content_view :: string
  m_version :: json
  m_lifecycle_env :: string
  m_katello_url :: string
  m_pulp_content_url :: string
  m_nix_cache_url :: string
  m_artifacts :: "katello_artifact list"
  m_description :: json

definition artifact_to_dict :: "katello_artifact \<Rightarrow> json" where
  "artifact_to_dict a = JObj [
     (''name'', JStr (a_name a)), (''content_url'', JStr (a_content_url a)),
     (''sha256'', opt_str (a_sha256 a)),
     (''size_bytes'', case a_size_bytes a of None \<Rightarrow> JNull | Some n \<Rightarrow> JInt n)]"

definition manifest_to_dict :: "content_view_manifest \<Rightarrow> json" where
  "manifest_to_dict m = JObj [
     (''org'', JStr (m_org m)),
     (''content_view'', JStr (m_content_view m)),
     (''version'', m_version m),
     (''lifecycle_env'', JStr (m_lifecycle_env m)),
     (''katello_url'', JStr (m_katello_url m)),
     (''pulp_content_url'', JStr (m_pulp_content_url m)),
     (''nix_cache_url'', JStr (m_nix_cache_url m)),
     (''artifacts'', JList (map artifact_to_dict (m_artifacts m))),
     (''description'', m_description m)]"

section \<open>Requests\<close>

record katello_client =
  base_url :: string
  client_org :: string

definition new_client :: "string \<Rightarrow> string \<Rightarrow> katello_client" where
  "new_client url organisation = \<lparr>base_url = rstrip_char CHR ''/'' url, client_org = organisation\<rparr>"

definition API_BASE :: string where
  "API_BASE = ''/katello/api/v2''"

text \<open>\<open>urllib.parse.urlencode\<close>: unreserved characters stand for themselves, a space is a plus sign,
  every other byte of the UTF-8 encoding is a percent escape.\<close>

definition percent :: "nat \<Rightarrow> string" where
  "percent n = ''%'' @ [''0123456789ABCDEF'' ! (n div 16), ''0123456789ABCDEF'' ! (n mod 16)]"

definition quote_plus_char :: "char \<Rightarrow> string" where
  "quote_plus_char c = (let n = (of_char c :: nat) in
     if 48 \<le> n \<and> n \<le> 57 \<or> 65 \<le> n \<and> n \<le> 90 \<or> 97 \<le> n \<and> n \<le> 122 \<or> c \<in> set ''_.-~'' then [c]
     else if c = CHR '' '' then ''+''
     else if n < 128 then percent n
     else percent (192 + n div 64) @ percent (128 + n mod 64))"

definition quote_plus :: "string \<Rightarrow> string" where
  "quote_plus s = concat (map quote_plus_char s)"

definition urlencode :: "(string \<times> string) list \<Rightarrow> string" where
  "urlencode ps = join ''&'' (map (\<lambda>(k, v). quote_plus k @ ''='' @ quote_plus v) ps)"

datatype fetched = Body json | HttpError int string | UrlError string | Raised pyerr

definition katello_get ::
  "katello_client \<Rightarrow> (string \<Rightarrow> fetched) \<Rightarrow> string \<Rightarrow> (string \<times> string) list \<Rightarrow> json res" where
  "katello_get c fetch path params =
     (let base = base_url c @ API_BASE @ path;
          url = (if params \<noteq> [] then base @ ''?'' @ urlencode params else base)
      in case fetch url of
           Body j \<Rightarrow> Inr j
         | HttpError code why \<Rightarrow>
             Inl (KatelloClientError (''HTTP '' @ int_str code @ '' fetching '' @ url @ '': '' @ why))
         | UrlError why \<Rightarrow>
             Inl (KatelloClientError (''Connection error fetching '' @ url @ '': '' @ why))
         | Raised e \<Rightarrow> Inl e)"

text \<open>The search shared by the three lookups: the \<open>id\<close> of the first result.\<close>

definition first_id :: "string \<Rightarrow> json \<Rightarrow> int res" where
  "first_id missing data =
     ebind (jget data ''results'' (JList [])) (\<lambda>results.
     if \<not> truthy results then Inl (KatelloClientError missing)
     else ebind (jfirst results) (\<lambda>r. ebind (jsub r ''id'') py_int))"

definition get_org_id :: "katello_client \<Rightarrow> (string \<Rightarrow> fetched) \<Rightarrow> int res" where
  "get_org_id c fetch =
     ebind (katello_get c fetch ''/organizations'' [(''search'', ''name='' @ client_org c)])
       (first_id (''Organization not found: '' @ client_org c))"

definition get_content_view_id ::
  "katello_client \<Rightarrow> (string \<Rightarrow> fetched) \<Rightarrow> string \<Rightarrow> int \<Rightarrow> int res" where
  "get_content_view_id c fetch nm org_id =
     ebind (katello_get c fetch ''/content_views''
              [(''organization_id'', int_str org_id), (''search'', ''name='' @ nm)])
       (first_id (''Content view not found: '' @ nm))"

definition get_lifecycle_env_id ::
  "katello_client \<Rightarrow> (string \<Rightarrow> fetched) \<Rightarrow> string \<Rightarrow> int \<Rightarrow> int res" where
  "get_lifecycle_env_id c fetch nm org_id =
     ebind (katello_get c fetch ''/environments''
              [(''organization_id'', int_str org_id), (''search'', ''name='' @ nm)])
       (first_id (''Lifecycle environment not found: '' @ nm))"

definition pulp_url_of :: "katello_client \<Rightarrow> string" where
  "pulp_url_of c = replace_str '':8080'' '':8101'' (replace_str '':8443'' '':8101'' (base_url c))"

definition nix_cache_url_of :: "katello_client \<Rightarrow> string" where
  "nix_cache_url_of c =
     pulp_url_of c @ ''/'' @ lower (client_org c) @ ''/content/sourceos/nix-cache-aarch64-linux/''"

text \<open>A string between apostrophes, as the messages write it.\<close>

definition quoted :: "string \<Rightarrow> string" where
  "quoted s = [CHR 0x27] @ s @ [CHR 0x27]"

definition get_latest_version ::
  "katello_client \<Rightarrow> (string \<Rightarrow> fetched) \<Rightarrow> string \<Rightarrow> string \<Rightarrow> content_view_manifest res" where
  "get_latest_version c fetch cv_name env_name =
     ebind (get_org_id c fetch) (\<lambda>org_id.
     ebind (get_content_view_id c fetch cv_name org_id) (\<lambda>cv_id.
     ebind (get_lifecycle_env_id c fetch env_name org_id) (\<lambda>env_id.
     ebind (katello_get c fetch ''/content_view_versions''
              [(''content_view_id'', int_str cv_id), (''environment_id'', int_str env_id),
               (''order'', ''version DESC''), (''per_page'', ''1'')]) (\<lambda>data.
     ebind (jget data ''results'' (JList [])) (\<lambda>versions.
     if \<not> truthy versions then
       Inl (KatelloClientError (''No version of '' @ quoted cv_name @ '' promoted to '' @ quoted env_name))
     else
       ebind (jfirst versions) (\<lambda>latest.
       ebind (jget latest ''version'' (JStr ''unknown'')) (\<lambda>ver.
       ebind (jget latest ''description'' (JStr '''')) (\<lambda>descr.
       Inr \<lparr>m_org = client_org c, m_content_view = cv_name, m_version = ver,
            m_lifecycle_env = env_name, m_katello_url = base_url c,
            m_pulp_content_url = pulp_url_of c, m_nix_cache_url = nix_cache_url_of c,
            m_artifacts = [], m_description = descr\<rparr>))))))))"

end
