(* ===== verification/Content_Sync.thy ===== *)
theory Content_Sync
  imports Release_Attestation Katello_Client "HOL-Library.Sublist"
begin

text \<open>
  \<open>content_sync.py\<close>: planning a content-view sync and running the plan.  The host a plan runs on is
  an argument: which programs are on its path, and how a shell command ends and changes the world.
  The world is a type parameter, so a command's effect is whatever the host says it is.
\<close>

section \<open>The plan\<close>

definition SYNC_SCHEMA :: string where
  "SYNC_SCHEMA = ''sourceos.content-sync-plan/v0.1''"

definition RECEIPT_SPEC_VERSION :: string where
  "RECEIPT_SPEC_VERSION = ''0.1.0''"

definition RECEIPT_ENGINE_ID :: string where
  "RECEIPT_ENGINE_ID = ''sourceos.sync.katello-content''"

record sync_plan =
  p_schema :: string
  p_org :: string
  p_content_view :: string
  p_from_version :: "string option"
  p_to_version :: json
  p_lifecycle_env :: string
  p_nix_cache_url :: string
  p_flake_ref :: string
  p_policy_gate :: string
  p_policy_reason :: string
  p_steps :: "string list"
  p_epistemic_level :: string
  p_attestation :: json

definition plan_to_dict :: "sync_plan \<Rightarrow> json" where
  "plan_to_dict p = JObj [
     (''schema'', JStr (p_schema p)),
     (''org'', JStr (p_org p)),
     (''content_view'', JStr (p_content_view p)),
     (''from_version'', opt_str (p_from_version p)),
     (''to_version'', p_to_version p),
     (''lifecycle_env'', JStr (p_lifecycle_env p)),
     (''nix_cache_url'', JStr (p_nix_cache_url p)),
     (''flake_ref'', JStr (p_flake_ref p)),
     (''policy_gate'', JStr (p_policy_gate p)),
     (''policy_reason'', JStr (p_policy_reason p)),
     (''steps'', strs (p_steps p)),
     (''epistemic_level'', JStr (p_epistemic_level p)),
     (''attestation'', p_attestation p)]"

definition plan_allowed :: "sync_plan \<Rightarrow> bool" where
  "plan_allowed p \<longleftrightarrow> p_policy_gate p = ''allowed''"

record syncer =
  s_flake_ref :: string
  s_locus :: string
  s_current_version :: "string option"
  s_signing_public_key :: "string option"
  s_agentplane_run_ref :: "string option"
  s_require_attestation :: bool
  s_attestation_public_key :: "string option"
  s_attestation_verifier :: "verifier option"

definition ALLOWED_LOCI :: "string list" where
  "ALLOWED_LOCI = [''local'', ''trusted_private'']"

text \<open>Every return of \<open>plan\<close> carries the same identification of the manifest and the syncer.\<close>

definition plan_of ::
  "syncer \<Rightarrow> content_view_manifest \<Rightarrow> string \<Rightarrow> string \<Rightarrow> string list \<Rightarrow> string \<Rightarrow> json \<Rightarrow> sync_plan"
where
  "plan_of s m gate why steps level att =
     \<lparr>p_schema = SYNC_SCHEMA, p_org = m_org m, p_content_view = m_content_view m,
      p_from_version = s_current_version s, p_to_version = m_version m,
      p_lifecycle_env = m_lifecycle_env m, p_nix_cache_url = m_nix_cache_url m,
      p_flake_ref = s_flake_ref s, p_policy_gate = gate, p_policy_reason = why,
      p_steps = steps, p_epistemic_level = level, p_attestation = att\<rparr>"

definition curl_info :: "content_view_manifest \<Rightarrow> string" where
  "curl_info m = ''curl -fsSL '' @ quoted (m_nix_cache_url m @ ''/nix-cache-info'')
     @ '' -o /tmp/sourceos-nix-cache-info''"

definition curl_sig :: "content_view_manifest \<Rightarrow> string" where
  "curl_sig m = ''curl -fsSL '' @ quoted (m_nix_cache_url m @ ''/nix-cache-info.minisig'')
     @ '' -o /tmp/sourceos-nix-cache-info.minisig''"

definition minisign_check :: "string \<Rightarrow> string" where
  "minisign_check key = ''minisign -V -P '' @ quoted key
     @ '' -m /tmp/sourceos-nix-cache-info -x /tmp/sourceos-nix-cache-info.minisig''"

definition verify_steps :: "syncer \<Rightarrow> content_view_manifest \<Rightarrow> string list" where
  "verify_steps s m = (case s_signing_public_key s of
       None \<Rightarrow> []
     | Some key \<Rightarrow> if key = '''' then [] else [curl_info m, curl_sig m, minisign_check key])"

definition nix_copy :: "syncer \<Rightarrow> content_view_manifest \<Rightarrow> string" where
  "nix_copy s m =
     ''nix copy --from '' @ quoted (m_nix_cache_url m) @ '' '' @ quoted (s_flake_ref s)"

definition switch_step :: "syncer \<Rightarrow> string" where
  "switch_step s = ''nixos-rebuild switch --flake '' @ quoted (s_flake_ref s)"

definition sync_steps :: "syncer \<Rightarrow> content_view_manifest \<Rightarrow> string list" where
  "sync_steps s m = verify_steps s m @ [nix_copy s m, switch_step s]"

definition at_current :: "syncer \<Rightarrow> content_view_manifest \<Rightarrow> bool" where
  "at_current s m = (case s_current_version s of
       None \<Rightarrow> False
     | Some v \<Rightarrow> v \<noteq> '''' \<and> m_version m = JStr v)"

definition allowed_plan :: "syncer \<Rightarrow> content_view_manifest \<Rightarrow> string \<Rightarrow> json \<Rightarrow> sync_plan" where
  "allowed_plan s m level att =
     plan_of s m ''allowed'' (''locus '' @ quoted (s_locus s) @ '' permitted; new version available'')
       (sync_steps s m) level att"

definition denied_plan :: "syncer \<Rightarrow> content_view_manifest \<Rightarrow> sync_plan" where
  "denied_plan s m =
     plan_of s m ''denied''
       (''locus '' @ quoted (s_locus s) @ '' not in allowed loci '' @ py_repr (strs (sort ALLOWED_LOCI)))
       [] ''Speculative'' JNull"

definition noop_plan :: "syncer \<Rightarrow> content_view_manifest \<Rightarrow> sync_plan" where
  "noop_plan s m = plan_of s m ''no-op'' ''already at latest version'' [] ''Speculative'' JNull"

definition blocked_plan :: "syncer \<Rightarrow> content_view_manifest \<Rightarrow> attestation_decision \<Rightarrow> sync_plan" where
  "blocked_plan s m d =
     plan_of s m ''blocked'' (''release attestation refused: '' @ dec_reason d) []
       (dec_level d) (decision_to_dict d)"

definition plan :: "minisign \<Rightarrow> syncer \<Rightarrow> content_view_manifest \<Rightarrow> json \<Rightarrow> sync_plan res" where
  "plan ms s m attestation =
     (if s_locus s \<notin> set ALLOWED_LOCI then Inr (denied_plan s m)
      else if at_current s m then Inr (noop_plan s m)
      else if s_require_attestation s then
        ebind (verify_release_attestation ms attestation (m_org m) (m_content_view m) (m_version m)
                 (s_attestation_public_key s) (s_attestation_verifier s)) (\<lambda>d.
        if \<not> dec_ok d then Inr (blocked_plan s m d)
        else Inr (allowed_plan s m (dec_level d) (decision_to_dict d)))
      else Inr (allowed_plan s m ''Speculative'' JNull))"

section \<open>Running the plan\<close>

datatype step_run = Exited int string string | Timed_Out | Crashed pyerr

record 'w host =
  which :: "string \<Rightarrow> 'w \<Rightarrow> bool"
  shell :: "string \<Rightarrow> 'w \<Rightarrow> step_run \<times> 'w"

datatype step_result =
    Not_Run string
  | Dry_Run string
  | Skipped string string
  | Ran string int string string
  | Timeout string

definition ran_status :: "int \<Rightarrow> string" where
  "ran_status rc = (if rc = 0 then ''ok'' else ''failed'')"

fun step_status :: "step_result \<Rightarrow> string" where
  "step_status (Not_Run s) = ''not-run''"
| "step_status (Dry_Run s) = ''dry_run''"
| "step_status (Skipped s why) = ''skipped''"
| "step_status (Ran s rc out err) = ran_status rc"
| "step_status (Timeout s) = ''timeout''"

definition not_run_reason :: string where
  "not_run_reason = ''aborted: a prior step failed '' @ em_dash @ '' refusing to proceed to nixos-rebuild''"

fun step_to_dict :: "step_result \<Rightarrow> json" where
  "step_to_dict (Not_Run s) = JObj [(''step'', JStr s), (''status'', JStr ''not-run''),
      (''reason'', JStr not_run_reason)]"
| "step_to_dict (Dry_Run s) = JObj [(''step'', JStr s), (''status'', JStr ''dry_run''),
      (''reason'', JStr ''dry_run=True'')]"
| "step_to_dict (Skipped s why) = JObj [(''step'', JStr s), (''status'', JStr ''skipped''),
      (''reason'', JStr why)]"
| "step_to_dict (Ran s rc out err) = JObj [(''step'', JStr s), (''status'', JStr (ran_status rc)),
      (''returncode'', JInt rc), (''stdout'', JStr (take 500 (strip out))),
      (''stderr'', JStr (take 500 (strip err)))]"
| "step_to_dict (Timeout s) = JObj [(''step'', JStr s), (''status'', JStr ''timeout'')]"

definition record_result :: "step_result \<Rightarrow> step_result list res \<times> 'w \<Rightarrow> step_result list res \<times> 'w" where
  "record_result r rest = (ebind (fst rest) (\<lambda>rs. Inr (r # rs)), snd rest)"

text \<open>The loop of \<open>execute\<close>.  The third argument is \<open>aborted\<close>.\<close>

fun run_steps ::
  "'w host \<Rightarrow> bool \<Rightarrow> bool \<Rightarrow> string list \<Rightarrow> 'w \<Rightarrow> step_result list res \<times> 'w" where
  "run_steps h dry aborted [] w = (Inr [], w)"
| "run_steps h dry aborted (s # ss) w =
     (if aborted then record_result (Not_Run s) (run_steps h dry aborted ss w)
      else if dry then record_result (Dry_Run s) (run_steps h dry aborted ss w)
      else if \<not> which h ''nix'' w \<and> starts_with ''nix '' s then
        record_result (Skipped s ''nix not found in PATH'') (run_steps h dry aborted ss w)
      else if \<not> which h ''nixos-rebuild'' w \<and> starts_with ''nixos-rebuild '' s then
        record_result (Skipped s ''nixos-rebuild not found in PATH'') (run_steps h dry aborted ss w)
      else case shell h s w of
          (Exited rc out err, w') \<Rightarrow>
            record_result (Ran s rc out err) (run_steps h dry (rc \<noteq> 0) ss w')
        | (Timed_Out, w') \<Rightarrow> record_result (Timeout s) (run_steps h dry True ss w')
        | (Crashed e, w') \<Rightarrow> (Inl e, w'))"

text \<open>\<open>aborted\<close> after the loop, and the outcome the code computes from it.\<close>

definition aborted_by :: "step_result list \<Rightarrow> bool" where
  "aborted_by rs \<longleftrightarrow> (\<exists>r \<in> set rs. step_status r \<in> set [''failed'', ''timeout''])"

definition outcome_of :: "bool \<Rightarrow> step_result list \<Rightarrow> string" where
  "outcome_of dry rs =
     (if dry then ''dry_run''
      else if \<not> aborted_by rs
              \<and> list_all (\<lambda>r. step_status r \<in> set [''ok'', ''dry_run'', ''skipped'']) rs
      then ''applied'' else ''failed'')"

text \<open>The values \<open>execute\<close> takes from the clock and from \<open>uuid4\<close>.\<close>

record stamps =
  t_cycle_id :: string
  t_receipt_uuid :: string
  t_audit_uuid :: string
  t_issued_at :: string
  t_duration_ms :: int

definition build_receipt ::
  "syncer \<Rightarrow> stamps \<Rightarrow> sync_plan \<Rightarrow> string \<Rightarrow> json list \<Rightarrow> int \<Rightarrow> jdict" where
  "build_receipt s t p outcome steps duration = [
     (''id'', JStr (''urn:srcos:sync-receipt:'' @ t_receipt_uuid t)),
     (''type'', JStr ''SyncCycleReceipt''),
     (''specVersion'', JStr RECEIPT_SPEC_VERSION),
     (''cycleId'', JStr (t_cycle_id t)),
     (''engineId'', JStr RECEIPT_ENGINE_ID),
     (''org'', JStr (p_org p)),
     (''contentView'', JStr (p_content_view p)),
     (''fromVersion'', opt_str (p_from_version p)),
     (''toVersion'', p_to_version p),
     (''lifecycleEnv'', JStr (p_lifecycle_env p)),
     (''locus'', JStr (s_locus s)),
     (''outcome'', JStr outcome),
     (''policyGate'', JStr (p_policy_gate p)),
     (''policyReason'', JStr (p_policy_reason p)),
     (''epistemicLevel'', JStr (p_epistemic_level p)),
     (''attestation'', p_attestation p),
     (''steps'', JList steps),
     (''nixCacheUrl'', JStr (p_nix_cache_url p)),
     (''flakeRef'', JStr (p_flake_ref p)),
     (''durationMs'', JInt duration),
     (''issuedAt'', JStr (t_issued_at t)),
     (''auditId'', JStr (''urn:srcos:audit:'' @ t_audit_uuid t)),
     (''agentplaneRunRef'', opt_str (s_agentplane_run_ref s))]"

definition refused_outcome :: "sync_plan \<Rightarrow> string" where
  "refused_outcome p =
     (if p_policy_gate p = ''denied'' then ''denied''
      else if p_policy_gate p = ''blocked'' then ''blocked'' else ''skipped'')"

definition execute ::
  "syncer \<Rightarrow> 'w host \<Rightarrow> stamps \<Rightarrow> sync_plan \<Rightarrow> bool \<Rightarrow> 'w \<Rightarrow> jdict res \<times> 'w" where
  "execute s h t p dry w =
     (if \<not> plan_allowed p then
        (let outcome = refused_outcome p in
         (Inr [(''status'', JStr outcome),
               (''reason'', JStr (p_policy_reason p)),
               (''policy_gate'', JStr (p_policy_gate p)),
               (''receipt'', JObj (build_receipt s t p outcome [] 0))], w))
      else
        (case run_steps h dry False (p_steps p) w of
           (Inl e, w') \<Rightarrow> (Inl e, w')
         | (Inr results, w') \<Rightarrow>
             (let outcome = outcome_of dry results;
                  steps = map step_to_dict results
              in (Inr [(''status'', JStr outcome),
                       (''plan'', plan_to_dict p),
                       (''results'', JList steps),
                       (''receipt'', JObj (build_receipt s t p outcome steps (t_duration_ms t)))], w'))))"

section \<open>What the plan decides\<close>

lemma plan_allowed_plan_of [simp]: "plan_allowed (plan_of s m g w ss l a) \<longleftrightarrow> g = ''allowed''"
  by (simp add: plan_allowed_def plan_of_def)

lemma plan_of_simps [simp]:
  "p_steps (plan_of s m g w ss l a) = ss" "p_policy_gate (plan_of s m g w ss l a) = g"
  "p_policy_reason (plan_of s m g w ss l a) = w" "p_epistemic_level (plan_of s m g w ss l a) = l"
  "p_attestation (plan_of s m g w ss l a) = a" "p_to_version (plan_of s m g w ss l a) = m_version m"
  by (simp_all add: plan_of_def)

lemma allowed_plan_simps [simp]:
  "plan_allowed (allowed_plan s m l a)" "p_steps (allowed_plan s m l a) = sync_steps s m"
  "p_policy_gate (allowed_plan s m l a) = ''allowed''"
  "p_epistemic_level (allowed_plan s m l a) = l" "p_attestation (allowed_plan s m l a) = a"
  "p_to_version (allowed_plan s m l a) = m_version m"
  by (simp_all add: allowed_plan_def)

definition authorised :: "minisign \<Rightarrow> syncer \<Rightarrow> content_view_manifest \<Rightarrow> json \<Rightarrow> bool" where
  "authorised ms s m a \<longleftrightarrow> attestation_valid ms a (m_org m) (m_content_view m) (m_version m)
     (s_attestation_public_key s) (s_attestation_verifier s)"

definition attempted :: "syncer \<Rightarrow> content_view_manifest \<Rightarrow> bool" where
  "attempted s m \<longleftrightarrow> s_locus s \<in> set ALLOWED_LOCI \<and> \<not> at_current s m"


lemma plan_kinds [simp]:
  "p_policy_gate (denied_plan s m) = ''denied''" "p_steps (denied_plan s m) = []"
  "p_policy_gate (noop_plan s m) = ''no-op''" "p_steps (noop_plan s m) = []"
  "p_policy_gate (blocked_plan s m d) = ''blocked''" "p_steps (blocked_plan s m d) = []"
  "p_epistemic_level (denied_plan s m) = ''Speculative''"
  "p_epistemic_level (noop_plan s m) = ''Speculative''"
  "p_epistemic_level (blocked_plan s m d) = dec_level d"
  "\<not> plan_allowed (denied_plan s m)" "\<not> plan_allowed (noop_plan s m)"
  "\<not> plan_allowed (blocked_plan s m d)"
  by (simp_all add: denied_plan_def noop_plan_def blocked_plan_def)

lemma plan_cases [consumes 1]:
  assumes "plan ms s m a = Inr p"
  obtains (denied) "s_locus s \<notin> set ALLOWED_LOCI" "p = denied_plan s m"
  | (noop) "s_locus s \<in> set ALLOWED_LOCI" "at_current s m" "p = noop_plan s m"
  | (blocked) d where "attempted s m" "s_require_attestation s" "\<not> authorised ms s m a" "\<not> dec_ok d"
      "dec_level d = ''Speculative''" "p = blocked_plan s m d"
  | (attested) d where "attempted s m" "s_require_attestation s" "authorised ms s m a" "dec_ok d"
      "p = allowed_plan s m ''Proved'' (decision_to_dict d)"
  | (ungated) "attempted s m" "\<not> s_require_attestation s" "p = allowed_plan s m ''Speculative'' JNull"
proof (cases "attempted s m \<and> s_require_attestation s")
  case True
  with assms obtain d where d:
    "verify_release_attestation ms a (m_org m) (m_content_view m) (m_version m)
      (s_attestation_public_key s) (s_attestation_verifier s) = Inr d"
    "(if \<not> dec_ok d then Inr (blocked_plan s m d)
      else Inr (allowed_plan s m (dec_level d) (decision_to_dict d))) = (Inr p :: sync_plan res)"
    unfolding plan_def attempted_def by (auto simp: ebind_Inr_iff)
  have "dec_ok d \<longleftrightarrow> authorised ms s m a"
    using d(1) by (simp add: authorised_def flip: verify_ok_iff)
  with True d that(3,4) verify_level [OF d(1)] show thesis by (cases "dec_ok d") auto
qed (use assms that in \<open>auto simp: plan_def attempted_def split: if_splits\<close>)

lemma plan_allowed_iff:
  "(\<exists>p. plan ms s m a = Inr p \<and> plan_allowed p) \<longleftrightarrow>
     attempted s m \<and> (s_require_attestation s \<longrightarrow> authorised ms s m a)"
proof (cases "attempted s m \<and> s_require_attestation s")
  case True
  let ?v = "verify_release_attestation ms a (m_org m) (m_content_view m) (m_version m)
      (s_attestation_public_key s) (s_attestation_verifier s)"
  have "(\<exists>p. plan ms s m a = Inr p \<and> plan_allowed p) \<longleftrightarrow> (\<exists>d. ?v = Inr d \<and> dec_ok d)"
    using True by (cases ?v) (auto simp: plan_def attempted_def)
  then show ?thesis using True by (simp add: authorised_def verify_ok_iff)
qed (auto simp: plan_def attempted_def)

lemma plan_steps:
  assumes "plan ms s m a = Inr p"
  shows "p_steps p = (if plan_allowed p then sync_steps s m else [])"
  using assms by (cases rule: plan_cases) auto

lemma plan_level:
  assumes "plan ms s m a = Inr p"
  shows "p_epistemic_level p =
    (if plan_allowed p \<and> s_require_attestation s then ''Proved'' else ''Speculative'')"
  using assms by (cases rule: plan_cases) auto

lemma plan_gate:
  assumes "plan ms s m a = Inr p"
  shows "p_policy_gate p =
    (if s_locus s \<notin> set ALLOWED_LOCI then ''denied''
     else if at_current s m then ''no-op''
     else if s_require_attestation s \<and> \<not> authorised ms s m a then ''blocked'' else ''allowed'')"
  using assms by (cases rule: plan_cases) (auto simp: attempted_def)

lemma plan_raises_iff:
  "(\<exists>e. plan ms s m a = Inl e) \<longleftrightarrow>
     attempted s m \<and> s_require_attestation s \<and> a \<noteq> JNull \<and> \<not> is_dict a"
proof (cases "attempted s m \<and> s_require_attestation s")
  case True
  then show ?thesis
    using verify_raises_iff [of ms a "m_org m" "m_content_view m" "m_version m"
      "s_attestation_public_key s" "s_attestation_verifier s"]
    by (auto simp: plan_def attempted_def ebind_Inl_iff split: if_splits)
qed (auto simp: plan_def attempted_def)

section \<open>What a run of the plan does\<close>

lemma record_result_simps [simp]:
  "fst (record_result r (Inr rs, w)) = Inr (r # rs)" "snd (record_result r x) = snd x"
  "record_result r (Inl e, w) = (Inl e, w)"
  by (simp_all add: record_result_def)

lemma record_result_eq:
  "record_result r x = (Inr qs, w) \<longleftrightarrow> (\<exists>rs. x = (Inr rs, w) \<and> qs = r # rs)"
  by (cases x) (auto simp: record_result_def res_simps)

lemma run_steps_aborted: "run_steps h dry True ss w = (Inr (map Not_Run ss), w)"
  by (induction ss) (simp_all add: record_result_def)

lemma run_steps_dry: "run_steps h True False ss w = (Inr (map Dry_Run ss), w)"
  by (induction ss) (simp_all add: record_result_def)

fun result_step :: "step_result \<Rightarrow> string" where
  "result_step (Not_Run s) = s"
| "result_step (Dry_Run s) = s"
| "result_step (Skipped s why) = s"
| "result_step (Ran s rc out err) = s"
| "result_step (Timeout s) = s"

text \<open>Every step is reported, in order.\<close>

lemma run_steps_reports:
  "run_steps h dry ab ss w = (Inr rs, w') \<Longrightarrow> map result_step rs = ss"
  by (induction h dry ab ss w arbitrary: rs w' rule: run_steps.induct)
    (auto simp: record_result_eq split: if_splits prod.splits step_run.splits)


text \<open>A run of commands as the shell sees it: the host that also keeps a log.\<close>

type_synonym log = "(string \<times> step_run) list"

definition traced :: "'w host \<Rightarrow> ('w \<times> log) host" where
  "traced h = \<lparr>which = (\<lambda>c (w, l). which h c w),
     shell = (\<lambda>c (w, l). case shell h c w of (r, w') \<Rightarrow> (r, (w', l @ [(c, r)])))\<rparr>"

definition succeeded :: "string \<times> step_run \<Rightarrow> bool" where
  "succeeded x \<longleftrightarrow> (\<exists>out err. snd x = Exited 0 out err)"

lemma traced_simps [simp]:
  "which (traced h) c (w, l) = which h c w"
  "shell (traced h) c (w, l) = (fst (shell h c w), (snd (shell h c w), l @ [(c, fst (shell h c w))]))"
  by (simp_all add: traced_def split: prod.splits)

lemma snd_record_result [simp]: "snd (record_result r x) = snd x"
  by (simp add: record_result_def)

definition skips :: "'w host \<Rightarrow> string \<Rightarrow> 'w \<Rightarrow> bool" where
  "skips h s w \<longleftrightarrow> \<not> which h ''nix'' w \<and> starts_with ''nix '' s
     \<or> \<not> which h ''nixos-rebuild'' w \<and> starts_with ''nixos-rebuild '' s"

lemma skips_traced [simp]: "skips (traced h) s (w, l) = skips h s w"
  by (simp add: skips_def)

lemma run_steps_skip:
  "skips h s w \<Longrightarrow> \<exists>why. run_steps h False False (s # ss) w =
     record_result (Skipped s why) (run_steps h False False ss w)"
  by (auto simp: skips_def)

lemma run_steps_run:
  "\<not> skips h s w \<Longrightarrow> run_steps h False False (s # ss) w =
     (case shell h s w of
        (Exited rc out err, w') \<Rightarrow> record_result (Ran s rc out err) (run_steps h False (rc \<noteq> 0) ss w')
      | (Timed_Out, w') \<Rightarrow> (Inr (Timeout s # map Not_Run ss), w')
      | (Crashed e, w') \<Rightarrow> (Inl e, w'))"
  by (auto simp: skips_def run_steps_aborted record_result_def split: prod.splits step_run.splits)

declare run_steps.simps(2) [simp del]

lemma list_all_butlast_Cons:
  "list_all P (butlast (x # xs)) \<longleftrightarrow> xs = [] \<or> P x \<and> list_all P (butlast xs)"
  by (cases xs) auto

text \<open>A run logs each command it starts, in the order of the plan, and starts nothing after a
  command that did not exit with 0.\<close>

lemma log_of_run:
  "\<exists>new. snd (snd (run_steps (traced h) False False ss (w, l))) = l @ new
      \<and> subseq (map fst new) ss \<and> list_all succeeded (butlast new)"
proof (induction ss arbitrary: w l)
  case (Cons s ss)
  show ?case
  proof (cases "skips h s w")
    case True
    then obtain why where "run_steps (traced h) False False (s # ss) (w, l) =
        record_result (Skipped s why) (run_steps (traced h) False False ss (w, l))"
      using run_steps_skip [of "traced h" s "(w, l)" ss] by auto
    with Cons.IH [of w l] show ?thesis by auto
  next
    case False
    obtain r w' where sh: "shell h s w = (r, w')" by fastforce
    show ?thesis
    proof (cases "\<exists>out err. r = Exited 0 out err")
      case True
      with Cons.IH [of w' "l @ [(s, r)]"] obtain new where
        "snd (snd (run_steps (traced h) False False (s # ss) (w, l))) = l @ (s, r) # new"
        "subseq (map fst new) ss" "list_all succeeded (butlast new)"
        using False sh by (auto simp: run_steps_run)
      moreover from True have "succeeded (s, r)" by (auto simp: succeeded_def)
      ultimately show ?thesis
        by (intro exI [of _ "(s, r) # new"]) (simp add: list_all_butlast_Cons)
    next
      case bad: False
      then have "snd (snd (run_steps (traced h) False False (s # ss) (w, l))) = l @ [(s, r)]"
        using False sh by (cases r) (auto simp: run_steps_run run_steps_aborted)
      then show ?thesis by (intro exI [of _ "[(s, r)]"]) simp
    qed
  qed
qed simp

text \<open>Steps that are neither \<open>nix\<close> nor \<open>nixos-rebuild\<close> commands are never skipped: the log starts
  with them.\<close>

lemma log_starts_with:
  assumes "\<forall>c \<in> set pre. \<not> starts_with ''nix '' c \<and> \<not> starts_with ''nixos-rebuild '' c"
  shows "\<exists>new. snd (snd (run_steps (traced h) False False (pre @ ss) (w, l))) = l @ new
      \<and> map fst (take (length pre) new) = take (length new) pre"
  using assms
proof (induction pre arbitrary: w l)
  case Nil
  then show ?case using log_of_run [of h ss w l] by auto
next
  case (Cons s pre)
  have ns: "\<not> skips h s w" using Cons.prems by (simp add: skips_def)
  obtain r w' where sh: "shell h s w = (r, w')" by fastforce
  show ?case
  proof (cases "\<exists>out err. r = Exited 0 out err")
    case True
    with Cons.IH [of w' "l @ [(s, r)]"] Cons.prems obtain new where
      "snd (snd (run_steps (traced h) False False ((s # pre) @ ss) (w, l))) = l @ (s, r) # new"
      "map fst (take (length pre) new) = take (length new) pre"
      using ns sh by (auto simp: run_steps_run)
    then show ?thesis by (intro exI [of _ "(s, r) # new"]) simp
  next
    case bad: False
    then have "snd (snd (run_steps (traced h) False False ((s # pre) @ ss) (w, l))) = l @ [(s, r)]"
      using ns sh by (cases r) (auto simp: run_steps_run run_steps_aborted)
    then show ?thesis by (intro exI [of _ "[(s, r)]"]) simp
  qed
qed


lemma verify_steps_unskippable:
  "\<forall>c \<in> set (verify_steps s m).
     \<not> starts_with ''nix '' c \<and> \<not> starts_with ''nixos-rebuild '' c"
  by (auto simp: verify_steps_def curl_info_def curl_sig_def minisign_check_def starts_with_def
      split: option.splits)

lemma switch_not_verify_step: "switch_step s \<notin> set (verify_steps s m)"
  using verify_steps_unskippable [of s m] by (auto simp: switch_step_def starts_with_def)

section \<open>\<open>execute\<close>\<close>

lemma snd_execute:
  "snd (execute s h t p dry w) =
     (if plan_allowed p then snd (run_steps h dry False (p_steps p) w) else w)"
  by (auto simp: execute_def Let_def split: prod.splits sum.splits)

definition status_of :: "jdict \<Rightarrow> string" where
  "status_of d = (case dget0 d ''status'' of JStr s \<Rightarrow> s | _ \<Rightarrow> '''')"

lemma execute_refused:
  "\<not> plan_allowed p \<Longrightarrow> \<exists>d. execute s h t p dry w = (Inr d, w) \<and> status_of d = refused_outcome p"
  by (auto simp: execute_def Let_def status_of_def)

lemma execute_ran:
  assumes "plan_allowed p" and "fst (execute s h t p dry w) = Inr d"
  obtains rs where "run_steps h dry False (p_steps p) w = (Inr rs, snd (execute s h t p dry w))"
    and "status_of d = outcome_of dry rs"
    and "dget0 d ''receipt'' =
      JObj (build_receipt s t p (outcome_of dry rs) (map step_to_dict rs) (t_duration_ms t))"
  using assms by (auto simp: execute_def Let_def status_of_def split: prod.splits sum.splits)

lemma outcome_applied_iff:
  "outcome_of dry rs = ''applied'' \<longleftrightarrow>
     \<not> dry \<and> list_all (\<lambda>r. step_status r \<in> set [''ok'', ''dry_run'', ''skipped'']) rs"
proof (cases "list_all (\<lambda>r. step_status r \<in> set [''ok'', ''dry_run'', ''skipped'']) rs")
  case True
  then have "\<not> aborted_by rs" by (auto simp: aborted_by_def list_all_iff)
  with True show ?thesis by (simp add: outcome_of_def)
qed (simp add: outcome_of_def)

definition log_of :: "syncer \<Rightarrow> 'w host \<Rightarrow> stamps \<Rightarrow> sync_plan \<Rightarrow> bool \<Rightarrow> 'w \<Rightarrow> log" where
  "log_of s h t p dry w = snd (snd (execute s (traced h) t p dry (w, [])))"

lemma log_of_refused [simp]: "\<not> plan_allowed p \<Longrightarrow> log_of s h t p dry w = []"
  by (simp add: log_of_def snd_execute)

lemma log_of_dry [simp]: "log_of s h t p True w = []"
  by (simp add: log_of_def snd_execute run_steps_dry)

lemma log_of_allowed:
  "plan_allowed p \<Longrightarrow>
     log_of s h t p False w = snd (snd (run_steps (traced h) False False (p_steps p) (w, [])))"
  by (simp add: log_of_def snd_execute)

lemma log_ran:
  assumes "log_of s h t p dry w \<noteq> []"
  shows "plan_allowed p" and "\<not> dry"
proof -
  show "plan_allowed p" using assms by (cases "plan_allowed p") simp_all
  show "\<not> dry" using assms by (cases dry) auto
qed

lemma log_all_but_last_succeeded: "list_all succeeded (butlast (log_of s h t p dry w))"
proof (cases "plan_allowed p \<and> \<not> dry")
  case True
  then show ?thesis using log_of_run [of h "p_steps p" w "[]"] by (auto simp: log_of_allowed)
next
  case False
  then have "log_of s h t p dry w = []" by (cases dry) auto
  then show ?thesis by simp
qed

lemma log_in_plan_order: "subseq (map fst (log_of s h t p dry w)) (p_steps p)"
proof (cases "plan_allowed p \<and> \<not> dry")
  case True
  then show ?thesis using log_of_run [of h "p_steps p" w "[]"] by (auto simp: log_of_allowed)
next
  case False
  then have "log_of s h t p dry w = []" by (cases dry) auto
  then show ?thesis by simp
qed

lemma nothing_runs_unauthorised:
  assumes "plan ms s m a = Inr p" and "s_require_attestation s" and "log_of s h t p dry w \<noteq> []"
  shows "authorised ms s m a"
  using assms(1,2) log_ran(1) [OF assms(3)] plan_allowed_iff [of ms s m a] by blast

lemma verification_before_switch:
  assumes "plan ms s m a = Inr p" and "switch_step s \<in> fst ` set (log_of s h t p dry w)"
    and "n = length (verify_steps s m)"
  shows "map fst (take n (log_of s h t p dry w)) = verify_steps s m
    \<and> list_all succeeded (take n (log_of s h t p dry w))"
proof -
  let ?l = "log_of s h t p dry w" and ?pre = "verify_steps s m"
  from assms(2) have "?l \<noteq> []" by auto
  from log_ran [OF this] have l: "?l = snd (snd (run_steps (traced h) False False
      (?pre @ [nix_copy s m, switch_step s]) (w, [])))"
    using plan_steps [OF assms(1)] by (simp add: log_of_allowed sync_steps_def)
  have pre: "map fst (take (length ?pre) ?l) = take (length ?l) ?pre"
    using log_starts_with [OF verify_steps_unskippable [of s m], of h "[nix_copy s m, switch_step s]" w "[]"]
    by (auto simp: l)
  have long: "length ?pre < length ?l"
  proof (rule ccontr)
    assume "\<not> length ?pre < length ?l"
    with pre have "map fst ?l = take (length ?l) ?pre" by simp
    with assms(2) have "switch_step s \<in> set (take (length ?l) ?pre)"
      by (metis image_set)
    then show False using switch_not_verify_step by (meson in_set_takeD)
  qed
  then have "take (length ?pre) ?l = take (length ?pre) (butlast ?l)" by (simp add: take_butlast)
  then have "list_all succeeded (take (length ?pre) ?l)"
    using log_all_but_last_succeeded [of s h t p dry w] by (auto simp: list_all_iff dest: in_set_takeD)
  with pre long show ?thesis by (simp add: assms(3))
qed

lemma run_steps_traced:
  "fst (run_steps (traced h) dry ab ss (w, l)) = fst (run_steps h dry ab ss w)"
proof (induction ss arbitrary: ab w l)
  case (Cons s ss)
  obtain r w' where "shell h s w = (r, w')" by fastforce
  with Cons show ?case
    by (cases r) (auto simp: run_steps.simps record_result_def split: if_splits)
qed simp

lemma log_of_success:
  assumes "run_steps h False False ss w = (Inr rs, w')"
    and "list_all (\<lambda>r. step_status r \<in> set [''ok'', ''dry_run'', ''skipped'']) rs"
  shows "\<exists>new. snd (snd (run_steps (traced h) False False ss (w, l))) = l @ new
    \<and> list_all succeeded new
    \<and> set ss - fst ` set new \<subseteq> {c. starts_with ''nix '' c \<or> starts_with ''nixos-rebuild '' c}"
  using assms
proof (induction ss arbitrary: w l rs)
  case (Cons s ss)
  show ?case
  proof (cases "skips h s w")
    case True
    then obtain why why' where r: "run_steps h False False (s # ss) w =
        record_result (Skipped s why) (run_steps h False False ss w)"
      "run_steps (traced h) False False (s # ss) (w, l) =
        record_result (Skipped s why') (run_steps (traced h) False False ss (w, l))"
      using run_steps_skip [of "traced h" s "(w, l)" ss] run_steps_skip [of h s w ss] by auto
    from Cons.prems(1) obtain rs' where "run_steps h False False ss w = (Inr rs', w')"
      "rs = Skipped s why # rs'"
      unfolding r(1) record_result_eq by auto
    with Cons.IH [of w rs' l] Cons.prems obtain new where
      "snd (snd (run_steps (traced h) False False ss (w, l))) = l @ new" "list_all succeeded new"
      "set ss - fst ` set new \<subseteq> {c. starts_with ''nix '' c \<or> starts_with ''nixos-rebuild '' c}"
      by auto
    with True r show ?thesis by (intro exI [of _ new]) (auto simp: skips_def)
  next
    case False
    obtain r w1 where sh: "shell h s w = (r, w1)" by fastforce
    from Cons.prems False sh obtain out err rs' where ok: "r = Exited 0 out err"
      "run_steps h False False ss w1 = (Inr rs', w')" "rs = Ran s 0 out err # rs'"
      by (cases r) (auto simp: run_steps_run record_result_eq ran_status_def split: if_splits)
    with Cons.IH [of w1 rs' "l @ [(s, r)]"] Cons.prems obtain new where
      "snd (snd (run_steps (traced h) False False ss (w1, l @ [(s, r)]))) = (l @ [(s, r)]) @ new"
      "list_all succeeded new"
      "set ss - fst ` set new \<subseteq> {c. starts_with ''nix '' c \<or> starts_with ''nixos-rebuild '' c}"
      by auto
    with ok False sh show ?thesis
      by (intro exI [of _ "(s, r) # new"])
        (auto simp: run_steps_run succeeded_def [of "(s, Exited 0 out err)"])
  qed
qed simp

lemma succeeded_pair: "succeeded = (\<lambda>(c, r). \<exists>out err. r = Exited 0 out err)"
  by (auto simp: succeeded_def fun_eq_iff)

section \<open>A sync for the examples\<close>

definition ex_syncer :: syncer where
  "ex_syncer = \<lparr>s_flake_ref = ''flake'', s_locus = ''local'', s_current_version = Some ''1.0'',
     s_signing_public_key = Some ''RWScache'', s_agentplane_run_ref = None,
     s_require_attestation = True, s_attestation_public_key = Some ''RWSkey'',
     s_attestation_verifier = None\<rparr>"

definition ex_manifest :: content_view_manifest where
  "ex_manifest = \<lparr>m_org = ''Org'', m_content_view = ''cv'', m_version = JStr ''2.0'',
     m_lifecycle_env = ''stable'', m_katello_url = ''https://k'', m_pulp_content_url = ''https://k'',
     m_nix_cache_url = ''https://k/c'', m_artifacts = [], m_description = JStr ''''\<rparr>"

definition ex_host :: "unit host" where
  "ex_host = \<lparr>which = (\<lambda>_ _. True), shell = (\<lambda>_ _. (Exited 0 '''' '''', ()))\<rparr>"

definition ex_stamps :: stamps where
  "ex_stamps = \<lparr>t_cycle_id = ''c'', t_receipt_uuid = ''0123456789abcdef'', t_audit_uuid = ''a'',
     t_issued_at = ''2026-01-01T00:00:00Z'', t_duration_ms = 1\<rparr>"

definition ex_plan :: sync_plan where
  "ex_plan = (case plan ex_minisign ex_syncer ex_manifest (JObj ex_attestation) of
     Inr p \<Rightarrow> p | Inl _ \<Rightarrow> denied_plan ex_syncer ex_manifest)"

lemma ex_plan: "plan ex_minisign ex_syncer ex_manifest (JObj ex_attestation) = Inr ex_plan"
  by code_simp

lemma ex_log: "map fst (log_of ex_syncer ex_host ex_stamps ex_plan False ()) =
    sync_steps ex_syncer ex_manifest"
  by code_simp

lemma ex_applied: "\<exists>d. execute ex_syncer ex_host ex_stamps ex_plan False () = (Inr d, ())
    \<and> dget0 d ''status'' = JStr ''applied''"
proof -
  have "(case fst (execute ex_syncer ex_host ex_stamps ex_plan False ()) of
      Inr d \<Rightarrow> dget0 d ''status'' = JStr ''applied'' | Inl e \<Rightarrow> False)"
    by code_simp
  then show ?thesis by (cases "execute ex_syncer ex_host ex_stamps ex_plan False ()") (auto split: sum.splits)
qed

section \<open>Properties\<close>

text \<open>
  C1: when attestations are required, a run of a plan starts a command only on an allowed locus,
  not in a dry run, and only if the attestation is an object with every required field, bound to the
  organisation, content view and version of the manifest, that the verifier accepts.
\<close>

theorem nothing_runs_unattested:
  assumes "plan ms s m a = Inr p" and "s_require_attestation s" and "log_of s h t p dry w \<noteq> []"
  shows "s_locus s \<in> {''local'', ''trusted_private''} \<and> \<not> dry \<and>
    (\<exists>att. a = JObj att
       \<and> list_all (\<lambda>k. truthy (dget0 att k)) REQUIRED_FIELDS
       \<and> dget0 att ''artifactId'' =
           JStr (expected_artifact_id (m_org m) (m_content_view m) (py_str (m_version m)))
       \<and> chosen_verifier ms (s_attestation_verifier s) att (s_attestation_public_key s))"
proof -
  have "attempted s m"
    using plan_allowed_iff [of ms s m a] assms(1) log_ran(1) [OF assms(3)] by blast
  moreover have "\<not> dry" by (rule log_ran(2) [OF assms(3)])
  ultimately show ?thesis
    using nothing_runs_unauthorised [OF assms]
    by (auto simp: authorised_def attempted_def ALLOWED_LOCI_def list_all_iff elim!: attestation_validE)
qed

theorem nothing_runs_unattested_witness:
  "log_of ex_syncer ex_host ex_stamps ex_plan False () \<noteq> [] \<and>
     (\<exists>att. JObj ex_attestation = JObj att \<and> dget0 att ''artifactId'' = JStr ''urn:srcos:content-view:Org:cv:2.0'')"
proof -
  have ran: "log_of ex_syncer ex_host ex_stamps ex_plan False () \<noteq> []"
    using ex_log by (auto simp: sync_steps_def)
  have "s_require_attestation ex_syncer" by (simp add: ex_syncer_def)
  from nothing_runs_unattested [OF ex_plan this ran] ran show ?thesis
    by (auto simp: ex_manifest_def expected_artifact_id_def)
qed

text \<open>
  C8: with a signing key, the system is switched only after the cache information and its signature
  have been downloaded and checked with that key, each command exiting with 0, before anything else.
\<close>

theorem switch_only_after_verification:
  assumes "plan ms s m a = Inr p" and "s_signing_public_key s = Some key" and "key \<noteq> ''''"
    and "switch_step s \<in> fst ` set (log_of s h t p dry w)"
  shows "\<exists>o1 e1 o2 e2 o3 e3. take 3 (log_of s h t p dry w) =
    [(curl_info m, Exited 0 o1 e1), (curl_sig m, Exited 0 o2 e2), (minisign_check key, Exited 0 o3 e3)]"
proof -
  have v: "verify_steps s m = [curl_info m, curl_sig m, minisign_check key]"
    using assms(2,3) by (simp add: verify_steps_def)
  from verification_before_switch [OF assms(1,4), of 3] v show ?thesis
    by (auto simp: succeeded_pair map_eq_Cons_conv)
qed

theorem switch_only_after_verification_witness:
  "\<exists>o1 e1 o2 e2 o3 e3. take 3 (log_of ex_syncer ex_host ex_stamps ex_plan False ()) =
    [(curl_info ex_manifest, Exited 0 o1 e1), (curl_sig ex_manifest, Exited 0 o2 e2),
     (minisign_check ''RWScache'', Exited 0 o3 e3)]"
proof -
  have "switch_step ex_syncer \<in> set (map fst (log_of ex_syncer ex_host ex_stamps ex_plan False ()))"
    unfolding ex_log by (simp add: sync_steps_def)
  then have "switch_step ex_syncer \<in> fst ` set (log_of ex_syncer ex_host ex_stamps ex_plan False ())"
    by simp
  from switch_only_after_verification [OF ex_plan _ _ this, of "''RWScache''"] show ?thesis
    by (simp add: ex_syncer_def)
qed

text \<open>
  C12: the commands a run starts are steps of the plan in the plan's order, and all but the last of
  them exited with 0: nothing is started after a command that failed, timed out or raised.
\<close>

theorem first_failure_ends_the_run:
  assumes "plan ms s m a = Inr p"
  shows "subseq (map fst (log_of s h t p dry w)) (sync_steps s m)
    \<and> list_all (\<lambda>(c, r). \<exists>out err. r = Exited 0 out err) (butlast (log_of s h t p dry w))"
  using log_in_plan_order [of s h t p dry w] log_all_but_last_succeeded [of s h t p dry w]
    plan_steps [OF assms]
  by (auto simp: succeeded_pair split: if_splits)

theorem first_failure_ends_the_run_witness:
  "subseq (map fst (log_of ex_syncer ex_host ex_stamps ex_plan False ())) (sync_steps ex_syncer ex_manifest)
    \<and> length (log_of ex_syncer ex_host ex_stamps ex_plan False ()) = 5"
proof -
  have "length (map fst (log_of ex_syncer ex_host ex_stamps ex_plan False ())) = 5"
    unfolding ex_log by code_simp
  then show ?thesis
    using first_failure_ends_the_run [OF ex_plan, of ex_host ex_stamps False "()"] by simp
qed

text \<open>
  C13: the plan as a decision table: the gate, the steps and the epistemic level for each combination of
  locus, version, attestation requirement and attestation.  Only an allowed plan has steps, and only
  a verified attestation makes it Proved.
\<close>

theorem plan_decides:
  assumes "plan ms s m a = Inr p"
  shows "(p_policy_gate p, p_steps p, p_epistemic_level p) =
    (if s_locus s \<notin> set [''local'', ''trusted_private''] then (''denied'', [], ''Speculative'')
     else if s_current_version s \<noteq> Some '''' \<and> m_version m = opt_str (s_current_version s)
       \<and> s_current_version s \<noteq> None then (''no-op'', [], ''Speculative'')
     else if \<not> s_require_attestation s then (''allowed'', sync_steps s m, ''Speculative'')
     else if attestation_valid ms a (m_org m) (m_content_view m) (m_version m)
               (s_attestation_public_key s) (s_attestation_verifier s)
     then (''allowed'', sync_steps s m, ''Proved'')
     else (''blocked'', [], ''Speculative''))"
  using assms
  by (cases rule: plan_cases)
    (auto simp: attempted_def at_current_def authorised_def ALLOWED_LOCI_def split: option.splits)

theorem plan_decides_witness:
  "p_policy_gate ex_plan = ''allowed'' \<and> p_steps ex_plan = sync_steps ex_syncer ex_manifest
    \<and> p_epistemic_level ex_plan = ''Proved''"
proof -
  have "attestation_valid ex_minisign (JObj ex_attestation) (m_org ex_manifest)
     (m_content_view ex_manifest) (m_version ex_manifest) (s_attestation_public_key ex_syncer)
     (s_attestation_verifier ex_syncer)"
    by code_simp
  with plan_decides [OF ex_plan] show ?thesis by (simp add: ex_syncer_def ex_manifest_def)
qed

text \<open>
  Planning raises exactly when an attestation is needed and the file held a JSON value that is
  neither null nor an object.
\<close>

theorem plan_raises:
  "(\<exists>e. plan ms s m a = Inl e) \<longleftrightarrow>
     s_locus s \<in> {''local'', ''trusted_private''} \<and> s_require_attestation s
     \<and> \<not> (s_current_version s \<notin> {None, Some ''''} \<and> m_version m = opt_str (s_current_version s))
     \<and> a \<noteq> JNull \<and> \<not> is_dict a"
  unfolding plan_raises_iff attempted_def at_current_def ALLOWED_LOCI_def
  by (auto split: option.splits)

text \<open>
  A real run reports \<open>applied\<close> only if every command it started exited with 0, and the steps it
  did not start are nix and nixos-rebuild commands.
\<close>

theorem applied_means:
  assumes "execute s h t p False w = (Inr d, w')" and "dget0 d ''status'' = JStr ''applied''"
  shows "list_all (\<lambda>(c, r). \<exists>out err. r = Exited 0 out err) (log_of s h t p False w)
    \<and> set (p_steps p) - fst ` set (log_of s h t p False w) \<subseteq>
         {c. starts_with ''nix '' c \<or> starts_with ''nixos-rebuild '' c}"
proof -
  have al: "plan_allowed p"
  proof (rule ccontr)
    assume "\<not> plan_allowed p"
    with execute_refused [OF this, of s h t False w] assms show False
      by (auto simp: status_of_def refused_outcome_def split: if_splits)
  qed
  with assms obtain rs where rs: "run_steps h False False (p_steps p) w = (Inr rs, w')"
    "outcome_of False rs = ''applied''"
    by (auto simp: execute_def Let_def split: prod.splits sum.splits)
  with log_of_success [OF rs(1), of "[]"] al show ?thesis
    by (auto simp: outcome_applied_iff log_of_allowed succeeded_pair)
qed

theorem applied_means_witness:
  "list_all (\<lambda>(c, r). \<exists>out err. r = Exited 0 out err)
     (log_of ex_syncer ex_host ex_stamps ex_plan False ())"
proof -
  from ex_applied obtain d where "execute ex_syncer ex_host ex_stamps ex_plan False () = (Inr d, ())"
    "dget0 d ''status'' = JStr ''applied''" by blast
  from applied_means [OF this] show ?thesis by simp
qed

end
