(* ===== verification/Receipt_Store.thy ===== *)
theory Receipt_Store
  imports Py_Value Interfaces
begin

text \<open>
  \<open>receipt_store.py\<close>: the current-version file and the directory of sync receipts.  A receipt file
  holds the value it was written with, or \<open>None\<close> when its text does not parse; the version file
  holds text.
\<close>

record receipt_store =
  rs_dirs :: bool
  rs_version_file :: "string option"
  rs_receipts :: "json option dict"

definition empty_store :: receipt_store where
  "empty_store = \<lparr>rs_dirs = False, rs_version_file = None, rs_receipts = []\<rparr>"

definition ensure_dirs :: "receipt_store \<Rightarrow> receipt_store" where
  "ensure_dirs st = st\<lparr>rs_dirs := True\<rparr>"

definition read_current_version :: "receipt_store \<Rightarrow> string option" where
  "read_current_version st = (case rs_version_file st of
       None \<Rightarrow> None
     | Some text \<Rightarrow> (let v = strip text in if v = '''' then None else Some v))"

text \<open>\<open>version + "\n"\<close> raises on a version that is not a string, after the directories are made.\<close>

definition write_current_version :: "json \<Rightarrow> receipt_store \<Rightarrow> receipt_store \<times> unit res" where
  "write_current_version v st =
     (case v of
        JStr s \<Rightarrow> ((ensure_dirs st)\<lparr>rs_version_file := Some (s @ [newline])\<rparr>, Inr ())
      | _ \<Rightarrow> (ensure_dirs st, Inl TypeError))"

text \<open>\<open>receipt.get(k, default).replace(...)\<close> and \<open>.split(":")\<close> raise on a value that is not a
  string.\<close>

definition receipt_file_name :: "jdict \<Rightarrow> string res" where
  "receipt_file_name receipt =
     (case dget receipt ''issuedAt'' (JStr ''unknown'') of
        JStr i \<Rightarrow>
          (case dget receipt ''id'' (JStr '''') of
             JStr r \<Rightarrow>
               (let issued = replace_char CHR ''T'' ''_'' (replace_char CHR '':'' ''-'' i);
                    rid = take 16 (last (split_on CHR '':'' r))
                in Inr (issued @ ''-'' @ rid @ ''.json''))
           | _ \<Rightarrow> Inl AttributeError)
      | _ \<Rightarrow> Inl AttributeError)"

definition put_receipt :: "string \<Rightarrow> json option \<Rightarrow> receipt_store \<Rightarrow> receipt_store" where
  "put_receipt f j st = st\<lparr>rs_receipts := dset f j (rs_receipts st)\<rparr>"

definition get_receipt :: "receipt_store \<Rightarrow> string \<Rightarrow> json option option" where
  "get_receipt st f = map_of (rs_receipts st) f"

definition write_receipt :: "jdict \<Rightarrow> receipt_store \<Rightarrow> receipt_store \<times> string res" where
  "write_receipt receipt st =
     (case receipt_file_name receipt of
        Inl e \<Rightarrow> (ensure_dirs st, Inl e)
      | Inr f \<Rightarrow> (put_receipt f (Some (JObj receipt)) (ensure_dirs st), Inr f))"

text \<open>File names in descending order, cut at the limit, then the files that parse.\<close>

definition list_receipts :: "receipt_store \<Rightarrow> nat \<Rightarrow> json list" where
  "list_receipts st limit =
     (if \<not> rs_dirs st then []
      else List.map_filter (\<lambda>f. case get_receipt st f of Some j \<Rightarrow> j | None \<Rightarrow> None)
             (take limit (rev (sort (map fst (rs_receipts st))))))"

definition last_receipt :: "receipt_store \<Rightarrow> json option" where
  "last_receipt st = (case list_receipts st 1 of [] \<Rightarrow> None | r # _ \<Rightarrow> Some r)"

section \<open>Laws\<close>

interpretation receipts: keyed_store get_receipt put_receipt
  by unfold_locales (simp_all add: get_receipt_def put_receipt_def map_of_dset)

definition store_wf :: "receipt_store \<Rightarrow> bool" where
  "store_wf st \<longleftrightarrow> distinct (map fst (rs_receipts st)) \<and> (rs_receipts st \<noteq> [] \<longrightarrow> rs_dirs st)"

lemma store_wf_empty [simp]: "store_wf empty_store"
  by (simp add: store_wf_def empty_store_def)

lemma ensure_dirs_simps [simp]:
  "rs_receipts (ensure_dirs st) = rs_receipts st"
  "rs_version_file (ensure_dirs st) = rs_version_file st"
  "rs_dirs (ensure_dirs st)"
  "store_wf st \<Longrightarrow> store_wf (ensure_dirs st)"
  by (simp_all add: ensure_dirs_def store_wf_def)

lemma put_receipt_simps [simp]:
  "rs_version_file (put_receipt f j st) = rs_version_file st"
  "rs_dirs (put_receipt f j st) = rs_dirs st"
  by (simp_all add: put_receipt_def)

lemma store_wf_write_receipt: "store_wf st \<Longrightarrow> store_wf (fst (write_receipt r st))"
  by (auto simp: write_receipt_def store_wf_def put_receipt_def distinct_keys_dset split: sum.splits)

lemma store_wf_write_version: "store_wf st \<Longrightarrow> store_wf (fst (write_current_version v st))"
  by (auto simp: write_current_version_def store_wf_def split: json.splits)

lemma write_receipt_version [simp]:
  "rs_version_file (fst (write_receipt r st)) = rs_version_file st"
  by (auto simp: write_receipt_def split: sum.splits)

lemma write_version_receipts [simp]:
  "rs_receipts (fst (write_current_version v st)) = rs_receipts st"
  by (auto simp: write_current_version_def split: json.splits)

lemma read_after_write:
  assumes "snd (write_current_version v st) = Inr ()"
  shows "\<exists>s. v = JStr s \<and> read_current_version (fst (write_current_version v st)) =
    (let t = strip s in if t = '''' then None else Some t)"
  using assms by (cases v) (auto simp: write_current_version_def read_current_version_def)

lemma get_written_receipt:
  assumes "write_receipt r st = (st', Inr f)"
  shows "get_receipt st' f = Some (Some (JObj r))"
    and "f' \<noteq> f \<Longrightarrow> get_receipt st' f' = get_receipt st f'"
  using assms
  by (auto simp: write_receipt_def receipts.get_put split: sum.splits)
    (simp add: get_receipt_def)

end
