(* ===== verification/Sync_Daemon.thy ===== *)
theory Sync_Daemon
  imports Content_Sync Receipt_Store
begin

text \<open>
  \<open>daemon.py\<close>: one poll of Katello, and the loop around it.  The network, the attestation files,
  the host and the clock of one poll are the poll's environment.  The file system of the receipt
  store is assumed not to fail.  A signal may arrive between any two steps; one that arrives during a
  poll takes effect when the poll ends.
\<close>

definition DEFAULT_POLL_INTERVAL_S :: int where "DEFAULT_POLL_INTERVAL_S = 300"
definition MIN_BACKOFF_S :: int where "MIN_BACKOFF_S = 30"
definition MAX_BACKOFF_S :: int where "MAX_BACKOFF_S = 1800"

record daemon_config =
  c_client :: katello_client
  c_content_view :: string
  c_lifecycle_env :: string
  c_locus :: string
  c_flake_ref :: string
  c_signing_public_key :: "string option"
  c_agentplane_run_ref :: "string option"
  c_require_attestation :: bool
  c_attestation_public_key :: "string option"
  c_attestation_dir :: "string option"
  c_attestation_verifier :: "verifier option"
  c_poll_interval_s :: int
  c_user :: string
  c_password :: string
  c_verify_ssl :: bool
  c_store_root :: string

text \<open>\<open>e_files path\<close> is what opening and parsing the file gives, \<open>None\<close> for an \<open>OSError\<close> or a
  \<open>ValueError\<close>.\<close>

record 'w poll_env =
  e_fetch :: "string \<Rightarrow> fetched"
  e_files :: "string \<Rightarrow> json option"
  e_minisign :: minisign
  e_host :: "'w host"
  e_stamps :: stamps

section \<open>One poll\<close>

definition path_join :: "string \<Rightarrow> string \<Rightarrow> string" where
  "path_join d f = (if starts_with ''/'' f then f
     else if ends_with ''/'' d then d @ f else d @ ''/'' @ f)"

definition load_attestation ::
  "daemon_config \<Rightarrow> (string \<Rightarrow> json option) \<Rightarrow> content_view_manifest \<Rightarrow> json" where
  "load_attestation cfg files m =
     (case c_attestation_dir cfg of
        None \<Rightarrow> JNull
      | Some d \<Rightarrow>
         if d = '''' then JNull
         else (case files (path_join d (m_content_view m @ ''-'' @ py_str (m_version m) @ ''.json'')) of
                 None \<Rightarrow> JNull | Some j \<Rightarrow> j))"

definition syncer_for :: "daemon_config \<Rightarrow> string option \<Rightarrow> syncer" where
  "syncer_for cfg current =
     \<lparr>s_flake_ref = c_flake_ref cfg, s_locus = c_locus cfg, s_current_version = current,
      s_signing_public_key = c_signing_public_key cfg,
      s_agentplane_run_ref = c_agentplane_run_ref cfg,
      s_require_attestation = c_require_attestation cfg,
      s_attestation_public_key = c_attestation_public_key cfg,
      s_attestation_verifier = c_attestation_verifier cfg\<rparr>"

text \<open>The end of a poll: the receipt is stored, then the result decides.\<close>

definition settle ::
  "content_view_manifest \<Rightarrow> jdict \<Rightarrow> receipt_store \<Rightarrow> receipt_store \<times> unit res" where
  "settle m result st =
     (case write_receipt (dict_or_empty (dget result ''receipt'' (JObj []))) st of
        (st1, Inl e) \<Rightarrow> (st1, Inl e)
      | (st1, Inr path) \<Rightarrow>
         (let status = dget0 result ''status'' in
          if status = JStr ''applied'' then write_current_version (m_version m) st1
          else if status = JStr ''denied'' \<or> status = JStr ''skipped'' then (st1, Inr ())
          else if status = JStr ''failed'' then
            (st1, Inl (RuntimeError (''sync failed for version '' @ py_str (m_version m))))
          else (st1, Inr ())))"

definition poll_once ::
  "daemon_config \<Rightarrow> 'w poll_env \<Rightarrow> receipt_store \<Rightarrow> 'w \<Rightarrow> (receipt_store \<times> 'w) \<times> unit res" where
  "poll_once cfg env st w =
     (let s = syncer_for cfg (read_current_version st) in
      case get_latest_version (c_client cfg) (e_fetch env) (c_content_view cfg) (c_lifecycle_env cfg) of
        Inl e \<Rightarrow> ((st, w), Inl e)
      | Inr m \<Rightarrow>
         (case plan (e_minisign env) s m (load_attestation cfg (e_files env) m) of
            Inl e \<Rightarrow> ((st, w), Inl e)
          | Inr p \<Rightarrow>
             if p_policy_gate p = ''no-op'' then ((st, w), Inr ())
             else (case execute s (e_host env) (e_stamps env) p False w of
                     (Inl e, w') \<Rightarrow> ((st, w'), Inl e)
                   | (Inr result, w') \<Rightarrow>
                       (case settle m result st of (st', r) \<Rightarrow> ((st', w'), r)))))"

section \<open>The loop\<close>

record 'w daemon =
  d_running :: bool
  d_backoff_s :: int
  d_store :: receipt_store
  d_world :: 'w

definition start_daemon :: "receipt_store \<Rightarrow> 'w \<Rightarrow> 'w daemon" where
  "start_daemon st w = \<lparr>d_running = True, d_backoff_s = 0, d_store = ensure_dirs st, d_world = w\<rparr>"

definition next_backoff :: "int \<Rightarrow> int" where
  "next_backoff b = min MAX_BACKOFF_S (if b \<noteq> 0 then b * 2 else MIN_BACKOFF_S)"

definition sleep_s :: "daemon_config \<Rightarrow> 'w daemon \<Rightarrow> int" where
  "sleep_s cfg d = (if d_backoff_s d \<noteq> 0 then d_backoff_s d else c_poll_interval_s cfg)"

text \<open>The body of the loop up to the sleep: whatever \<open>_poll_once\<close> raises is caught.\<close>

definition poll_iteration :: "daemon_config \<Rightarrow> 'w poll_env \<Rightarrow> 'w daemon \<Rightarrow> 'w daemon" where
  "poll_iteration cfg env d =
     (case poll_once cfg env (d_store d) (d_world d) of
        ((st, w), Inr _) \<Rightarrow> d\<lparr>d_store := st, d_world := w, d_backoff_s := 0\<rparr>
      | ((st, w), Inl e) \<Rightarrow> d\<lparr>d_store := st, d_world := w, d_backoff_s := next_backoff (d_backoff_s d)\<rparr>)"

definition handle_signal :: "'w daemon \<Rightarrow> 'w daemon" where
  "handle_signal d = d\<lparr>d_running := False\<rparr>"

inductive daemon_step :: "daemon_config \<Rightarrow> 'w daemon \<Rightarrow> 'w daemon \<Rightarrow> bool" for cfg where
  poll: "d_running d \<Longrightarrow> daemon_step cfg d (poll_iteration cfg env d)"
| signal: "daemon_step cfg d (handle_signal d)"

inductive_cases daemon_stepE: "daemon_step cfg d d'"

fun iterate_polls :: "daemon_config \<Rightarrow> 'w poll_env list \<Rightarrow> 'w daemon \<Rightarrow> 'w daemon" where
  "iterate_polls cfg [] d = d"
| "iterate_polls cfg (env # envs) d =
     (if d_running d then iterate_polls cfg envs (poll_iteration cfg env d) else d)"

section \<open>Configuration from the environment\<close>

text \<open>\<open>read_file\<close> is the text of a file, or the message of the \<open>OSError\<close> opening it raises.\<close>

definition getenv :: "(string \<Rightarrow> string option) \<Rightarrow> string \<Rightarrow> string \<Rightarrow> string" where
  "getenv environ nm dflt = (case environ nm of None \<Rightarrow> dflt | Some v \<Rightarrow> v)"

definition resolve_password ::
  "(string \<Rightarrow> string option) \<Rightarrow> (string \<Rightarrow> string + string) \<Rightarrow> string res" where
  "resolve_password environ read_file =
     (let pw_file = getenv environ ''KATELLO_PASSWORD_FILE'' '''';
          pw = getenv environ ''KATELLO_PASSWORD'' ''''
      in if pw_file \<noteq> '''' then
           (case read_file pw_file of
              Inr text \<Rightarrow> Inr (strip text)
            | Inl why \<Rightarrow> Inl (RuntimeError
                (''cannot read KATELLO_PASSWORD_FILE '' @ pw_file @ '': '' @ why)))
         else if pw = '''' then
           Inl (RuntimeError ''KATELLO_PASSWORD or KATELLO_PASSWORD_FILE must be set'')
         else Inr pw)"

definition some_nonempty :: "string \<Rightarrow> string option" where
  "some_nonempty s = (if s = '''' then None else Some s)"

text \<open>\<open>daemon_from_env\<close> leaves \<open>agentplane_run_ref\<close> and the attestation parameters of \<open>SyncDaemon\<close> at
  their defaults.\<close>

definition daemon_from_env ::
  "(string \<Rightarrow> string option) \<Rightarrow> (string \<Rightarrow> string + string) \<Rightarrow> daemon_config res" where
  "daemon_from_env environ read_file =
     ebind (resolve_password environ read_file) (\<lambda>password.
     ebind (int_of_str (getenv environ ''SOURCEOS_POLL_INTERVAL'' (int_str DEFAULT_POLL_INTERVAL_S)))
       (\<lambda>interval.
     Inr \<lparr>c_client = new_client (getenv environ ''KATELLO_URL'' ''https://127.0.0.1:8443'')
                       (getenv environ ''KATELLO_ORG'' ''SocioProphet''),
          c_content_view = getenv environ ''KATELLO_CONTENT_VIEW'' ''sourceos-builder-aarch64'',
          c_lifecycle_env = getenv environ ''KATELLO_LIFECYCLE_ENV'' ''stable'',
          c_locus = getenv environ ''SOURCEOS_LOCUS'' ''local'',
          c_flake_ref = getenv environ ''SOURCEOS_FLAKE_REF''
                          ''github:SociOS-Linux/source-os#builder-aarch64'',
          c_signing_public_key = some_nonempty (getenv environ ''SOURCEOS_SIGNING_PUBLIC_KEY'' ''''),
          c_agentplane_run_ref = None,
          c_require_attestation = True,
          c_attestation_public_key = None,
          c_attestation_dir = None,
          c_attestation_verifier = None,
          c_poll_interval_s = interval,
          c_user = getenv environ ''KATELLO_USER'' ''admin'',
          c_password = password,
          c_verify_ssl = lower (getenv environ ''SOURCEOS_NO_VERIFY_SSL'' '''')
                           \<notin> set [''1'', ''true'', ''yes''],
          c_store_root = (let r = getenv environ ''SOURCEOS_STORE_ROOT'' ''/var/lib/sourceos-syncd''
                          in if r = '''' then ''/var/lib/sourceos-syncd'' else r)\<rparr>))"

section \<open>Backoff\<close>

definition backoff_ok :: "int \<Rightarrow> bool" where
  "backoff_ok b \<longleftrightarrow> b = 0 \<or> MIN_BACKOFF_S \<le> b \<and> b \<le> MAX_BACKOFF_S"

lemma backoff_ok_next: "backoff_ok b \<Longrightarrow> backoff_ok (next_backoff b) \<and> next_backoff b \<noteq> 0"
  by (auto simp: backoff_ok_def next_backoff_def MIN_BACKOFF_S_def MAX_BACKOFF_S_def)

lemma next_backoff_iterate:
  "(next_backoff ^^ Suc n) 0 = min MAX_BACKOFF_S (MIN_BACKOFF_S * 2 ^ n)"
proof (induction n)
  case 0
  then show ?case by (simp add: next_backoff_def MIN_BACKOFF_S_def MAX_BACKOFF_S_def)
next
  case (Suc n)
  have pos: "(1::int) \<le> 2 ^ n" by simp
  have "(next_backoff ^^ Suc (Suc n)) 0 = next_backoff (min MAX_BACKOFF_S (MIN_BACKOFF_S * 2 ^ n))"
    using Suc by simp
  also have "\<dots> = min MAX_BACKOFF_S (MIN_BACKOFF_S * 2 ^ Suc n)"
    using pos by (auto simp: next_backoff_def MIN_BACKOFF_S_def MAX_BACKOFF_S_def min_def)
  finally show ?case .
qed

section \<open>One poll\<close>

text \<open>The ways a poll can end.\<close>

lemma settle_cases:
  assumes "settle m result st = (st', r)"
  shows "rs_version_file st' = rs_version_file st \<or>
    (dget0 result ''status'' = JStr ''applied'' \<and> (\<exists>v. m_version m = JStr v
       \<and> rs_version_file st' = Some (v @ [newline]) \<and> r = Inr ()))"
proof (cases "write_receipt (dict_or_empty (dget result ''receipt'' (JObj []))) st")
  case (Pair st1 x)
  then have "rs_version_file st1 = rs_version_file st" by (metis fst_conv write_receipt_version)
  with assms Pair show ?thesis
    by (auto simp: settle_def Let_def write_current_version_def split: sum.splits if_splits json.splits)
qed

lemma poll_once_cases [consumes 1]:
  assumes "poll_once cfg env st w = ((st', w'), r)"
  obtains (raised) e where "st' = st" "r = Inl e"
  | (noop) m p where "st' = st" "w' = w" "r = Inr ()"
      "get_latest_version (c_client cfg) (e_fetch env) (c_content_view cfg) (c_lifecycle_env cfg) = Inr m"
      "plan (e_minisign env) (syncer_for cfg (read_current_version st)) m
         (load_attestation cfg (e_files env) m) = Inr p" "p_policy_gate p = ''no-op''"
  | (settled) m p result where
      "get_latest_version (c_client cfg) (e_fetch env) (c_content_view cfg) (c_lifecycle_env cfg) = Inr m"
      "plan (e_minisign env) (syncer_for cfg (read_current_version st)) m
         (load_attestation cfg (e_files env) m) = Inr p" "p_policy_gate p \<noteq> ''no-op''"
      "execute (syncer_for cfg (read_current_version st)) (e_host env) (e_stamps env) p False w =
         (Inr result, w')"
      "settle m result st = (st', r)"
  using assms unfolding poll_once_def Let_def
  by (auto split: sum.splits prod.splits if_splits)

text \<open>The receipt a run hands to the store.\<close>

lemma execute_receipt:
  assumes "execute s h t p dry w = (Inr result, w')"
  obtains outcome steps dur where
    "dget result ''receipt'' (JObj []) = JObj (build_receipt s t p outcome steps dur)"
    "dget0 result ''status'' = JStr outcome"
    "outcome = (if plan_allowed p then outcome else refused_outcome p)"
    "plan_allowed p \<Longrightarrow> outcome \<in> {''applied'', ''failed'', ''dry_run''}"
  using assms
  by (auto simp: execute_def Let_def outcome_of_def split: if_splits prod.splits sum.splits)

lemma build_receipt_fields [simp]:
  "dget0 (build_receipt s t p outcome steps dur) ''outcome'' = JStr outcome"
  "dget0 (build_receipt s t p outcome steps dur) ''epistemicLevel'' = JStr (p_epistemic_level p)"
  "dget0 (build_receipt s t p outcome steps dur) ''toVersion'' = p_to_version p"
  "dget0 (build_receipt s t p outcome steps dur) ''policyGate'' = JStr (p_policy_gate p)"
  by (simp_all add: build_receipt_def)

definition receipt_file :: "stamps \<Rightarrow> string" where
  "receipt_file t = replace_char CHR ''T'' ''_'' (replace_char CHR '':'' ''-'' (t_issued_at t))
     @ ''-'' @ take 16 (last (split_on CHR '':'' (''urn:srcos:sync-receipt:'' @ t_receipt_uuid t))) @ ''.json''"

lemma build_receipt_file: "receipt_file_name (build_receipt s t p outcome steps dur) = Inr (receipt_file t)"
  by (simp add: receipt_file_name_def build_receipt_def receipt_file_def Let_def)

lemma settle_eq:
  assumes "dget result ''receipt'' (JObj []) = JObj (build_receipt s t p outcome steps dur)"
    and "dget0 result ''status'' = JStr outcome"
  shows "settle m result st =
    (let st1 = put_receipt (receipt_file t) (Some (JObj (build_receipt s t p outcome steps dur))) (ensure_dirs st)
     in if outcome = ''applied'' then write_current_version (m_version m) st1
        else if outcome = ''failed'' then
          (st1, Inl (RuntimeError (''sync failed for version '' @ py_str (m_version m))))
        else (st1, Inr ()))"
  by (simp add: settle_def assms write_receipt_def build_receipt_file Let_def)

text \<open>An honest receipt: one that says a command may have run carries the level of a verified
  attestation.\<close>

definition honest :: "json option \<Rightarrow> bool" where
  "honest j \<longleftrightarrow> (\<forall>d. j = Some (JObj d) \<and> dget0 d ''outcome'' \<in> {JStr ''applied'', JStr ''failed''}
     \<longrightarrow> dget0 d ''epistemicLevel'' = JStr ''Proved'')"

definition honest_store :: "receipt_store \<Rightarrow> bool" where
  "honest_store st \<longleftrightarrow> (\<forall>f j. get_receipt st f = Some j \<longrightarrow> honest j)"

lemma honest_store_put: "honest_store st \<Longrightarrow> honest j \<Longrightarrow> honest_store (put_receipt f j st)"
  by (auto simp: honest_store_def receipts.get_put split: if_splits)

lemma get_receipt_ensure [simp]: "get_receipt (ensure_dirs st) = get_receipt st"
  by (rule ext) (simp add: get_receipt_def)

lemma get_receipt_write_version [simp]:
  "get_receipt (fst (write_current_version v st)) = get_receipt st"
  by (rule ext) (simp add: get_receipt_def)

lemma receipt_honest:
  assumes "plan ms s m a = Inr p" and "s_require_attestation s"
    and "outcome = (if plan_allowed p then outcome else refused_outcome p)"
  shows "honest (Some (JObj (build_receipt s t p outcome steps dur)))"
  using plan_level [OF assms(1)] assms(2,3)
  by (cases "plan_allowed p") (auto simp: honest_def refused_outcome_def split: if_splits)

lemma poll_keeps_honest:
  assumes "poll_once cfg env st w = ((st', w'), r)" and "c_require_attestation cfg" and "honest_store st"
  shows "honest_store st'"
  using assms(1)
proof (cases rule: poll_once_cases)
  case (settled m p result)
  from execute_receipt [OF settled(4)] obtain outcome steps dur where res:
    "dget result ''receipt'' (JObj []) =
       JObj (build_receipt (syncer_for cfg (read_current_version st)) (e_stamps env) p outcome steps dur)"
    "dget0 result ''status'' = JStr outcome"
    and out: "outcome = (if plan_allowed p then outcome else refused_outcome p)" by metis
  let ?r = "Some (JObj (build_receipt (syncer_for cfg (read_current_version st)) (e_stamps env) p outcome steps dur))"
  have "honest ?r"
    using receipt_honest [OF settled(2) _ out] assms(2) by (simp add: syncer_for_def)
  then have "honest_store (put_receipt (receipt_file (e_stamps env)) ?r (ensure_dirs st))"
    using assms(3) by (intro honest_store_put) (simp_all add: honest_store_def)
  moreover have "get_receipt st' = get_receipt (put_receipt (receipt_file (e_stamps env)) ?r (ensure_dirs st))"
    using settled(5) unfolding settle_eq [OF res] Let_def
    by (auto split: if_splits) (metis fst_conv get_receipt_write_version)
  ultimately show ?thesis by (simp add: honest_store_def)
qed (use assms(3) in auto)

lemma version_change:
  assumes "poll_once cfg env st w = ((st', w'), r)" and "rs_version_file st' \<noteq> rs_version_file st"
  shows "\<exists>m p v. get_latest_version (c_client cfg) (e_fetch env) (c_content_view cfg)
        (c_lifecycle_env cfg) = Inr m
      \<and> plan (e_minisign env) (syncer_for cfg (read_current_version st)) m
         (load_attestation cfg (e_files env) m) = Inr p \<and> plan_allowed p
      \<and> m_version m = JStr v \<and> rs_version_file st' = Some (v @ [newline]) \<and> r = Inr ()"
  using assms(1)
proof (cases rule: poll_once_cases)
  case (settled m p result)
  from settle_cases [OF settled(5)] assms(2)
  obtain v where v: "dget0 result ''status'' = JStr ''applied''" "m_version m = JStr v"
    "rs_version_file st' = Some (v @ [newline])" "r = Inr ()" by auto
  have "plan_allowed p"
  proof (rule ccontr)
    assume "\<not> plan_allowed p"
    from execute_refused [OF this, of "syncer_for cfg (read_current_version st)" "e_host env"
        "e_stamps env" False w] settled(4) v(1)
    show False by (auto simp: status_of_def refused_outcome_def split: if_splits)
  qed
  with settled(1,2) v show ?thesis by blast
qed (use assms(2) in auto)

section \<open>Convergence\<close>

text \<open>A host on which every command exits with 0.\<close>

definition obliging :: "'w host \<Rightarrow> bool" where
  "obliging h \<longleftrightarrow> (\<forall>c w. which h c w \<and> (\<exists>out err w'. shell h c w = (Exited 0 out err, w')))"

lemma run_steps_obliging:
  assumes "obliging h"
  shows "\<exists>rs w'. run_steps h False False ss w = (Inr rs, w') \<and> list_all (\<lambda>r. step_status r = ''ok'') rs"
proof (induction ss arbitrary: w)
  case (Cons s ss)
  from assms obtain out err w' where sh: "shell h s w = (Exited 0 out err, w')"
    and ns: "\<not> skips h s w" by (auto simp: obliging_def skips_def) metis
  from Cons obtain rs w'' where "run_steps h False False ss w' = (Inr rs, w'')"
    "list_all (\<lambda>r. step_status r = ''ok'') rs" by blast
  with sh ns show ?case
    by (auto simp: run_steps_run record_result_def ran_status_def)
qed simp

definition deployable :: "daemon_config \<Rightarrow> 'w poll_env \<Rightarrow> content_view_manifest \<Rightarrow> bool" where
  "deployable cfg env m \<longleftrightarrow>
     get_latest_version (c_client cfg) (e_fetch env) (c_content_view cfg) (c_lifecycle_env cfg) = Inr m
     \<and> c_locus cfg \<in> set ALLOWED_LOCI
     \<and> (c_require_attestation cfg \<longrightarrow> attestation_valid (e_minisign env)
          (load_attestation cfg (e_files env) m) (m_org m) (m_content_view m) (m_version m)
          (c_attestation_public_key cfg) (c_attestation_verifier cfg))"

lemma deployable_plan:
  assumes "deployable cfg env m" and "m_version m = JStr v" and "read_current_version st \<noteq> Some v"
  obtains p where "plan (e_minisign env) (syncer_for cfg (read_current_version st)) m
      (load_attestation cfg (e_files env) m) = Inr p" and "plan_allowed p"
proof -
  let ?s = "syncer_for cfg (read_current_version st)"
  have "attempted ?s m"
    using assms by (auto simp: attempted_def deployable_def syncer_for_def at_current_def
        split: option.splits)
  then show thesis
    using that assms(1) plan_allowed_iff [of "e_minisign env" ?s m "load_attestation cfg (e_files env) m"]
    by (auto simp: deployable_def authorised_def syncer_for_def)
qed

lemma poll_applied:
  assumes "get_latest_version (c_client cfg) (e_fetch env) (c_content_view cfg) (c_lifecycle_env cfg) = Inr m"
    and "plan (e_minisign env) (syncer_for cfg (read_current_version st)) m
           (load_attestation cfg (e_files env) m) = Inr p"
    and "plan_allowed p"
    and "run_steps (e_host env) False False (p_steps p) w = (Inr rs, w')"
    and "outcome_of False rs = ''applied''"
    and "m_version m = JStr v" and "trimmed v" and "v \<noteq> ''''"
  shows "\<exists>st'. poll_once cfg env st w = ((st', w'), Inr ()) \<and> read_current_version st' = Some v"
proof -
  let ?s = "syncer_for cfg (read_current_version st)"
  let ?r = "build_receipt ?s (e_stamps env) p ''applied'' (map step_to_dict rs) (t_duration_ms (e_stamps env))"
  let ?result = "[(''status'', JStr ''applied''), (''plan'', plan_to_dict p),
     (''results'', JList (map step_to_dict rs)), (''receipt'', JObj ?r)]"
  have e: "execute ?s (e_host env) (e_stamps env) p False w = (Inr ?result, w')"
    using assms(3-5) by (simp add: execute_def Let_def)
  have "settle m ?result st = (let st1 = put_receipt (receipt_file (e_stamps env)) (Some (JObj ?r))
      (ensure_dirs st) in write_current_version (m_version m) st1)"
    by (subst settle_eq) (auto simp: Let_def)
  with assms e show ?thesis
    by (simp add: poll_once_def plan_allowed_def Let_def write_current_version_def
        read_current_version_def strip_trimmed)
qed

lemma poll_deploys:
  assumes "deployable cfg env m" and "m_version m = JStr v" and "trimmed v" and "v \<noteq> ''''"
    and "obliging (e_host env)"
  shows "\<exists>st' w'. poll_once cfg env st w = ((st', w'), Inr ()) \<and> read_current_version st' = Some v"
proof (cases "read_current_version st = Some v")
  case True
  then have "plan (e_minisign env) (syncer_for cfg (read_current_version st)) m
      (load_attestation cfg (e_files env) m) = Inr (noop_plan (syncer_for cfg (Some v)) m)"
    using assms by (simp add: plan_def deployable_def syncer_for_def at_current_def)
  then show ?thesis using True assms(1) by (simp add: poll_once_def deployable_def)
next
  case False
  from deployable_plan [OF assms(1,2) this] obtain p where
    p: "plan (e_minisign env) (syncer_for cfg (read_current_version st)) m
      (load_attestation cfg (e_files env) m) = Inr p" "plan_allowed p" .
  from run_steps_obliging [OF assms(5), of "p_steps p" w] obtain rs w' where
    rs: "run_steps (e_host env) False False (p_steps p) w = (Inr rs, w')"
      "list_all (\<lambda>r. step_status r = ''ok'') rs" by blast
  then have "outcome_of False rs = ''applied''" by (simp add: outcome_applied_iff list_all_iff)
  from poll_applied [OF _ p rs(1) this assms(2-4)] assms(1) show ?thesis
    by (auto simp: deployable_def)
qed

lemma poll_stable:
  assumes "deployable cfg env m" and "m_version m = JStr v" and "v \<noteq> ''''"
    and "read_current_version st = Some v"
  shows "poll_once cfg env st w = ((st, w), Inr ())"
proof -
  have "plan (e_minisign env) (syncer_for cfg (read_current_version st)) m
      (load_attestation cfg (e_files env) m) = Inr (noop_plan (syncer_for cfg (Some v)) m)"
    using assms by (simp add: plan_def deployable_def syncer_for_def at_current_def)
  then show ?thesis using assms by (simp add: poll_once_def deployable_def)
qed

section \<open>Polls that do not deploy\<close>

lemma poll_refused:
  assumes "get_latest_version (c_client cfg) (e_fetch env) (c_content_view cfg) (c_lifecycle_env cfg) = Inr m"
    and "plan (e_minisign env) (syncer_for cfg (read_current_version st)) m
         (load_attestation cfg (e_files env) m) = Inr p"
    and "p_policy_gate p \<noteq> ''no-op''" and "\<not> plan_allowed p"
  shows "poll_once cfg env st w = ((put_receipt (receipt_file (e_stamps env))
      (Some (JObj (build_receipt (syncer_for cfg (read_current_version st)) (e_stamps env) p
         (refused_outcome p) [] 0))) (ensure_dirs st), w), Inr ())"
proof -
  let ?s = "syncer_for cfg (read_current_version st)"
  let ?result = "[(''status'', JStr (refused_outcome p)), (''reason'', JStr (p_policy_reason p)),
     (''policy_gate'', JStr (p_policy_gate p)),
     (''receipt'', JObj (build_receipt ?s (e_stamps env) p (refused_outcome p) [] 0))]"
  have e: "execute ?s (e_host env) (e_stamps env) p False w = (Inr ?result, w)"
    using assms(4) by (simp add: execute_def Let_def)
  have "refused_outcome p \<noteq> ''applied''" and "refused_outcome p \<noteq> ''failed''"
    by (simp_all add: refused_outcome_def)
  then have "settle m ?result st = (put_receipt (receipt_file (e_stamps env))
      (Some (JObj (build_receipt ?s (e_stamps env) p (refused_outcome p) [] 0))) (ensure_dirs st), Inr ())"
    by (subst settle_eq) (auto simp: Let_def)
  with assms e show ?thesis by (simp add: poll_once_def)
qed

lemma run_steps_toolless:
  assumes "\<forall>c w. c \<in> {''nix'', ''nixos-rebuild''} \<longrightarrow> \<not> which h c w"
    and "\<forall>c \<in> set ss. starts_with ''nix '' c \<or> starts_with ''nixos-rebuild '' c"
  shows "\<exists>rs. run_steps h False False ss w = (Inr rs, w) \<and> list_all (\<lambda>r. step_status r = ''skipped'') rs"
  using assms(2)
proof (induction ss)
  case (Cons s ss)
  then obtain rs where "run_steps h False False ss w = (Inr rs, w)"
    "list_all (\<lambda>r. step_status r = ''skipped'') rs" by auto
  moreover have "skips h s w" using Cons.prems assms(1) by (auto simp: skips_def)
  ultimately show ?case using run_steps_skip [of h s w ss] by (auto simp: record_result_def)
qed simp

lemma tool_steps:
  "verify_steps s m = [] \<Longrightarrow>
     \<forall>c \<in> set (sync_steps s m). starts_with ''nix '' c \<or> starts_with ''nixos-rebuild '' c"
  by (simp add: sync_steps_def nix_copy_def switch_step_def starts_with_def)

section \<open>The loop's invariant\<close>

definition daemon_inv :: "'w daemon \<Rightarrow> bool" where
  "daemon_inv d \<longleftrightarrow> backoff_ok (d_backoff_s d) \<and> honest_store (d_store d)"

lemma poll_iteration_backoff:
  "d_backoff_s (poll_iteration cfg env d) =
     (case snd (poll_once cfg env (d_store d) (d_world d)) of
        Inr _ \<Rightarrow> 0 | Inl _ \<Rightarrow> next_backoff (d_backoff_s d))"
  by (simp add: poll_iteration_def split: prod.splits sum.splits unit.splits)

lemma poll_iteration_store:
  "d_store (poll_iteration cfg env d) = fst (fst (poll_once cfg env (d_store d) (d_world d)))"
  by (simp add: poll_iteration_def split: prod.splits sum.splits unit.splits)

lemma poll_iteration_running [simp]: "d_running (poll_iteration cfg env d) = d_running d"
  by (simp add: poll_iteration_def split: prod.splits sum.splits unit.splits)

lemma poll_iteration_inv:
  assumes "c_require_attestation cfg" and "daemon_inv d"
  shows "daemon_inv (poll_iteration cfg env d)"
proof -
  obtain st w r where p: "poll_once cfg env (d_store d) (d_world d) = ((st, w), r)"
    by (metis prod.collapse)
  have "honest_store st" using poll_keeps_honest [OF p] assms by (simp add: daemon_inv_def)
  moreover have "backoff_ok (d_backoff_s (poll_iteration cfg env d))"
    using backoff_ok_next assms(2)
    by (auto simp: poll_iteration_backoff daemon_inv_def backoff_ok_def split: sum.splits)
  ultimately show ?thesis by (simp add: daemon_inv_def poll_iteration_store p)
qed

text \<open>What a daemon that insists on attestations does in one step.\<close>

definition gated_step :: "daemon_config \<Rightarrow> 'w daemon \<Rightarrow> 'w daemon \<Rightarrow> bool" where
  "gated_step cfg d d' \<longleftrightarrow> c_require_attestation cfg \<and> daemon_step cfg d d'"

interpretation sync_loop: invariant_machine "gated_step cfg" daemon_inv for cfg
proof
  fix d d' :: "'w daemon"
  assume "gated_step cfg d d'" and inv: "daemon_inv d"
  then have "daemon_step cfg d d'" and att: "c_require_attestation cfg"
    by (simp_all add: gated_step_def)
  then show "daemon_inv d'"
    by (cases rule: daemon_step.cases)
      (use inv poll_iteration_inv in \<open>auto simp: handle_signal_def daemon_inv_def\<close>)
qed

lemma gated_reachable:
  "c_require_attestation cfg \<Longrightarrow> (daemon_step cfg)\<^sup>*\<^sup>* d d' \<Longrightarrow> (gated_step cfg)\<^sup>*\<^sup>* d d'"
  by (metis (full_types) gated_step_def mono_rtranclp)

lemma daemon_inv_start: "honest_store st \<Longrightarrow> daemon_inv (start_daemon st w)"
  by (simp add: daemon_inv_def start_daemon_def backoff_ok_def honest_store_def)

lemma empty_store_honest: "honest_store empty_store"
  by (simp add: honest_store_def get_receipt_def empty_store_def)

lemma stopped_stays: "(daemon_step cfg)\<^sup>*\<^sup>* d d' \<Longrightarrow> \<not> d_running d \<Longrightarrow> d' = d"
proof (induction rule: rtranclp_induct)
  case (step d1 d2)
  then have "daemon_step cfg d d2" and "\<not> d_running d" by auto
  then show ?case by (auto simp: handle_signal_def elim!: daemon_stepE)
qed simp

text \<open>Polls in a row that all raise.\<close>

fun all_fail :: "daemon_config \<Rightarrow> 'w poll_env list \<Rightarrow> 'w daemon \<Rightarrow> bool" where
  "all_fail cfg [] d = True"
| "all_fail cfg (env # envs) d =
     ((\<exists>e. snd (poll_once cfg env (d_store d) (d_world d)) = Inl e)
      \<and> all_fail cfg envs (poll_iteration cfg env d))"

lemma iterate_polls_backoff:
  "d_running d \<Longrightarrow> all_fail cfg envs d \<Longrightarrow>
     d_backoff_s (iterate_polls cfg envs d) = (next_backoff ^^ length envs) (d_backoff_s d)"
proof (induction envs arbitrary: d)
  case (Cons env envs)
  then have "d_backoff_s (poll_iteration cfg env d) = next_backoff (d_backoff_s d)"
    by (auto simp: poll_iteration_backoff)
  with Cons show ?case by (simp add: funpow_swap1)
qed simp

section \<open>A daemon without attestations\<close>

definition inert :: "daemon_config \<Rightarrow> bool" where
  "inert cfg \<longleftrightarrow> c_require_attestation cfg \<and> c_attestation_dir cfg = None"

lemma inert_poll:
  assumes "inert cfg" and "poll_once cfg env st w = ((st', w'), r)"
  shows "rs_version_file st' = rs_version_file st \<and> w' = w"
proof -
  have na: "\<not> authorised (e_minisign env) (syncer_for cfg c) m (load_attestation cfg (e_files env) m)"
    for c m
    using assms(1) by (simp add: authorised_def attestation_valid_def load_attestation_def inert_def)
  have no: "\<not> plan_allowed p"
    if "plan (e_minisign env) (syncer_for cfg c) m (load_attestation cfg (e_files env) m) = Inr p"
    for c m p
    using plan_allowed_iff [of "e_minisign env" "syncer_for cfg c" m "load_attestation cfg (e_files env) m"]
      that na assms(1) by (auto simp: syncer_for_def inert_def)
  have "rs_version_file st' = rs_version_file st"
    using version_change [OF assms(2)] no by blast
  moreover have "w' = w"
    using assms(2) no
    by (auto simp: poll_once_def Let_def execute_def split: sum.splits if_splits prod.splits)
  ultimately show ?thesis by simp
qed

interpretation inert_loop: invariant_machine "\<lambda>d d'. inert cfg \<and> daemon_step cfg d d'"
  "\<lambda>d. rs_version_file (d_store d) = v \<and> d_world d = w" for cfg v w
proof
  fix d d' assume st: "inert cfg \<and> daemon_step cfg d d'"
    and inv: "rs_version_file (d_store d) = v \<and> d_world d = w"
  from st have "daemon_step cfg d d'" by simp
  then show "rs_version_file (d_store d') = v \<and> d_world d' = w"
  proof (cases rule: daemon_step.cases)
    case (poll env)
    obtain s1 w1 r where p: "poll_once cfg env (d_store d) (d_world d) = ((s1, w1), r)"
      by (metis prod.collapse)
    from inert_poll [OF _ p] st inv poll(1) p show ?thesis
      by (auto simp: poll_iteration_def split: sum.splits)
  qed (use inv in \<open>simp add: handle_signal_def\<close>)
qed

lemma from_env_inert: "daemon_from_env environ read_file = Inr cfg \<Longrightarrow> inert cfg"
  by (auto simp: daemon_from_env_def inert_def res_simps)

section \<open>Repeated polls\<close>

lemma iterate_stable:
  assumes "\<forall>env \<in> set envs. deployable cfg env m" and "m_version m = JStr v" and "v \<noteq> ''''"
    and "read_current_version (d_store d) = Some v" and "d_running d" and "d_backoff_s d = 0"
  shows "iterate_polls cfg envs d = d"
  using assms
proof (induction envs)
  case (Cons env envs)
  then have "poll_once cfg env (d_store d) (d_world d) = ((d_store d, d_world d), Inr ())"
    by (intro poll_stable) auto
  then have "poll_iteration cfg env d = d"
    using Cons.prems by (simp add: poll_iteration_def)
  with Cons show ?case by simp
qed simp

lemma denied_poll:
  assumes "c_locus cfg \<notin> set ALLOWED_LOCI"
    and "get_latest_version (c_client cfg) (e_fetch env) (c_content_view cfg) (c_lifecycle_env cfg) = Inr m"
  shows "\<exists>st' j. poll_once cfg env st w = ((st', w), Inr ())
    \<and> st' = put_receipt (receipt_file (e_stamps env)) j (ensure_dirs st)"
  using poll_refused [OF assms(2), of st _ w]  assms(1)
  by (fastforce simp: plan_def syncer_for_def)

section \<open>A daemon for the examples\<close>

definition ex_fetch :: "string \<Rightarrow> fetched" where
  "ex_fetch url = Body (JObj [(''results'', JList [
     if contains ''/content_view_versions'' url then JObj [(''version'', JStr ''2.0'')]
     else JObj [(''id'', JInt 1)]])])"

definition ex_config :: daemon_config where
  "ex_config = \<lparr>c_client = new_client ''https://k'' ''Org'', c_content_view = ''cv'',
     c_lifecycle_env = ''stable'', c_locus = ''local'', c_flake_ref = ''flake'',
     c_signing_public_key = None, c_agentplane_run_ref = None, c_require_attestation = True,
     c_attestation_public_key = Some ''RWSkey'', c_attestation_dir = Some ''/att'',
     c_attestation_verifier = None, c_poll_interval_s = 300, c_user = ''admin'', c_password = ''pw'',
     c_verify_ssl = True, c_store_root = ''/var/lib/sourceos-syncd''\<rparr>"

definition ex_env :: "unit poll_env" where
  "ex_env = \<lparr>e_fetch = ex_fetch,
     e_files = (\<lambda>path. if path = ''/att/cv-2.0.json'' then Some (JObj ex_attestation) else None),
     e_minisign = ex_minisign, e_host = ex_host, e_stamps = ex_stamps\<rparr>"

definition ex_offline :: "unit poll_env" where
  "ex_offline = ex_env\<lparr>e_fetch := (\<lambda>url. UrlError ''offline'')\<rparr>"

definition ex_toolless :: "unit poll_env" where
  "ex_toolless = ex_env\<lparr>e_host := \<lparr>which = (\<lambda>_ _. False), shell = (\<lambda>_ _. (Timed_Out, ()))\<rparr>\<rparr>"

definition ex_latest :: content_view_manifest where
  "ex_latest = (case get_latest_version (c_client ex_config) ex_fetch ''cv'' ''stable'' of
     Inr m \<Rightarrow> m | Inl _ \<Rightarrow> ex_manifest)"

lemma ex_latest: "get_latest_version (c_client ex_config) ex_fetch ''cv'' ''stable'' = Inr ex_latest"
  "m_version ex_latest = JStr ''2.0''"
  by code_simp+

lemma ex_deployable: "deployable ex_config ex_env ex_latest" "deployable ex_config ex_toolless ex_latest"
  by code_simp+

lemma ex_obliging: "obliging (e_host ex_env)"
  by (simp add: obliging_def ex_env_def ex_host_def)

lemma ex_poll: "\<exists>st'. poll_once ex_config ex_env empty_store () = ((st', ()), Inr ())
    \<and> rs_version_file st' = Some (''2.0'' @ [newline])"
proof -
  have "rs_version_file (fst (fst (poll_once ex_config ex_env empty_store ()))) = Some (''2.0'' @ [newline])"
    and "snd (poll_once ex_config ex_env empty_store ()) = Inr ()"
    by code_simp+
  then show ?thesis by (cases "poll_once ex_config ex_env empty_store ()") auto
qed

section \<open>Properties\<close>

text \<open>
  C3: a poll of a daemon that requires attestations changes the recorded version only to the version
  Katello reports, and only if the attestation file of that version holds an object bound to it that
  the verifier accepts.
\<close>

theorem version_moves_only_when_attested:
  assumes "poll_once cfg env st w = ((st', w'), r)" and "c_require_attestation cfg"
    and "rs_version_file st' \<noteq> rs_version_file st"
  shows "\<exists>m v att. get_latest_version (c_client cfg) (e_fetch env) (c_content_view cfg)
        (c_lifecycle_env cfg) = Inr m
      \<and> m_version m = JStr v \<and> rs_version_file st' = Some (v @ [newline]) \<and> r = Inr ()
      \<and> load_attestation cfg (e_files env) m = JObj att
      \<and> dget0 att ''artifactId'' = JStr (expected_artifact_id (m_org m) (m_content_view m) v)
      \<and> chosen_verifier (e_minisign env) (c_attestation_verifier cfg) att (c_attestation_public_key cfg)"
proof -
  from version_change [OF assms(1,3)] obtain m p v where *:
    "get_latest_version (c_client cfg) (e_fetch env) (c_content_view cfg) (c_lifecycle_env cfg) = Inr m"
    "plan (e_minisign env) (syncer_for cfg (read_current_version st)) m
         (load_attestation cfg (e_files env) m) = Inr p" "plan_allowed p"
    "m_version m = JStr v" "rs_version_file st' = Some (v @ [newline])" "r = Inr ()" by blast
  then have "authorised (e_minisign env) (syncer_for cfg (read_current_version st)) m
      (load_attestation cfg (e_files env) m)"
    using plan_allowed_iff [of "e_minisign env" "syncer_for cfg (read_current_version st)" m
        "load_attestation cfg (e_files env) m"] assms(2) by (simp add: syncer_for_def)
  with * show ?thesis
    by (auto simp: authorised_def syncer_for_def elim!: attestation_validE)
qed

theorem version_moves_only_when_attested_witness:
  "load_attestation ex_config (e_files ex_env) ex_latest = JObj ex_attestation
    \<and> (\<exists>m att. load_attestation ex_config (e_files ex_env) m = JObj att \<and> m_version m = JStr ''2.0'')"
proof -
  from ex_poll obtain st' where p: "poll_once ex_config ex_env empty_store () = ((st', ()), Inr ())"
    and v: "rs_version_file st' = Some (''2.0'' @ [newline])" by blast
  have "c_require_attestation ex_config" and "rs_version_file st' \<noteq> rs_version_file empty_store"
    using v by (simp_all add: ex_config_def empty_store_def)
  from version_moves_only_when_attested [OF p this] v
  have "\<exists>m att. load_attestation ex_config (e_files ex_env) m = JObj att \<and> m_version m = JStr ''2.0''"
    by auto
  moreover have "load_attestation ex_config (e_files ex_env) ex_latest = JObj ex_attestation"
    by code_simp
  ultimately show ?thesis by blast
qed

text \<open>
  C6: in every state a daemon that requires attestations can reach from an empty store, by polls and
  signals in any order and whatever the network and the host do, the backoff is 0 or between 30 and
  1800 seconds, and every stored receipt of an applied or failed sync is Proved.
\<close>

theorem daemon_reachable:
  assumes "(daemon_step cfg)\<^sup>*\<^sup>* (start_daemon empty_store w) d" and "c_require_attestation cfg"
  shows "(d_backoff_s d = 0 \<or> 30 \<le> d_backoff_s d \<and> d_backoff_s d \<le> 1800)
    \<and> (\<forall>f r. get_receipt (d_store d) f = Some (Some (JObj r))
          \<and> dget0 r ''outcome'' \<in> {JStr ''applied'', JStr ''failed''}
        \<longrightarrow> dget0 r ''epistemicLevel'' = JStr ''Proved'')"
proof -
  have "daemon_inv d"
    using sync_loop.inv_reachable [OF gated_reachable [OF assms(2,1)]]
      daemon_inv_start [OF empty_store_honest] .
  then show ?thesis
    unfolding daemon_inv_def backoff_ok_def MIN_BACKOFF_S_def MAX_BACKOFF_S_def honest_store_def honest_def
    by blast
qed

theorem daemon_reachable_witness:
  "\<exists>r. get_receipt (d_store (poll_iteration ex_config ex_env (start_daemon empty_store ())))
       ''2026-01-01_00-00-00Z-0123456789abcdef.json'' = Some (Some (JObj r))
     \<and> dget0 r ''outcome'' = JStr ''applied'' \<and> dget0 r ''epistemicLevel'' = JStr ''Proved''"
proof -
  let ?d = "poll_iteration ex_config ex_env (start_daemon empty_store ())"
  have "case get_receipt (d_store ?d) ''2026-01-01_00-00-00Z-0123456789abcdef.json'' of
      Some (Some (JObj r)) \<Rightarrow> dget0 r ''outcome'' = JStr ''applied'' | _ \<Rightarrow> False"
    by code_simp
  then obtain r where r: "get_receipt (d_store ?d) ''2026-01-01_00-00-00Z-0123456789abcdef.json'' = Some (Some (JObj r))"
    "dget0 r ''outcome'' = JStr ''applied''" by (auto split: option.splits json.splits)
  have step: "(daemon_step ex_config)\<^sup>*\<^sup>* (start_daemon empty_store ()) ?d"
    by (rule r_into_rtranclp) (simp add: daemon_step.poll start_daemon_def)
  have "c_require_attestation ex_config" by (simp add: ex_config_def)
  from conjunct2 [OF daemon_reachable [OF step this]] r show ?thesis
    by (simp only: insert_iff) blast
qed

text \<open>
  C9: liveness: once a version is deployable, which means that Katello reports it on an allowed locus and its
  attestation is valid, and the commands exit with 0, the next poll records it, and later polls leave the daemon as
  it is, without backoff.
\<close>

theorem daemon_converges:
  assumes "deployable cfg env m" and "\<forall>e \<in> set envs. deployable cfg e m" and "obliging (e_host env)"
    and "m_version m = JStr v" and "trimmed v" and "v \<noteq> ''''" and "d_running d"
  shows "read_current_version (d_store (iterate_polls cfg (env # envs) d)) = Some v
    \<and> iterate_polls cfg (env # envs) d = poll_iteration cfg env d
    \<and> d_backoff_s (iterate_polls cfg (env # envs) d) = 0"
proof -
  from poll_deploys [OF assms(1,4,5,6,3)] obtain st' w' where
    p: "poll_once cfg env (d_store d) (d_world d) = ((st', w'), Inr ())" "read_current_version st' = Some v"
    by blast
  let ?d = "poll_iteration cfg env d"
  have d: "?d = d\<lparr>d_store := st', d_world := w', d_backoff_s := 0\<rparr>"
    using p(1) by (simp add: poll_iteration_def)
  have "iterate_polls cfg envs ?d = ?d"
    by (rule iterate_stable [OF assms(2,4,6)]) (use p(2) assms(7) in \<open>simp_all add: d\<close>)
  with p d assms(7) show ?thesis by simp
qed

theorem daemon_converges_witness:
  "read_current_version (d_store (iterate_polls ex_config [ex_env, ex_env, ex_env]
      (start_daemon empty_store ()))) = Some ''2.0''"
proof -
  have "trimmed ''2.0''" "d_running (start_daemon empty_store ())"
    and "\<forall>e \<in> set [ex_env, ex_env]. deployable ex_config e ex_latest"
    by (simp_all add: trimmed_def is_space_def start_daemon_def ex_deployable)
  from daemon_converges [OF ex_deployable(1) this(3) ex_obliging ex_latest(2) this(1) _ this(2)]
  show ?thesis by blast
qed

text \<open>
  After \<open>n\<close> polls in a row that raise, the daemon sleeps \<open>30 * 2 ^ (n - 1)\<close> seconds, at most
  1800.
\<close>

theorem failing_polls_back_off:
  assumes "d_running d" and "d_backoff_s d = 0" and "all_fail cfg envs d" and "envs \<noteq> []"
  shows "sleep_s cfg (iterate_polls cfg envs d) = min 1800 (30 * 2 ^ (length envs - 1))"
proof -
  obtain n where n: "length envs = Suc n" using assms(4) by (cases envs) auto
  have "d_backoff_s (iterate_polls cfg envs d) = min MAX_BACKOFF_S (MIN_BACKOFF_S * 2 ^ n)"
    using iterate_polls_backoff [OF assms(1,3)] assms(2) n next_backoff_iterate [of n] by simp
  moreover have "(0::int) < 2 ^ n" by simp
  ultimately show ?thesis
    by (simp add: sleep_s_def n MAX_BACKOFF_S_def MIN_BACKOFF_S_def min_def)
qed

theorem failing_polls_back_off_witness:
  "sleep_s ex_config (iterate_polls ex_config [ex_offline, ex_offline, ex_offline]
     (start_daemon empty_store ())) = 120"
proof -
  have fails: "\<exists>e. poll_once ex_config ex_offline st () = ((st, ()), Inl e)" for st
    by (simp add: poll_once_def get_latest_version_def get_org_id_def katello_get_def ex_offline_def
        Let_def)
  have "all_fail ex_config [ex_offline, ex_offline, ex_offline] (start_daemon empty_store ())"
    using fails by (metis all_fail.simps snd_conv unit_eq)
  from failing_polls_back_off [OF _ _ this] show ?thesis by (simp add: start_daemon_def)
qed

text \<open>
  A daemon configured from the environment has no attestation directory, so it never runs a
  command and never changes the recorded version, whatever the environment, the network and the host.
\<close>

theorem env_daemon_never_deploys:
  assumes "daemon_from_env environ read_file = Inr cfg"
    and "(daemon_step cfg)\<^sup>*\<^sup>* (start_daemon st w) d"
  shows "rs_version_file (d_store d) = rs_version_file st \<and> d_world d = w"
proof -
  have "(\<lambda>d d'. inert cfg \<and> daemon_step cfg d d')\<^sup>*\<^sup>* (start_daemon st w) d"
    using assms(2) from_env_inert [OF assms(1)] by (simp add: mono_rtranclp [rule_format])
  from inert_loop.inv_reachable [OF this, of "rs_version_file st" w] show ?thesis
    by (simp add: start_daemon_def)
qed

theorem env_daemon_never_deploys_witness:
  "\<exists>cfg. daemon_from_env (\<lambda>k. if k = ''KATELLO_PASSWORD'' then Some ''pw'' else None) (\<lambda>f. Inl ''missing'') = Inr cfg
    \<and> rs_version_file (d_store (poll_iteration cfg ex_env (start_daemon empty_store ()))) = None"
proof -
  let ?e = "\<lambda>k. if k = ''KATELLO_PASSWORD'' then Some ''pw'' else None"
  have "\<not> isl (daemon_from_env ?e (\<lambda>f. Inl ''missing''))" by code_simp
  then obtain cfg where cfg: "daemon_from_env ?e (\<lambda>f. Inl ''missing'') = Inr cfg"
    by (cases "daemon_from_env ?e (\<lambda>f. Inl ''missing'')") auto
  have "(daemon_step cfg)\<^sup>*\<^sup>* (start_daemon empty_store ())
      (poll_iteration cfg ex_env (start_daemon empty_store ()))"
    by (rule r_into_rtranclp) (simp add: daemon_step.poll start_daemon_def)
  from env_daemon_never_deploys [OF cfg this] cfg show ?thesis by (auto simp: empty_store_def)
qed

text \<open>
  On a locus that is not allowed, every poll that reaches Katello stores a receipt, so the
  receipts grow with the number of polls.
\<close>

theorem denied_polls_pile_up_receipts:
  assumes "c_locus cfg \<notin> {''local'', ''trusted_private''}" and "d_running d"
    and "\<forall>env \<in> set envs. \<exists>m. get_latest_version (c_client cfg) (e_fetch env) (c_content_view cfg)
           (c_lifecycle_env cfg) = Inr m"
  shows "dom (get_receipt (d_store (iterate_polls cfg envs d))) =
     dom (get_receipt (d_store d)) \<union> (\<lambda>env. receipt_file (e_stamps env)) ` set envs"
  using assms(2,3)
proof (induction envs arbitrary: d)
  case (Cons env envs)
  from Cons.prems obtain m where "get_latest_version (c_client cfg) (e_fetch env) (c_content_view cfg)
           (c_lifecycle_env cfg) = Inr m" by auto
  from denied_poll [OF _ this, of "d_store d" "d_world d"] assms(1) obtain j where
    "fst (fst (poll_once cfg env (d_store d) (d_world d))) =
      put_receipt (receipt_file (e_stamps env)) j (ensure_dirs (d_store d))"
    by (auto simp: ALLOWED_LOCI_def)
  then have "dom (get_receipt (d_store (poll_iteration cfg env d))) =
      insert (receipt_file (e_stamps env)) (dom (get_receipt (d_store d)))"
    by (simp add: poll_iteration_store receipts.dom_get_put)
  with Cons show ?case by simp
qed simp

theorem denied_polls_pile_up_receipts_witness:
  "dom (get_receipt (d_store (iterate_polls (ex_config\<lparr>c_locus := ''burst_cloud''\<rparr>) [ex_env]
      (start_daemon empty_store ())))) = {''2026-01-01_00-00-00Z-0123456789abcdef.json''}"
proof -
  have "receipt_file ex_stamps = ''2026-01-01_00-00-00Z-0123456789abcdef.json''" by code_simp
  moreover have "dom (get_receipt (d_store (start_daemon empty_store ()))) = {}"
    by (auto simp: get_receipt_def start_daemon_def empty_store_def)
  moreover have "\<forall>env \<in> set [ex_env]. \<exists>m. get_latest_version (c_client (ex_config\<lparr>c_locus := ''burst_cloud''\<rparr>))
      (e_fetch env) (c_content_view (ex_config\<lparr>c_locus := ''burst_cloud''\<rparr>))
      (c_lifecycle_env (ex_config\<lparr>c_locus := ''burst_cloud''\<rparr>)) = Inr m"
    using ex_latest(1) by (auto simp: ex_env_def ex_config_def)
  ultimately show ?thesis
    using denied_polls_pile_up_receipts [of "ex_config\<lparr>c_locus := ''burst_cloud''\<rparr>"
      "start_daemon empty_store ()" "[ex_env]"]
    by (simp add: ex_config_def start_daemon_def ex_env_def)
qed

text \<open>
  On a host without nix and nixos-rebuild and without a signing key, a poll of a deployable
  version runs nothing and records the version as applied.
\<close>

theorem toolless_host_counts_as_applied:
  assumes "deployable cfg env m" and "m_version m = JStr v" and "trimmed v" and "v \<noteq> ''''"
    and "c_signing_public_key cfg = None" and "read_current_version st \<noteq> Some v"
    and "\<forall>c w. c \<in> {''nix'', ''nixos-rebuild''} \<longrightarrow> \<not> which (e_host env) c w"
  shows "\<exists>st'. poll_once cfg env st w = ((st', w), Inr ()) \<and> read_current_version st' = Some v"
proof -
  let ?s = "syncer_for cfg (read_current_version st)"
  from deployable_plan [OF assms(1,2,6)] obtain p where
    p: "plan (e_minisign env) ?s m (load_attestation cfg (e_files env) m) = Inr p" "plan_allowed p" .
  have "verify_steps ?s m = []" using assms(5) by (simp add: verify_steps_def syncer_for_def)
  then have "\<forall>c \<in> set (p_steps p). starts_with ''nix '' c \<or> starts_with ''nixos-rebuild '' c"
    using plan_steps [OF p(1)] p(2) tool_steps by auto
  from run_steps_toolless [OF assms(7) this] obtain rs where
    rs: "run_steps (e_host env) False False (p_steps p) w = (Inr rs, w)"
      "list_all (\<lambda>r. step_status r = ''skipped'') rs" by blast
  then have "outcome_of False rs = ''applied''"
    by (auto simp: outcome_applied_iff list_all_iff)
  from poll_applied [OF _ p rs(1) this assms(2-4)] assms(1) show ?thesis
    by (auto simp: deployable_def)
qed

theorem toolless_host_counts_as_applied_witness:
  "\<exists>st'. poll_once ex_config ex_toolless empty_store () = ((st', ()), Inr ())
     \<and> read_current_version st' = Some ''2.0''"
proof (rule toolless_host_counts_as_applied [OF ex_deployable(2) ex_latest(2)])
  show "trimmed ''2.0''" by (simp add: trimmed_def is_space_def)
qed (simp_all add: ex_config_def ex_toolless_def ex_env_def read_current_version_def empty_store_def)

end
