(* ===== verification/Contracts.thy ===== *)
theory Contracts
  imports Py_Value
begin

text \<open>
  \<open>contracts.py\<close>: the twelve State Integrity contracts, their validation and their conversion to and
  from dictionaries.  A contract class is a record of its class variables and dataclass fields; the
  class variables that are sets are listed in source order.  Python iterates over a set in an order
  that depends on the process, which can only change which of several missing lists or objects the
  message of the error names first.
\<close>

section \<open>Field checks\<close>

definition require_fields :: "jdict \<Rightarrow> string list \<Rightarrow> string \<Rightarrow> unit res" where
  "require_fields r required contract_name =
     (let missing = missing_keys required r in
      eguard (missing = [])
        (ContractError (contract_name @ '' missing required fields: '' @ join '', '' missing)))"

definition require_allowed :: "string \<Rightarrow> string list \<Rightarrow> string \<Rightarrow> string \<Rightarrow> unit res" where
  "require_allowed v allowed field_name contract_name =
     eguard (v \<in> set allowed)
       (ContractError (contract_name @ ''.'' @ field_name @ '' must be one of ''
          @ py_repr (strs (sort allowed)) @ '', got '' @ repr_str v))"

definition require_list :: "jdict \<Rightarrow> string \<Rightarrow> string \<Rightarrow> unit res" where
  "require_list r field_name contract_name =
     eguard (is_list (dget0 r field_name))
       (ContractError (contract_name @ ''.'' @ field_name @ '' must be a list''))"

definition require_mapping :: "jdict \<Rightarrow> string \<Rightarrow> string \<Rightarrow> unit res" where
  "require_mapping r field_name contract_name =
     eguard (is_dict (dget0 r field_name))
       (ContractError (contract_name @ ''.'' @ field_name @ '' must be an object''))"

section \<open>Controlled vocabularies\<close>

definition ACTOR_TYPES :: "string list" where
  "ACTOR_TYPES =
     [''human'', ''app'', ''agent'', ''device'', ''service'', ''import_bridge'',
      ''export_bridge'', ''model_runtime'', ''remote_relay'']"

definition ACTOR_CAPABILITIES :: "string list" where
  "ACTOR_CAPABILITIES =
     [''read'', ''write'', ''delete'', ''merge'', ''repair'', ''migrate_schema'', ''export'',
      ''replicate'']"

definition TRUST_LEVELS :: "string list" where
  "TRUST_LEVELS =
     [''local'', ''user'', ''workspace'', ''org'', ''external'', ''quarantined'']"

definition PRIVACY_CLASSES :: "string list" where
  "PRIVACY_CLASSES =
     [''public'', ''personal'', ''work'', ''confidential'', ''regulated'', ''secret'']"

definition SYNC_VISIBILITIES :: "string list" where
  "SYNC_VISIBILITIES =
     [''local_only'', ''profile'', ''workspace'', ''org'', ''public'']"

definition RETENTION_CLASSES :: "string list" where
  "RETENTION_CLASSES =
     [''ephemeral'', ''normal'', ''retained'', ''legal_hold'']"

definition OBJECT_STATES :: "string list" where
  "OBJECT_STATES =
     [''active'', ''deleted'', ''tombstoned'', ''quarantined'', ''conflicted'']"

definition SYNC_OPERATION_CLASSES :: "string list" where
  "SYNC_OPERATION_CLASSES =
     [''replicate'', ''import'', ''export'', ''repair'', ''migrate'', ''delete'', ''restore'']"

definition SYNC_PLAN_STATUSES :: "string list" where
  "SYNC_PLAN_STATUSES =
     [''planned'', ''blocked'', ''running'', ''failed'', ''completed'', ''cancelled'']"

definition CONFLICT_SEVERITIES :: "string list" where
  "CONFLICT_SEVERITIES =
     [''info'', ''warning'', ''review_required'', ''blocking'']"

definition DECISION_CARD_OPTIONS :: "string list" where
  "DECISION_CARD_OPTIONS =
     [''merge'', ''fork'', ''skip'']"

definition POLICY_EFFECTS :: "string list" where
  "POLICY_EFFECTS =
     [''allow'', ''deny'', ''review_required'']"

definition TRANSACTION_OPERATIONS :: "string list" where
  "TRANSACTION_OPERATIONS =
     [''create'', ''update'', ''delete'', ''merge'', ''repair'', ''migrate'']"

definition TRANSACTION_STATUSES :: "string list" where
  "TRANSACTION_STATUSES =
     [''draft'', ''proposed'', ''approved'', ''applied'', ''rejected'', ''reverted'']"

definition DEVICE_STATES :: "string list" where
  "DEVICE_STATES =
     [''trusted'', ''untrusted'', ''revoked'', ''quarantined'']"

definition PROFILE_CLASSES :: "string list" where
  "PROFILE_CLASSES =
     [''personal'', ''work'', ''client'', ''air_gapped'', ''lab'', ''public_open_source'']"

definition WORKSPACE_OPERATION_TYPES :: "string list" where
  "WORKSPACE_OPERATION_TYPES =
     [''sync.operation.enqueue'', ''sync.operation.replay'', ''sync.operation.reconcile'',
      ''sync.conflict.detect'', ''sync.conflict.resolve'', ''sync.repair.apply'',
      ''sync.tombstone.apply'', ''sync.checkpoint.write'']"

definition WORKSPACE_OPERATION_STATUSES :: "string list" where
  "WORKSPACE_OPERATION_STATUSES =
     [''queued'', ''running'', ''replayed'', ''reconciled'', ''blocked'', ''completed'',
      ''failed'', ''cancelled'']"

definition OPERATION_TASK_STATUSES :: "string list" where
  "OPERATION_TASK_STATUSES =
     [''pending'', ''running'', ''succeeded'', ''failed'', ''cancelled'']"

section \<open>The contract classes\<close>

text \<open>A dataclass field is its name and its default, \<open>None\<close> for a field without one.\<close>

record contract_class =
  k_name :: string
  k_schema :: string
  k_required :: "string list"
  k_controlled :: "(string \<times> string list) list"
  k_lists :: "string list"
  k_mappings :: "string list"
  k_fields :: "(string \<times> json option) list"

definition ProfileRecord_class :: contract_class where
  "ProfileRecord_class =
     \<lparr>k_name = ''ProfileRecord'',
      k_schema = ''sourceos.profile-record/v1alpha1'',
      k_required =
        [''profile_id'', ''display_name'', ''profile_class'', ''created_at'', ''policy_tags''],
      k_controlled = [(''profile_class'', PROFILE_CLASSES)],
      k_lists =
        [''policy_tags''],
      k_mappings =
        [],
      k_fields =
        [(''profile_id'', None), (''display_name'', None), (''profile_class'', None),
         (''created_at'', None), (''policy_tags'', Some (JList []))]\<rparr>"

definition DeviceTrustRecord_class :: contract_class where
  "DeviceTrustRecord_class =
     \<lparr>k_name = ''DeviceTrustRecord'',
      k_schema = ''sourceos.device-record/v1alpha1'',
      k_required =
        [''device_id'', ''display_name'', ''trust_level'', ''device_state'', ''created_at''],
      k_controlled = [(''trust_level'', TRUST_LEVELS),
        (''device_state'', DEVICE_STATES)],
      k_lists =
        [],
      k_mappings =
        [],
      k_fields =
        [(''device_id'', None), (''display_name'', None), (''trust_level'', None),
         (''device_state'', None), (''created_at'', None), (''revoked_at'', Some JNull)]\<rparr>"

definition ActorRecord_class :: contract_class where
  "ActorRecord_class =
     \<lparr>k_name = ''ActorRecord'',
      k_schema = ''sourceos.actor-record/v1alpha1'',
      k_required =
        [''actor_id'', ''actor_type'', ''display_name'', ''identity_id'', ''workspace_scope'',
         ''profile_scope'', ''capabilities'', ''trust_level'', ''policy_subject'',
         ''signing_key_ref'', ''created_at''],
      k_controlled = [(''actor_type'', ACTOR_TYPES),
        (''trust_level'', TRUST_LEVELS)],
      k_lists =
        [''workspace_scope'', ''profile_scope'', ''capabilities''],
      k_mappings =
        [],
      k_fields =
        [(''actor_id'', None), (''actor_type'', None), (''display_name'', None),
         (''identity_id'', None), (''workspace_scope'', None), (''profile_scope'', None),
         (''capabilities'', None), (''trust_level'', None), (''policy_subject'', None),
         (''signing_key_ref'', None), (''created_at'', None), (''revoked_at'', Some JNull)]\<rparr>"

definition SchemaContractRecord_class :: contract_class where
  "SchemaContractRecord_class =
     \<lparr>k_name = ''SchemaContractRecord'',
      k_schema = ''sourceos.schema-record/v1alpha1'',
      k_required =
        [''schema_id'', ''object_type'', ''schema_version'', ''required_fields'',
         ''field_owners'', ''migration_policy'', ''conflict_policy'', ''tombstone_policy'',
         ''sync_visibility'', ''retention_class''],
      k_controlled = [(''sync_visibility'', SYNC_VISIBILITIES),
        (''retention_class'', RETENTION_CLASSES)],
      k_lists =
        [''required_fields''],
      k_mappings =
        [''field_owners''],
      k_fields =
        [(''schema_id'', None), (''object_type'', None), (''schema_version'', None),
         (''required_field_names'', None), (''field_owners'', None),
         (''migration_policy'', None), (''conflict_policy'', None),
         (''tombstone_policy'', None), (''sync_visibility'', None), (''retention_class'', None)]\<rparr>"

definition SourceObjectRecord_class :: contract_class where
  "SourceObjectRecord_class =
     \<lparr>k_name = ''SourceObjectRecord'',
      k_schema = ''sourceos.object-record/v1alpha1'',
      k_required =
        [''object_id'', ''object_type'', ''schema_id'', ''schema_version'', ''workspace_id'',
         ''profile_id'', ''owner_identity'', ''created_by_actor'', ''last_modified_by_actor'',
         ''created_at'', ''updated_at'', ''privacy_class'', ''sync_visibility'',
         ''retention_class'', ''policy_tags'', ''provenance'', ''state''],
      k_controlled = [(''privacy_class'', PRIVACY_CLASSES),
        (''sync_visibility'', SYNC_VISIBILITIES),
        (''retention_class'', RETENTION_CLASSES),
        (''state'', OBJECT_STATES)],
      k_lists =
        [''policy_tags'', ''provenance''],
      k_mappings =
        [],
      k_fields =
        [(''object_id'', None), (''object_type'', None), (''schema_id'', None),
         (''schema_version'', None), (''workspace_id'', None), (''profile_id'', None),
         (''owner_identity'', None), (''created_by_actor'', None),
         (''last_modified_by_actor'', None), (''created_at'', None), (''updated_at'', None),
         (''privacy_class'', None), (''sync_visibility'', None), (''retention_class'', None),
         (''policy_tags'', None), (''provenance'', None), (''state'', None),
         (''content_hash'', Some JNull)]\<rparr>"

definition SyncPlanRecord_class :: contract_class where
  "SyncPlanRecord_class =
     \<lparr>k_name = ''SyncPlanRecord'',
      k_schema = ''sourceos.sync-plan/v1alpha1'',
      k_required =
        [''plan_id'', ''source_actor'', ''target_actor'', ''profile_id'', ''workspace_id'',
         ''object_ids'', ''operation_class'', ''dependencies'', ''policy_decision_ref'',
         ''retry_policy'', ''conflict_policy'', ''status'', ''user_explanation'',
         ''created_at'', ''updated_at''],
      k_controlled = [(''operation_class'', SYNC_OPERATION_CLASSES),
        (''status'', SYNC_PLAN_STATUSES)],
      k_lists =
        [''object_ids'', ''dependencies''],
      k_mappings =
        [],
      k_fields =
        [(''plan_id'', None), (''source_actor'', None), (''target_actor'', None),
         (''profile_id'', None), (''workspace_id'', None), (''object_ids'', None),
         (''operation_class'', None), (''dependencies'', None), (''policy_decision_ref'', None),
         (''retry_policy'', None), (''conflict_policy'', None), (''status'', None),
         (''user_explanation'', None), (''created_at'', None), (''updated_at'', None),
         (''last_error'', Some JNull)]\<rparr>"

definition ConflictRecord_class :: contract_class where
  "ConflictRecord_class =
     \<lparr>k_name = ''ConflictRecord'',
      k_schema = ''sourceos.conflict-record/v1alpha1'',
      k_required =
        [''conflict_id'', ''object_id'', ''object_type'', ''workspace_id'', ''profile_id'',
         ''actors'', ''devices'', ''schema_version'', ''severity'', ''merge_policy'',
         ''decision_card'', ''user_explanation'', ''created_at''],
      k_controlled = [(''severity'', CONFLICT_SEVERITIES)],
      k_lists =
        [''actors'', ''devices''],
      k_mappings =
        [''decision_card''],
      k_fields =
        [(''conflict_id'', None), (''object_id'', None), (''object_type'', None),
         (''workspace_id'', None), (''profile_id'', None), (''actors'', None),
         (''devices'', None), (''schema_version'', None), (''severity'', None),
         (''merge_policy'', None), (''decision_card'', None), (''user_explanation'', None),
         (''created_at'', None)]\<rparr>"

definition PolicyDecisionRecord_class :: contract_class where
  "PolicyDecisionRecord_class =
     \<lparr>k_name = ''PolicyDecisionRecord'',
      k_schema = ''sourceos.policy-decision/v1alpha1'',
      k_required =
        [''decision_id'', ''effect'', ''policy_id'', ''policy_version'', ''actor_id'',
         ''profile_id'', ''workspace_id'', ''rationale'', ''decided_at''],
      k_controlled = [(''effect'', POLICY_EFFECTS)],
      k_lists =
        [],
      k_mappings =
        [],
      k_fields =
        [(''decision_id'', None), (''effect'', None), (''policy_id'', None),
         (''policy_version'', None), (''actor_id'', None), (''profile_id'', None),
         (''workspace_id'', None), (''rationale'', None), (''decided_at'', None),
         (''object_id'', Some JNull)]\<rparr>"

definition IntegrityEventRecord_class :: contract_class where
  "IntegrityEventRecord_class =
     \<lparr>k_name = ''IntegrityEventRecord'',
      k_schema = ''sourceos.integrity-event/v1alpha1'',
      k_required =
        [''event_id'', ''event_type'', ''occurred_at'', ''summary''],
      k_controlled = [],
      k_lists =
        [],
      k_mappings =
        [],
      k_fields =
        [(''event_id'', None), (''event_type'', None), (''occurred_at'', None),
         (''summary'', None), (''actor_id'', Some JNull), (''object_id'', Some JNull),
         (''device_id'', Some JNull), (''profile_id'', Some JNull),
         (''workspace_id'', Some JNull), (''schema_version'', Some JNull),
         (''policy_decision_ref'', Some JNull)]\<rparr>"

definition AgentObjectTransactionRecord_class :: contract_class where
  "AgentObjectTransactionRecord_class =
     \<lparr>k_name = ''AgentObjectTransactionRecord'',
      k_schema = ''sourceos.agent-object-transaction/v1alpha1'',
      k_required =
        [''transaction_id'', ''actor_id'', ''workspace_id'', ''profile_id'', ''object_ids'',
         ''operation'', ''status'', ''policy_decision_ref'', ''created_at'', ''updated_at''],
      k_controlled = [(''operation'', TRANSACTION_OPERATIONS),
        (''status'', TRANSACTION_STATUSES)],
      k_lists =
        [''object_ids''],
      k_mappings =
        [],
      k_fields =
        [(''transaction_id'', None), (''actor_id'', None), (''workspace_id'', None),
         (''profile_id'', None), (''object_ids'', None), (''operation'', None),
         (''status'', None), (''policy_decision_ref'', None), (''created_at'', None),
         (''updated_at'', None)]\<rparr>"

definition WorkspaceOperationRecord_class :: contract_class where
  "WorkspaceOperationRecord_class =
     \<lparr>k_name = ''WorkspaceOperationRecord'',
      k_schema = ''sourceos.workspace-operation/v1alpha1'',
      k_required =
        [''operation_id'', ''local_operation_id'', ''operation_type'', ''status'',
         ''workspace_id'', ''profile_id'', ''actor_id'', ''device_id'',
         ''encryption_profile_ref'', ''local_log_ref'', ''checkpoint_ref'',
         ''causal_parent_ids'', ''conflict_ids'', ''provisional_artifact_ids'',
         ''artifact_reconciliation'', ''policy_decision_ref'', ''artifact_admission_ref'',
         ''ledger_evidence_refs'', ''replay_safe'', ''stale_task'', ''lease_expired'',
         ''created_at'', ''updated_at''],
      k_controlled = [(''operation_type'', WORKSPACE_OPERATION_TYPES),
        (''status'', WORKSPACE_OPERATION_STATUSES)],
      k_lists =
        [''causal_parent_ids'', ''conflict_ids'', ''ledger_evidence_refs''],
      k_mappings =
        [''provisional_artifact_ids'', ''artifact_reconciliation''],
      k_fields =
        [(''operation_id'', None), (''local_operation_id'', None), (''operation_type'', None),
         (''status'', None), (''workspace_id'', None), (''profile_id'', None),
         (''actor_id'', None), (''device_id'', None), (''encryption_profile_ref'', None),
         (''local_log_ref'', None), (''checkpoint_ref'', None), (''causal_parent_ids'', None),
         (''conflict_ids'', None), (''provisional_artifact_ids'', None),
         (''artifact_reconciliation'', None), (''policy_decision_ref'', None),
         (''artifact_admission_ref'', None), (''ledger_evidence_refs'', None),
         (''replay_safe'', None), (''stale_task'', None), (''lease_expired'', None),
         (''created_at'', None), (''updated_at'', None), (''remote_operation_id'', Some JNull),
         (''replay_idempotency_key'', Some JNull)]\<rparr>"

definition OperationTaskRecord_class :: contract_class where
  "OperationTaskRecord_class =
     \<lparr>k_name = ''OperationTaskRecord'',
      k_schema = ''sourceos.operation-task/v1alpha1'',
      k_required =
        [''task_id'', ''operation_id'', ''operation_type'', ''status'', ''attempt'',
         ''idempotency_key'', ''policy_decision_ref'', ''evidence_refs'', ''created_at'',
         ''updated_at''],
      k_controlled = [(''operation_type'', WORKSPACE_OPERATION_TYPES),
        (''status'', OPERATION_TASK_STATUSES)],
      k_lists =
        [''evidence_refs''],
      k_mappings =
        [],
      k_fields =
        [(''task_id'', None), (''operation_id'', None), (''operation_type'', None),
         (''status'', None), (''attempt'', None), (''idempotency_key'', None),
         (''policy_decision_ref'', None), (''evidence_refs'', None), (''created_at'', None),
         (''updated_at'', None), (''started_at'', Some JNull), (''completed_at'', Some JNull),
         (''remote_operation_id'', Some JNull), (''conflict_id'', Some JNull),
         (''checkpoint_ref'', Some JNull), (''replay_safe'', Some (JBool True))]\<rparr>"

datatype contract_type =
    ProfileRecord
  | DeviceTrustRecord
  | ActorRecord
  | SchemaContractRecord
  | SourceObjectRecord
  | SyncPlanRecord
  | ConflictRecord
  | PolicyDecisionRecord
  | IntegrityEventRecord
  | AgentObjectTransactionRecord
  | WorkspaceOperationRecord
  | OperationTaskRecord

fun class_of :: "contract_type \<Rightarrow> contract_class" where
  "class_of ProfileRecord = ProfileRecord_class"
| "class_of DeviceTrustRecord = DeviceTrustRecord_class"
| "class_of ActorRecord = ActorRecord_class"
| "class_of SchemaContractRecord = SchemaContractRecord_class"
| "class_of SourceObjectRecord = SourceObjectRecord_class"
| "class_of SyncPlanRecord = SyncPlanRecord_class"
| "class_of ConflictRecord = ConflictRecord_class"
| "class_of PolicyDecisionRecord = PolicyDecisionRecord_class"
| "class_of IntegrityEventRecord = IntegrityEventRecord_class"
| "class_of AgentObjectTransactionRecord = AgentObjectTransactionRecord_class"
| "class_of WorkspaceOperationRecord = WorkspaceOperationRecord_class"
| "class_of OperationTaskRecord = OperationTaskRecord_class"

definition CONTRACT_TYPES :: "contract_type list" where
  "CONTRACT_TYPES = [ProfileRecord, DeviceTrustRecord, ActorRecord, SchemaContractRecord, SourceObjectRecord, SyncPlanRecord, ConflictRecord, PolicyDecisionRecord, IntegrityEventRecord, AgentObjectTransactionRecord, WorkspaceOperationRecord, OperationTaskRecord]"

section \<open>Validation\<close>

definition validate_base :: "contract_class \<Rightarrow> json \<Rightarrow> jdict res" where
  "validate_base c r =
     (case r of
        JObj d \<Rightarrow>
          ebind (require_fields d (k_required c) (k_name c)) (\<lambda>_.
          ebind (emap (\<lambda>(f, allowed). require_allowed (py_str (dget0 d f)) allowed f (k_name c))
                   (k_controlled c)) (\<lambda>_.
          ebind (emap (\<lambda>f. require_list d f (k_name c)) (k_lists c)) (\<lambda>_.
          ebind (emap (\<lambda>f. require_mapping d f (k_name c)) (k_mappings c)) (\<lambda>_.
          Inr d))))
      | _ \<Rightarrow> Inl (ContractError (k_name c @ '' must be a JSON object'')))"

definition validate_actor :: "jdict \<Rightarrow> unit res" where
  "validate_actor d =
     ebind (set_minus (dget d ''capabilities'' (JList [])) ACTOR_CAPABILITIES) (\<lambda>extra.
     ebind (sorted_values extra) (\<lambda>invalid.
     eguard (invalid = [])
       (ContractError (''ActorRecord.capabilities contains invalid values: ''
          @ py_repr (JList invalid)))))"

definition CARD_FIELDS :: "string list" where
  "CARD_FIELDS = [''card_id'', ''options'', ''recommended_option'', ''selected_option'', ''rationale'',
     ''selected_by'', ''selected_at'']"

definition validate_conflict :: "jdict \<Rightarrow> unit res" where
  "validate_conflict d =
     (case dget0 d ''decision_card'' of
        JObj entry \<Rightarrow>
          ebind (require_fields entry CARD_FIELDS ''ConflictRecord.decision_card'') (\<lambda>_.
          (case dget0 entry ''options'' of
             JList xs \<Rightarrow>
               (let options = map py_str xs;
                    invalid = sorted_set [s \<leftarrow> options. s \<notin> set DECISION_CARD_OPTIONS]
                in ebind (eguard (invalid = [])
                     (ContractError (''ConflictRecord.decision_card.options has invalid values: ''
                        @ py_repr (strs invalid)))) (\<lambda>_.
                   ebind (eguard (py_str (dget0 entry ''recommended_option'') \<in> set options)
                     (ContractError
                       ''ConflictRecord.decision_card.recommended_option must be present in options'')) (\<lambda>_.
                   eguard (py_str (dget0 entry ''selected_option'') \<in> set options)
                     (ContractError
                       ''ConflictRecord.decision_card.selected_option must be present in options''))))
           | _ \<Rightarrow> Inl (ContractError ''ConflictRecord.decision_card.options must be a list'')))
      | _ \<Rightarrow> Inl (ContractError ''ConflictRecord.decision_card must be an object''))"

definition validate_dict :: "contract_type \<Rightarrow> json \<Rightarrow> jdict res" where
  "validate_dict t r =
     ebind (validate_base (class_of t) r) (\<lambda>d.
       (case t of
          ActorRecord \<Rightarrow> ebind (validate_actor d) (\<lambda>_. Inr d)
        | ConflictRecord \<Rightarrow> ebind (validate_conflict d) (\<lambda>_. Inr d)
        | _ \<Rightarrow> Inr d))"

definition contract_type_of :: "string \<Rightarrow> contract_type option" where
  "contract_type_of s = find (\<lambda>t. k_schema (class_of t) = s) CONTRACT_TYPES"

definition validate_contract :: "json \<Rightarrow> jdict res" where
  "validate_contract r =
     ebind (jget r ''schema'' JNull) (\<lambda>v.
     case v of
       JStr s \<Rightarrow>
         (case contract_type_of s of
            None \<Rightarrow> Inl (ContractError (''unsupported contract schema: '' @ s))
          | Some t \<Rightarrow> validate_dict t r)
     | _ \<Rightarrow> Inl (ContractError ''record.schema is required''))"

section \<open>Instances\<close>

text \<open>An instance is its class and the values of its fields, in the order of the fields.\<close>

record contract =
  i_type :: contract_type
  i_values :: jdict

text \<open>\<open>cls(**values)\<close>: a field without a value takes its default, or the call raises.\<close>

fun construct :: "(string \<times> json option) list \<Rightarrow> jdict \<Rightarrow> jdict res" where
  "construct [] values = Inr []"
| "construct ((f, dflt) # fs) values =
     ebind (case map_of values f of
              Some v \<Rightarrow> Inr v
            | None \<Rightarrow> (case dflt of Some v \<Rightarrow> Inr v | None \<Rightarrow> Inl TypeError)) (\<lambda>v.
     ebind (construct fs values) (\<lambda>rest. Inr ((f, v) # rest)))"

text \<open>\<open>converted["required_field_names"] = converted.pop("required_fields")\<close> and back: the key is
  removed and the other one assigned.\<close>

definition rename_key :: "string \<Rightarrow> string \<Rightarrow> jdict \<Rightarrow> jdict" where
  "rename_key old new d =
     (case map_of d old of
        None \<Rightarrow> d
      | Some v \<Rightarrow> dset new v [(k, x) \<leftarrow> d. k \<noteq> old])"

definition from_dict :: "contract_type \<Rightarrow> json \<Rightarrow> contract res" where
  "from_dict t r =
     ebind (validate_dict t r) (\<lambda>d.
       (let converted = (if t = SchemaContractRecord
                         then rename_key ''required_fields'' ''required_field_names'' d else d);
            allowed = map fst (k_fields (class_of t))
        in ebind (construct (k_fields (class_of t)) [(k, v) \<leftarrow> converted. k \<in> set allowed])
             (\<lambda>values. Inr \<lparr>i_type = t, i_values = values\<rparr>)))"

definition to_dict :: "contract \<Rightarrow> jdict" where
  "to_dict c =
     (let data = dsetdefault ''schema'' (JStr (k_schema (class_of (i_type c)))) (i_values c)
      in if i_type c = SchemaContractRecord
         then rename_key ''required_field_names'' ''required_fields'' data else data)"

definition to_json_dict :: "contract \<Rightarrow> json" where
  "to_json_dict c = JObj (to_dict c)"

section \<open>What validation accepts\<close>

definition decision_card_ok :: "jdict \<Rightarrow> bool" where
  "decision_card_ok entry \<longleftrightarrow> (\<forall>k \<in> set CARD_FIELDS. dhas entry k)
     \<and> (case dget0 entry ''options'' of
          JList xs \<Rightarrow> py_str ` set xs \<subseteq> set DECISION_CARD_OPTIONS
            \<and> py_str (dget0 entry ''recommended_option'') \<in> py_str ` set xs
            \<and> py_str (dget0 entry ''selected_option'') \<in> py_str ` set xs
        | _ \<Rightarrow> False)"

definition capabilities_ok :: "json \<Rightarrow> bool" where
  "capabilities_ok v \<longleftrightarrow> (case v of JList xs \<Rightarrow> set xs \<subseteq> JStr ` set ACTOR_CAPABILITIES | _ \<Rightarrow> False)"

definition conforms :: "contract_type \<Rightarrow> jdict \<Rightarrow> bool" where
  "conforms t d \<longleftrightarrow>
     (\<forall>k \<in> set (k_required (class_of t)). dhas d k)
     \<and> (\<forall>(f, allowed) \<in> set (k_controlled (class_of t)). py_str (dget0 d f) \<in> set allowed)
     \<and> (\<forall>f \<in> set (k_lists (class_of t)). is_list (dget0 d f))
     \<and> (\<forall>f \<in> set (k_mappings (class_of t)). is_dict (dget0 d f))
     \<and> (t = ActorRecord \<longrightarrow> capabilities_ok (dget0 d ''capabilities''))
     \<and> (t = ConflictRecord \<longrightarrow> decision_card_ok (dict_or_empty (dget0 d ''decision_card'')))"

lemma require_simps [res_simps]:
  "require_fields d req n = Inr u \<longleftrightarrow> (\<forall>k \<in> set req. dhas d k)"
  "require_allowed v al f n = Inr u \<longleftrightarrow> v \<in> set al"
  "require_list d f n = Inr u \<longleftrightarrow> is_list (dget0 d f)"
  "require_mapping d f n = Inr u \<longleftrightarrow> is_dict (dget0 d f)"
  by (simp_all add: require_fields_def require_allowed_def require_list_def require_mapping_def Let_def
      missing_keys_empty_iff)

lemma emap_units:
  fixes f :: "'a \<Rightarrow> unit res"
  assumes "\<And>x. f x = Inr () \<longleftrightarrow> P x"
  shows "(\<exists>ys. emap f xs = Inr ys) \<longleftrightarrow> (\<forall>x \<in> set xs. P x)"
  using assms by (induction xs) (auto simp: res_simps)

lemma validate_base_iff:
  "validate_base c r = Inr d \<longleftrightarrow> r = JObj d
     \<and> (\<forall>k \<in> set (k_required c). dhas d k)
     \<and> (\<forall>(f, allowed) \<in> set (k_controlled c). py_str (dget0 d f) \<in> set allowed)
     \<and> (\<forall>f \<in> set (k_lists c). is_list (dget0 d f))
     \<and> (\<forall>f \<in> set (k_mappings c). is_dict (dget0 d f))"
proof (cases r)
  case (JObj d')
  have "(\<exists>ys. emap (\<lambda>(f, al). require_allowed (py_str (dget0 d' f)) al f (k_name c)) (k_controlled c) = Inr ys)
      \<longleftrightarrow> (\<forall>x \<in> set (k_controlled c). case x of (f, al) \<Rightarrow> py_str (dget0 d' f) \<in> set al)"
    by (rule emap_units) (auto simp: res_simps)
  moreover have "(\<exists>ys. emap (\<lambda>f. require_list d' f (k_name c)) (k_lists c) = Inr ys)
      \<longleftrightarrow> (\<forall>f \<in> set (k_lists c). is_list (dget0 d' f))"
    by (rule emap_units) (simp add: res_simps)
  moreover have "(\<exists>ys. emap (\<lambda>f. require_mapping d' f (k_name c)) (k_mappings c) = Inr ys)
      \<longleftrightarrow> (\<forall>f \<in> set (k_mappings c). is_dict (dget0 d' f))"
    by (rule emap_units) (simp add: res_simps)
  ultimately show ?thesis
    by (auto simp add: JObj validate_base_def ebind_Inr_iff require_simps)
qed (simp_all add: validate_base_def)

lemma sorted_values_length: "sorted_values xs = Inr ys \<Longrightarrow> length ys = length xs"
proof -
  have ins: "length (insert_number v ws) = Suc (length ws)" for v ws
    by (induction ws) (auto split: option.splits)
  have "length (foldr insert_number xs []) = length xs" for xs
    by (induction xs) (simp_all add: ins)
  then show "sorted_values xs = Inr ys \<Longrightarrow> length ys = length xs"
    by (auto simp: sorted_values_def split: if_splits)
qed

lemma sorted_values_Nil_iff [res_simps]: "sorted_values xs = Inr [] \<longleftrightarrow> xs = []"
  using sorted_values_length [of xs "[]"] by (auto simp: sorted_values_def)

lemma dedup_Nil_iff [simp]: "dedup xs = [] \<longleftrightarrow> xs = []"
  by (cases xs) auto

lemma py_eq_JStr: "py_eq x (JStr s) \<longleftrightarrow> x = JStr s" "py_eq (JStr s) x \<longleftrightarrow> x = JStr s"
  by (auto simp: py_eq_def split: option.splits)

lemma dedup_subset_strs:
  "(\<forall>x \<in> set (dedup xs). x \<in> JStr ` S) \<longleftrightarrow> (\<forall>x \<in> set xs. x \<in> JStr ` S)"
proof (induction xs)
  case (Cons x xs)
  show ?case
  proof (cases "x \<in> JStr ` S")
    case True
    then obtain s where "x = JStr s" by blast
    with Cons True show ?thesis by (auto simp: py_eq_JStr)
  qed simp
qed simp

lemma validate_actor_iff:
  assumes "dget d ''capabilities'' (JList []) = JList xs"
  shows "validate_actor d = Inr u \<longleftrightarrow> set xs \<subseteq> JStr ` set ACTOR_CAPABILITIES"
proof
  assume "validate_actor d = Inr u"
  then have "list_all hashable xs" "[x \<leftarrow> dedup xs. x \<notin> JStr ` set ACTOR_CAPABILITIES] = []"
    using assms
    by (auto simp: validate_actor_def set_minus_def res_simps split: if_splits)
  then show "set xs \<subseteq> JStr ` set ACTOR_CAPABILITIES"
    using dedup_subset_strs [of xs "set ACTOR_CAPABILITIES"] by (auto simp: filter_empty_conv)
next
  assume sub: "set xs \<subseteq> JStr ` set ACTOR_CAPABILITIES"
  then have "list_all hashable xs" by (auto simp: list_all_iff)
  moreover have "[x \<leftarrow> dedup xs. x \<notin> JStr ` set ACTOR_CAPABILITIES] = []"
    using sub dedup_subset_strs [of xs "set ACTOR_CAPABILITIES"] by (auto simp: filter_empty_conv)
  ultimately show "validate_actor d = Inr u"
    using assms by (simp add: validate_actor_def set_minus_def sorted_values_def)
qed

lemma validate_conflict_iff:
  "validate_conflict d = Inr u \<longleftrightarrow>
     is_dict (dget0 d ''decision_card'') \<and> decision_card_ok (dict_or_empty (dget0 d ''decision_card''))"
proof (cases "dget0 d ''decision_card''")
  case (JObj entry)
  show ?thesis
    by (cases "dget0 entry ''options''")
      (auto simp: validate_conflict_def JObj decision_card_ok_def res_simps Let_def filter_empty_conv)
qed (simp_all add: validate_conflict_def)

lemma capabilities_listed: "is_list (dget0 d ''capabilities'') \<Longrightarrow>
    dget d ''capabilities'' (JList []) = dget0 d ''capabilities''"
  by (auto simp: dget_def split: option.splits)

lemma actor_capabilities_list: "''capabilities'' \<in> set (k_lists (class_of ActorRecord))"
  by (simp add: ActorRecord_class_def)

lemma conflict_card_mapping: "''decision_card'' \<in> set (k_mappings (class_of ConflictRecord))"
  by (simp add: ConflictRecord_class_def)

lemma validate_dict_iff: "validate_dict t r = Inr d \<longleftrightarrow> r = JObj d \<and> conforms t d"
proof (cases t)
  case ActorRecord
  show ?thesis
  proof (cases "is_list (dget0 d ''capabilities'')")
    case True
    then obtain xs where "dget0 d ''capabilities'' = JList xs" by (rule is_listE)
    with capabilities_listed [OF True] validate_actor_iff [of d xs]
    have "(\<exists>u. validate_actor d = Inr u) \<longleftrightarrow> capabilities_ok (dget0 d ''capabilities'')"
      by (auto simp: capabilities_ok_def)
    then show ?thesis
      unfolding validate_dict_def conforms_def ActorRecord by (auto simp: ebind_Inr_iff validate_base_iff)
  next
    case False
    then show ?thesis
      using actor_capabilities_list
      by (auto simp add: validate_dict_def conforms_def ActorRecord ebind_Inr_iff validate_base_iff
          simp del: class_of.simps)
  qed
next
  case ConflictRecord
  have "(\<exists>u. validate_conflict d = Inr u) \<longleftrightarrow> is_dict (dget0 d ''decision_card'')
      \<and> decision_card_ok (dict_or_empty (dget0 d ''decision_card''))"
    by (auto simp: validate_conflict_iff)
  then show ?thesis
    using conflict_card_mapping
    by (auto simp add: validate_dict_def conforms_def ConflictRecord ebind_Inr_iff validate_base_iff
        simp del: class_of.simps)
qed (auto simp: validate_dict_def conforms_def ebind_Inr_iff validate_base_iff simp del: class_of.simps)

section \<open>What validation raises\<close>

definition contract_error :: "pyerr \<Rightarrow> bool" where
  "contract_error e \<longleftrightarrow> (\<exists>msg. e = ContractError msg)"

lemma emap_Inl: "emap f xs = Inl e \<Longrightarrow> \<exists>x \<in> set xs. f x = Inl e"
  by (induction xs) (auto simp: res_simps)

lemma require_raises [dest]:
  "require_fields d req n = Inl e \<Longrightarrow> contract_error e"
  "require_allowed v al f n = Inl e \<Longrightarrow> contract_error e"
  "require_list d f n = Inl e \<Longrightarrow> contract_error e"
  "require_mapping d f n = Inl e \<Longrightarrow> contract_error e"
  by (auto simp: require_fields_def require_allowed_def require_list_def require_mapping_def Let_def
      contract_error_def)

lemma validate_base_raises: "validate_base c r = Inl e \<Longrightarrow> contract_error e"
  by (cases r) (auto simp: validate_base_def ebind_Inl_iff contract_error_def [of "ContractError _"]
      dest!: emap_Inl)

lemma validate_conflict_raises: "validate_conflict d = Inl e \<Longrightarrow> contract_error e"
  by (auto simp: validate_conflict_def Let_def ebind_Inl_iff contract_error_def [of "ContractError _"]
      split: json.splits)

lemma validate_actor_raises: "validate_actor d = Inl e \<Longrightarrow> contract_error e \<or> e = TypeError"
proof -
  have "set_of v = Inl e \<Longrightarrow> e = TypeError" for v by (cases v) (auto split: if_splits)
  then show "validate_actor d = Inl e \<Longrightarrow> contract_error e \<or> e = TypeError"
    by (auto simp: validate_actor_def set_minus_def sorted_values_def ebind_Inl_iff contract_error_def
        split: if_splits)
qed

lemma validate_dict_raises:
  assumes "validate_dict t r = Inl e"
  shows "contract_error e \<or> t = ActorRecord \<and> e = TypeError"
  using assms
  by (cases t) (auto simp: validate_dict_def ebind_Inl_iff simp del: class_of.simps
      dest: validate_base_raises validate_actor_raises validate_conflict_raises)

section \<open>Schemas\<close>

lemma every_contract: "list_all P CONTRACT_TYPES \<Longrightarrow> P t"
  by (cases t) (simp_all add: CONTRACT_TYPES_def)

lemma contract_type_of_schema: "contract_type_of (k_schema (class_of t)) = Some t"
  by (rule every_contract [where P = "\<lambda>t. contract_type_of (k_schema (class_of t)) = Some t"]) code_simp

lemma contract_type_of_Some: "contract_type_of s = Some t \<longleftrightarrow> s = k_schema (class_of t)"
proof
  assume "contract_type_of s = Some t"
  then show "s = k_schema (class_of t)" by (auto simp: contract_type_of_def find_Some_iff)
qed (simp only: contract_type_of_schema)

lemma schema_inj: "k_schema (class_of t) = k_schema (class_of u) \<longleftrightarrow> t = u"
  by (metis contract_type_of_schema option.inject)

lemma validate_contract_iff:
  "validate_contract r = Inr d \<longleftrightarrow> r = JObj d
     \<and> (\<exists>t. dget0 d ''schema'' = JStr (k_schema (class_of t)) \<and> conforms t d)"
proof (cases r)
  case (JObj d')
  show ?thesis
  proof (cases "dget0 d' ''schema''")
    case (JStr s)
    then show ?thesis
      by (cases "contract_type_of s")
        (auto simp: validate_contract_def JObj contract_type_of_Some contract_type_of_schema
          validate_dict_iff schema_inj simp del: class_of.simps)
  qed (auto simp: validate_contract_def JObj)
qed (simp_all add: validate_contract_def)

section \<open>Round trips\<close>

lemma dhas_map_of_iff: "dhas d k \<longleftrightarrow> map_of d k \<noteq> None"
  by (simp add: dhas_map_of)

text \<open>The required fields decide whether a record conforms.\<close>

lemma checked_fields_required:
  "set (map fst (k_controlled (class_of t))) \<subseteq> set (k_required (class_of t))"
  "set (k_lists (class_of t)) \<subseteq> set (k_required (class_of t))"
  "set (k_mappings (class_of t)) \<subseteq> set (k_required (class_of t))"
  "t = ActorRecord \<Longrightarrow> ''capabilities'' \<in> set (k_required (class_of t))"
  "t = ConflictRecord \<Longrightarrow> ''decision_card'' \<in> set (k_required (class_of t))"
  by (rule every_contract [where P = "\<lambda>t. set (map fst (k_controlled (class_of t))) \<subseteq> set (k_required (class_of t))"],
      code_simp)
    (rule every_contract [where P = "\<lambda>t. set (k_lists (class_of t)) \<subseteq> set (k_required (class_of t))"], code_simp,
     rule every_contract [where P = "\<lambda>t. set (k_mappings (class_of t)) \<subseteq> set (k_required (class_of t))"], code_simp,
     simp_all add: ActorRecord_class_def ConflictRecord_class_def)

lemma conforms_cong:
  assumes "\<And>k. k \<in> set (k_required (class_of t)) \<Longrightarrow> map_of d k = map_of d' k"
  shows "conforms t d \<longleftrightarrow> conforms t d'"
proof -
  have get: "dget0 d k = dget0 d' k" and has: "dhas d k = dhas d' k"
    if "k \<in> set (k_required (class_of t))" for k
    using assms [OF that] by (simp_all add: dget_def dhas_map_of_iff)
  have ctl: "dget0 d f = dget0 d' f" if "(f, al) \<in> set (k_controlled (class_of t))" for f al
    using get checked_fields_required(1) [of t] that by force
  have "dget0 d f = dget0 d' f" if "f \<in> set (k_lists (class_of t)) \<union> set (k_mappings (class_of t))" for f
    using get checked_fields_required(2,3) [of t] that by blast
  with get has ctl checked_fields_required(4,5) [of t] show ?thesis
    unfolding conforms_def by (smt (verit) UnI1 UnI2 case_prodD case_prodI2)
qed

definition wire :: "contract_type \<Rightarrow> string \<Rightarrow> string" where
  "wire t f = (if t = SchemaContractRecord \<and> f = ''required_field_names'' then ''required_fields'' else f)"

definition field_names :: "contract_type \<Rightarrow> string list" where
  "field_names t = map fst (k_fields (class_of t))"

lemma class_facts:
  "distinct (field_names t)"
  "''schema'' \<notin> set (field_names t)"
  "''required_fields'' \<notin> set (field_names t)"
  "list_all (\<lambda>(f, dflt). dflt = None \<longrightarrow> wire t f \<in> set (k_required (class_of t))) (k_fields (class_of t))"
  "set (k_required (class_of t)) \<subseteq> wire t ` set (field_names t)"
proof -
  show "distinct (field_names t)"
    by (rule every_contract [where P = "\<lambda>t. distinct (field_names t)"]) code_simp
  show "''schema'' \<notin> set (field_names t)"
    by (rule every_contract [where P = "\<lambda>t. ''schema'' \<notin> set (field_names t)"]) code_simp
  show "''required_fields'' \<notin> set (field_names t)"
    by (rule every_contract [where P = "\<lambda>t. ''required_fields'' \<notin> set (field_names t)"]) code_simp
  show "list_all (\<lambda>(f, dflt). dflt = None \<longrightarrow> wire t f \<in> set (k_required (class_of t))) (k_fields (class_of t))"
    by (rule every_contract [where P = "\<lambda>t. list_all (\<lambda>(f, dflt). dflt = None \<longrightarrow>
      wire t f \<in> set (k_required (class_of t))) (k_fields (class_of t))"]) code_simp
  show "set (k_required (class_of t)) \<subseteq> wire t ` set (field_names t)"
    by (rule every_contract [where P = "\<lambda>t. set (k_required (class_of t)) \<subseteq> wire t ` set (field_names t)"])
      code_simp
qed

lemma map_of_rename_key:
  assumes "old \<noteq> new"
  shows "map_of (rename_key old new d) k =
    (if map_of d old = None then map_of d k
     else if k = new then map_of d old else if k = old then None else map_of d k)"
proof -
  have "map_of [(k, x) \<leftarrow> d. k \<noteq> old] k = (if k = old then None else map_of d k)"
    by (induction d) auto
  then show ?thesis using assms by (auto simp: rename_key_def map_of_dset split: option.splits)
qed

definition decoded :: "contract_type \<Rightarrow> jdict \<Rightarrow> jdict" where
  "decoded t d = (if t = SchemaContractRecord
     then rename_key ''required_fields'' ''required_field_names'' d else d)"

lemma map_of_decoded:
  assumes "f \<in> set (field_names t)" and "map_of d (wire t f) = Some v"
  shows "map_of (decoded t d) f = Some v"
proof -
  have "f \<noteq> ''required_fields''" using assms(1) class_facts(3) [of t] by blast
  with assms(2) show ?thesis
    by (cases "t = SchemaContractRecord"; cases "f = ''required_field_names''")
      (simp_all add: decoded_def wire_def map_of_rename_key)
qed

definition field_value :: "jdict \<Rightarrow> string \<times> json option \<Rightarrow> json" where
  "field_value d = (\<lambda>(f, dflt). case map_of d f of Some v \<Rightarrow> v | None \<Rightarrow> the dflt)"

lemma construct_eq:
  assumes "list_all (\<lambda>(f, dflt). map_of values f = None \<longrightarrow> dflt \<noteq> None) fs"
  shows "construct fs values = Inr (map (\<lambda>x. (fst x, field_value values x)) fs)"
  using assms
  by (induction fs) (auto simp: field_value_def split: option.splits)

lemma map_of_kept: "f \<in> S \<Longrightarrow> map_of [(k, v) \<leftarrow> d. k \<in> S] f = map_of d f"
  by (induction d) auto

lemma from_dict_eq:
  assumes "conforms t d"
  shows "from_dict t (JObj d) =
    Inr \<lparr>i_type = t, i_values = map (\<lambda>x. (fst x, field_value (decoded t d) x)) (k_fields (class_of t))\<rparr>"
proof -
  let ?fs = "k_fields (class_of t)"
  let ?vals = "[(k, v) \<leftarrow> decoded t d. k \<in> set (map fst ?fs)]"
  have kept: "map_of ?vals f = map_of (decoded t d) f" if "f \<in> set (map fst ?fs)" for f
    using that by (rule map_of_kept)
  have "map_of (decoded t d) f \<noteq> None"
    if "wire t f \<in> set (k_required (class_of t))" "f \<in> set (field_names t)" for f
  proof -
    from assms that(1) have "map_of d (wire t f) \<noteq> None" by (auto simp: conforms_def dhas_map_of)
    with map_of_decoded [OF that(2)] show ?thesis by auto
  qed
  then have present: "map_of ?vals f \<noteq> None" if "(f, None) \<in> set ?fs" for f
    using class_facts(4) [of t] kept [of f] that by (force simp: list_all_iff field_names_def)
  have "list_all (\<lambda>(f, dflt). map_of ?vals f = None \<longrightarrow> dflt \<noteq> None) ?fs"
    unfolding list_all_iff
  proof (intro ballI)
    fix x assume x: "x \<in> set ?fs"
    obtain f dflt where fd: "x = (f, dflt)" by fastforce
    have "dflt \<noteq> None" if "map_of ?vals f = None"
      using present [of f] x fd that by metis
    then show "case x of (f, dflt) \<Rightarrow> map_of ?vals f = None \<longrightarrow> dflt \<noteq> None"
      unfolding fd prod.case by blast
  qed
  from construct_eq [OF this]
  have "construct ?fs ?vals = Inr (map (\<lambda>x. (fst x, field_value ?vals x)) ?fs)" .
  also have "map (\<lambda>x. (fst x, field_value ?vals x)) ?fs = map (\<lambda>x. (fst x, field_value (decoded t d) x)) ?fs"
  proof (intro map_cong refl)
    fix x assume "x \<in> set ?fs"
    then have "map_of ?vals (fst x) = map_of (decoded t d) (fst x)" by (intro kept) simp
    then show "(fst x, field_value ?vals x) = (fst x, field_value (decoded t d) x)"
      unfolding field_value_def case_prod_beta by (simp only:)
  qed
  finally show ?thesis
    using assms unfolding from_dict_def validate_dict_iff [THEN iffD2, OF conjI [OF refl assms]]
    by (simp add: decoded_def Let_def)
qed

lemma from_dict_cases:
  assumes "from_dict t r = Inr c"
  obtains d where "r = JObj d" "conforms t d" "i_type c = t"
    "i_values c = map (\<lambda>x. (fst x, field_value (decoded t d) x)) (k_fields (class_of t))"
proof -
  from assms obtain d where d: "r = JObj d" "conforms t d"
    by (auto simp: from_dict_def ebind_Inr_iff validate_dict_iff)
  with assms that from_dict_eq [OF d(2)] show thesis by auto
qed

lemma map_of_field_values:
  assumes "f \<in> set (map fst fs)" and "distinct (map fst fs)"
  shows "\<exists>dflt. (f, dflt) \<in> set fs
    \<and> map_of (map (\<lambda>x. (fst x, g x)) fs) f = Some (g (f, dflt))"
  using assms by (induction fs) auto

lemma required_names_field: "''required_field_names'' \<in> set (field_names SchemaContractRecord)"
  by code_simp

text \<open>Renaming forth and back.\<close>

lemma rename_back:
  assumes "a \<noteq> b" and "map_of data a \<noteq> None" and "map_of data b = None"
  shows "map_of (rename_key a b data) b = map_of data a"
    and "map_of (rename_key b a (rename_key a b data)) f = map_of data f"
    and "f \<noteq> a \<Longrightarrow> f \<noteq> b \<Longrightarrow> map_of (rename_key a b data) f = map_of data f"
  using assms by (auto simp: map_of_rename_key)

lemma map_of_to_dict:
  assumes "f \<in> set (field_names (i_type c))" and "map fst (i_values c) = field_names (i_type c)"
  shows "map_of (to_dict c) (wire (i_type c) f) = map_of (i_values c) f"
    and "map_of (decoded (i_type c) (to_dict c)) f = map_of (i_values c) f"
proof -
  let ?t = "i_type c"
  obtain data where data:
    "data = dsetdefault ''schema'' (JStr (k_schema (class_of ?t))) (i_values c)" by simp
  have out: "map_of data k = map_of (i_values c) k" if "k \<noteq> ''schema''" for k
    using that by (simp add: data dsetdefault_def map_add_def split: option.splits)
  have f: "f \<noteq> ''schema''" "f \<noteq> ''required_fields''"
    using class_facts(2,3) [of ?t] assms(1) by blast+
  have none: "map_of (i_values c) k = None \<longleftrightarrow> k \<notin> set (field_names ?t)" for k
    unfolding map_of_eq_None_iff assms(2) [symmetric] by simp
  have "''required_fields'' \<noteq> ''schema''" "''required_field_names'' \<noteq> ''schema''" by simp_all
  note out = out this [THEN out]
  have rf: "map_of data ''required_fields'' = None"
    unfolding out(2) none by (rule class_facts(3))
  have rn: "map_of data ''required_field_names'' \<noteq> None" if "?t = SchemaContractRecord"
    unfolding out(3) none that using required_names_field by simp
  have td: "to_dict c = (if ?t = SchemaContractRecord
      then rename_key ''required_field_names'' ''required_fields'' data else data)"
    by (simp only: to_dict_def data Let_def)
  have ne: "''required_field_names'' \<noteq> ''required_fields''" by simp
  show "map_of (to_dict c) (wire ?t f) = map_of (i_values c) f"
  proof (cases "?t = SchemaContractRecord")
    case True
    show ?thesis
      using rename_back(1) [OF ne rn [OF True] rf] rename_back(3) [OF ne rn [OF True] rf, of f]
        out(1) [OF f(1)] f(2)
      by (cases "f = ''required_field_names''")
        (simp_all only: td wire_def True if_True if_False simp_thms)
  qed (simp only: td wire_def if_False simp_thms out(1) [OF f(1)])
  show "map_of (decoded ?t (to_dict c)) f = map_of (i_values c) f"
  proof (cases "?t = SchemaContractRecord")
    case True
    show ?thesis
      using rename_back(2) [OF ne rn [OF True] rf, of f] out(1) [OF f(1)]
      by (simp only: td decoded_def True if_True refl)
  qed (simp only: td decoded_def if_False out(1) [OF f(1)])
qed

lemma to_dict_schema:
  assumes "map fst (i_values c) = field_names (i_type c)"
  shows "dget0 (to_dict c) ''schema'' = JStr (k_schema (class_of (i_type c)))"
proof -
  have "map_of (i_values c) ''schema'' = None"
    using class_facts(2) [of "i_type c"] assms by (metis map_of_eq_None_iff set_map)
  then show ?thesis
    by (auto simp: to_dict_def dsetdefault_def dhas_map_of dget_def map_of_rename_key map_add_def Let_def
        simp del: class_of.simps)
qed

lemma to_dict_conforms:
  assumes "from_dict t r = Inr c"
  shows "i_type c = t" and "map fst (i_values c) = field_names t" and "conforms t (to_dict c)"
proof -
  from assms obtain d where d: "r = JObj d" "conforms t d" "i_type c = t"
    "i_values c = map (\<lambda>x. (fst x, field_value (decoded t d) x)) (k_fields (class_of t))"
    by (rule from_dict_cases)
  show "i_type c = t" by (rule d(3))
  show names: "map fst (i_values c) = field_names t" using d(4) by (simp add: field_names_def)
  have "map_of (to_dict c) k = map_of d k" if "k \<in> set (k_required (class_of t))" for k
  proof -
    from class_facts(5) [of t] that obtain f where f: "f \<in> set (field_names t)" "k = wire t f" by auto
    then obtain dflt where
      "map_of (i_values c) f = Some (field_value (decoded t d) (f, dflt))"
      using map_of_field_values [of f "k_fields (class_of t)" "field_value (decoded t d)"]
        class_facts(1) [of t] d(4) by (auto simp: field_names_def)
    moreover from d(2) that have "map_of d k \<noteq> None" by (auto simp: conforms_def dhas_map_of)
    then obtain v where "map_of d k = Some v" by auto
    moreover from this have "map_of (decoded t d) f = Some v"
      using map_of_decoded [OF f(1)] f(2) by simp
    ultimately show ?thesis
      using map_of_to_dict(1) [of f c] f d(3) names by (simp add: field_value_def)
  qed
  with d(2) show "conforms t (to_dict c)" using conforms_cong by metis
qed

lemma decode_encode:
  assumes "from_dict t r = Inr c"
  shows "from_dict t (JObj (to_dict c)) = Inr c"
proof -
  note c = to_dict_conforms [OF assms]
  have "field_value (decoded t (to_dict c)) (f, dflt) = v"
    if "(f, v) \<in> set (i_values c)" "(f, dflt) \<in> set (k_fields (class_of t))" for f v dflt
  proof -
    have "f \<in> set (field_names t)" using that(2) by (force simp: field_names_def)
    moreover have "map_of (i_values c) f = Some v"
      using that(1) class_facts(1) [of t] c(2) by simp
    ultimately show ?thesis
      using map_of_to_dict(2) [of f c] c by (simp add: field_value_def)
  qed
  moreover from assms obtain d where
    vals: "i_values c = map (\<lambda>x. (fst x, field_value (decoded t d) x)) (k_fields (class_of t))"
    by (rule from_dict_cases)
  ultimately have "field_value (decoded t d) x = field_value (decoded t (to_dict c)) x"
    if "x \<in> set (k_fields (class_of t))" for x
    using that by (cases x) (metis (mono_tags, lifting) fst_conv image_eqI set_map)
  then have "i_values c = map (\<lambda>x. (fst x, field_value (decoded t (to_dict c)) x)) (k_fields (class_of t))"
    unfolding vals by (intro map_cong) simp_all
  then show ?thesis using from_dict_eq [OF c(3)] c(1) by simp
qed

section \<open>Properties\<close>

text \<open>
  C15: a record is accepted exactly when it is an object whose schema names one of the twelve
  contracts and that conforms to it: the required fields are present, the controlled fields hold
  listed values, the list and object fields have their types, an actor's capabilities are listed
  ones and a conflict's decision card offers listed options and recommends and selects offered ones.
  The record is returned unchanged.
\<close>

theorem contract_accepted_iff:
  "validate_contract r = Inr d \<longleftrightarrow> r = JObj d
     \<and> (\<exists>t. dget0 d ''schema'' = JStr (k_schema (class_of t)) \<and> conforms t d)"
  by (rule validate_contract_iff)

text \<open>
  C18: decoding succeeds on every record that conforms, and re-encoding the instance gives a record
  that validates under its schema and decodes to the same instance, whatever defaults were filled in
  and although one contract renames a field.
\<close>

theorem contract_roundtrip:
  assumes "conforms t d"
  shows "\<exists>c. from_dict t (JObj d) = Inr c \<and> i_type c = t
    \<and> validate_contract (JObj (to_dict c)) = Inr (to_dict c)
    \<and> from_dict t (JObj (to_dict c)) = Inr c"
proof -
  obtain c where c: "from_dict t (JObj d) = Inr c" using from_dict_eq [OF assms] by blast
  note tc = to_dict_conforms [OF c]
  have "dget0 (to_dict c) ''schema'' = JStr (k_schema (class_of t))"
    using to_dict_schema tc(1,2) by metis
  with tc(3) have "validate_contract (JObj (to_dict c)) = Inr (to_dict c)"
    unfolding validate_contract_iff by blast
  with c decode_encode [OF c] tc(1) show ?thesis by blast
qed

definition ex_device :: jdict where
  "ex_device = [(''schema'', JStr ''sourceos.device-record/v1alpha1''), (''device_id'', JStr ''d1''),
     (''display_name'', JStr ''Laptop''), (''trust_level'', JStr ''user''),
     (''device_state'', JStr ''trusted''), (''created_at'', JStr ''2026-01-01T00:00:00Z''),
     (''note'', JStr ''dropped'')]"

theorem contract_roundtrip_witness:
  "\<exists>c. from_dict DeviceTrustRecord (JObj ex_device) = Inr c
    \<and> validate_contract (JObj (to_dict c)) = Inr (to_dict c)
    \<and> from_dict DeviceTrustRecord (JObj (to_dict c)) = Inr c"
proof -
  have "conforms DeviceTrustRecord ex_device" by code_simp
  from contract_roundtrip [OF this] show ?thesis by blast
qed

text \<open>
  What validation raises.  Only a record that is not an object raises \<open>AttributeError\<close>, only an
  actor record with capabilities that cannot be hashed or sorted raises \<open>TypeError\<close>; everything else
  that is refused raises \<open>ContractError\<close>.
\<close>

theorem contract_errors:
  assumes "validate_contract r = Inl e"
  shows "(\<exists>msg. e = ContractError msg) \<or> e = AttributeError \<and> \<not> is_dict r
    \<or> e = TypeError \<and> (\<exists>d. r = JObj d \<and> dget0 d ''schema'' = JStr (k_schema ActorRecord_class))"
proof (cases r)
  case (JObj d)
  show ?thesis
  proof (cases "dget0 d ''schema''")
    case (JStr s)
    show ?thesis
    proof (cases "contract_type_of s")
      case None
      with assms show ?thesis by (auto simp: JObj JStr validate_contract_def)
    next
      case (Some t)
      then have "validate_dict t r = Inl e" using assms by (simp add: JObj JStr validate_contract_def)
      from validate_dict_raises [OF this] Some show ?thesis
        by (auto simp: contract_error_def contract_type_of_Some JObj JStr)
    qed
  qed (use assms in \<open>auto simp: JObj validate_contract_def\<close>)
qed (use assms in \<open>auto simp: validate_contract_def\<close>)

definition ex_bad_actor :: jdict where
  "ex_bad_actor = [(''schema'', JStr ''sourceos.actor-record/v1alpha1''), (''actor_id'', JStr ''a''),
     (''actor_type'', JStr ''human''), (''display_name'', JStr ''A''), (''identity_id'', JStr ''i''),
     (''workspace_scope'', JList []), (''profile_scope'', JList []),
     (''capabilities'', JList [JList [JStr ''read'']]), (''trust_level'', JStr ''user''),
     (''policy_subject'', JStr ''p''), (''signing_key_ref'', JStr ''k''), (''created_at'', JStr ''t'')]"

theorem contract_errors_witness:
  "validate_contract (JObj ex_bad_actor) = Inl TypeError
    \<and> (\<exists>d. JObj ex_bad_actor = JObj d \<and> dget0 d ''schema'' = JStr (k_schema ActorRecord_class))"
proof -
  have e: "validate_contract (JObj ex_bad_actor) = Inl TypeError" by code_simp
  from contract_errors [OF this] e show ?thesis by auto
qed

end
