(* ===== verification/Json_Text.thy ===== *)
theory Json_Text
  imports Py_Value Interfaces
begin

text \<open>
  \<open>json.dumps\<close> with its default separators and \<open>ensure_ascii\<close>, optionally with sorted keys, and files
  of one JSON text per line.  The output is printable ASCII, so a line never breaks: appending a line
  is an append-only log on the text of the file.
\<close>

section \<open>Printing\<close>

text \<open>The escape of a code point.\<close>

definition unicode_escape :: "char \<Rightarrow> string" where
  "unicode_escape c = [CHR 0x5C, CHR ''u'']
     @ (if [c] = em_dash then ''2014'' else if [c] = en_dash then ''2013'' else ''00'' @ hex2 (of_char c))"

definition json_char :: "char \<Rightarrow> string" where
  "json_char c =
     (if c = CHR 0x22 \<or> c = CHR 0x5C then [CHR 0x5C, c]
      else if c = CHR 0x0A then [CHR 0x5C, CHR ''n'']
      else if c = CHR 0x0D then [CHR 0x5C, CHR ''r'']
      else if c = CHR 0x09 then [CHR 0x5C, CHR ''t'']
      else if c = CHR 0x0C then [CHR 0x5C, CHR ''f'']
      else if c = CHR 0x08 then [CHR 0x5C, CHR ''b'']
      else if 32 \<le> (of_char c :: nat) \<and> (of_char c :: nat) \<le> 126 then [c]
      else unicode_escape c)"

definition json_string :: "string \<Rightarrow> string" where
  "json_string s = [CHR 0x22] @ concat (map json_char s) @ [CHR 0x22]"

fun json_float :: "pyfloat \<Rightarrow> string" where
  "json_float NaN = ''NaN''"
| "json_float PosInf = ''Infinity''"
| "json_float NegInf = ''-Infinity''"
| "json_float (Dec m e) = float_repr (Dec m e)"

fun json_dumps :: "json \<Rightarrow> string" where
  "json_dumps JNull = ''null''"
| "json_dumps (JBool b) = (if b then ''true'' else ''false'')"
| "json_dumps (JInt i) = int_str i"
| "json_dumps (JFloat x) = json_float x"
| "json_dumps (JStr s) = json_string s"
| "json_dumps (JList xs) = ''['' @ join '', '' (map json_dumps xs) @ '']''"
| "json_dumps (JObj d) =
     ''{'' @ join '', '' (map (\<lambda>(k, v). json_string k @ '': '' @ json_dumps v) d) @ ''}''"

text \<open>\<open>separators=(",", ":")\<close>, and \<open>indent=2\<close> at a column.\<close>

fun json_compact :: "json \<Rightarrow> string" where
  "json_compact (JList xs) = ''['' @ join '','' (map json_compact xs) @ '']''"
| "json_compact (JObj d) =
     ''{'' @ join '','' (map (\<lambda>(k, v). json_string k @ '':'' @ json_compact v) d) @ ''}''"
| "json_compact v = json_dumps v"

definition new_line_at :: "nat \<Rightarrow> string" where
  "new_line_at column = newline # replicate column CHR '' ''"

fun json_indented :: "nat \<Rightarrow> json \<Rightarrow> string" where
  "json_indented column (JList xs) =
     (if xs = [] then ''[]''
      else ''['' @ new_line_at (column + 2)
        @ join ('','' @ new_line_at (column + 2)) (map (json_indented (column + 2)) xs)
        @ new_line_at column @ '']'')"
| "json_indented column (JObj d) =
     (if d = [] then ''{}''
      else ''{'' @ new_line_at (column + 2)
        @ join ('','' @ new_line_at (column + 2))
            (map (\<lambda>(k, v). json_string k @ '': '' @ json_indented (column + 2) v) d)
        @ new_line_at column @ ''}'')"
| "json_indented column v = json_dumps v"

text \<open>\<open>sort_keys=True\<close>.\<close>

fun sort_keys :: "json \<Rightarrow> json" where
  "sort_keys (JList xs) = JList (map sort_keys xs)"
| "sort_keys (JObj d) = JObj (sort_key fst (map (\<lambda>(k, v). (k, sort_keys v)) d))"
| "sort_keys v = v"

definition json_dumps_sorted :: "json \<Rightarrow> string" where
  "json_dumps_sorted v = json_dumps (sort_keys v)"

section \<open>The output is printable ASCII\<close>

definition ascii_text :: "string \<Rightarrow> bool" where
  "ascii_text s \<longleftrightarrow> (\<forall>c \<in> set s. 32 \<le> (of_char c :: nat) \<and> (of_char c :: nat) \<le> 126)"

lemma ascii_simps [simp]:
  "ascii_text []" "ascii_text (c # s) \<longleftrightarrow> 32 \<le> (of_char c :: nat) \<and> (of_char c :: nat) \<le> 126 \<and> ascii_text s"
  "ascii_text (s @ t) \<longleftrightarrow> ascii_text s \<and> ascii_text t"
  by (auto simp: ascii_text_def)

lemma ascii_concat: "(\<And>s. s \<in> set ss \<Longrightarrow> ascii_text s) \<Longrightarrow> ascii_text (concat ss)"
  by (auto simp: ascii_text_def)

lemma ascii_join: "ascii_text sep \<Longrightarrow> (\<And>s. s \<in> set ss \<Longrightarrow> ascii_text s) \<Longrightarrow> ascii_text (join sep ss)"
  by (induction sep ss rule: join.induct) auto

lemma ascii_hex: "n < 256 \<Longrightarrow> ascii_text (hex2 n)"
proof -
  have "list_all (\<lambda>k. ascii_text [hex_digit k]) [0..<16]"
    unfolding ascii_text_def by code_simp
  then have digit: "k < 16 \<Longrightarrow> ascii_text [hex_digit k]" for k by (auto simp: list_all_iff)
  show "n < 256 \<Longrightarrow> ascii_text (hex2 n)"
    using digit [of "n div 16"] digit [of "n mod 16"] by (simp add: hex2_def)
qed

lemma ascii_nat_str: "ascii_text (nat_str n)"
proof (induction n rule: nat_str.induct)
  case (1 n)
  have digit: "k < 10 \<Longrightarrow> ascii_text [''0123456789'' ! k]" for k
  proof -
    have "list_all (\<lambda>k. ascii_text [''0123456789'' ! k]) [0..<10]"
      unfolding ascii_text_def by code_simp
    then show "k < 10 \<Longrightarrow> ascii_text [''0123456789'' ! k]" by (auto simp: list_all_iff)
  qed
  show ?case
    using 1 digit [of n] digit [of "n mod 10"] by (subst nat_str.simps) auto
qed

lemma ascii_replicate: "ascii_text [c] \<Longrightarrow> ascii_text (replicate n c)"
  by (induction n) auto

lemma ascii_take_drop: "ascii_text s \<Longrightarrow> ascii_text (take n s)" "ascii_text s \<Longrightarrow> ascii_text (drop n s)"
  by (auto simp: ascii_text_def dest: in_set_takeD in_set_dropD)

lemma ascii_json_char: "ascii_text (json_char c)"
proof -
  have "(of_char c :: nat) < 256" by (metis mod_less_divisor of_char_mod_256 zero_less_numeral)
  then show ?thesis
    by (auto simp: json_char_def unicode_escape_def ascii_hex)
qed

lemma ascii_json_string: "ascii_text (json_string s)"
  by (auto simp: json_string_def intro!: ascii_concat ascii_json_char)

lemma ascii_float: "ascii_text (json_float x)"
  by (cases x)
    (auto simp: dec_repr_def Let_def pad_zeros_def ascii_nat_str
      intro!: ascii_replicate ascii_take_drop)

lemma ascii_json_dumps: "ascii_text (json_dumps v)"
proof (induction v rule: json_dumps.induct)
  case (3 i)
  then show ?case by (simp add: int_str_def ascii_nat_str)
next
  case (6 xs)
  then show ?case by (auto intro!: ascii_join)
next
  case (7 d)
  then show ?case by (fastforce intro!: ascii_join simp: ascii_json_string)
qed (simp_all add: ascii_float ascii_json_string)

lemma newline_not_ascii: "ascii_text s \<Longrightarrow> newline \<notin> set s"
  by (auto simp: ascii_text_def)

section \<open>Files of lines\<close>

definition append_line :: "string \<Rightarrow> string \<Rightarrow> string" where
  "append_line l text = text @ l @ [newline]"

text \<open>The lines of a text, without an empty one after the last newline.\<close>

definition text_lines :: "string \<Rightarrow> string list" where
  "text_lines text = (let ls = split_on newline text in if last ls = [] then butlast ls else ls)"

definition whole_lines :: "string \<Rightarrow> bool" where
  "whole_lines text \<longleftrightarrow> text = [] \<or> last text = newline"

lemma split_on_snoc: "split_on c (s @ [c]) = split_on c s @ [[]]"
  by (induction s) (auto split: list.splits)

lemma split_on_append_sep: "split_on c (s @ [c] @ t) = split_on c s @ split_on c t"
  by (induction s) (auto split: list.splits)

lemma text_lines_append:
  assumes "whole_lines text" and "newline \<notin> set l"
  shows "text_lines (append_line l text) = text_lines text @ [l]"
proof (cases "text = []")
  case True
  then show ?thesis using assms(2)
    by (simp add: text_lines_def append_line_def split_on_snoc split_on_no_sep Let_def)
next
  case False
  then obtain t where t: "text = t @ [newline]"
    using assms(1) by (metis append_butlast_last_id whole_lines_def)
  have "split_on newline (append_line l text) = split_on newline t @ [l] @ [[]]"
    using assms(2) split_on_append_sep [of newline t "l @ [newline]"]
    by (simp add: t append_line_def split_on_snoc split_on_no_sep)
  then show ?thesis
    by (simp add: text_lines_def t split_on_snoc Let_def butlast_append)
qed

interpretation line_log: append_log text_lines append_line whole_lines "\<lambda>l. newline \<notin> set l"
  by unfold_locales (auto simp: text_lines_append, simp add: whole_lines_def append_line_def)

end
