(* ===== verification/Policy.thy ===== *)
theory Policy
  imports Json_Text
begin

text \<open>
  \<open>policy.py\<close>: the local policy evaluator.  \<open>sha256\<close> is the hexadecimal digest of a text, and the remote
  service is an argument: its URL, if the environment gives one, and the value its answer to a
  request body parses to, \<open>None\<close> when the request fails.
\<close>

section \<open>Requests and decisions\<close>

definition POLICY_DECISION_SCHEMA :: string where
  "POLICY_DECISION_SCHEMA = ''sourceos.policy-decision/v1alpha1''"
definition POLICY_ENGINE :: string where "POLICY_ENGINE = ''policy-fabric-local''"
definition DECISION_SCOPE :: string where "DECISION_SCOPE = ''policy-only''"
definition ACTIONS :: "string list" where
  "ACTIONS = [''index'', ''retain'', ''replicate'', ''agent_access'', ''repair_preview'',
     ''purge_preview'', ''read'', ''write'']"
definition STATUSES :: "string list" where
  "STATUSES = [''allowed'', ''denied'', ''redacted'', ''deferred'']"

record policy_request =
  pr_action :: string
  pr_lane :: string
  pr_subject :: string
  pr_object_id :: "string option"
  pr_data_class :: string
  pr_context :: jdict

record decision_boundary =
  db_scope :: string
  db_runtime_effect :: bool
  db_authority_mutation :: bool
  db_state_repair :: bool
  db_ledger_write :: bool
  db_downstream_refs :: "string list"

definition default_boundary :: decision_boundary where
  "default_boundary =
     \<lparr>db_scope = DECISION_SCOPE, db_runtime_effect = False, db_authority_mutation = False,
      db_state_repair = False, db_ledger_write = False,
      db_downstream_refs = [''SourceOS-Linux/sourceos-spec#113'', ''SourceOS-Linux/sourceos-syncd#30'']\<rparr>"

definition boundary_to_dict :: "decision_boundary \<Rightarrow> jdict" where
  "boundary_to_dict b = [
     (''decision_scope'', JStr (db_scope b)),
     (''runtime_effect_performed'', JBool (db_runtime_effect b)),
     (''authority_mutation_performed'', JBool (db_authority_mutation b)),
     (''state_repair_performed'', JBool (db_state_repair b)),
     (''ledger_write_performed'', JBool (db_ledger_write b)),
     (''downstream_refs'', strs (db_downstream_refs b))]"

record policy_decision =
  pd_decision_id :: string
  pd_action :: string
  pd_lane :: string
  pd_status :: string
  pd_reason :: string
  pd_subject :: string
  pd_object_id :: json
  pd_data_class :: string
  pd_engine :: string
  pd_schema :: string
  pd_generated_at :: string
  pd_boundary :: decision_boundary

definition policy_decision_to_dict :: "policy_decision \<Rightarrow> jdict" where
  "policy_decision_to_dict d = [
     (''schema'', JStr (pd_schema d)), (''decision_id'', JStr (pd_decision_id d)),
     (''generated_at'', JStr (pd_generated_at d)), (''engine'', JStr (pd_engine d)),
     (''action'', JStr (pd_action d)), (''lane'', JStr (pd_lane d)),
     (''status'', JStr (pd_status d)), (''reason'', JStr (pd_reason d)),
     (''subject'', JStr (pd_subject d)), (''object_id'', pd_object_id d),
     (''data_class'', JStr (pd_data_class d)),
     (''decision_boundary'', JObj (boundary_to_dict (pd_boundary d)))]"

section \<open>The boundary check\<close>

definition BOUNDARY_FLAGS :: "string list" where
  "BOUNDARY_FLAGS = [''runtime_effect_performed'', ''authority_mutation_performed'',
     ''state_repair_performed'', ''ledger_write_performed'']"

definition validate_decision_boundary :: "json \<Rightarrow> unit res" where
  "validate_decision_boundary decision =
     ebind (jget decision ''decision_boundary'' JNull) (\<lambda>b.
     case b of
       JObj boundary \<Rightarrow>
         ebind (eguard (dget0 boundary ''decision_scope'' = JStr DECISION_SCOPE)
                  (ValueError ''policy decision scope must be policy-only'')) (\<lambda>_.
         ebind (emap (\<lambda>k. eguard (dget0 boundary k = JBool False)
                  (ValueError (''policy decision must not perform '' @ k))) BOUNDARY_FLAGS) (\<lambda>_.
         Inr ()))
     | _ \<Rightarrow> Inl (ValueError ''policy decision missing decision_boundary''))"

section \<open>Evaluation\<close>

definition request_body :: "policy_request \<Rightarrow> string" where
  "request_body r = json_dumps (JObj [
     (''action'', JStr (pr_action r)), (''lane'', JStr (pr_lane r)), (''subject'', JStr (pr_subject r)),
     (''object_id'', opt_str (pr_object_id r)), (''data_class'', JStr (pr_data_class r)),
     (''context'', JObj (pr_context r))])"

text \<open>\<open>post url body\<close> is the value of the answer.  Every exception of the remote call is \<open>None\<close>.\<close>

definition remote_evaluate ::
  "(string \<Rightarrow> string \<Rightarrow> json option) \<Rightarrow> string \<Rightarrow> string \<Rightarrow> policy_request \<Rightarrow> policy_decision option" where
  "remote_evaluate post now url r =
     (let base = rstrip_char CHR ''/'' url in
      case post (base @ ''/v1/evaluate'') (request_body r) of
        Some (JObj d) \<Rightarrow>
          if dhas d ''decision_id'' \<and> dhas d ''action'' \<and> dhas d ''lane'' \<and> dhas d ''status''
          then Some
            \<lparr>pd_decision_id = py_str (dget0 d ''decision_id''), pd_action = py_str (dget0 d ''action''),
             pd_lane = py_str (dget0 d ''lane''), pd_status = py_str (dget0 d ''status''),
             pd_reason = py_str (dget d ''reason'' (JStr ''remote'')),
             pd_subject = py_str (dget d ''subject'' (JStr (pr_subject r))),
             pd_object_id = dget0 d ''object_id'',
             pd_data_class = py_str (dget d ''data_class'' (JStr (pr_data_class r))),
             pd_engine = base, pd_schema = POLICY_DECISION_SCHEMA, pd_generated_at = now,
             pd_boundary = default_boundary\<rparr>
          else None
      | _ \<Rightarrow> None)"

definition decision_id :: "(string \<Rightarrow> string) \<Rightarrow> policy_request \<Rightarrow> string \<Rightarrow> string \<Rightarrow> string" where
  "decision_id sha256 r status why =
     ''policy-'' @ take 16 (sha256 (json_dumps_sorted (JObj [
        (''action'', JStr (pr_action r)), (''lane'', JStr (pr_lane r)),
        (''subject'', JStr (pr_subject r)), (''object_id'', opt_str (pr_object_id r)),
        (''data_class'', JStr (pr_data_class r)), (''status'', JStr status), (''reason'', JStr why)])))"

definition local_status :: "string \<Rightarrow> string \<Rightarrow> string \<Rightarrow> string \<times> string" where
  "local_status action lane data_class =
     (if action \<notin> set ACTIONS then (''deferred'', ''unknown_action'')
      else if lane = ''secure'' \<and> action \<in> set [''agent_access'', ''replicate''] then
        (''denied'', ''secure_lane_requires_explicit_grant'')
      else if lane = ''secure'' \<and> action = ''index'' then
        (''redacted'', ''secure_lane_indexing_requires_redaction'')
      else if lane = ''repair'' \<and> action \<in> set [''agent_access'', ''write''] then
        (''denied'', ''repair_lane_is_quarantine_scoped'')
      else if lane = ''ephemeral'' \<and> action = ''retain'' then
        (''deferred'', ''ephemeral_retention_requires_ttl'')
      else if data_class \<in> set [''secret'', ''credential'']
              \<and> action \<in> set [''replicate'', ''agent_access''] then
        (''denied'', ''sensitive_data_requires_explicit_grant'')
      else (''allowed'', ''default_local_policy_allows''))"

text \<open>What an evaluation takes from outside: the digest, the clock, the URL in the environment and
  the network.\<close>

record policy_world =
  pw_sha256 :: "string \<Rightarrow> string"
  pw_now :: string
  pw_remote_url :: "string option"
  pw_post :: "string \<Rightarrow> string \<Rightarrow> json option"

definition local_decision :: "policy_world \<Rightarrow> policy_request \<Rightarrow> policy_decision" where
  "local_decision W r =
     (case local_status (pr_action r) (pr_lane r) (pr_data_class r) of (status, why) \<Rightarrow>
        \<lparr>pd_decision_id = decision_id (pw_sha256 W) r status why, pd_action = pr_action r,
         pd_lane = pr_lane r, pd_status = status, pd_reason = why, pd_subject = pr_subject r,
         pd_object_id = opt_str (pr_object_id r), pd_data_class = pr_data_class r,
         pd_engine = POLICY_ENGINE, pd_schema = POLICY_DECISION_SCHEMA, pd_generated_at = pw_now W,
         pd_boundary = default_boundary\<rparr>)"

definition evaluate_policy :: "policy_world \<Rightarrow> policy_request \<Rightarrow> policy_decision" where
  "evaluate_policy W r =
     (case pw_remote_url W of
        None \<Rightarrow> local_decision W r
      | Some url \<Rightarrow>
         if url = '''' then local_decision W r
         else (case remote_evaluate (pw_post W) (pw_now W) url r of
                 Some d \<Rightarrow> d | None \<Rightarrow> local_decision W r))"

section \<open>Reports\<close>

definition lane_request :: "string \<Rightarrow> string \<Rightarrow> string \<Rightarrow> policy_request" where
  "lane_request subject lane action =
     \<lparr>pr_action = action, pr_lane = lane, pr_subject = subject, pr_object_id = None,
      pr_data_class = ''internal'', pr_context = []\<rparr>"

definition LANE_ACTIONS :: "string list" where
  "LANE_ACTIONS = [''index'', ''retain'', ''replicate'', ''agent_access'']"

definition evaluate_report_policy :: "policy_world \<Rightarrow> json list \<Rightarrow> string \<Rightarrow> jdict list res" where
  "evaluate_report_policy W lanes subject =
     ebind (emap (\<lambda>lane. ebind (jget lane ''name'' (JStr ''normal'')) (\<lambda>n.
              emap (\<lambda>action.
                let payload = policy_decision_to_dict
                                (evaluate_policy W (lane_request subject (py_str n) action))
                in ebind (validate_decision_boundary (JObj payload)) (\<lambda>_. Inr payload)) LANE_ACTIONS)) lanes)
       (\<lambda>pss. Inr (concat pss))"

definition count_status :: "string \<Rightarrow> (string \<times> int) list \<Rightarrow> (string \<times> int) list" where
  "count_status status counts =
     (let s = (if dhas counts status then status else ''deferred'')
      in dset s (dget counts s 0 + 1) counts)"

definition decision_counts :: "json list \<Rightarrow> (string \<times> int) list res" where
  "decision_counts decisions =
     efold (\<lambda>decision counts.
        ebind (validate_decision_boundary decision) (\<lambda>_.
        ebind (jget decision ''status'' (JStr ''deferred'')) (\<lambda>status.
        Inr (count_status (py_str status) counts)))) decisions
       (map (\<lambda>s. (s, 0)) (sort STATUSES))"

definition policy_summary :: "json list \<Rightarrow> nat \<Rightarrow> json res" where
  "policy_summary decisions sample_limit =
     ebind (emap validate_decision_boundary decisions) (\<lambda>_.
     ebind (decision_counts decisions) (\<lambda>counts.
     Inr (JObj [(''engine'', JStr POLICY_ENGINE),
       (''counts'', JObj (map (\<lambda>(s, n). (s, JInt n)) counts)),
       (''sample'', JList (take sample_limit decisions))])))"

section \<open>Lemmas\<close>

definition crosses_boundary :: "json \<Rightarrow> bool" where
  "crosses_boundary decision \<longleftrightarrow>
     (case dget0 (dict_or_empty decision) ''decision_boundary'' of
        JObj b \<Rightarrow> \<not> (dget0 b ''decision_scope'' = JStr ''policy-only''
           \<and> (\<forall>k \<in> set BOUNDARY_FLAGS. dget0 b k = JBool False))
      | _ \<Rightarrow> True)"

lemma emap_eguard_iff: "(\<exists>ys. emap (\<lambda>x. eguard (P x) (E x)) xs = Inr ys) \<longleftrightarrow> (\<forall>x \<in> set xs. P x)"
  by (induction xs) (auto simp: res_simps)

lemma validate_boundary_iff: "validate_decision_boundary v = Inr u \<longleftrightarrow> \<not> crosses_boundary v"
proof (cases v)
  case (JObj d)
  have flags: "(\<exists>ys. emap (\<lambda>k. eguard (dget0 b k = JBool False)
      (ValueError (''policy decision must not perform '' @ k))) BOUNDARY_FLAGS = Inr ys)
      \<longleftrightarrow> (\<forall>k \<in> set BOUNDARY_FLAGS. dget0 b k = JBool False)" for b
    by (rule emap_eguard_iff)
  show ?thesis
  proof (cases "dget0 d ''decision_boundary''")
    case (JObj b)
    show ?thesis
      unfolding \<open>v = JObj d\<close> validate_decision_boundary_def crosses_boundary_def jget.simps
        ebind_simps dict_or_empty.simps JObj json.case
      using flags [of b] by (auto simp: ebind_Inr_iff DECISION_SCOPE_def)
  qed (auto simp: \<open>v = JObj d\<close> validate_decision_boundary_def crosses_boundary_def)
qed (auto simp: validate_decision_boundary_def crosses_boundary_def)

lemma default_boundary_ok: "\<not> crosses_boundary (JObj (policy_decision_to_dict d))"
  if "pd_boundary d = default_boundary"
  using that by (simp add: crosses_boundary_def policy_decision_to_dict_def boundary_to_dict_def
      default_boundary_def DECISION_SCOPE_def BOUNDARY_FLAGS_def)

lemma evaluate_policy_boundary: "pd_boundary (evaluate_policy W r) = default_boundary"
  by (auto simp: evaluate_policy_def local_decision_def remote_evaluate_def Let_def
      split: option.splits json.splits prod.splits)

definition count_total :: "(string \<times> int) list \<Rightarrow> int" where
  "count_total counts = sum_list (map snd counts)"

lemma count_total_dset:
  "distinct (map fst c) \<Longrightarrow> dhas c s \<Longrightarrow> count_total (dset s (dget c s 0 + 1) c) = count_total c + 1"
  by (induction c) (auto simp: count_total_def dset_def dget_def dhas_def)

lemma count_status_keys:
  "dhas c ''deferred'' \<Longrightarrow> map fst (count_status s c) = map fst c"
  by (auto simp: count_status_def Let_def keys_dset)

lemma count_status_total:
  "distinct (map fst c) \<Longrightarrow> dhas c ''deferred'' \<Longrightarrow> count_total (count_status s c) = count_total c + 1"
  by (auto simp: count_status_def Let_def count_total_dset)

lemma count_loop:
  assumes "efold (\<lambda>decision counts.
        ebind (validate_decision_boundary decision) (\<lambda>_.
        ebind (jget decision ''status'' (JStr ''deferred'')) (\<lambda>status.
        Inr (count_status (py_str status) counts)))) ds c = Inr c'"
    and "distinct (map fst c)" and "dhas c ''deferred''"
  shows "map fst c' = map fst c \<and> count_total c' = count_total c + int (length ds)"
  using assms
proof (induction ds arbitrary: c)
  case (Cons x ds)
  then obtain s where rest: "efold (\<lambda>decision counts.
        ebind (validate_decision_boundary decision) (\<lambda>_.
        ebind (jget decision ''status'' (JStr ''deferred'')) (\<lambda>status.
        Inr (count_status (py_str status) counts)))) ds (count_status s c) = Inr c'"
    by (auto simp: res_simps)
  have keys: "map fst (count_status s c) = map fst c" using Cons.prems(3) by (rule count_status_keys)
  then have "dhas (count_status s c) ''deferred''" using Cons.prems(3) by (simp add: dhas_def)
  with Cons.IH [OF rest] keys Cons.prems count_status_total [of c s] show ?case by simp
qed simp

definition lane_decision :: "policy_world \<Rightarrow> string \<Rightarrow> jdict \<Rightarrow> string \<Rightarrow> jdict" where
  "lane_decision W subject lane action = policy_decision_to_dict
     (evaluate_policy W (lane_request subject (py_str (dget lane ''name'' (JStr ''normal''))) action))"

lemma evaluate_report_policy_eq:
  "evaluate_report_policy W (map JObj lanes) subject =
     Inr (concat (map (\<lambda>lane. map (lane_decision W subject lane) LANE_ACTIONS) lanes))"
proof -
  have ok: "validate_decision_boundary (JObj (lane_decision W subject lane action)) = Inr ()" for lane action
    by (simp add: validate_boundary_iff lane_decision_def default_boundary_ok evaluate_policy_boundary)
  have inner: "emap (\<lambda>action. let payload = policy_decision_to_dict (evaluate_policy W
      (lane_request subject (py_str (dget lane ''name'' (JStr ''normal''))) action))
      in ebind (validate_decision_boundary (JObj payload)) (\<lambda>_. Inr payload)) LANE_ACTIONS
    = Inr (map (lane_decision W subject lane) LANE_ACTIONS)" for lane
    using ok by (intro emap_Inr_map) (simp add: lane_decision_def [symmetric] Let_def)
  have "emap (\<lambda>lane. ebind (jget lane ''name'' (JStr ''normal'')) (\<lambda>n.
      emap (\<lambda>action. let payload = policy_decision_to_dict (evaluate_policy W
        (lane_request subject (py_str n) action))
        in ebind (validate_decision_boundary (JObj payload)) (\<lambda>_. Inr payload)) LANE_ACTIONS)) (map JObj lanes)
    = Inr (map (\<lambda>lane. map (lane_decision W subject lane) LANE_ACTIONS) lanes)"
    using inner by (induction lanes) simp_all
  then show ?thesis by (simp add: evaluate_report_policy_def)
qed

lemma decision_counts_ok:
  assumes "\<forall>v \<in> set ds. \<not> crosses_boundary v \<and> is_dict v"
  shows "\<exists>counts. decision_counts ds = Inr counts \<and> map fst counts = sort STATUSES
    \<and> count_total counts = int (length ds)"
proof -
  have run: "\<exists>c'. efold (\<lambda>decision counts.
        ebind (validate_decision_boundary decision) (\<lambda>_.
        ebind (jget decision ''status'' (JStr ''deferred'')) (\<lambda>status.
        Inr (count_status (py_str status) counts)))) ds c = Inr c'" for c
    using assms
  proof (induction ds arbitrary: c)
    case (Cons v ds)
    then obtain d where "v = JObj d" by (auto elim: is_dictE)
    moreover have "validate_decision_boundary v = Inr ()" using Cons.prems by (simp add: validate_boundary_iff)
    ultimately show ?case using Cons by simp
  qed simp
  have "distinct (sort STATUSES)" "''deferred'' \<in> set (sort STATUSES)" by code_simp+
  then have "distinct (map fst (map (\<lambda>s. (s, 0 :: int)) (sort STATUSES)))"
    "dhas (map (\<lambda>s. (s, 0 :: int)) (sort STATUSES)) ''deferred''"
    by (simp_all add: dhas_def comp_def)
  moreover have "count_total (map (\<lambda>s. (s, 0 :: int)) (sort STATUSES)) = 0"
    by (simp add: count_total_def comp_def)
  moreover obtain c' where "decision_counts ds = Inr c'" using run by (auto simp: decision_counts_def)
  ultimately show ?thesis
    using count_loop [of ds "map (\<lambda>s. (s, 0)) (sort STATUSES)" c']
    by (auto simp: decision_counts_def comp_def)
qed

section \<open>Properties\<close>

text \<open>
  C34: the local policy allows a request exactly when its action is known and none of the five
  restrictions applies, whatever their order: no indexing, replication or agent access in the secure
  lane, no agent access or writing in the repair lane, no retention in the ephemeral lane, no
  replication or agent access of secrets and credentials.  When the remote PolicyFabric does not answer, this
  local policy decides.  So, against the documents, neither the secure nor the repair lane fails closed: with
  PolicyFabric out of reach a write in the secure lane and a purge preview in the repair lane are allowed.
\<close>

theorem local_policy_allows_iff:
  "(pd_status (local_decision W r) = ''allowed'' \<longleftrightarrow>
     pr_action r \<in> {''index'', ''retain'', ''replicate'', ''agent_access'', ''repair_preview'',
       ''purge_preview'', ''read'', ''write''}
     \<and> (pr_lane r, pr_action r) \<notin> {''secure''} \<times> {''index'', ''replicate'', ''agent_access''}
     \<and> (pr_lane r, pr_action r) \<notin> {''repair''} \<times> {''agent_access'', ''write''}
     \<and> (pr_lane r, pr_action r) \<noteq> (''ephemeral'', ''retain'')
     \<and> (pr_data_class r, pr_action r) \<notin> {''secret'', ''credential''} \<times> {''replicate'', ''agent_access''})
   \<and> evaluate_policy (W\<lparr>pw_post := \<lambda>_ _. None\<rparr>) r = local_decision W r"
proof -
  have "remote_evaluate (\<lambda>_ _. None) now url r = None" for now url
    by (simp add: remote_evaluate_def)
  then have silent: "evaluate_policy (W\<lparr>pw_post := \<lambda>_ _. None\<rparr>) r = local_decision W r"
    by (simp add: evaluate_policy_def local_decision_def split: option.split)
  have "fst (local_status a l c) = ''allowed'' \<longleftrightarrow> a \<in> set ACTIONS
      \<and> \<not> (l = ''secure'' \<and> a \<in> {''agent_access'', ''replicate''}) \<and> \<not> (l = ''secure'' \<and> a = ''index'')
      \<and> \<not> (l = ''repair'' \<and> a \<in> {''agent_access'', ''write''}) \<and> \<not> (l = ''ephemeral'' \<and> a = ''retain'')
      \<and> \<not> (c \<in> {''secret'', ''credential''} \<and> a \<in> {''replicate'', ''agent_access''})" for a l c
    by (simp add: local_status_def)
  moreover have "pd_status (local_decision W r) = fst (local_status (pr_action r) (pr_lane r) (pr_data_class r))"
    by (simp add: local_decision_def split: prod.splits)
  moreover have "set ACTIONS = {''index'', ''retain'', ''replicate'', ''agent_access'', ''repair_preview'',
      ''purge_preview'', ''read'', ''write''}"
    by (simp add: ACTIONS_def)
  ultimately show ?thesis by (simp only: mem_Sigma_iff prod.inject insert_iff empty_iff simp_thms silent) blast
qed

text \<open>
  The policy of a report is total and accountable.  For every list of lanes there are four
  decisions per lane, none of which claims an effect beyond the policy boundary, even when the
  remote service decided; and the counts of the decisions are over the four statuses and add up to
  the number of decisions.
\<close>

theorem report_policy_accounts:
  "\<exists>ds counts. evaluate_report_policy W (map JObj lanes) subject = Inr ds
     \<and> length ds = 4 * length lanes
     \<and> list_all (\<lambda>d. \<not> crosses_boundary (JObj d)) ds
     \<and> decision_counts (map JObj ds) = Inr counts
     \<and> map fst counts = [''allowed'', ''deferred'', ''denied'', ''redacted'']
     \<and> sum_list (map snd counts) = 4 * int (length lanes)"
proof -
  let ?ds = "concat (map (\<lambda>lane. map (lane_decision W subject lane) LANE_ACTIONS) lanes)"
  have len: "length ?ds = 4 * length lanes"
    by (induction lanes) (simp_all add: LANE_ACTIONS_def)
  have ok: "\<forall>d \<in> set ?ds. \<not> crosses_boundary (JObj d)"
    by (auto simp: lane_decision_def default_boundary_ok evaluate_policy_boundary)
  obtain counts where "decision_counts (map JObj ?ds) = Inr counts" "map fst counts = sort STATUSES"
    "count_total counts = int (length (map JObj ?ds))"
    using decision_counts_ok [of "map JObj ?ds"] ok by auto
  moreover have "sort STATUSES = [''allowed'', ''deferred'', ''denied'', ''redacted'']" by code_simp
  ultimately show ?thesis
    using ok len evaluate_report_policy_eq [of W lanes subject]
    by (intro exI [of _ ?ds] exI [of _ counts]) (simp add: count_total_def list_all_iff)
qed

end
