(* ===== verification/Systema.thy ===== *)
theory Systema
  imports Py_Value
begin

text \<open>
  \<open>systema.py\<close>: confidence classes, membrane events and capability radii.  A confidence is a Python
  float and is compared with the decimal literals of the source.
\<close>

definition MEMBRANE_KINDS :: "string list" where
  "MEMBRANE_KINDS = [''activation'', ''side-effect'', ''storage'']"

definition MEMBRANE_DECISIONS :: "string list" where
  "MEMBRANE_DECISIONS = [''admitted'', ''blocked'', ''revoked'', ''applied'', ''suppressed'',
     ''transformed'', ''mounted'', ''refused'']"

section \<open>Confidence\<close>

text \<open>\<open>confidence >= k / 100\<close>.\<close>

definition at_least :: "int \<Rightarrow> pyfloat \<Rightarrow> bool" where
  "at_least k c \<longleftrightarrow> float_le (Dec k (- 2)) c"

definition sourceos_class :: "pyfloat \<Rightarrow> string" where
  "sourceos_class c =
     (if at_least 85 c then ''verifier-required'' else if at_least 70 c then ''user-confirmed''
      else if at_least 50 c then ''ambient-host'' else ''stale-context-injection'')"

definition admission_policy :: "pyfloat \<Rightarrow> string" where
  "admission_policy c =
     (if at_least 85 c then ''verifier-required'' else if at_least 70 c then ''user-confirmed''
      else ''cryptographic-proof'')"

definition staleness_risk :: "pyfloat \<Rightarrow> string" where
  "staleness_risk c =
     (if at_least 85 c then ''none'' else if at_least 70 c then ''low''
      else if at_least 50 c then ''medium'' else ''high'')"

definition suppress_mutation :: "pyfloat \<Rightarrow> bool" where
  "suppress_mutation c \<longleftrightarrow> float_lt c (Dec 50 (- 2))"

definition confidence_to_dict :: "pyfloat \<Rightarrow> json" where
  "confidence_to_dict c = JObj [
     (''confidence'', JFloat c), (''sourceosClass'', JStr (sourceos_class c)),
     (''admissionPolicy'', JStr (admission_policy c)), (''stalenessRisk'', JStr (staleness_risk c)),
     (''suppressMutation'', JBool (suppress_mutation c))]"

text \<open>\<open>SourceConfidenceMapping\<close> is its confidence.\<close>

definition map_confidence :: "pyfloat \<Rightarrow> pyfloat" where
  "map_confidence c = c"

section \<open>Membrane events\<close>

record membrane_event =
  me_kind :: string
  me_decision :: string
  me_subject_ref :: string
  me_actor_ref :: string
  me_confidence :: pyfloat
  me_policy_ref :: "string option"
  me_observed_at :: string

definition membrane_to_dict :: "membrane_event \<Rightarrow> json" where
  "membrane_to_dict e = JObj [
     (''membraneKind'', JStr (me_kind e)), (''decision'', JStr (me_decision e)),
     (''subjectRef'', JStr (me_subject_ref e)), (''actorRef'', JStr (me_actor_ref e)),
     (''confidence'', JFloat (me_confidence e)),
     (''confidenceMapping'', confidence_to_dict (map_confidence (me_confidence e))),
     (''policyDecisionRef'', opt_str (me_policy_ref e)), (''observedAt'', JStr (me_observed_at e))]"

definition map_membrane_event ::
  "string \<Rightarrow> string \<Rightarrow> string \<Rightarrow> string \<Rightarrow> string \<Rightarrow> pyfloat \<Rightarrow> string option \<Rightarrow> membrane_event res" where
  "map_membrane_event now kind decision subject actor confidence policy_ref =
     (if kind \<notin> set MEMBRANE_KINDS then Inl (ValueError (''Unknown membrane kind: '' @ kind))
      else if decision \<notin> set MEMBRANE_DECISIONS then
        Inl (ValueError (''Unknown membrane decision: '' @ decision))
      else Inr \<lparr>me_kind = kind, me_decision = decision, me_subject_ref = subject, me_actor_ref = actor,
             me_confidence = confidence, me_policy_ref = policy_ref, me_observed_at = now\<rparr>)"

section \<open>Capability radii\<close>

definition CAPABILITY_RADIUS_DESCRIPTIONS :: "(int \<times> string) list" where
  "CAPABILITY_RADIUS_DESCRIPTIONS = [
     (0, ''observe-only '' @ em_dash @ '' no side effects, no network, no file writes''),
     (1, ''local-read '' @ em_dash @ '' file-read from allowed paths, no writes''),
     (2, ''local-write '' @ em_dash @ '' file-read + controlled file-write to workspace''),
     (3, ''local-execute '' @ em_dash @ '' process-spawn within policy constraints''),
     (4, ''network-local '' @ em_dash @ '' TCP to localhost/LAN, no internet''),
     (5, ''internet-connected '' @ em_dash @ '' full network egress, policy-gated'')]"

definition CONTRACT_KINDS :: "(int \<times> string) list" where
  "CONTRACT_KINDS = [(0, ''observe-only''), (1, ''read-local''), (2, ''write-local''),
     (3, ''execute-local''), (4, ''network-local''), (5, ''network-internet'')]"

record capability_radius_profile =
  cr_radius :: int
  cr_agent_ref :: string

definition radius_text :: "(int \<times> string) list \<Rightarrow> int \<Rightarrow> string" where
  "radius_text table r = (case map_of table r of None \<Rightarrow> ''unknown'' | Some s \<Rightarrow> s)"

definition radius_description :: "capability_radius_profile \<Rightarrow> string" where
  "radius_description p = radius_text CAPABILITY_RADIUS_DESCRIPTIONS (cr_radius p)"

definition capability_contract_kind :: "capability_radius_profile \<Rightarrow> string" where
  "capability_contract_kind p = radius_text CONTRACT_KINDS (cr_radius p)"

definition radius_to_dict :: "capability_radius_profile \<Rightarrow> json" where
  "radius_to_dict p = JObj [
     (''radius'', JInt (cr_radius p)), (''agentRef'', JStr (cr_agent_ref p)),
     (''description'', JStr (radius_description p)),
     (''capabilityContractKind'', JStr (capability_contract_kind p)), (''failClosed'', JBool True)]"

definition capability_radius :: "int \<Rightarrow> string \<Rightarrow> capability_radius_profile res" where
  "capability_radius r agent_ref =
     (if \<not> (0 \<le> r \<and> r \<le> 5) then
        Inl (ValueError (''Capability radius must be 0'' @ en_dash @ ''5, got '' @ int_str r))
      else Inr \<lparr>cr_radius = r, cr_agent_ref = agent_ref\<rparr>)"

section \<open>Properties\<close>

lemma at_least_mono: "at_least k c \<Longrightarrow> j \<le> k \<Longrightarrow> at_least j c"
  by (cases c)
    (auto simp: at_least_def dec_le_def intro: order_trans [OF mult_right_mono])

lemma at_least_or_below: "c \<noteq> NaN \<Longrightarrow> float_lt c (Dec k (- 2)) \<longleftrightarrow> \<not> at_least k c"
  by (cases c) (auto simp: at_least_def float_lt_def dec_le_def min.commute)

text \<open>
  For every confidence that is a number the three classifications and the suppression agree: mutation is suppressed
  exactly for stale context, which is exactly high risk and then needs a cryptographic proof.  For
  not-a-number they disagree: the context counts as stale and of high risk, yet mutation is not
  suppressed.
\<close>

theorem confidence_consistent:
  "(suppress_mutation c \<longleftrightarrow> sourceos_class c = ''stale-context-injection'' \<and> c \<noteq> NaN)
   \<and> (staleness_risk c = ''high'' \<longleftrightarrow> sourceos_class c = ''stale-context-injection'')
   \<and> (admission_policy c = ''cryptographic-proof'' \<longleftrightarrow> staleness_risk c \<in> {''medium'', ''high''})
   \<and> (sourceos_class NaN = ''stale-context-injection'' \<and> \<not> suppress_mutation NaN)"
proof -
  have "suppress_mutation c \<longleftrightarrow> \<not> at_least 50 c \<and> c \<noteq> NaN"
    using at_least_or_below [of c 50] by (cases c) (auto simp: suppress_mutation_def float_lt_def)
  moreover have "sourceos_class c = ''stale-context-injection'' \<longleftrightarrow> \<not> at_least 50 c"
    using at_least_mono [of 85 c 50] at_least_mono [of 70 c 50]
    by (simp add: sourceos_class_def)
  moreover have "staleness_risk c = ''high'' \<longleftrightarrow> \<not> at_least 50 c"
    using at_least_mono [of 85 c 50] at_least_mono [of 70 c 50]
    by (simp add: staleness_risk_def)
  moreover have "admission_policy c = ''cryptographic-proof'' \<longleftrightarrow> staleness_risk c \<in> {''medium'', ''high''}"
    by (simp add: admission_policy_def staleness_risk_def)
  moreover have "sourceos_class NaN = ''stale-context-injection''" "\<not> suppress_mutation NaN"
    by (simp_all add: sourceos_class_def at_least_def suppress_mutation_def float_lt_def)
  ultimately show ?thesis by blast
qed

end
