(* ===== verification/Py_Float.thy ===== *)
theory Py_Float
  imports Py_Value Complex_Main
begin

text \<open>
  The floating-point arithmetic the program does on numbers it computes: quotients and products of
  integers rounded to doubles, and \<open>round\<close>.  A double is \<open>m * 2 ^ e\<close> given as \<open>(m, e)\<close>; overflow and
  subnormal numbers do not occur at the magnitudes the program meets and are not modelled.
\<close>

type_synonym double = "int \<times> int"

text \<open>\<open>p / q\<close> rounded to an integer, half to even, for \<open>q > 0\<close>.\<close>

definition round_half_even :: "int \<Rightarrow> int \<Rightarrow> int" where
  "round_half_even p q =
     (let d = p div q; r = p mod q in
      if 2 * r < q then d else if 2 * r > q then d + 1 else if even d then d else d + 1)"

lemma round_half_even_exact [simp]: "0 < q \<Longrightarrow> round_half_even (p * q) q = p"
  by (simp add: round_half_even_def)

lemma round_half_even_near:
  assumes "0 < q"
  shows "2 * \<bar>round_half_even p q * q - p\<bar> \<le> q"
proof -
  define d r where "d = p div q" and "r = p mod q"
  have p: "p = d * q + r" and r: "0 \<le> r" "r < q" using assms by (simp_all add: d_def r_def)
  have "round_half_even p q = d \<and> 2 * r \<le> q \<or> round_half_even p q = d + 1 \<and> q \<le> 2 * r"
    by (auto simp: round_half_even_def Let_def d_def r_def)
  then show ?thesis using r by (auto simp: p distrib_right abs_if)
qed

text \<open>How often \<open>p\<close> has to be doubled to reach \<open>2 ^ 52 * q\<close>, and how often \<open>q\<close> to exceed
  \<open>p / 2 ^ 53\<close>.\<close>

function scale_up :: "int \<Rightarrow> int \<Rightarrow> nat" where
  "scale_up p q = (if p \<le> 0 \<or> 2 ^ 52 * q \<le> p then 0 else Suc (scale_up (2 * p) q))"
  by pat_completeness auto
termination
  by (relation "measure (\<lambda>(p, q). nat (2 ^ 52 * q - p))") auto

function scale_down :: "int \<Rightarrow> int \<Rightarrow> nat" where
  "scale_down p q = (if q \<le> 0 \<or> p < 2 ^ 53 * q then 0 else Suc (scale_down p (2 * q)))"
  by pat_completeness auto
termination
  by (relation "measure (\<lambda>(p, q). nat (p - 2 ^ 53 * q + 1))") auto

declare scale_up.simps [simp del] scale_down.simps [simp del]

text \<open>The double nearest to \<open>p / q\<close>, with 53 significant bits.\<close>

definition to_double :: "int \<Rightarrow> int \<Rightarrow> double" where
  "to_double p q =
     (let a = \<bar>p\<bar>; k = scale_up a q; j = scale_down a q
      in (sgn p * round_half_even (a * 2 ^ k) (q * 2 ^ j), int j - int k))"

text \<open>Numerator and denominator of a double.\<close>

definition num_of :: "double \<Rightarrow> int" where "num_of x = fst x * 2 ^ nat (snd x)"
definition den_of :: "double \<Rightarrow> int" where "den_of x = 2 ^ nat (- snd x)"

definition double_times_int :: "double \<Rightarrow> int \<Rightarrow> double" where
  "double_times_int x n = to_double (num_of x * n) (den_of x)"

text \<open>\<open>int(x)\<close> and \<open>round(x, n)\<close>.\<close>

definition double_trunc :: "double \<Rightarrow> int" where
  "double_trunc x = sgn (num_of x) * (\<bar>num_of x\<bar> div den_of x)"

text \<open>A decimal without trailing zeros, as \<open>repr\<close> shows it.\<close>

function strip_zeros :: "int \<Rightarrow> int \<Rightarrow> pyfloat" where
  "strip_zeros m e = (if m \<noteq> 0 \<and> m mod 10 = 0 then strip_zeros (m div 10) (e + 1) else Dec m e)"
  by pat_completeness auto
termination
  by (relation "measure (\<lambda>(m, e). nat \<bar>m\<bar>)") auto

declare strip_zeros.simps [simp del]

definition round_digits :: "nat \<Rightarrow> double \<Rightarrow> pyfloat" where
  "round_digits n x =
     strip_zeros (round_half_even (10 ^ n * num_of x) (den_of x)) (- int n)"

lemma den_of_pos: "0 < den_of x"
  by (simp add: den_of_def)

lemma strip_zeros_value:
  "\<exists>k. strip_zeros m e = Dec (m div 10 ^ k) (e + int k) \<and> 10 ^ k dvd m"
proof (induction m e rule: strip_zeros.induct)
  case (1 m e)
  show ?case
  proof (cases "m \<noteq> 0 \<and> m mod 10 = 0")
    case True
    then obtain k where k: "strip_zeros (m div 10) (e + 1) = Dec (m div 10 div 10 ^ k) (e + 1 + int k)"
      "10 ^ k dvd m div 10"
      using 1 [OF True] by (elim exE conjE) (rule that)
    have m: "m = 10 * (m div 10)" using True by presburger
    have "strip_zeros m e = Dec (m div 10 ^ Suc k) (e + int (Suc k))"
      using True k strip_zeros.simps [of m e] by (simp add: zdiv_zmult2_eq algebra_simps)
    moreover have "10 ^ Suc k dvd m"
      by (subst m) (use k in \<open>simp only: power_Suc mult_dvd_mono dvd_refl\<close>)
    ultimately show ?thesis by blast
  next
    case False
    then show ?thesis using strip_zeros.simps [of m e] by (intro exI [of _ 0]) auto
  qed
qed

section \<open>Ratios\<close>

text \<open>What is rounded depends on the ratio only.\<close>

lemma same_ratio_div:
  fixes p q p' q' :: int
  assumes "p * q' = p' * q" and "0 < q" and "0 < q'"
  shows "p div q = p' div q'" and "(p mod q) * q' = (p' mod q') * q"
proof -
  have "p div q = (p * q') div (q * q')" using assms(3) by simp
  also have "\<dots> = (p' * q) div (q' * q)" using assms(1) by (simp add: mult.commute)
  also have "\<dots> = p' div q'" using assms(2) by simp
  finally show d: "p div q = p' div q'" .
  have "(p mod q) * q' = p * q' - (p div q) * (q * q')" by (simp add: minus_div_mult_eq_mod [symmetric] algebra_simps)
  also have "\<dots> = p' * q - (p' div q') * (q' * q)" using assms(1) d by (simp add: mult.commute)
  also have "\<dots> = (p' mod q') * q" by (simp add: minus_div_mult_eq_mod [symmetric] algebra_simps)
  finally show "(p mod q) * q' = (p' mod q') * q" .
qed

lemma round_same_ratio:
  assumes "p * q' = p' * q" and "0 < q" and "0 < q'"
  shows "round_half_even p q = round_half_even p' q'"
proof -
  note r = same_ratio_div [OF assms]
  have "2 * (p mod q) < q \<longleftrightarrow> 2 * ((p mod q) * q') < q * q'" using assms(3) by (simp add: mult.assoc [symmetric])
  also have "\<dots> \<longleftrightarrow> 2 * (p' mod q') < q'" using assms(2) by (simp add: r(2) mult.assoc [symmetric] mult.commute [of q])
  finally have lt: "2 * (p mod q) < q \<longleftrightarrow> 2 * (p' mod q') < q'" .
  have "q < 2 * (p mod q) \<longleftrightarrow> q * q' < 2 * ((p mod q) * q')" using assms(3) by (simp add: mult.assoc [symmetric])
  also have "\<dots> \<longleftrightarrow> q' < 2 * (p' mod q')" using assms(2) by (simp add: r(2) mult.assoc [symmetric] mult.commute [of q])
  finally show ?thesis using lt by (simp add: round_half_even_def Let_def r(1))
qed

lemma scale_up_ratio: "p * q' = p' * q \<Longrightarrow> 0 < q \<Longrightarrow> 0 < q' \<Longrightarrow> scale_up p q = scale_up p' q'"
proof (induction p q arbitrary: p' q' rule: scale_up.induct)
  case (1 p q)
  have s: "p \<le> 0 \<longleftrightarrow> p' \<le> 0"
  proof -
    have "p \<le> 0 \<longleftrightarrow> p * q' \<le> 0" using "1.prems"(3) by (simp add: mult_le_0_iff)
    also have "\<dots> \<longleftrightarrow> p' \<le> 0" using "1.prems"(1,2) by (simp add: mult_le_0_iff)
    finally show ?thesis .
  qed
  have "2 ^ 52 * q \<le> p \<longleftrightarrow> 2 ^ 52 * q * q' \<le> p * q'" using "1.prems"(3) by simp
  also have "\<dots> \<longleftrightarrow> 2 ^ 52 * q' * q \<le> p' * q" using "1.prems"(1) by (simp add: mult.assoc mult.commute [of q])
  also have "\<dots> \<longleftrightarrow> 2 ^ 52 * q' \<le> p'" using "1.prems"(2) by simp
  finally have b: "2 ^ 52 * q \<le> p \<longleftrightarrow> 2 ^ 52 * q' \<le> p'" .
  show ?case
  proof (cases "p \<le> 0 \<or> 2 ^ 52 * q \<le> p")
    case True
    then show ?thesis using s b by (simp only: scale_up.simps [of p] scale_up.simps [of p'] if_True)
  next
    case False
    have "scale_up (2 * p) q = scale_up (2 * p') q'" using "1.prems" by (intro "1.IH" [OF False]) auto
    then show ?thesis using False s b by (simp only: scale_up.simps [of p] scale_up.simps [of p'] if_False)
  qed
qed

lemma scale_up_at: "0 < p \<Longrightarrow> 2 ^ 52 * q \<le> p * 2 ^ k \<Longrightarrow> k = 0 \<or> p * 2 ^ (k - 1) < 2 ^ 52 * q \<Longrightarrow> scale_up p q = k"
proof (induction k arbitrary: p)
  case 0
  then show ?case by (simp add: scale_up.simps [of p q])
next
  case (Suc k)
  have "p \<le> p * 2 ^ k" using Suc.prems(1) by simp
  also have "\<dots> < 2 ^ 52 * q" using Suc.prems(3) by simp
  finally have small: "\<not> 2 ^ 52 * q \<le> p" by simp
  have "2 * p * 2 ^ k = p * 2 ^ Suc k" by simp
  then have c: "2 ^ 52 * q \<le> 2 * p * 2 ^ k" using Suc.prems(2) by (simp only:)
  have "2 * p * 2 ^ (k - 1) < 2 ^ 52 * q" if "k \<noteq> 0"
  proof -
    have "2 * p * 2 ^ (k - 1) = p * 2 ^ (Suc k - 1)" using that by (cases k) simp_all
    then show ?thesis using Suc.prems(3) by (simp only:) blast
  qed
  then have "scale_up (2 * p) q = k" using Suc.prems(1) c by (intro Suc.IH) auto
  then show ?case using small Suc.prems(1) by (simp only: scale_up.simps [of p q]) simp
qed

lemma scale_down_ratio: "p * q' = p' * q \<Longrightarrow> 0 < q \<Longrightarrow> 0 < q' \<Longrightarrow> scale_down p q = scale_down p' q'"
proof (induction p q arbitrary: p' q' rule: scale_down.induct)
  case (1 p q)
  have "p < 2 ^ 53 * q \<longleftrightarrow> p * q' < 2 ^ 53 * q * q'" using "1.prems"(3) by simp
  also have "\<dots> \<longleftrightarrow> p' * q < 2 ^ 53 * q' * q" using "1.prems"(1) by (simp add: mult.assoc mult.commute [of q])
  also have "\<dots> \<longleftrightarrow> p' < 2 ^ 53 * q'" using "1.prems"(2) by simp
  finally have b0: "p < 2 ^ 53 * q \<longleftrightarrow> p' < 2 ^ 53 * q'" .
  have b: "q \<le> 0 \<or> p < 2 ^ 53 * q \<longleftrightarrow> q' \<le> 0 \<or> p' < 2 ^ 53 * q'"
  proof -
    have "\<not> q \<le> 0" "\<not> q' \<le> 0" using "1.prems"(2,3) by (simp_all only: not_le)
    then show ?thesis using b0 by (simp only: simp_thms)
  qed
  show ?case
  proof (cases "q \<le> 0 \<or> p < 2 ^ 53 * q")
    case True
    then show ?thesis using b by (simp only: scale_down.simps [of p q] scale_down.simps [of p' q'] if_True)
  next
    case False
    have "scale_down p (2 * q) = scale_down p' (2 * q')" using "1.prems" by (intro "1.IH" [OF False]) auto
    then show ?thesis using False b by (simp only: scale_down.simps [of p q] scale_down.simps [of p' q'] if_False)
  qed
qed

lemma round_half_even_le:
  assumes "0 < q" and "p \<le> n * q"
  shows "round_half_even p q \<le> n"
proof -
  define d r where "d = p div q" and "r = p mod q"
  have p: "p = d * q + r" and r: "0 \<le> r" "r < q" using assms by (simp_all add: d_def r_def)
  have "p div q \<le> n * q div q" by (rule zdiv_mono1) (use assms in auto)
  then have "d \<le> n" using assms(1) by (simp add: d_def)
  moreover have "d < n" if "0 < r"
  proof -
    have "d * q < n * q" using assms(2) that p by linarith
    then show ?thesis using assms(1) by simp
  qed
  ultimately show ?thesis
    using assms(1) by (cases "r = 0") (auto simp: round_half_even_def Let_def d_def [symmetric] r_def [symmetric])
qed

lemma round_half_even_ge0: "0 < q \<Longrightarrow> 0 \<le> p \<Longrightarrow> 0 \<le> round_half_even p q"
  by (auto simp: round_half_even_def Let_def pos_imp_zdiv_nonneg_iff)

lemma to_double_unit:
  assumes "0 \<le> p" and "p \<le> q" and "0 < q"
  shows "0 \<le> num_of (to_double p q)" and "num_of (to_double p q) \<le> den_of (to_double p q)"
proof -
  have down: "scale_down \<bar>p\<bar> q = 0" using assms by (subst scale_down.simps) auto
  define k where "k = scale_up \<bar>p\<bar> q"
  have d: "to_double p q = (sgn p * round_half_even (p * 2 ^ k) q, - int k)"
    using assms using down by (simp add: to_double_def Let_def k_def)
  have "0 \<le> round_half_even (p * 2 ^ k) q" using assms by (intro round_half_even_ge0) auto
  moreover have "round_half_even (p * 2 ^ k) q \<le> 2 ^ k"
    using assms by (intro round_half_even_le) (auto simp: mult.commute intro: mult_right_mono)
  ultimately have "0 \<le> sgn p * round_half_even (p * 2 ^ k) q" "sgn p * round_half_even (p * 2 ^ k) q \<le> 2 ^ k"
    using assms(1) by (cases "p = 0"; simp)+
  then show "0 \<le> num_of (to_double p q)" "num_of (to_double p q) \<le> den_of (to_double p q)"
    by (simp_all add: d num_of_def den_of_def)
qed

lemma round_digits_unit:
  assumes "0 \<le> num_of x" and "num_of x \<le> den_of x"
  obtains m e where "round_digits n x = Dec m e" and "0 \<le> m" and "dec_le m e 1 0"
proof -
  define M where "M = round_half_even (10 ^ n * num_of x) (den_of x)"
  have M: "0 \<le> M" "M \<le> 10 ^ n"
    unfolding M_def using assms den_of_pos [of x]
    by (auto intro!: round_half_even_ge0 round_half_even_le simp: mult_left_mono)
  obtain k where k: "strip_zeros M (- int n) = Dec (M div 10 ^ k) (- int n + int k)" "10 ^ k dvd M"
    using strip_zeros_value by blast
  let ?m = "M div 10 ^ k"
  have "(of_int ?m :: real) * 10 powi (- int n + int k) = of_int (?m * 10 ^ k) * 10 powi (- int n)"
    using power_int_add [of "10 :: real" "int k" "- int n"] by simp
  also have "?m * 10 ^ k = M" using k(2) by simp
  also have "of_int M * 10 powi (- int n) \<le> (1 :: real)"
  proof -
    have "of_int M \<le> (10 ^ n :: real)" using M(2) by (metis of_int_le_iff of_int_numeral of_int_power)
    then show ?thesis by (simp add: power_int_minus field_simps)
  qed
  finally have "dec_le ?m (- int n + int k) 1 0" by (simp add: dec_le_iff_real [where 'a = real])
  moreover have "0 \<le> ?m" using M(1) by (simp add: pos_imp_zdiv_nonneg_iff)
  ultimately show thesis using k(1) by (intro that) (simp_all add: round_digits_def M_def)
qed

lemma dec_in_unit: "0 \<le> m \<Longrightarrow> dec_le m e 1 0 \<Longrightarrow>
   \<not> float_lt (Dec m e) (Dec 0 0) \<and> \<not> float_lt (Dec 1 0) (Dec m e)"
  by (auto simp: float_lt_def dec_le_def)

end
