(* ===== verification/Noise_Budget.thy ===== *)
theory Noise_Budget
  imports Json_Text Py_Float
begin

text \<open>
  \<open>noise_budget.py\<close>: suppression of repeated events.  \<open>sha256\<close> is the hexadecimal digest of a text; a
  reading of the clock is an argument.  The engine's methods mutate it; here they return it.
\<close>

section \<open>The engine\<close>

definition event_key :: "(string \<Rightarrow> string) \<Rightarrow> jdict \<Rightarrow> string" where
  "event_key sha256 event = take 16 (sha256 (json_dumps_sorted (JObj [
     (''kind'', dget event ''kind'' (JStr '''')),
     (''source'', dget event ''source'' (JStr '''')),
     (''subject_ref'', dget event ''subjectRef'' (dget event ''subject_ref'' (JStr '''')))])))"

record noise_config =
  nc_max :: int
  nc_window_seconds :: int
  nc_critical_kinds :: "string list"
  nc_exempt_sources :: "string list"

definition default_noise_config :: noise_config where
  "default_noise_config =
     \<lparr>nc_max = 10, nc_window_seconds = 300,
      nc_critical_kinds = [''state-integrity-violation'', ''policy-violation'', ''repair-required'',
        ''conflict-detected'', ''identity-loss''],
      nc_exempt_sources = []\<rparr>"

record coalesced_event =
  ce_event :: jdict
  ce_count :: int
  ce_first_seen :: string
  ce_last_seen :: string
  ce_suppressed :: int
  ce_key :: string

definition coalesced_to_dict :: "coalesced_event \<Rightarrow> json" where
  "coalesced_to_dict c = JObj [
     (''event'', JObj (ce_event c)), (''count'', JInt (ce_count c)),
     (''firstSeen'', JStr (ce_first_seen c)), (''lastSeen'', JStr (ce_last_seen c)),
     (''suppressedCount'', JInt (ce_suppressed c)), (''key'', JStr (ce_key c))]"

record noise_engine =
  ne_config :: noise_config
  ne_seen :: "coalesced_event dict"
  ne_received :: int
  ne_suppressed :: int
  ne_critical :: int

definition new_engine :: "noise_config \<Rightarrow> noise_engine" where
  "new_engine cfg = \<lparr>ne_config = cfg, ne_seen = [], ne_received = 0, ne_suppressed = 0, ne_critical = 0\<rparr>"

text \<open>\<open>kind in critical_kinds or source in exempt_sources\<close>: the second test is not made when the first
  holds.\<close>

definition is_critical :: "noise_config \<Rightarrow> jdict \<Rightarrow> bool res" where
  "is_critical cfg event =
     ebind (in_set (dget event ''kind'' (JStr '''')) (nc_critical_kinds cfg)) (\<lambda>critical.
     if critical then Inr True
     else in_set (dget event ''source'' (JStr '''')) (nc_exempt_sources cfg))"

definition first_sighting :: "jdict \<Rightarrow> string \<Rightarrow> string \<Rightarrow> string \<Rightarrow> coalesced_event" where
  "first_sighting event now later key =
     \<lparr>ce_event = event, ce_count = 1, ce_first_seen = now, ce_last_seen = later, ce_suppressed = 0,
      ce_key = key\<rparr>"

definition see :: "coalesced_event \<Rightarrow> noise_engine \<Rightarrow> noise_engine" where
  "see c e = e\<lparr>ne_seen := dset (ce_key c) c (ne_seen e)\<rparr>"

definition ingest ::
  "(string \<Rightarrow> string) \<Rightarrow> string \<Rightarrow> string \<Rightarrow> json \<Rightarrow> noise_engine
   \<Rightarrow> noise_engine \<times> coalesced_event option res" where
  "ingest sha256 now later v e0 =
     (let e = e0\<lparr>ne_received := ne_received e0 + 1\<rparr> in
      case v of
        JObj event \<Rightarrow>
          (let key = event_key sha256 event in
           case is_critical (ne_config e) event of
             Inl x \<Rightarrow> (e, Inl x)
           | Inr True \<Rightarrow>
               (let c = first_sighting event now later key
                in (see c (e\<lparr>ne_critical := ne_critical e + 1\<rparr>), Inr (Some c)))
           | Inr False \<Rightarrow>
               (case map_of (ne_seen e) key of
                  Some old \<Rightarrow>
                    if ce_count old \<ge> nc_max (ne_config e) then
                      (e\<lparr>ne_seen := dset key (old\<lparr>ce_suppressed := ce_suppressed old + 1\<rparr>) (ne_seen e),
                         ne_suppressed := ne_suppressed e + 1\<rparr>, Inr None)
                    else
                      (let c = \<lparr>ce_event = event, ce_count = ce_count old + 1,
                                ce_first_seen = ce_first_seen old, ce_last_seen = now,
                                ce_suppressed = ce_suppressed old, ce_key = key\<rparr>
                       in (see c e, Inr (Some c)))
                | None \<Rightarrow>
                    (let c = first_sighting event now later key in (see c e, Inr (Some c)))))
      | _ \<Rightarrow> (e, Inl AttributeError))"

definition flush :: "noise_engine \<Rightarrow> noise_engine" where
  "flush e = e\<lparr>ne_seen := [], ne_received := 0, ne_suppressed := 0, ne_critical := 0\<rparr>"

record budget_report =
  br_window_seconds :: int
  br_received :: int
  br_unique :: int
  br_suppressed :: int
  br_utilization :: double
  br_critical :: int
  br_note :: string

definition budget_report :: "noise_engine \<Rightarrow> budget_report" where
  "budget_report e =
     \<lparr>br_window_seconds = nc_window_seconds (ne_config e), br_received = ne_received e,
      br_unique = int (length (ne_seen e)), br_suppressed = ne_suppressed e,
      br_utilization = to_double (ne_suppressed e) (max (ne_received e) 1),
      br_critical = ne_critical e, br_note = ''''\<rparr>"

definition budget_to_dict :: "budget_report \<Rightarrow> json" where
  "budget_to_dict r = JObj [
     (''windowSeconds'', JInt (br_window_seconds r)), (''totalEventsReceived'', JInt (br_received r)),
     (''uniqueEvents'', JInt (br_unique r)), (''suppressedEvents'', JInt (br_suppressed r)),
     (''budgetUtilization'', JFloat (round_digits 3 (br_utilization r))),
     (''criticalEventsPassed'', JInt (br_critical r)), (''note'', JStr (br_note r))]"

text \<open>A sequence of calls of \<open>ingest\<close>, each with its readings of the clock; a call that raises leaves the
  engine to the next one.\<close>

fun ingest_all ::
  "(string \<Rightarrow> string) \<Rightarrow> (string \<times> string \<times> json) list \<Rightarrow> noise_engine
   \<Rightarrow> noise_engine \<times> coalesced_event option res list" where
  "ingest_all sha256 [] e = (e, [])"
| "ingest_all sha256 ((now, later, v) # vs) e =
     (case ingest sha256 now later v e of
        (e1, r) \<Rightarrow> (case ingest_all sha256 vs e1 of (e2, rs) \<Rightarrow> (e2, r # rs)))"

section \<open>The budget of a key\<close>

text \<open>How many more events of a key will surface.\<close>

definition room :: "string \<Rightarrow> noise_engine \<Rightarrow> nat" where
  "room k e = nat (case map_of (ne_seen e) k of
       None \<Rightarrow> max 1 (nc_max (ne_config e))
     | Some c \<Rightarrow> nc_max (ne_config e) - ce_count c)"

definition has_key :: "(string \<Rightarrow> string) \<Rightarrow> string \<Rightarrow> json \<Rightarrow> bool" where
  "has_key sha256 k v \<longleftrightarrow> is_dict v \<and> event_key sha256 (dict_or_empty v) = k"

definition ordinary :: "noise_config \<Rightarrow> json \<Rightarrow> bool" where
  "ordinary cfg v \<longleftrightarrow> is_dict v \<and> is_critical cfg (dict_or_empty v) = Inr False"

lemma ingest_config [simp]: "ne_config (fst (ingest sha256 now later v e)) = ne_config e"
  by (auto simp: ingest_def see_def Let_def split: json.splits sum.splits bool.splits option.splits)

lemma ingest_first:
  assumes "is_critical (ne_config e) event = Inr False" and "map_of (ne_seen e) (event_key sha256 event) = None"
  shows "ingest sha256 now later (JObj event) e =
    (see (first_sighting event now later (event_key sha256 event)) (e\<lparr>ne_received := ne_received e + 1\<rparr>),
     Inr (Some (first_sighting event now later (event_key sha256 event))))"
  using assms by (simp add: ingest_def Let_def)

lemma ingest_full:
  assumes "is_critical (ne_config e) event = Inr False"
    and "map_of (ne_seen e) (event_key sha256 event) = Some old" and "nc_max (ne_config e) \<le> ce_count old"
  shows "snd (ingest sha256 now later (JObj event) e) = Inr None"
    and "ne_seen (fst (ingest sha256 now later (JObj event) e)) =
      dset (event_key sha256 event) (old\<lparr>ce_suppressed := ce_suppressed old + 1\<rparr>) (ne_seen e)"
  using assms by (simp_all add: ingest_def Let_def)

lemma ingest_repeat:
  assumes "is_critical (ne_config e) event = Inr False"
    and "map_of (ne_seen e) (event_key sha256 event) = Some old" and "ce_count old < nc_max (ne_config e)"
  shows "\<exists>c. snd (ingest sha256 now later (JObj event) e) = Inr (Some c) \<and> ce_count c = ce_count old + 1
    \<and> ne_seen (fst (ingest sha256 now later (JObj event) e)) = dset (event_key sha256 event) c (ne_seen e)"
  using assms by (simp add: ingest_def Let_def see_def)

lemma room_seen: "map_of (ne_seen e) k = Some c \<Longrightarrow> room k e = nat (nc_max (ne_config e) - ce_count c)"
  by (simp add: room_def)

lemma room_unseen: "map_of (ne_seen e) k = None \<Longrightarrow> room k e = nat (max 1 (nc_max (ne_config e)))"
  by (simp add: room_def)

lemma ingest_ordinary:
  assumes "ordinary (ne_config e) v" and "has_key sha256 k v"
  obtains (surfaced) c where "snd (ingest sha256 now later v e) = Inr (Some c)" "0 < room k e"
      "room k (fst (ingest sha256 now later v e)) = room k e - 1"
  | (suppressed) "snd (ingest sha256 now later v e) = Inr None" "room k e = 0"
      "room k (fst (ingest sha256 now later v e)) = 0"
proof -
  obtain event where v: "v = JObj event" "event_key sha256 event = k"
    "is_critical (ne_config e) event = Inr False"
    using assms by (auto simp: ordinary_def has_key_def elim: is_dictE)
  let ?e1 = "fst (ingest sha256 now later v e)"
  have cfg: "ne_config ?e1 = ne_config e" by simp
  show thesis
  proof (cases "map_of (ne_seen e) k")
    case None
    have "map_of (ne_seen ?e1) k = Some (first_sighting event now later k)"
      "snd (ingest sha256 now later v e) = Inr (Some (first_sighting event now later k))"
      using ingest_first [OF v(3), of sha256 now later] None
      by (simp_all add: v(1,2) see_def map_of_dset first_sighting_def)
    then show thesis
      using room_seen [of ?e1 k] room_unseen [OF None] cfg
      by (intro surfaced) (auto simp: first_sighting_def)
  next
    case (Some old)
    show thesis
    proof (cases "nc_max (ne_config e) \<le> ce_count old")
      case True
      have "map_of (ne_seen ?e1) k = Some (old\<lparr>ce_suppressed := ce_suppressed old + 1\<rparr>)"
        "snd (ingest sha256 now later v e) = Inr None"
        using ingest_full [OF v(3), of sha256 old now later] True Some by (simp_all add: v(1,2) map_of_dset)
      then show thesis
        using room_seen [of ?e1 k] room_seen [OF Some] cfg True by (intro suppressed) auto
    next
      case False
      then obtain c where "snd (ingest sha256 now later v e) = Inr (Some c)" "ce_count c = ce_count old + 1"
        "map_of (ne_seen ?e1) k = Some c"
        using ingest_repeat [OF v(3), of sha256 old now later] Some by (auto simp: v(1,2) map_of_dset)
      then show thesis
        using room_seen [of ?e1 k] room_seen [OF Some] cfg False by (intro surfaced) auto
    qed
  qed
qed

lemma ingest_other_key:
  assumes "\<not> has_key sha256 k v"
  shows "room k (fst (ingest sha256 now later v e)) = room k e"
  using assms
  by (auto simp: ingest_def Let_def room_def see_def first_sighting_def map_of_dset has_key_def
      split: json.splits sum.splits bool.splits option.splits)

definition surfaced :: "coalesced_event option res \<Rightarrow> bool" where
  "surfaced r \<longleftrightarrow> (\<exists>c. r = Inr (Some c))"

definition surfaced_of ::
  "(string \<Rightarrow> string) \<Rightarrow> string \<Rightarrow> (string \<times> string \<times> json) list \<Rightarrow> noise_engine \<Rightarrow> nat" where
  "surfaced_of sha256 k vs e =
     length [(x, r) \<leftarrow> zip vs (snd (ingest_all sha256 vs e)). has_key sha256 k (snd (snd x)) \<and> surfaced r]"

definition arrivals :: "(string \<Rightarrow> string) \<Rightarrow> string \<Rightarrow> (string \<times> string \<times> json) list \<Rightarrow> nat" where
  "arrivals sha256 k vs = length [x \<leftarrow> vs. has_key sha256 k (snd (snd x))]"

lemma surfaced_of_Cons:
  "surfaced_of sha256 k ((now, later, v) # vs) e =
     (if has_key sha256 k v \<and> surfaced (snd (ingest sha256 now later v e)) then 1 else 0)
     + surfaced_of sha256 k vs (fst (ingest sha256 now later v e))"
  by (simp add: surfaced_of_def split: prod.splits)

lemma surfaced_of_room:
  assumes "\<forall>(now, later, v) \<in> set vs. has_key sha256 k v \<longrightarrow> ordinary (ne_config e) v"
  shows "surfaced_of sha256 k vs e = min (arrivals sha256 k vs) (room k e)"
  using assms
proof (induction vs arbitrary: e)
  case (Cons x vs)
  obtain now later v where x: "x = (now, later, v)" by (cases x)
  let ?e1 = "fst (ingest sha256 now later v e)"
  have IH: "surfaced_of sha256 k vs ?e1 = min (arrivals sha256 k vs) (room k ?e1)"
    using Cons.prems by (intro Cons.IH) simp
  show ?case
  proof (cases "has_key sha256 k v")
    case True
    then have "ordinary (ne_config e) v" using Cons.prems x by auto
    from this True show ?thesis
    proof (cases rule: ingest_ordinary [where now = now and later = later])
      case (surfaced c)
      with True IH show ?thesis by (simp add: x surfaced_of_Cons surfaced_def arrivals_def)
    next
      case suppressed
      with True IH show ?thesis by (simp add: x surfaced_of_Cons surfaced_def arrivals_def)
    qed
  next
    case False
    with IH ingest_other_key [OF False] show ?thesis by (simp add: x surfaced_of_Cons arrivals_def)
  qed
qed (simp add: surfaced_of_def arrivals_def)

section \<open>Properties\<close>

text \<open>
  C36: the budget is exact.  Of the events with one key, none of them critical or exempt, exactly the
  first \<open>max 1 nc_max\<close> surface, whatever other events, critical ones included, come between them and
  whatever the clock says: the window length plays no part, and only \<open>flush\<close> renews a budget.
\<close>

theorem noise_budget_exact:
  assumes "\<forall>(now, later, v) \<in> set vs. has_key sha256 k v \<longrightarrow> ordinary cfg v"
  shows "surfaced_of sha256 k vs (new_engine cfg) = min (arrivals sha256 k vs) (nat (max 1 (nc_max cfg)))"
  using surfaced_of_room [of vs sha256 k "new_engine cfg"] assms
  by (simp add: new_engine_def room_def)

theorem noise_budget_exact_witness:
  "surfaced_of (\<lambda>s. s) (event_key (\<lambda>s. s) [(''kind'', JStr ''cpu'')])
     (replicate 12 (''t0'', ''t1'', JObj [(''kind'', JStr ''cpu'')])) (new_engine default_noise_config) = 10"
proof -
  let ?vs = "replicate 12 (''t0'', ''t1'', JObj [(''kind'', JStr ''cpu'')])"
  let ?k = "event_key (\<lambda>s. s) [(''kind'', JStr ''cpu'')]"
  have "ordinary default_noise_config (JObj [(''kind'', JStr ''cpu'')])" by code_simp
  then have "\<forall>(now, later, v) \<in> set ?vs. has_key (\<lambda>s. s) ?k v \<longrightarrow> ordinary default_noise_config v"
    by simp
  from noise_budget_exact [OF this] have "surfaced_of (\<lambda>s. s) ?k ?vs (new_engine default_noise_config) =
      min (arrivals (\<lambda>s. s) ?k ?vs) 10"
    by (simp add: default_noise_config_def)
  also have "arrivals (\<lambda>s. s) ?k ?vs = 12"
    by (simp add: arrivals_def has_key_def numeral_eq_Suc)
  finally show ?thesis by simp
qed

lemma ingest_counts:
  assumes "ingest sha256 now later v e = (e1, r)"
  shows "ne_received e1 = ne_received e + 1"
    and "ne_suppressed e1 = ne_suppressed e + (if r = Inr None then 1 else 0)"
    and "ne_critical e1 \<le> ne_critical e + (if surfaced r then 1 else 0)"
proof -
  show "ne_received e1 = ne_received e + 1"
    using assms by (auto simp: ingest_def see_def Let_def
        split: json.splits sum.splits bool.splits option.splits if_splits)
  show "ne_suppressed e1 = ne_suppressed e + (if r = Inr None then 1 else 0)"
    using assms by (auto simp: ingest_def see_def Let_def
        split: json.splits sum.splits bool.splits option.splits if_splits)
  show "ne_critical e1 \<le> ne_critical e + (if surfaced r then 1 else 0)"
    using assms by (auto simp: ingest_def see_def Let_def surfaced_def
        split: json.splits sum.splits bool.splits option.splits if_splits)
qed

lemma ingest_all_counts:
  "ingest_all sha256 vs e = (e', rs) \<Longrightarrow>
     ne_received e' = ne_received e + int (length vs)
     \<and> ne_suppressed e' = ne_suppressed e + int (length [r \<leftarrow> rs. r = Inr None])
     \<and> ne_critical e' \<le> ne_critical e + int (length [r \<leftarrow> rs. surfaced r])
     \<and> length rs = length vs"
proof (induction vs arbitrary: e rs)
  case (Cons x vs)
  obtain now later v where x: "x = (now, later, v)" by (cases x)
  obtain e1 r where one: "ingest sha256 now later v e = (e1, r)" by fastforce
  with Cons.prems x obtain rs' where rs: "rs = r # rs'" and rest: "ingest_all sha256 vs e1 = (e', rs')"
    by (auto split: prod.splits)
  from Cons.IH [OF rest] ingest_counts [OF one] show ?case by (auto simp: rs)
qed simp

text \<open>
  The counters of the engine account for every call: the received counter counts the calls,
  including those that raised, the suppressed counter counts exactly the calls that returned nothing, and
  the critical counter never exceeds the calls that surfaced an event.
\<close>

theorem noise_accounting:
  "(case ingest_all sha256 vs (new_engine cfg) of (e, rs) \<Rightarrow>
      br_received (budget_report e) = int (length vs)
      \<and> br_suppressed (budget_report e) = int (length [r \<leftarrow> rs. r = Inr None])
      \<and> br_critical (budget_report e) \<le> int (length [r \<leftarrow> rs. surfaced r])
      \<and> br_suppressed (budget_report e) + br_critical (budget_report e) \<le> br_received (budget_report e))"
proof -
  obtain e rs where run: "ingest_all sha256 vs (new_engine cfg) = (e, rs)" by fastforce
  note counts = ingest_all_counts [OF run]
  have "length [r \<leftarrow> rs. r = Inr None] + length [r \<leftarrow> rs. surfaced r] \<le> length rs"
    by (induction rs) (auto simp: surfaced_def)
  with counts run show ?thesis by (simp add: budget_report_def new_engine_def)
qed

end
