(* ===== verification/Py_Time.thy ===== *)
theory Py_Time
  imports Py_Float
begin

text \<open>
  Time stamps: \<open>datetime.fromisoformat\<close> as CPython 3.11 implements it (the version the project is
  tested with), the difference of two datetimes, and \<open>utc_now\<close> and \<open>parse_instant\<close> of \<open>reports.py\<close>.

  The parser works on the UTF-8 bytes of the text, and reads a zero byte past their end, as the
  C code does.  It accepts calendar dates, week dates, any one character between date and time, the
  basic and the extended time formats, and, before an offset, some text that is no time at all.
\<close>

section \<open>Bytes\<close>

definition utf8_char :: "char \<Rightarrow> string" where
  "utf8_char c = (let n = (of_char c :: nat) in
     if n < 128 then [c]
     else if [c] = em_dash then [CHR 0xE2, CHR 0x80, CHR 0x94]
     else if [c] = en_dash then [CHR 0xE2, CHR 0x80, CHR 0x93]
     else [char_of (192 + n div 64), char_of (128 + n mod 64)])"

definition utf8 :: "string \<Rightarrow> string" where
  "utf8 s = concat (map utf8_char s)"

definition byte_at :: "string \<Rightarrow> nat \<Rightarrow> char" where
  "byte_at s i = (if i < length s then s ! i else CHR 0x00)"

definition is_digit :: "char \<Rightarrow> bool" where
  "is_digit c \<longleftrightarrow> digit_value c \<noteq> None"

text \<open>The number that the next \<open>n\<close> digits at a position spell.\<close>

fun read_digits :: "int \<Rightarrow> nat \<Rightarrow> string \<Rightarrow> nat \<Rightarrow> int option" where
  "read_digits acc 0 s i = Some acc"
| "read_digits acc (Suc n) s i =
     (case digit_value (byte_at s i) of
        None \<Rightarrow> None
      | Some d \<Rightarrow> read_digits (10 * acc + int d) n s (Suc i))"

section \<open>Dates\<close>

definition leap_year :: "int \<Rightarrow> bool" where
  "leap_year y \<longleftrightarrow> y mod 4 = 0 \<and> (y mod 100 \<noteq> 0 \<or> y mod 400 = 0)"

definition days_in_month :: "int \<Rightarrow> int \<Rightarrow> int" where
  "days_in_month y m =
     (if m = 2 then if leap_year y then 29 else 28
      else if m \<in> set [4, 6, 9, 11] then 30 else 31)"

text \<open>The number of days before a year, and the ordinal of a date: 0001-01-01 is day 1.\<close>

definition days_before_year :: "int \<Rightarrow> int" where
  "days_before_year y = (y - 1) * 365 + (y - 1) div 4 - (y - 1) div 100 + (y - 1) div 400"

definition date_ordinal :: "int \<Rightarrow> int \<Rightarrow> int \<Rightarrow> int" where
  "date_ordinal y m d = days_before_year y + sum_list (map (days_in_month y) [1..m - 1]) + d"

definition valid_date :: "int \<Rightarrow> int \<Rightarrow> int \<Rightarrow> bool" where
  "valid_date y m d \<longleftrightarrow>
     1 \<le> y \<and> y \<le> 9999 \<and> 1 \<le> m \<and> m \<le> 12 \<and> 1 \<le> d \<and> d \<le> days_in_month y m"

text \<open>The ordinal of a week date: the week of the year's first Thursday is week 1, day 1 is Monday.\<close>

definition week_ordinal :: "int \<Rightarrow> int \<Rightarrow> int \<Rightarrow> int option" where
  "week_ordinal y w d =
     (let first = days_before_year y + 1;
          weekday = (first + 6) mod 7;
          monday1 = first + (if weekday > 3 then 7 else 0) - weekday;
          n = monday1 + 7 * (w - 1) + (d - 1);
          long = (first mod 7 = 4 \<or> first mod 7 = 3 \<and> leap_year y)
      in if 1 \<le> y \<and> 0 < w \<and> (w < 53 \<or> w = 53 \<and> long) \<and> 0 < d \<and> d < 8 \<and> n \<le> date_ordinal 9999 12 31
         then Some n else None)"

text \<open>Where the date ends.  The text has at least seven bytes.\<close>

definition date_end :: "string \<Rightarrow> nat option" where
  "date_end s =
     (let n = length s in
      if n = 7 then Some 7
      else if byte_at s 4 = CHR ''-'' then
        (if byte_at s 5 = CHR ''W'' then
           (if 8 < n \<and> byte_at s 8 = CHR ''-'' then
              (if n = 9 then None else if 10 < n \<and> is_digit (byte_at s 10) then Some 8 else Some 10)
            else Some 8)
         else Some 10)
      else if byte_at s 4 = CHR ''W'' then
        (let p = 7 + length (takeWhile is_digit (drop 7 s))
         in if p < 9 then Some p else if even p then Some 7 else Some 8)
      else Some 8)"

text \<open>The date at the beginning of a text, given where it ends.\<close>

definition parse_week_date :: "string \<Rightarrow> nat \<Rightarrow> nat \<Rightarrow> bool \<Rightarrow> int \<Rightarrow> int option" where
  "parse_week_date s e p dashed y =
     (case read_digits 0 2 s p of
        None \<Rightarrow> None
      | Some w \<Rightarrow>
          if p + 2 < e then
            (if dashed \<and> byte_at s (p + 2) \<noteq> CHR ''-'' then None
             else case read_digits 0 1 s (if dashed then p + 3 else p + 2) of
                    None \<Rightarrow> None
                  | Some d \<Rightarrow> week_ordinal y w d)
          else week_ordinal y w 1)"

definition parse_month_day :: "string \<Rightarrow> nat \<Rightarrow> bool \<Rightarrow> int \<Rightarrow> int option" where
  "parse_month_day s p dashed y =
     (case read_digits 0 2 s p of
        None \<Rightarrow> None
      | Some m \<Rightarrow>
          if dashed \<and> byte_at s (p + 2) \<noteq> CHR ''-'' then None
          else case read_digits 0 2 s (if dashed then p + 3 else p + 2) of
                 None \<Rightarrow> None
               | Some d \<Rightarrow> if valid_date y m d then Some (date_ordinal y m d) else None)"

definition parse_date :: "string \<Rightarrow> nat \<Rightarrow> int option" where
  "parse_date s e =
     (case read_digits 0 4 s 0 of
        None \<Rightarrow> None
      | Some y \<Rightarrow>
          (let dashed = (byte_at s 4 = CHR ''-''); p = (if dashed then 5 else 4)
           in if byte_at s p = CHR ''W'' then parse_week_date s e (p + 1) dashed y
              else parse_month_day s p dashed y))"

section \<open>Times\<close>

text \<open>
  Up to three fields of two digits, in a text whose time ends at \<open>e\<close>.  The result has the position
  where a fraction begins, or whether text was left when the end was reached.  The character after
  the first field says whether the fields are separated.
\<close>

fun clock_fields :: "string \<Rightarrow> nat \<Rightarrow> bool \<Rightarrow> nat \<Rightarrow> nat \<Rightarrow> (int list \<times> (nat + bool)) option" where
  "clock_fields s e separated 0 p = Some ([], Inl p)"
| "clock_fields s e separated (Suc k) p =
     (case read_digits 0 2 s p of
        None \<Rightarrow> None
      | Some v \<Rightarrow>
          (let c = byte_at s (p + 2); sep = (if k = 2 then c = CHR '':'' else separated) in
           if e \<le> p + 3 then Some ([v], Inr (c \<noteq> CHR 0x00))
           else if sep \<and> c = CHR '':'' then map_option (apfst (Cons v)) (clock_fields s e sep k (p + 3))
           else if c \<in> set ''.,'' then Some ([v], Inl (p + 3))
           else if \<not> sep then map_option (apfst (Cons v)) (clock_fields s e sep k (p + 2))
           else None))"

definition nth_or_zero :: "int list \<Rightarrow> nat \<Rightarrow> int" where
  "nth_or_zero vs i = (if i < length vs then vs ! i else 0)"

record clock_time =
  ck_hour :: int
  ck_minute :: int
  ck_second :: int
  ck_micro :: int
  ck_more :: bool

definition parse_clock :: "string \<Rightarrow> nat \<Rightarrow> clock_time option" where
  "parse_clock s e =
     (case clock_fields s e True 3 0 of
        None \<Rightarrow> None
      | Some (vs, Inr rest) \<Rightarrow>
          Some \<lparr>ck_hour = nth_or_zero vs 0, ck_minute = nth_or_zero vs 1, ck_second = nth_or_zero vs 2,
                ck_micro = 0, ck_more = rest\<rparr>
      | Some (vs, Inl p) \<Rightarrow>
          (let t = min (e - p) 6 in
           case read_digits 0 t s p of
             None \<Rightarrow> None
           | Some u \<Rightarrow>
               Some \<lparr>ck_hour = nth_or_zero vs 0, ck_minute = nth_or_zero vs 1,
                     ck_second = nth_or_zero vs 2, ck_micro = u * 10 ^ (6 - t),
                     ck_more = byte_at (dropWhile is_digit (drop (p + t) s)) 0 \<noteq> CHR 0x00\<rparr>))"

definition clock_seconds :: "clock_time \<Rightarrow> int" where
  "clock_seconds c = (ck_hour c * 60 + ck_minute c) * 60 + ck_second c"

definition clock_micros :: "clock_time \<Rightarrow> int" where
  "clock_micros c = clock_seconds c * 1000000 + ck_micro c"

text \<open>The offset from UTC in microseconds, from the text after the sign.\<close>

definition parse_offset :: "bool \<Rightarrow> string \<Rightarrow> int option" where
  "parse_offset west s =
     (case parse_clock s (length s) of
        None \<Rightarrow> None
      | Some c \<Rightarrow>
          (let off = (if clock_seconds c = 0 then 0 else clock_micros c)
           in if ck_more c \<or> 86400 * 1000000 \<le> off then None
              else Some (if west then - off else off)))"

text \<open>Microseconds since midnight, and the offset if there is one.\<close>

definition parse_time :: "string \<Rightarrow> (int \<times> int option) option" where
  "parse_time s =
     (let z = length (takeWhile (\<lambda>c. c \<notin> set ''+-Z'') s) in
      case parse_clock s z of
        None \<Rightarrow> None
      | Some c \<Rightarrow>
          if 23 < ck_hour c \<or> 59 < ck_minute c \<or> 59 < ck_second c then None
          else if z = length s then
            (if ck_more c then None else Some (clock_micros c, None))
          else if s ! z = CHR ''Z'' then
            (if byte_at s (z + 1) \<noteq> CHR 0x00 then None else Some (clock_micros c, Some 0))
          else map_option (\<lambda>off. (clock_micros c, Some off))
                 (parse_offset (s ! z = CHR ''-'') (drop (z + 1) s)))"

section \<open>Datetimes\<close>

text \<open>Local microseconds, counted from the day before 0001-01-01, and the offset of an aware datetime.\<close>

record instant =
  in_local :: int
  in_offset :: "int option"

definition day_micros :: int where "day_micros = 86400 * 1000000"

definition separator_width :: "char \<Rightarrow> nat" where
  "separator_width c = (let n = (of_char c :: nat) in
     if n < 128 then 1 else if n div 16 = 14 then 3 else if n div 16 = 15 then 4 else 2)"

definition fromisoformat :: "string \<Rightarrow> instant option" where
  "fromisoformat text =
     (let s = utf8 text in
      if length s < 7 then None
      else case date_end s of
        None \<Rightarrow> None
      | Some e \<Rightarrow>
          (case parse_date s e of
             None \<Rightarrow> None
           | Some d \<Rightarrow>
               if e < length s then
                 map_option (\<lambda>(t, off). \<lparr>in_local = d * day_micros + t, in_offset = off\<rparr>)
                   (parse_time (drop (e + separator_width (s ! e)) s))
               else Some \<lparr>in_local = d * day_micros, in_offset = None\<rparr>))"

text \<open>\<open>x - y\<close> in microseconds: a naive and an aware datetime cannot be subtracted.\<close>

definition minus_instant :: "instant \<Rightarrow> instant \<Rightarrow> int res" where
  "minus_instant x y =
     (case (in_offset x, in_offset y) of
        (None, None) \<Rightarrow> Inr (in_local x - in_local y)
      | (Some a, Some b) \<Rightarrow> Inr ((in_local x - a) - (in_local y - b))
      | _ \<Rightarrow> Inl TypeError)"

definition aware :: "instant \<Rightarrow> bool" where
  "aware x \<longleftrightarrow> in_offset x \<noteq> None"

lemma minus_instant_total: "aware x = aware y \<Longrightarrow> \<exists>d. minus_instant x y = Inr d"
  by (auto simp: aware_def minus_instant_def split: option.splits)

lemma minus_instant_mixed: "aware x \<noteq> aware y \<Longrightarrow> minus_instant x y = Inl TypeError"
  by (auto simp: aware_def minus_instant_def split: option.splits)

text \<open>\<open>int(delta.total_seconds() * 1000)\<close>.\<close>

definition total_millis :: "int \<Rightarrow> int" where
  "total_millis micros = double_trunc (double_times_int (to_double micros 1000000) 1000)"

section \<open>Instants of reports\<close>

definition parse_instant :: "json \<Rightarrow> instant option res" where
  "parse_instant v =
     (if \<not> truthy v then Inr None
      else case v of
        JStr s \<Rightarrow> Inr (fromisoformat (if ends_with ''Z'' s then butlast s @ ''+00:00'' else s))
      | _ \<Rightarrow> Inl AttributeError)"

text \<open>A reading of the UTC clock, and \<open>utc_now\<close>: the seconds are cut off and the offset is written \<open>Z\<close>.\<close>

record utc_clock =
  uc_year :: int
  uc_month :: int
  uc_day :: int
  uc_hour :: int
  uc_minute :: int
  uc_second :: int
  uc_micro :: int

definition utc_clock_ok :: "utc_clock \<Rightarrow> bool" where
  "utc_clock_ok c \<longleftrightarrow> valid_date (uc_year c) (uc_month c) (uc_day c)
     \<and> 0 \<le> uc_hour c \<and> uc_hour c < 24 \<and> 0 \<le> uc_minute c \<and> uc_minute c < 60
     \<and> 0 \<le> uc_second c \<and> uc_second c < 60 \<and> 0 \<le> uc_micro c \<and> uc_micro c < 1000000"

definition utc_instant :: "utc_clock \<Rightarrow> instant" where
  "utc_instant c =
     \<lparr>in_local = date_ordinal (uc_year c) (uc_month c) (uc_day c) * day_micros
        + ((uc_hour c * 60 + uc_minute c) * 60 + uc_second c) * 1000000 + uc_micro c,
      in_offset = Some 0\<rparr>"

definition digit_char :: "int \<Rightarrow> char" where
  "digit_char k = ''0123456789'' ! nat (k mod 10)"

definition two_digits :: "int \<Rightarrow> string" where
  "two_digits n = [digit_char (n div 10), digit_char n]"

definition four_digits :: "int \<Rightarrow> string" where
  "four_digits n = [digit_char (n div 1000), digit_char (n div 100), digit_char (n div 10), digit_char n]"

definition utc_now :: "utc_clock \<Rightarrow> string" where
  "utc_now c = four_digits (uc_year c) @ ''-'' @ two_digits (uc_month c) @ ''-'' @ two_digits (uc_day c)
     @ ''T'' @ two_digits (uc_hour c) @ '':'' @ two_digits (uc_minute c) @ '':'' @ two_digits (uc_second c)
     @ ''Z''"

section \<open>Reading back the clock\<close>

lemma digit_char_cases:
  "digit_char k \<in> set ''0123456789'' \<and> digit_value (digit_char k) = Some (nat (k mod 10))"
proof -
  have "list_all (\<lambda>n. ''0123456789'' ! n \<in> set ''0123456789'' \<and> digit_value (''0123456789'' ! n) = Some n) [0..<10]"
    by code_simp
  moreover have "nat (k mod 10) \<in> set [0..<10]" by (auto simp: nat_less_iff)
  ultimately show ?thesis unfolding digit_char_def list_all_iff by blast
qed

declare digit_value.simps [simp del]

lemma digit_value_digit_char [simp]: "digit_value (digit_char k) = Some (nat (k mod 10))"
  using digit_char_cases by blast

lemma is_digit_digit_char [simp]: "is_digit (digit_char k)"
  by (simp add: is_digit_def)

lemma utf8_digit_char [simp]: "utf8_char (digit_char k) = [digit_char k]"
proof -
  have "list_all (\<lambda>c. utf8_char c = [c]) ''0123456789''" by code_simp
  then show ?thesis using digit_char_cases [of k] unfolding list_all_iff by blast
qed

lemma digit_char_neq: "digit_value c = None \<Longrightarrow> digit_char k \<noteq> c"
  by (metis digit_value_digit_char option.distinct(1))

lemma div_mod_step: "10 * (n div (10 * k)) + n div k mod 10 = (n :: int) div k"
  by (metis div_mult_mod_eq mult.commute zdiv_zmult2_eq zero_le_numeral)

lemma two_digits_value: "0 \<le> n \<Longrightarrow> n < 100 \<Longrightarrow> 10 * (n div 10 mod 10) + n mod 10 = (n :: int)"
  using div_mod_step [of n 1] by (simp add: div_pos_pos_trivial zdiv_zmult2_eq)

lemma four_digits_value:
  assumes "0 \<le> n" and "n < 10000"
  shows "10 * (10 * (10 * (n div 1000 mod 10) + n div 100 mod 10) + n div 10 mod 10) + n mod 10 = (n :: int)"
proof -
  define a b c where "a = n div 10" and "b = n div 100" and "c = n div 1000"
  have "c mod 10 = c" unfolding c_def using assms by (intro mod_pos_pos_trivial) linarith+
  moreover have "10 * a + n mod 10 = n" unfolding a_def by (rule mult_div_mod_eq)
  moreover have "10 * b + a mod 10 = a" unfolding a_def b_def using div_mod_step [of n 10] by simp
  moreover have "10 * c + b mod 10 = b" unfolding b_def c_def using div_mod_step [of n 100] by simp
  ultimately have "10 * (10 * (10 * (c mod 10) + b mod 10) + a mod 10) + n mod 10 = n" by presburger
  then show ?thesis unfolding a_def b_def c_def .
qed

lemma read_two:
  assumes "0 \<le> n" and "n < 100" and "take 2 (drop i s) = two_digits n"
  shows "read_digits 0 2 s i = Some n"
proof -
  obtain t where t: "drop i s = digit_char (n div 10) # digit_char n # t"
    by (metis assms(3) append_take_drop_id append_Cons append_Nil two_digits_def)
  have len: "i + 2 \<le> length s"
    using arg_cong [OF t, of length] by simp
  have "s ! i = digit_char (n div 10)" "s ! Suc i = digit_char n"
    using t len nth_drop [of i s 0] nth_drop [of i s 1] by simp_all
  then show ?thesis
    using len two_digits_value [OF assms(1,2)] by (simp add: numeral_2_eq_2 byte_at_def pos_imp_zdiv_nonneg_iff)
qed

lemma read4:
  "read_digits acc 4 s i =
     (case digit_value (byte_at s i) of None \<Rightarrow> None | Some a \<Rightarrow>
     (case digit_value (byte_at s (Suc i)) of None \<Rightarrow> None | Some b \<Rightarrow>
     (case digit_value (byte_at s (Suc (Suc i))) of None \<Rightarrow> None | Some c \<Rightarrow>
     (case digit_value (byte_at s (Suc (Suc (Suc i)))) of None \<Rightarrow> None | Some d \<Rightarrow>
       Some (10 * (10 * (10 * (10 * acc + int a) + int b) + int c) + int d)))))"
proof -
  have four: "4 = Suc (Suc (Suc (Suc 0)))" by simp
  show ?thesis by (simp only: four read_digits.simps)
qed

lemma read_four:
  assumes "0 \<le> n" and "n < 10000" and "take 4 s = four_digits n"
  shows "read_digits 0 4 s 0 = Some n"
proof -
  obtain t where t: "s = digit_char (n div 1000) # digit_char (n div 100) # digit_char (n div 10) # digit_char n # t"
    by (metis assms(3) append_take_drop_id append_Cons append_Nil four_digits_def)
  have "byte_at s 0 = digit_char (n div 1000)" "byte_at s (Suc 0) = digit_char (n div 100)"
    "byte_at s (Suc (Suc 0)) = digit_char (n div 10)" "byte_at s (Suc (Suc (Suc 0))) = digit_char n"
    unfolding t by (simp_all add: byte_at_def)
  moreover have "int (nat (k mod 10)) = k mod 10" for k :: int by simp
  ultimately show ?thesis
    using four_digits_value [OF assms(1,2)]
    by (simp only: read4 digit_value_digit_char option.case mult_zero_right add_0)
qed

lemma utf8_simps [simp]:
  "utf8 [] = []" "utf8 (c # s) = utf8_char c @ utf8 s"
  by (simp_all add: utf8_def)

lemma utf8_ascii [simp]: "of_char c < (128 :: nat) \<Longrightarrow> utf8_char c = [c]"
  by (simp add: utf8_char_def)

definition clock_text :: "utc_clock \<Rightarrow> string" where
  "clock_text c = two_digits (uc_hour c) @ '':'' @ two_digits (uc_minute c) @ '':'' @ two_digits (uc_second c)"

definition date_text :: "utc_clock \<Rightarrow> string" where
  "date_text c = four_digits (uc_year c) @ ''-'' @ two_digits (uc_month c) @ ''-'' @ two_digits (uc_day c)"

lemma clock_text_length [simp]: "length (clock_text c) = 8"
  by (simp add: clock_text_def two_digits_def)

lemma date_text_length [simp]: "length (date_text c) = 10"
  by (simp add: date_text_def two_digits_def four_digits_def)

lemma utf8_append [simp]: "utf8 (s @ t) = utf8 s @ utf8 t"
  by (simp add: utf8_def)

lemma utf8_texts [simp]: "utf8 (clock_text c) = clock_text c" "utf8 (date_text c) = date_text c"
  by (simp_all add: clock_text_def date_text_def two_digits_def four_digits_def)

lemma utc_now_text: "utc_now c = date_text c @ ''T'' @ clock_text c @ ''Z''"
  by (simp add: utc_now_def date_text_def clock_text_def)

lemma parse_date_text:
  assumes "utc_clock_ok c"
  shows "parse_date (date_text c @ s) 10 = Some (date_ordinal (uc_year c) (uc_month c) (uc_day c))"
    and "date_end (date_text c @ CHR ''T'' # s) = Some 10"
proof -
  have ok: "valid_date (uc_year c) (uc_month c) (uc_day c)" using assms by (simp add: utc_clock_ok_def)
  then have b: "0 \<le> uc_year c" "uc_year c < 10000" "0 \<le> uc_month c" "uc_month c < 100" "0 \<le> uc_day c" "uc_day c < 100"
    by (auto simp: valid_date_def days_in_month_def split: if_splits)
  have "read_digits 0 4 (date_text c @ s) 0 = Some (uc_year c)"
    using b by (intro read_four) (simp_all add: date_text_def four_digits_def)
  moreover have "read_digits 0 2 (date_text c @ s) 5 = Some (uc_month c)"
    using b by (intro read_two) (simp_all add: date_text_def four_digits_def two_digits_def)
  moreover have "read_digits 0 2 (date_text c @ s) 8 = Some (uc_day c)"
    using b by (intro read_two) (simp_all add: date_text_def four_digits_def two_digits_def)
  moreover have "byte_at (date_text c @ t) 4 = CHR ''-''" "byte_at (date_text c @ t) 7 = CHR ''-''" 
      "byte_at (date_text c @ t) 5 \<noteq> CHR ''W''" for t
    by (simp_all add: byte_at_def date_text_def four_digits_def two_digits_def digit_char_neq digit_value.simps)
  moreover from this have "date_end (date_text c @ CHR ''T'' # s) = Some 10"
    by (simp add: date_end_def)
  ultimately show "parse_date (date_text c @ s) 10 = Some (date_ordinal (uc_year c) (uc_month c) (uc_day c))"
    "date_end (date_text c @ CHR ''T'' # s) = Some 10"
    using ok by (simp_all add: parse_date_def parse_month_day_def)
qed

lemma parse_clock_text:
  assumes "utc_clock_ok c"
  shows "parse_clock (clock_text c @ ''+00:00'') 8 =
    Some \<lparr>ck_hour = uc_hour c, ck_minute = uc_minute c, ck_second = uc_second c, ck_micro = 0, ck_more = True\<rparr>"
proof -
  let ?s = "clock_text c @ ''+00:00''"
  have b: "0 \<le> uc_hour c" "uc_hour c < 100" "0 \<le> uc_minute c" "uc_minute c < 100" "0 \<le> uc_second c" "uc_second c < 100"
    using assms by (auto simp: utc_clock_ok_def)
  have r: "read_digits 0 2 ?s 0 = Some (uc_hour c)" "read_digits 0 2 ?s 3 = Some (uc_minute c)"
    "read_digits 0 2 ?s 6 = Some (uc_second c)"
    using b by (auto intro!: read_two simp: clock_text_def two_digits_def)
  have c: "byte_at ?s 2 = CHR '':''" "byte_at ?s 5 = CHR '':''" "byte_at ?s 8 = CHR ''+''"
    by (simp_all add: byte_at_def clock_text_def two_digits_def)
  have three: "3 = Suc (Suc (Suc 0))" by simp
  have "clock_fields ?s 8 True (Suc (Suc (Suc 0))) 0
      = Some ([uc_hour c, uc_minute c, uc_second c], Inr True)"
    using r c c(1) [unfolded numeral_2_eq_2] by (simp add: Let_def)
  then show ?thesis
    by (simp add: parse_clock_def three nth_or_zero_def)
qed

lemma parse_time_text:
  assumes "utc_clock_ok c"
  shows "parse_time (clock_text c @ ''+00:00'') =
    Some (((uc_hour c * 60 + uc_minute c) * 60 + uc_second c) * 1000000, Some 0)"
proof -
  let ?s = "clock_text c @ ''+00:00''"
  have digit: "digit_char k \<notin> set ''+-Z''" for k by (simp add: digit_char_neq digit_value.simps)
  have "takeWhile (\<lambda>c. c \<notin> set ''+-Z'') ?s = clock_text c"
    using digit by (simp add: clock_text_def two_digits_def)
  then have z: "length (takeWhile (\<lambda>c. c \<notin> set ''+-Z'') ?s) = 8" by simp
  have off: "parse_offset False ''00:00'' = Some 0" by code_simp
  have s: "?s ! 8 = CHR ''+''" "drop 9 ?s = ''00:00''" by (simp_all add: nth_append)
  show ?thesis
    using assms unfolding parse_time_def Let_def z parse_clock_text [OF assms]
    by (simp add: s off utc_clock_ok_def clock_micros_def clock_seconds_def)
qed

lemma parse_utc_now:
  assumes "utc_clock_ok c"
  shows "parse_instant (JStr (utc_now c)) = Inr (Some (utc_instant (c\<lparr>uc_micro := 0\<rparr>)))"
proof -
  let ?s = "date_text c @ ''T'' @ clock_text c @ ''+00:00''"
  have "ends_with ''Z'' (utc_now c)" "butlast (utc_now c) @ ''+00:00'' = ?s" "utc_now c \<noteq> ''''"
    by (simp_all add: utc_now_text ends_with_def butlast_append)
  moreover have "fromisoformat ?s = Some (utc_instant (c\<lparr>uc_micro := 0\<rparr>))"
    using parse_date_text [OF assms] parse_time_text [OF assms]
    by (simp add: fromisoformat_def nth_append separator_width_def utc_instant_def)
  ultimately show ?thesis by (simp add: parse_instant_def)
qed

text \<open>
  \<open>parse_instant\<close> reads back what \<open>utc_now\<close> wrote: for every reading of the UTC clock in the years 1 to
  9999 it yields the aware datetime of that reading, cut to the second.
\<close>

theorem utc_now_roundtrip:
  assumes "utc_clock_ok c"
  shows "parse_instant (JStr (utc_now c)) = Inr (Some (utc_instant (c\<lparr>uc_micro := 0\<rparr>)))"
  using assms by (rule parse_utc_now)

theorem utc_now_roundtrip_witness:
  "parse_instant (JStr ''2024-02-29T23:59:58Z'')
     = Inr (Some \<lparr>in_local = date_ordinal 2024 2 29 * day_micros + 86398000000, in_offset = Some 0\<rparr>)"
  using utc_now_roundtrip [of "\<lparr>uc_year = 2024, uc_month = 2, uc_day = 29, uc_hour = 23, uc_minute = 59,
      uc_second = 58, uc_micro = 123456\<rparr>"]
  by (simp add: utc_clock_ok_def valid_date_def days_in_month_def leap_year_def utc_now_def four_digits_def
      two_digits_def digit_char_def utc_instant_def)

end
