(* ===== verification/Report_Validation.thy ===== *)
theory Report_Validation
  imports Py_Time
begin

text \<open>
  The first half of \<open>reports.py\<close>: the contract of state integrity reports and repair plans.  A report is
  the dict read from JSON or built by \<open>base_snapshot\<close>; a validator returns the list of its complaints,
  or the exception that a field of an unexpected type raises.
\<close>

section \<open>The contract\<close>

definition STATE_SCHEMA :: string where "STATE_SCHEMA = ''sourceos.state-integrity-report/v1alpha1''"
definition REPAIR_SCHEMA :: string where "REPAIR_SCHEMA = ''sourceos.repair-plan/v1alpha1''"

definition REQUIRED_TOP_LEVEL_KEYS :: "string list" where
  "REQUIRED_TOP_LEVEL_KEYS = [''schema'', ''generated_at'', ''identity'', ''collection'', ''runtime'',
     ''stores'', ''lanes'', ''pipeline'', ''resources'', ''policy'', ''invariants'', ''diagnosis'',
     ''controls'', ''attestation'']"

definition REQUIRED_IDENTITY_KEYS :: "string list" where
  "REQUIRED_IDENTITY_KEYS = [''component'', ''repo'', ''pid'', ''process_name'', ''node_id_hash'',
     ''version'', ''platform'', ''service_manager'']"

definition REQUIRED_COLLECTION_KEYS :: "string list" where
  "REQUIRED_COLLECTION_KEYS = [''status'', ''errors'', ''redacted_fields'',
     ''permission_denied_fields'', ''timed_out_fields'', ''unavailable_fields'']"

definition REQUIRED_STORE_KEYS :: "string list" where
  "REQUIRED_STORE_KEYS = [''name'', ''role'', ''backend'', ''schema_version'', ''runtime_version'',
     ''migration_state'', ''checksum_state'']"

definition REQUIRED_LANE_KEYS :: "string list" where
  "REQUIRED_LANE_KEYS = [''name'', ''status'', ''sla'', ''objects'', ''journal'', ''maintenance'']"

definition REQUIRED_INVARIANT_KEYS :: "string list" where
  "REQUIRED_INVARIANT_KEYS = [''id'', ''status'', ''severity'', ''evidence'', ''remediation'']"

definition REQUIRED_REPAIR_KEYS :: "string list" where
  "REQUIRED_REPAIR_KEYS = [''schema'', ''generated_at'', ''source_report'', ''plan_id'', ''status'',
     ''severity'', ''summary'', ''policy'', ''preconditions'', ''checkpoint'', ''steps'',
     ''blocked_steps'', ''rollback'', ''postconditions'']"

definition COLLECTION_STATUSES :: "string list" where
  "COLLECTION_STATUSES = [''complete'', ''partial'', ''failed'']"

definition STORE_ROLES :: "string list" where
  "STORE_ROLES = [''active'', ''shadow'', ''migration'', ''archive'', ''repair'', ''retired'',
     ''quarantined'', ''rebuilding'']"

definition MIGRATION_STATES :: "string list" where
  "MIGRATION_STATES = [''none'', ''pending'', ''lazy'', ''running'', ''complete'', ''failed'',
     ''rollback_available'']"

definition CHECKSUM_STATES :: "string list" where
  "CHECKSUM_STATES = [''verified'', ''unverified'', ''mismatch'', ''unsupported'']"

definition LANE_STATUSES :: "string list" where
  "LANE_STATUSES = [''active'', ''dormant'', ''degraded'', ''repairing'', ''retired'', ''unsafe'']"

definition PRESSURE_STATES :: "string list" where
  "PRESSURE_STATES = [''none'', ''watch'', ''warning'', ''critical'', ''unknown'']"

definition INVARIANT_STATUSES :: "string list" where
  "INVARIANT_STATUSES = [''pass'', ''warn'', ''fail'']"

definition SEVERITIES :: "string list" where
  "SEVERITIES = [''info'', ''warning'', ''error'', ''critical'']"

definition REPAIR_STATUSES :: "string list" where
  "REPAIR_STATUSES = [''preview'', ''approved'', ''running'', ''complete'', ''failed'', ''rolled_back'']"

section \<open>Checks of one field\<close>

definition is_nonnegative_int :: "json \<Rightarrow> bool" where
  "is_nonnegative_int v = (case int_value v of None \<Rightarrow> False | Some i \<Rightarrow> 0 \<le> i)"

definition path_missing_errors :: "string \<Rightarrow> jdict \<Rightarrow> string list \<Rightarrow> string list" where
  "path_missing_errors prefix value required =
     map (\<lambda>key. prefix @ ''.'' @ key @ '' is required'') (missing_keys required value)"

text \<open>\<open>if v not in S: errors.append(msg)\<close>.\<close>

definition note_not_in :: "json \<Rightarrow> string list \<Rightarrow> string \<Rightarrow> string list res" where
  "note_not_in v S msg = ebind (in_set v S) (\<lambda>b. Inr (note_if (\<not> b) msg))"

text \<open>\<open>if parse_instant(v) is None: errors.append(msg)\<close>.\<close>

definition note_no_instant :: "json \<Rightarrow> string \<Rightarrow> string list res" where
  "note_no_instant v msg = ebind (parse_instant v) (\<lambda>t. Inr (note_if (t = None) msg))"

text \<open>A loop over the values of a dict that must be non-negative integers.\<close>

definition count_errors :: "string \<Rightarrow> jdict \<Rightarrow> string list" where
  "count_errors prefix values =
     concat (map (\<lambda>(key, value). note_if (\<not> is_nonnegative_int value)
       (prefix @ ''.'' @ key @ '' must be a non-negative integer'')) values)"

text \<open>\<open>HEX_RE.match\<close>, whose \<open>$\<close> also matches before a final newline, and \<open>int(s, 16)\<close> of such a text.\<close>

fun hex_char_value :: "char \<Rightarrow> nat option" where
  "hex_char_value c = (let n = of_char c in
     if 48 \<le> n \<and> n \<le> (57 :: nat) then Some (n - 48)
     else if 65 \<le> n \<and> n \<le> 70 then Some (n - 55)
     else if 97 \<le> n \<and> n \<le> 102 then Some (n - 87) else None)"

declare hex_char_value.simps [simp del]

fun hex_digits_value :: "int \<Rightarrow> string \<Rightarrow> int option" where
  "hex_digits_value acc [] = Some acc"
| "hex_digits_value acc (c # cs) =
     (case hex_char_value c of None \<Rightarrow> None | Some k \<Rightarrow> hex_digits_value (16 * acc + int k) cs)"

definition HEX_RE :: "string \<Rightarrow> int option" where
  "HEX_RE s =
     (let t = (if ends_with [newline] s then butlast s else s)
      in if starts_with ''0x'' t \<and> drop 2 t \<noteq> [] then hex_digits_value 0 (drop 2 t) else None)"

definition index_prefix :: "string \<Rightarrow> nat \<Rightarrow> string" where
  "index_prefix what i = what @ ''['' @ nat_str i @ '']''"

text \<open>A loop over list items that must be dicts.\<close>

definition item_errors :: "string \<Rightarrow> (string \<Rightarrow> jdict \<Rightarrow> string list res) \<Rightarrow> nat \<times> json \<Rightarrow> string list res" where
  "item_errors what check = (\<lambda>(i, v).
     (case v of
        JObj d \<Rightarrow> check (index_prefix what i) d
      | _ \<Rightarrow> Inr [index_prefix what i @ '' must be an object'']))"

text \<open>A loop that also looks for duplicate names: \<open>seen\<close> has the names of the items before.\<close>

fun named_errors ::
  "string \<Rightarrow> string \<Rightarrow> string list \<Rightarrow> (string \<Rightarrow> jdict \<Rightarrow> string list res) \<Rightarrow> string list
   \<Rightarrow> (nat \<times> json) list \<Rightarrow> string list res" where
  "named_errors what noun required check seen [] = Inr []"
| "named_errors what noun required check seen ((i, v) # vs) =
     (case v of
        JObj d \<Rightarrow>
          (let prefix = index_prefix what i;
               name = dget0 d ''name'';
               dup = (case name of JStr s \<Rightarrow> s \<in> set seen | _ \<Rightarrow> False);
               seen' = (case name of JStr s \<Rightarrow> s # seen | _ \<Rightarrow> seen)
           in collect [
                Inr (path_missing_errors prefix d required),
                Inr (note_if dup (prefix @ ''.name duplicates '' @ noun @ '' '' @ py_repr name)),
                check prefix d,
                named_errors what noun required check seen' vs])
      | _ \<Rightarrow>
          collect [Inr [index_prefix what i @ '' must be an object''],
                   named_errors what noun required check seen vs])"

section \<open>Sections of the report\<close>

definition validate_shape :: "jdict \<Rightarrow> string list" where
  "validate_shape report =
     (let missing = missing_keys REQUIRED_TOP_LEVEL_KEYS report
      in note_if (missing \<noteq> []) (''missing top-level keys: '' @ join '', '' missing)
       @ note_if (dget0 report ''schema'' \<noteq> JStr STATE_SCHEMA)
           (''unsupported schema: '' @ py_repr (dget0 report ''schema''))
       @ note_if (\<not> is_list (dget0 report ''lanes'')) ''lanes must be a list''
       @ note_if (\<not> is_list (dget0 report ''stores'')) ''stores must be a list'')"

definition identity_errors :: "json \<Rightarrow> string list" where
  "identity_errors v = (case v of
     JObj identity \<Rightarrow>
       path_missing_errors ''identity'' identity REQUIRED_IDENTITY_KEYS
       @ note_if (\<not> is_nonnegative_int (dget0 identity ''pid''))
           ''identity.pid must be a non-negative integer''
       @ note_if (\<not> starts_with ''sha256:'' (py_str (dget identity ''node_id_hash'' (JStr ''''))))
           ''identity.node_id_hash must start with sha256:''
   | _ \<Rightarrow> [''identity must be an object''])"

definition collection_errors :: "json \<Rightarrow> string list res" where
  "collection_errors v = (case v of
     JObj collection \<Rightarrow>
       collect [
         Inr (path_missing_errors ''collection'' collection REQUIRED_COLLECTION_KEYS),
         note_not_in (dget0 collection ''status'') COLLECTION_STATUSES ''collection.status is invalid'',
         Inr (concat (map (\<lambda>key. note_if (\<not> is_list (dget0 collection key))
               (''collection.'' @ key @ '' must be a list''))
             [''errors'', ''redacted_fields'', ''permission_denied_fields'', ''timed_out_fields'',
              ''unavailable_fields'']))]
   | _ \<Rightarrow> Inr [''collection must be an object''])"

definition runtime_errors :: "json \<Rightarrow> string list res" where
  "runtime_errors v = (case v of
     JObj runtime \<Rightarrow>
       collect (map (\<lambda>(key, value).
           if ends_with ''_at'' key \<and> value \<noteq> JNull then
             note_no_instant value (''runtime.'' @ key @ '' must be null or an ISO-8601 timestamp'')
           else Inr []) runtime)
   | _ \<Rightarrow> Inr [''runtime must be an object''])"

definition flags_errors :: "string \<Rightarrow> jdict \<Rightarrow> string list" where
  "flags_errors prefix store =
     note_if (dhas store ''flags_raw'' \<and> \<not> is_nonnegative_int (dget0 store ''flags_raw''))
       (prefix @ ''.flags_raw must be a non-negative integer'')
     @ (if dhas store ''flags_hex'' then
          (case (case dget0 store ''flags_hex'' of JStr s \<Rightarrow> HEX_RE s | _ \<Rightarrow> None) of
             None \<Rightarrow> [prefix @ ''.flags_hex must be a hexadecimal string'']
           | Some n \<Rightarrow> note_if (is_nonnegative_int (dget0 store ''flags_raw'')
                 \<and> int_value (dget0 store ''flags_raw'') \<noteq> Some n)
               (prefix @ ''.flags_hex does not match flags_raw''))
        else [])"

definition store_errors :: "string \<Rightarrow> jdict \<Rightarrow> string list res" where
  "store_errors prefix store =
     collect [
       note_not_in (dget0 store ''role'') STORE_ROLES (prefix @ ''.role is invalid''),
       note_not_in (dget0 store ''migration_state'') MIGRATION_STATES
         (prefix @ ''.migration_state is invalid''),
       note_not_in (dget0 store ''checksum_state'') CHECKSUM_STATES
         (prefix @ ''.checksum_state is invalid''),
       Inr (flags_errors prefix store)]"

definition stores_errors :: "json \<Rightarrow> string list res" where
  "stores_errors v = (case v of
     JList stores \<Rightarrow>
       named_errors ''stores'' ''store'' REQUIRED_STORE_KEYS store_errors [] (enumerate 0 stores)
   | _ \<Rightarrow> Inr [''stores must be a list''])"

definition section_errors :: "string \<Rightarrow> jdict \<Rightarrow> string \<Rightarrow> string list" where
  "section_errors prefix lane s = (case dget lane s (JObj []) of
     JObj values \<Rightarrow> count_errors (prefix @ ''.'' @ s) values
   | _ \<Rightarrow> [prefix @ ''.'' @ s @ '' must be an object''])"

definition JOURNAL_COUNTS :: "string list" where
  "JOURNAL_COUNTS = [''segment_count'', ''total_bytes'', ''max_segment_bytes'',
     ''oldest_unapplied_event_age_ms'', ''replay_lag_events'', ''replay_lag_bytes'', ''replay_eta_ms'']"

definition journal_errors :: "string \<Rightarrow> json \<Rightarrow> string list" where
  "journal_errors prefix v = (case v of
     JObj journal \<Rightarrow>
       concat (map (\<lambda>key. note_if (dhas journal key \<and> \<not> is_nonnegative_int (dget0 journal key))
         (prefix @ ''.journal.'' @ key @ '' must be a non-negative integer'')) JOURNAL_COUNTS)
   | _ \<Rightarrow> [prefix @ ''.journal must be an object''])"

definition lane_errors :: "string \<Rightarrow> jdict \<Rightarrow> string list res" where
  "lane_errors prefix lane =
     collect [
       note_not_in (dget0 lane ''status'') LANE_STATUSES (prefix @ ''.status is invalid''),
       Inr (concat (map (section_errors prefix lane) [''sla'', ''objects''])),
       Inr (journal_errors prefix (dget lane ''journal'' (JObj [])))]"

definition lanes_errors :: "json \<Rightarrow> string list res" where
  "lanes_errors v = (case v of
     JList (lane # lanes) \<Rightarrow>
       named_errors ''lanes'' ''lane'' REQUIRED_LANE_KEYS lane_errors [] (enumerate 0 (lane # lanes))
   | _ \<Rightarrow> Inr [''lanes must be a non-empty list''])"

definition disk_errors :: "json \<Rightarrow> string list res" where
  "disk_errors resources =
     (case (case resources of JObj d \<Rightarrow> dget d ''disk'' (JObj []) | _ \<Rightarrow> JObj []) of
        JObj disk \<Rightarrow>
          (let total = dget0 disk ''total_bytes''; free = dget0 disk ''free_bytes'';
               ratio = dget0 disk ''free_ratio''
           in collect [
             Inr (note_if (\<not> is_nonnegative_int free)
               ''resources.disk.free_bytes must be a non-negative integer''),
             Inr (note_if (\<not> (case int_value total of None \<Rightarrow> False | Some t \<Rightarrow> 0 < t))
               ''resources.disk.total_bytes must be a positive integer''),
             Inr (note_if (case (int_value free, int_value total) of
                   (Some f, Some t) \<Rightarrow> 0 < t \<and> t < f | _ \<Rightarrow> False)
               ''resources.disk.free_bytes cannot exceed total_bytes''),
             Inr (note_if (case num_value ratio of
                   None \<Rightarrow> True | Some x \<Rightarrow> float_lt x (Dec 0 0) \<or> float_lt (Dec 1 0) x)
               ''resources.disk.free_ratio must be between 0 and 1''),
             note_not_in (dget0 disk ''pressure'') PRESSURE_STATES
               ''resources.disk.pressure is invalid''])
      | _ \<Rightarrow> Inr [''resources.disk must be an object''])"

definition policy_errors :: "json \<Rightarrow> string list" where
  "policy_errors v = (case v of
     JObj policy \<Rightarrow>
       (case dget0 policy ''policy_decisions'' of
          JObj decisions \<Rightarrow> count_errors ''policy.policy_decisions'' decisions
        | _ \<Rightarrow> [''policy.policy_decisions must be an object''])
   | _ \<Rightarrow> [''policy must be an object''])"

definition invariant_errors :: "string \<Rightarrow> jdict \<Rightarrow> string list res" where
  "invariant_errors prefix invariant =
     collect [
       Inr (path_missing_errors prefix invariant REQUIRED_INVARIANT_KEYS),
       note_not_in (dget0 invariant ''status'') INVARIANT_STATUSES (prefix @ ''.status is invalid''),
       note_not_in (dget0 invariant ''severity'') SEVERITIES (prefix @ ''.severity is invalid''),
       Inr (note_if (\<not> is_dict (dget0 invariant ''evidence'')) (prefix @ ''.evidence must be an object''))]"

definition invariants_errors :: "json \<Rightarrow> string list res" where
  "invariants_errors v = (case v of
     JList invariants \<Rightarrow> collect (map (item_errors ''invariants'' invariant_errors) (enumerate 0 invariants))
   | _ \<Rightarrow> Inr [''invariants must be a list''])"

definition validate_report :: "jdict \<Rightarrow> string list res" where
  "validate_report report =
     (let shape = validate_shape report in
      if shape \<noteq> [] then Inr shape
      else collect [
        note_no_instant (dget0 report ''generated_at'') ''generated_at must be an ISO-8601 timestamp'',
        Inr (identity_errors (dget0 report ''identity'')),
        collection_errors (dget0 report ''collection''),
        runtime_errors (dget0 report ''runtime''),
        stores_errors (dget0 report ''stores''),
        lanes_errors (dget0 report ''lanes''),
        disk_errors (dget report ''resources'' (JObj [])),
        Inr (policy_errors (dget0 report ''policy'')),
        invariants_errors (dget0 report ''invariants'')])"

section \<open>Repair plans\<close>

definition STEP_KEYS :: "string list" where
  "STEP_KEYS = [''order'', ''id'', ''kind'', ''destructive'', ''description'', ''expected_result'']"

definition step_errors :: "string \<Rightarrow> int \<Rightarrow> jdict \<Rightarrow> string list" where
  "step_errors prefix expected_order step =
     concat (map (\<lambda>key. note_if (\<not> dhas step key) (prefix @ ''.'' @ key @ '' is required'')) STEP_KEYS)
     @ note_if (\<not> eq_int (dget0 step ''order'') expected_order)
         (prefix @ ''.order must be '' @ int_str expected_order)
     @ note_if (\<not> is_bool (dget0 step ''destructive'')) (prefix @ ''.destructive must be boolean'')"

text \<open>A step that is not a dict is skipped before the expected order is counted up.\<close>

fun steps_errors :: "int \<Rightarrow> (nat \<times> json) list \<Rightarrow> string list" where
  "steps_errors expected_order [] = []"
| "steps_errors expected_order ((i, v) # vs) =
     (case v of
        JObj step \<Rightarrow>
          step_errors (index_prefix ''steps'' i) expected_order step @ steps_errors (expected_order + 1) vs
      | _ \<Rightarrow> (index_prefix ''steps'' i @ '' must be an object'') # steps_errors expected_order vs)"

definition is_destructive :: "json \<Rightarrow> bool" where
  "is_destructive v = (case v of JObj step \<Rightarrow> truthy (dget0 step ''destructive'') | _ \<Rightarrow> False)"

definition validate_repair_plan :: "jdict \<Rightarrow> string list res" where
  "validate_repair_plan plan =
     (let missing = missing_keys REQUIRED_REPAIR_KEYS plan
      in collect [
        Inr (note_if (missing \<noteq> []) (''missing repair plan keys: '' @ join '', '' missing)),
        Inr (note_if (dget0 plan ''schema'' \<noteq> JStr REPAIR_SCHEMA)
          (''unsupported repair plan schema: '' @ py_repr (dget0 plan ''schema''))),
        note_no_instant (dget0 plan ''generated_at'') ''generated_at must be an ISO-8601 timestamp'',
        note_not_in (dget0 plan ''status'') REPAIR_STATUSES ''status is invalid'',
        note_not_in (dget0 plan ''severity'') SEVERITIES ''severity is invalid'',
        Inr (case dget plan ''policy'' (JObj []) of
          JObj policy \<Rightarrow> note_if (\<not> is_bool (dget0 policy ''destructive_actions_present''))
            ''policy.destructive_actions_present must be boolean''
        | _ \<Rightarrow> [''policy must be an object'']),
        Inr (case dget0 plan ''steps'' of
          JList (step # steps) \<Rightarrow>
            steps_errors 1 (enumerate 0 (step # steps))
            @ note_if (dget0 plan ''status'' = JStr ''preview'' \<and> list_ex is_destructive (step # steps))
                ''preview plans cannot include applying mutation steps''
        | _ \<Rightarrow> [''steps must be a non-empty list''])])"

section \<open>What validation accepts\<close>

text \<open>The contract as a predicate on reports, section by section.\<close>

definition field_in :: "jdict \<Rightarrow> string \<Rightarrow> string list \<Rightarrow> bool" where
  "field_in d k S \<longleftrightarrow> (case dget0 d k of JStr s \<Rightarrow> s \<in> set S | _ \<Rightarrow> False)"

definition has_instant :: "json \<Rightarrow> bool" where
  "has_instant v \<longleftrightarrow> (case parse_instant v of Inr (Some t) \<Rightarrow> True | _ \<Rightarrow> False)"

definition has_keys :: "jdict \<Rightarrow> string list \<Rightarrow> bool" where
  "has_keys d ks \<longleftrightarrow> list_all (dhas d) ks"

definition all_counts :: "json \<Rightarrow> bool" where
  "all_counts v \<longleftrightarrow> (case v of JObj d \<Rightarrow> list_all (\<lambda>(k, x). is_nonnegative_int x) d | _ \<Rightarrow> False)"

definition dicts_where :: "(jdict \<Rightarrow> bool) \<Rightarrow> json list \<Rightarrow> bool" where
  "dicts_where P vs \<longleftrightarrow> list_all (\<lambda>v. case v of JObj d \<Rightarrow> P d | _ \<Rightarrow> False) vs"

text \<open>The string names of the items of a list.\<close>

definition item_names :: "json list \<Rightarrow> string list" where
  "item_names vs = List.map_filter (\<lambda>v. case v of
     JObj d \<Rightarrow> (case dget0 d ''name'' of JStr s \<Rightarrow> Some s | _ \<Rightarrow> None) | _ \<Rightarrow> None) vs"

definition identity_ok :: "json \<Rightarrow> bool" where
  "identity_ok v \<longleftrightarrow> (case v of JObj d \<Rightarrow>
     has_keys d REQUIRED_IDENTITY_KEYS \<and> is_nonnegative_int (dget0 d ''pid'')
     \<and> starts_with ''sha256:'' (py_str (dget d ''node_id_hash'' (JStr ''''))) | _ \<Rightarrow> False)"

definition collection_ok :: "json \<Rightarrow> bool" where
  "collection_ok v \<longleftrightarrow> (case v of JObj d \<Rightarrow>
     has_keys d REQUIRED_COLLECTION_KEYS \<and> field_in d ''status'' COLLECTION_STATUSES
     \<and> list_all (\<lambda>k. is_list (dget0 d k)) [''errors'', ''redacted_fields'', ''permission_denied_fields'',
         ''timed_out_fields'', ''unavailable_fields''] | _ \<Rightarrow> False)"

definition runtime_ok :: "json \<Rightarrow> bool" where
  "runtime_ok v \<longleftrightarrow> (case v of JObj d \<Rightarrow>
     list_all (\<lambda>(k, x). \<not> ends_with ''_at'' k \<or> x = JNull \<or> has_instant x) d | _ \<Rightarrow> False)"

definition flags_ok :: "jdict \<Rightarrow> bool" where
  "flags_ok d \<longleftrightarrow> (\<not> dhas d ''flags_raw'' \<or> is_nonnegative_int (dget0 d ''flags_raw''))
     \<and> (\<not> dhas d ''flags_hex'' \<or>
         (case dget0 d ''flags_hex'' of
            JStr s \<Rightarrow> (case HEX_RE s of None \<Rightarrow> False
              | Some n \<Rightarrow> \<not> dhas d ''flags_raw'' \<or> int_value (dget0 d ''flags_raw'') = Some n)
          | _ \<Rightarrow> False))"

definition store_ok :: "jdict \<Rightarrow> bool" where
  "store_ok d \<longleftrightarrow> has_keys d REQUIRED_STORE_KEYS \<and> field_in d ''role'' STORE_ROLES
     \<and> field_in d ''migration_state'' MIGRATION_STATES \<and> field_in d ''checksum_state'' CHECKSUM_STATES
     \<and> flags_ok d"

definition journal_ok :: "json \<Rightarrow> bool" where
  "journal_ok v \<longleftrightarrow> (case v of JObj d \<Rightarrow>
     list_all (\<lambda>k. \<not> dhas d k \<or> is_nonnegative_int (dget0 d k)) JOURNAL_COUNTS | _ \<Rightarrow> False)"

definition lane_ok :: "jdict \<Rightarrow> bool" where
  "lane_ok d \<longleftrightarrow> has_keys d REQUIRED_LANE_KEYS \<and> field_in d ''status'' LANE_STATUSES
     \<and> all_counts (dget0 d ''sla'') \<and> all_counts (dget0 d ''objects'') \<and> journal_ok (dget0 d ''journal'')"

definition disk_ok :: "json \<Rightarrow> bool" where
  "disk_ok v \<longleftrightarrow> (case v of JObj r \<Rightarrow>
     (case dget0 r ''disk'' of JObj d \<Rightarrow>
        (case (int_value (dget0 d ''free_bytes''), int_value (dget0 d ''total_bytes''),
               num_value (dget0 d ''free_ratio'')) of
           (Some f, Some t, Some x) \<Rightarrow>
             0 \<le> f \<and> f \<le> t \<and> 0 < t \<and> \<not> float_lt x (Dec 0 0) \<and> \<not> float_lt (Dec 1 0) x
         | _ \<Rightarrow> False)
        \<and> field_in d ''pressure'' PRESSURE_STATES
      | _ \<Rightarrow> False) | _ \<Rightarrow> False)"

definition policy_ok :: "json \<Rightarrow> bool" where
  "policy_ok v \<longleftrightarrow> (case v of JObj d \<Rightarrow> all_counts (dget0 d ''policy_decisions'') | _ \<Rightarrow> False)"

definition invariant_ok :: "jdict \<Rightarrow> bool" where
  "invariant_ok d \<longleftrightarrow> has_keys d REQUIRED_INVARIANT_KEYS \<and> field_in d ''status'' INVARIANT_STATUSES
     \<and> field_in d ''severity'' SEVERITIES \<and> is_dict (dget0 d ''evidence'')"

definition list_where :: "(json list \<Rightarrow> bool) \<Rightarrow> json \<Rightarrow> bool" where
  "list_where P v \<longleftrightarrow> (case v of JList vs \<Rightarrow> P vs | _ \<Rightarrow> False)"

definition report_ok :: "jdict \<Rightarrow> bool" where
  "report_ok r \<longleftrightarrow>
     has_keys r REQUIRED_TOP_LEVEL_KEYS \<and> dget0 r ''schema'' = JStr STATE_SCHEMA
     \<and> has_instant (dget0 r ''generated_at'')
     \<and> identity_ok (dget0 r ''identity'') \<and> collection_ok (dget0 r ''collection'')
     \<and> runtime_ok (dget0 r ''runtime'')
     \<and> list_where (\<lambda>vs. dicts_where store_ok vs \<and> distinct (item_names vs)) (dget0 r ''stores'')
     \<and> list_where (\<lambda>vs. vs \<noteq> [] \<and> dicts_where lane_ok vs \<and> distinct (item_names vs)) (dget0 r ''lanes'')
     \<and> disk_ok (dget0 r ''resources'') \<and> policy_ok (dget0 r ''policy'')
     \<and> list_where (dicts_where invariant_ok) (dget0 r ''invariants'')"

named_theorems accept_simps \<open>when a check has no complaint\<close>

lemma note_not_in_Nil [accept_simps]: "note_not_in (dget0 d k) S msg = Inr [] \<longleftrightarrow> field_in d k S"
  by (cases "dget0 d k") (auto simp: note_not_in_def field_in_def in_set_def res_simps)

lemma note_no_instant_Nil [accept_simps]: "note_no_instant v msg = Inr [] \<longleftrightarrow> has_instant v"
  by (auto simp: note_no_instant_def has_instant_def res_simps split: sum.splits option.splits)

lemma concat_note_if_Nil: "concat (map (\<lambda>x. note_if (c x) (f x)) xs) = [] \<longleftrightarrow> list_all (\<lambda>x. \<not> c x) xs"
  by (simp add: concat_eq_Nil_conv list_all_iff)

lemma path_missing_Nil [accept_simps]: "path_missing_errors p d ks = [] \<longleftrightarrow> has_keys d ks"
  by (auto simp: path_missing_errors_def missing_keys_empty_iff has_keys_def list_all_iff)

lemma count_errors_Nil: "count_errors p d = [] \<longleftrightarrow> all_counts (JObj d)"
  by (auto simp: count_errors_def all_counts_def list_all_iff)

lemma identity_errors_Nil [accept_simps]: "identity_errors v = [] \<longleftrightarrow> identity_ok v"
  by (simp add: identity_errors_def identity_ok_def accept_simps split: json.split)

lemma collection_errors_Nil [accept_simps]: "collection_errors v = Inr [] \<longleftrightarrow> collection_ok v"
  by (simp add: collection_errors_def collection_ok_def accept_simps concat_note_if_Nil split: json.split)

lemma collect_map_Nil: "collect (map f xs) = Inr [] \<longleftrightarrow> list_all (\<lambda>x. f x = Inr []) xs"
  by (simp add: list_all_iff)

lemma runtime_errors_Nil [accept_simps]: "runtime_errors v = Inr [] \<longleftrightarrow> runtime_ok v"
  by (auto simp: runtime_errors_def runtime_ok_def collect_map_Nil accept_simps list_all_iff
      split: json.split if_splits)

lemma flags_errors_Nil: "flags_errors p d = [] \<longleftrightarrow> flags_ok d"
  by (auto simp: flags_errors_def flags_ok_def is_nonnegative_int_def dget_absent split: json.splits option.splits)


lemma store_errors_Nil [accept_simps]:
  "store_errors p d = Inr [] \<and> has_keys d REQUIRED_STORE_KEYS \<longleftrightarrow> store_ok d"
  by (auto simp: store_errors_def store_ok_def accept_simps flags_errors_Nil)

lemma section_errors_Nil: "dhas d s \<Longrightarrow> section_errors p d s = [] \<longleftrightarrow> all_counts (dget0 d s)"
  by (auto simp: section_errors_def count_errors_Nil all_counts_def dget_def dhas_map_of split: json.splits)

lemma journal_errors_Nil: "journal_errors p v = [] \<longleftrightarrow> journal_ok v"
  by (simp add: journal_errors_def journal_ok_def concat_note_if_Nil list_all_iff split: json.split)

lemma lane_errors_Nil [accept_simps]:
  "lane_errors p d = Inr [] \<and> has_keys d REQUIRED_LANE_KEYS \<longleftrightarrow> lane_ok d"
proof -
  have "has_keys d REQUIRED_LANE_KEYS \<Longrightarrow> dhas d ''sla'' \<and> dhas d ''objects'' \<and> dhas d ''journal''"
    by (simp add: has_keys_def REQUIRED_LANE_KEYS_def)
  then show ?thesis
    by (cases "has_keys d REQUIRED_LANE_KEYS")
      (simp_all add: lane_errors_def lane_ok_def accept_simps section_errors_Nil journal_errors_Nil
        dget_present [where v = "JObj []"])
qed

lemma item_names_Cons:
  "item_names (JObj d # vs) = (case dget0 d ''name'' of JStr s \<Rightarrow> s # item_names vs | _ \<Rightarrow> item_names vs)"
  by (simp add: item_names_def map_filter_def split: json.split)

text \<open>The named loop has no complaint when every item is good and no name occurs twice.\<close>

lemma named_errors_Nil:
  assumes good: "\<And>p d. check p d = Inr [] \<and> has_keys d required \<longleftrightarrow> P d"
  shows "named_errors what noun required check seen (enumerate n vs) = Inr [] \<longleftrightarrow>
     dicts_where P vs \<and> distinct (item_names vs) \<and> set (item_names vs) \<inter> set seen = {}"
proof (induction vs arbitrary: n seen)
  case Nil
  then show ?case by (simp add: dicts_where_def item_names_def map_filter_def)
next
  case (Cons v vs)
  show ?case
  proof (cases "\<exists>d. v = JObj d")
    case True
    then obtain d where v: "v = JObj d" by blast
    show ?thesis
    proof (cases "dget0 d ''name''")
      case (JStr s)
      then show ?thesis
        using Cons.IH [of "s # seen" "Suc n"] good [of "index_prefix what n" d]
        by (auto simp: v item_names_Cons dicts_where_def Let_def accept_simps)
    qed (use Cons.IH [of seen "Suc n"] good [of "index_prefix what n" d] in
         \<open>auto simp: v item_names_Cons dicts_where_def Let_def accept_simps\<close>)
  next
    case False
    then show ?thesis by (auto simp: dicts_where_def split: json.splits)
  qed
qed

lemma stores_errors_Nil [accept_simps]:
  "stores_errors v = Inr [] \<longleftrightarrow> list_where (\<lambda>vs. dicts_where store_ok vs \<and> distinct (item_names vs)) v"
  by (simp add: stores_errors_def list_where_def named_errors_Nil [OF store_errors_Nil] split: json.split)

lemma lanes_errors_Nil [accept_simps]:
  "lanes_errors v = Inr [] \<longleftrightarrow>
     list_where (\<lambda>vs. vs \<noteq> [] \<and> dicts_where lane_ok vs \<and> distinct (item_names vs)) v"
proof -
  have "lanes_errors v = (case v of JList vs \<Rightarrow>
      if vs = [] then Inr [''lanes must be a non-empty list'']
      else named_errors ''lanes'' ''lane'' REQUIRED_LANE_KEYS lane_errors [] (enumerate 0 vs)
    | _ \<Rightarrow> Inr [''lanes must be a non-empty list''])"
    unfolding lanes_errors_def by (rule json.case_cong [OF refl]) (simp_all only: split: list.split, auto)
  then show ?thesis
    by (simp add: list_where_def named_errors_Nil [OF lane_errors_Nil] del: named_errors.simps split: json.split)
qed

lemma disk_errors_dict:
  assumes "dget0 r ''disk'' = JObj d"
  shows "disk_errors (JObj r) = Inr [] \<longleftrightarrow> disk_ok (JObj r)"
proof -
  have "dget r ''disk'' (JObj []) = JObj d" using assms by (auto simp: dget_def split: option.splits)
  then show ?thesis
    using assms
    by (cases "int_value (dget0 d ''free_bytes'')"; cases "int_value (dget0 d ''total_bytes'')";
        cases "num_value (dget0 d ''free_ratio'')")
      (simp_all add: disk_errors_def disk_ok_def accept_simps is_nonnegative_int_def Let_def, linarith?)
qed

lemma disk_errors_empty: "disk_errors v \<noteq> Inr []"
  if "(case v of JObj d \<Rightarrow> dget d ''disk'' (JObj []) | _ \<Rightarrow> JObj []) = JObj []"
  using that by (simp add: disk_errors_def is_nonnegative_int_def Let_def)

lemma disk_errors_Nil [accept_simps]: "disk_errors v = Inr [] \<longleftrightarrow> disk_ok v"
proof (cases v)
  case (JObj r)
  show ?thesis
  proof (cases "dhas r ''disk''")
    case True
    then have "dget r ''disk'' (JObj []) = dget0 r ''disk''" by (rule dget_present)
    then show ?thesis
      using disk_errors_dict [of r]
      by (cases "dget0 r ''disk''") (simp_all add: JObj disk_errors_def disk_ok_def)
  next
    case False
    then show ?thesis
      using disk_errors_empty [of v] by (simp add: JObj dget_absent disk_ok_def)
  qed
qed (use disk_errors_empty [of v] in \<open>simp_all add: disk_ok_def\<close>)

lemma policy_errors_Nil [accept_simps]: "policy_errors v = [] \<longleftrightarrow> policy_ok v"
  by (auto simp: policy_errors_def policy_ok_def count_errors_Nil all_counts_def split: json.split)

lemma item_errors_Nil:
  assumes "\<And>p d. check p d = Inr [] \<longleftrightarrow> P d"
  shows "list_all (\<lambda>x. item_errors what check x = Inr []) (enumerate n vs) \<longleftrightarrow> dicts_where P vs"
  using assms
  by (induction vs arbitrary: n) (auto simp: item_errors_def dicts_where_def split: json.splits)

lemma invariant_errors_Nil: "invariant_errors p d = Inr [] \<longleftrightarrow> invariant_ok d"
  by (simp add: invariant_errors_def invariant_ok_def accept_simps)

lemma invariants_errors_Nil [accept_simps]:
  "invariants_errors v = Inr [] \<longleftrightarrow> list_where (dicts_where invariant_ok) v"
  by (simp add: invariants_errors_def list_where_def collect_map_Nil item_errors_Nil [OF invariant_errors_Nil]
      del: collect_Nil_iff split: json.split)

lemma validate_shape_Nil:
  "validate_shape r = [] \<longleftrightarrow> has_keys r REQUIRED_TOP_LEVEL_KEYS \<and> dget0 r ''schema'' = JStr STATE_SCHEMA
     \<and> is_list (dget0 r ''lanes'') \<and> is_list (dget0 r ''stores'')"
  by (auto simp: validate_shape_def missing_keys_empty_iff has_keys_def list_all_iff)

lemma validate_report_Nil: "validate_report report = Inr [] \<longleftrightarrow> report_ok report"
proof (cases "validate_shape report = []")
  case True
  then have "dhas report ''resources''"
    by (simp add: validate_shape_Nil has_keys_def REQUIRED_TOP_LEVEL_KEYS_def)
  then have "dget report ''resources'' (JObj []) = dget0 report ''resources''" by (rule dget_present)
  then show ?thesis
    using True by (simp add: validate_report_def report_ok_def validate_shape_Nil accept_simps)
next
  case False
  moreover have "list_where P v \<Longrightarrow> is_list v" for P v by (cases v) (auto simp: list_where_def)
  ultimately show ?thesis
    by (auto simp: validate_report_def report_ok_def validate_shape_Nil)
qed

section \<open>The contract, spelled out\<close>

text \<open>
  The same contract with every key and every permitted word written out, and none of the lists or helpers of the validator.  \<open>report_ok\<close> is the form that the other theories use.
\<close>

text \<open>An integer, or a boolean, which Python counts as 0 or 1.\<close>

definition counts_as :: "json \<Rightarrow> int \<Rightarrow> bool" where
  "counts_as v i \<longleftrightarrow> v = JInt i \<or> v = JBool True \<and> i = 1 \<or> v = JBool False \<and> i = 0"

definition count_value :: "json \<Rightarrow> bool" where
  "count_value v \<longleftrightarrow> (\<exists>i. counts_as v i \<and> 0 \<le> i)"

definition one_of :: "jdict \<Rightarrow> string \<Rightarrow> string set \<Rightarrow> bool" where
  "one_of d k S \<longleftrightarrow> (\<exists>s \<in> S. map_of d k = Some (JStr s))"

definition stamped :: "json \<Rightarrow> bool" where
  "stamped v \<longleftrightarrow> (\<exists>t. parse_instant v = Inr (Some t))"

text \<open>\<open>0x\<close>, hexadecimal digits and at most one final newline.\<close>

definition hex_text :: "string \<Rightarrow> int \<Rightarrow> bool" where
  "hex_text s n \<longleftrightarrow> (\<exists>digits. digits \<noteq> [] \<and> s \<in> {''0x'' @ digits, ''0x'' @ digits @ [newline]} \<and> hex_digits_value 0 digits = Some n)"

definition identity_contract :: "jdict \<Rightarrow> bool" where
  "identity_contract d \<longleftrightarrow>
     {''component'', ''repo'', ''pid'', ''process_name'', ''node_id_hash'', ''version'', ''platform'', ''service_manager''} \<subseteq> dom (map_of d)
     \<and> (\<exists>v. map_of d ''pid'' = Some v \<and> count_value v)
     \<and> (\<exists>v. map_of d ''node_id_hash'' = Some v \<and> starts_with ''sha256:'' (py_str v))"

definition collection_contract :: "jdict \<Rightarrow> bool" where
  "collection_contract d \<longleftrightarrow> one_of d ''status'' {''complete'', ''partial'', ''failed''}
     \<and> (\<forall>k \<in> {''errors'', ''redacted_fields'', ''permission_denied_fields'', ''timed_out_fields'', ''unavailable_fields''}.
          \<exists>xs. map_of d k = Some (JList xs))"

definition runtime_contract :: "jdict \<Rightarrow> bool" where
  "runtime_contract d \<longleftrightarrow> (\<forall>(k, v) \<in> set d. ends_with ''_at'' k \<longrightarrow> v = JNull \<or> stamped v)"

definition store_contract :: "jdict \<Rightarrow> bool" where
  "store_contract d \<longleftrightarrow>
     {''name'', ''role'', ''backend'', ''schema_version'', ''runtime_version'', ''migration_state'', ''checksum_state''} \<subseteq> dom (map_of d)
     \<and> one_of d ''role'' {''active'', ''shadow'', ''migration'', ''archive'', ''repair'', ''retired'', ''quarantined'', ''rebuilding''}
     \<and> one_of d ''migration_state'' {''none'', ''pending'', ''lazy'', ''running'', ''complete'', ''failed'', ''rollback_available''}
     \<and> one_of d ''checksum_state'' {''verified'', ''unverified'', ''mismatch'', ''unsupported''}
     \<and> (\<forall>v. map_of d ''flags_raw'' = Some v \<longrightarrow> count_value v)
     \<and> (\<forall>v. map_of d ''flags_hex'' = Some v \<longrightarrow> (\<exists>s n. v = JStr s \<and> hex_text s n
          \<and> (\<forall>w. map_of d ''flags_raw'' = Some w \<longrightarrow> counts_as w n)))"

definition counts_contract :: "jdict \<Rightarrow> string \<Rightarrow> bool" where
  "counts_contract d k \<longleftrightarrow> (\<exists>c. map_of d k = Some (JObj c) \<and> (\<forall>(key, v) \<in> set c. count_value v))"

definition lane_contract :: "jdict \<Rightarrow> bool" where
  "lane_contract d \<longleftrightarrow> {''name'', ''status'', ''sla'', ''objects'', ''journal'', ''maintenance''} \<subseteq> dom (map_of d)
     \<and> one_of d ''status'' {''active'', ''dormant'', ''degraded'', ''repairing'', ''retired'', ''unsafe''}
     \<and> counts_contract d ''sla'' \<and> counts_contract d ''objects''
     \<and> (\<exists>j. map_of d ''journal'' = Some (JObj j) \<and>
          (\<forall>k \<in> {''segment_count'', ''total_bytes'', ''max_segment_bytes'', ''oldest_unapplied_event_age_ms'', ''replay_lag_events'',
                 ''replay_lag_bytes'', ''replay_eta_ms''}. \<forall>v. map_of j k = Some v \<longrightarrow> count_value v))"

definition disk_contract :: "jdict \<Rightarrow> bool" where
  "disk_contract d \<longleftrightarrow> (\<exists>v w free total. map_of d ''free_bytes'' = Some v \<and> counts_as v free \<and> map_of d ''total_bytes'' = Some w \<and> counts_as w total
       \<and> 0 \<le> free \<and> free \<le> total \<and> 0 < total)
     \<and> (\<exists>v x. map_of d ''free_ratio'' = Some v \<and> num_value v = Some x \<and> \<not> float_lt x (Dec 0 0) \<and> \<not> float_lt (Dec 1 0) x)
     \<and> one_of d ''pressure'' {''none'', ''watch'', ''warning'', ''critical'', ''unknown''}"

definition invariant_contract :: "jdict \<Rightarrow> bool" where
  "invariant_contract d \<longleftrightarrow> {''id'', ''status'', ''severity'', ''evidence'', ''remediation''} \<subseteq> dom (map_of d)
     \<and> one_of d ''status'' {''pass'', ''warn'', ''fail''} \<and> one_of d ''severity'' {''info'', ''warning'', ''error'', ''critical''}
     \<and> (\<exists>e. map_of d ''evidence'' = Some (JObj e))"

definition section_meets :: "(jdict \<Rightarrow> bool) \<Rightarrow> jdict \<Rightarrow> string \<Rightarrow> bool" where
  "section_meets P r k \<longleftrightarrow> (\<exists>d. map_of r k = Some (JObj d) \<and> P d)"

definition items_meet :: "(jdict \<Rightarrow> bool) \<Rightarrow> json list \<Rightarrow> bool" where
  "items_meet P vs \<longleftrightarrow> (\<forall>v \<in> set vs. \<exists>d. v = JObj d \<and> P d)"

definition report_contract :: "jdict \<Rightarrow> bool" where
  "report_contract r \<longleftrightarrow>
     {''schema'', ''generated_at'', ''identity'', ''collection'', ''runtime'', ''stores'', ''lanes'', ''pipeline'', ''resources'',
      ''policy'', ''invariants'', ''diagnosis'', ''controls'', ''attestation''} \<subseteq> dom (map_of r)
     \<and> map_of r ''schema'' = Some (JStr ''sourceos.state-integrity-report/v1alpha1'')
     \<and> (\<exists>v. map_of r ''generated_at'' = Some v \<and> stamped v)
     \<and> section_meets identity_contract r ''identity'' \<and> section_meets collection_contract r ''collection''
     \<and> section_meets runtime_contract r ''runtime''
     \<and> (\<exists>vs. map_of r ''stores'' = Some (JList vs) \<and> items_meet store_contract vs \<and> distinct (item_names vs))
     \<and> (\<exists>vs. map_of r ''lanes'' = Some (JList vs) \<and> vs \<noteq> [] \<and> items_meet lane_contract vs \<and> distinct (item_names vs))
     \<and> section_meets (\<lambda>res. section_meets disk_contract res ''disk'') r ''resources''
     \<and> section_meets (\<lambda>policy. counts_contract policy ''policy_decisions'') r ''policy''
     \<and> (\<exists>vs. map_of r ''invariants'' = Some (JList vs) \<and> items_meet invariant_contract vs)"

lemma counts_as_iff: "int_value v = Some i \<longleftrightarrow> counts_as v i"
  by (cases v rule: int_value.cases) (auto simp: counts_as_def)

lemma count_value_iff: "is_nonnegative_int v \<longleftrightarrow> count_value v"
  by (simp add: is_nonnegative_int_def count_value_def counts_as_iff [symmetric] split: option.split)

lemma one_of_iff: "field_in d k S \<longleftrightarrow> one_of d k (set S)"
  by (auto simp: field_in_def one_of_def dget_def split: option.splits json.splits)

lemma stamped_iff: "has_instant v \<longleftrightarrow> stamped v"
  by (auto simp: has_instant_def stamped_def split: sum.splits option.splits)

lemma has_keys_iff: "has_keys d ks \<longleftrightarrow> set ks \<subseteq> dom (map_of d)"
  by (auto simp: has_keys_def list_all_iff dhas_map_of)

lemma dict_field: "(case dget0 d k of JObj x \<Rightarrow> P x | _ \<Rightarrow> False) \<longleftrightarrow> (\<exists>x. map_of d k = Some (JObj x) \<and> P x)"
  by (auto simp: dget_def split: option.splits json.splits)

lemma list_field: "list_where P (dget0 d k) \<longleftrightarrow> (\<exists>vs. map_of d k = Some (JList vs) \<and> P vs)"
  by (auto simp: list_where_def dget_def split: option.splits json.splits)

lemma items_meet_iff: "dicts_where P vs = items_meet P vs"
proof -
  have "(case v of JObj d \<Rightarrow> P d | _ \<Rightarrow> False) \<longleftrightarrow> (\<exists>d. v = JObj d \<and> P d)" for v by (cases v) auto
  then show ?thesis by (simp add: dicts_where_def items_meet_def list_all_iff)
qed

lemma optional_field: "\<not> dhas d k \<or> P (dget0 d k) \<longleftrightarrow> (\<forall>v. map_of d k = Some v \<longrightarrow> P v)"
  by (auto simp: dhas_map_of dget_def split: option.splits)

lemma present_field: "k \<in> dom (map_of d) \<Longrightarrow> P (dget0 d k) \<longleftrightarrow> (\<exists>v. map_of d k = Some v \<and> P v)"
  by (auto simp: dget_def)

lemma counts_contract_iff: "all_counts (dget0 d k) \<longleftrightarrow> counts_contract d k"
proof -
  have c: "list_all (\<lambda>(k, x). is_nonnegative_int x) c \<longleftrightarrow> (\<forall>(key, v) \<in> set c. count_value v)" for c
    by (auto simp: count_value_iff list_all_iff)
  then show ?thesis unfolding all_counts_def dict_field counts_contract_def by (simp only: c)
qed

lemma hex_text_iff: "HEX_RE s = Some n \<longleftrightarrow> hex_text s n"
proof -
  have nl: "hex_digits_value acc (ds @ [newline]) = None" for acc ds
    by (induction ds arbitrary: acc) (auto simp: hex_char_value.simps split: option.split)
  have whole: "starts_with ''0x'' t \<and> drop 2 t \<noteq> [] \<and> hex_digits_value 0 (drop 2 t) = Some n
      \<longleftrightarrow> (\<exists>ds. ds \<noteq> [] \<and> t = ''0x'' @ ds \<and> hex_digits_value 0 ds = Some n)" for t
    by (auto simp: starts_with_iff)
  show ?thesis
  proof (cases "\<exists>t. s = t @ [newline]")
    case True
    then obtain t where s: "s = t @ [newline]" by blast
    have "s \<noteq> ''0x'' @ ds" if "hex_digits_value 0 ds = Some n" "ds \<noteq> []" for ds
    proof
      assume "s = ''0x'' @ ds"
      then have "ds = butlast ds @ [newline]" using that(2) s by (metis append_butlast_last_id last_appendR last_snoc)
      then show False using nl [of 0 "butlast ds"] that(1) by simp
    qed
    then show ?thesis
      using whole [of t] by (auto simp: HEX_RE_def hex_text_def s ends_with_iff Let_def split: if_splits)
  next
    case False
    then have "\<not> ends_with [newline] s" by (simp add: ends_with_iff)
    then show ?thesis
      using whole [of s] False by (auto simp: HEX_RE_def hex_text_def Let_def split: if_splits)
  qed
qed

lemma identity_contract_iff: "identity_ok (dget0 r k) \<longleftrightarrow> section_meets identity_contract r k"
  unfolding identity_ok_def dict_field section_meets_def identity_contract_def has_keys_iff
  by (auto simp: count_value_iff dget_def REQUIRED_IDENTITY_KEYS_def)

lemma collection_contract_iff: "collection_ok (dget0 r k) \<longleftrightarrow> section_meets collection_contract r k"
proof -
  have l: "is_list (dget0 d key) \<longleftrightarrow> (\<exists>xs. map_of d key = Some (JList xs))" for d key
    by (cases "dget0 d key") (auto simp: dget_def split: option.splits)
  show ?thesis
    unfolding collection_ok_def dict_field section_meets_def collection_contract_def has_keys_iff one_of_iff
    by (auto simp: l REQUIRED_COLLECTION_KEYS_def COLLECTION_STATUSES_def one_of_def)
qed

lemma runtime_contract_iff: "runtime_ok (dget0 r k) \<longleftrightarrow> section_meets runtime_contract r k"
proof -
  have "list_all (\<lambda>(k, x). \<not> ends_with ''_at'' k \<or> x = JNull \<or> has_instant x) d \<longleftrightarrow> runtime_contract d" for d
    by (auto simp: runtime_contract_def stamped_iff list_all_iff)
  then show ?thesis unfolding runtime_ok_def dict_field section_meets_def by (simp only:)
qed

lemma flags_contract_iff: "flags_ok d \<longleftrightarrow> (\<forall>v. map_of d ''flags_raw'' = Some v \<longrightarrow> count_value v)
    \<and> (\<forall>v. map_of d ''flags_hex'' = Some v \<longrightarrow> (\<exists>s n. v = JStr s \<and> hex_text s n
          \<and> (\<forall>w. map_of d ''flags_raw'' = Some w \<longrightarrow> counts_as w n)))"
proof -
  have h: "(case v of JStr s \<Rightarrow> (case HEX_RE s of None \<Rightarrow> False | Some n \<Rightarrow> Q n) | _ \<Rightarrow> False)
      \<longleftrightarrow> (\<exists>s n. v = JStr s \<and> hex_text s n \<and> Q n)" for v Q
    by (cases v) (auto simp: hex_text_iff [symmetric] split: option.split)
  have r: "(\<not> dhas d ''flags_raw'' \<or> int_value (dget0 d ''flags_raw'') = Some n)
      \<longleftrightarrow> (\<forall>w. map_of d ''flags_raw'' = Some w \<longrightarrow> counts_as w n)" for n
    using optional_field [of d "''flags_raw''" "\<lambda>v. int_value v = Some n"] by (simp add: counts_as_iff)
  show ?thesis
    unfolding flags_ok_def h r
    using optional_field [of d "''flags_raw''" is_nonnegative_int]
      optional_field [of d "''flags_hex''" "\<lambda>v. \<exists>s n. v = JStr s \<and> hex_text s n
          \<and> (\<forall>w. map_of d ''flags_raw'' = Some w \<longrightarrow> counts_as w n)"]
    by (simp add: count_value_iff)
qed

lemma store_contract_iff: "store_ok = store_contract"
  by (rule ext) (simp only: store_ok_def store_contract_def flags_contract_iff has_keys_iff one_of_iff REQUIRED_STORE_KEYS_def
      STORE_ROLES_def MIGRATION_STATES_def CHECKSUM_STATES_def list.set)

lemma journal_contract_iff: "journal_ok (dget0 d k) \<longleftrightarrow> (\<exists>j. map_of d k = Some (JObj j) \<and>
          (\<forall>k \<in> set JOURNAL_COUNTS. \<forall>v. map_of j k = Some v \<longrightarrow> count_value v))"
  unfolding journal_ok_def dict_field list_all_iff count_value_iff optional_field [where P = count_value] ..

lemma lane_contract_iff: "lane_ok = lane_contract"
  by (rule ext) (simp only: lane_ok_def lane_contract_def journal_contract_iff counts_contract_iff has_keys_iff one_of_iff
      REQUIRED_LANE_KEYS_def LANE_STATUSES_def JOURNAL_COUNTS_def list.set)

lemma disk_contract_iff: "disk_ok (dget0 r k) \<longleftrightarrow> section_meets (\<lambda>res. section_meets disk_contract res ''disk'') r k"
proof -
  have n: "num_value JNull = None" "int_value JNull = None" by simp_all
  have "(case (int_value (dget0 d ''free_bytes''), int_value (dget0 d ''total_bytes''), num_value (dget0 d ''free_ratio'')) of
           (Some f, Some t, Some x) \<Rightarrow> 0 \<le> f \<and> f \<le> t \<and> 0 < t \<and> \<not> float_lt x (Dec 0 0) \<and> \<not> float_lt (Dec 1 0) x
         | _ \<Rightarrow> False) \<and> field_in d ''pressure'' PRESSURE_STATES \<longleftrightarrow> disk_contract d" for d
    unfolding disk_contract_def one_of_iff counts_as_iff [symmetric]
    by (auto simp: PRESSURE_STATES_def dget_def split: option.splits)
  then show ?thesis unfolding disk_ok_def dict_field section_meets_def by (simp only:)
qed

lemma policy_contract_iff: "policy_ok (dget0 r k) \<longleftrightarrow> section_meets (\<lambda>policy. counts_contract policy ''policy_decisions'') r k"
  unfolding policy_ok_def dict_field section_meets_def counts_contract_iff ..

lemma invariant_contract_iff: "invariant_ok = invariant_contract"
proof (rule ext)
  fix d
  have "is_dict (dget0 d ''evidence'') \<longleftrightarrow> (\<exists>e. map_of d ''evidence'' = Some (JObj e))"
    by (cases "dget0 d ''evidence''") (auto simp: dget_def split: option.splits)
  then show "invariant_ok d = invariant_contract d"
    by (simp only: invariant_ok_def invariant_contract_def has_keys_iff one_of_iff REQUIRED_INVARIANT_KEYS_def INVARIANT_STATUSES_def
        SEVERITIES_def list.set)
qed

lemma report_contract_iff: "report_ok r \<longleftrightarrow> report_contract r"
proof -
  have g: "has_instant (dget0 r ''generated_at'') \<longleftrightarrow> (\<exists>v. map_of r ''generated_at'' = Some v \<and> stamped v)"
    by (auto simp: stamped_iff dget_def stamped_def parse_instant_def split: option.splits)
  have s: "dget0 r ''schema'' = JStr STATE_SCHEMA \<longleftrightarrow> map_of r ''schema'' = Some (JStr ''sourceos.state-integrity-report/v1alpha1'')"
    by (auto simp: dget_def STATE_SCHEMA_def split: option.splits)
  show ?thesis
    by (simp only: report_ok_def report_contract_def has_keys_iff REQUIRED_TOP_LEVEL_KEYS_def list.set g s identity_contract_iff
        collection_contract_iff runtime_contract_iff list_field store_contract_iff lane_contract_iff items_meet_iff disk_contract_iff
        policy_contract_iff invariant_contract_iff)
qed

text \<open>A report the validator accepts although it names no process start, no heartbeat, no memory and no policy engine, and has a key of its own.\<close>

definition lax_report :: jdict where
  "lax_report = [
     (''schema'', JStr STATE_SCHEMA), (''generated_at'', JStr ''2026-05-01T09:30:00Z''),
     (''identity'', JObj [(''component'', JStr ''c''), (''repo'', JStr ''r''), (''pid'', JBool True), (''process_name'', JStr ''p''),
        (''node_id_hash'', JStr ''sha256:0''), (''version'', JStr ''0''), (''platform'', JStr ''amiga''), (''service_manager'', JStr ''none'')]),
     (''collection'', JObj [(''status'', JStr ''complete''), (''errors'', JList []), (''redacted_fields'', JList []),
        (''permission_denied_fields'', JList []), (''timed_out_fields'', JList []), (''unavailable_fields'', JList [])]),
     (''runtime'', JObj []), (''stores'', JList []),
     (''lanes'', JList [JObj [(''name'', JStr ''normal''), (''status'', JStr ''active''), (''sla'', JObj []), (''objects'', JObj []),
        (''journal'', JObj []), (''maintenance'', JNull)]]),
     (''pipeline'', JNull),
     (''resources'', JObj [(''disk'', JObj [(''free_bytes'', JInt 1), (''total_bytes'', JInt 2), (''free_ratio'', JFloat (Dec 5 (- 1))),
        (''pressure'', JStr ''none'')])]),
     (''policy'', JObj [(''policy_decisions'', JObj [])]), (''invariants'', JList []), (''diagnosis'', JNull), (''controls'', JNull),
     (''attestation'', JNull), (''anything'', JStr ''else'')]"

lemma lax_report_accepted: "validate_report lax_report = Inr []"
  by code_simp

text \<open>
  C37: validation has no complaint about a report exactly when the report satisfies \<open>report_contract\<close>: every
  required key is present, time stamps are ISO-8601 texts, statuses and states are from their sets,
  counts are non-negative integers (or booleans), flags agree, the disk figures are consistent, and no two stores
  and no two lanes share a name.  This is the validator's contract; the published JSON schema asks for more.  \<open>lax_report\<close> is accepted
  although the schema forbids it: it lacks \<open>process_started_at\<close>, \<open>last_heartbeat_at\<close>, \<open>memory\<close> and \<open>policy_engine\<close>, its \<open>pid\<close> is a boolean, its platform is unknown, and it has a
  top-level key of its own.
\<close>

theorem report_valid_iff: "(validate_report report = Inr [] \<longleftrightarrow> report_contract report) \<and> validate_report lax_report = Inr []"
  by (simp add: validate_report_Nil report_contract_iff lax_report_accepted [unfolded validate_report_Nil report_contract_iff])

end
