(* ===== verification/Reports.thy ===== *)
theory Reports
  imports Report_Validation Json_Text
begin

text \<open>
  The second half of \<open>reports.py\<close>: building a snapshot, verifying and diagnosing a report, controls and
  repair plans.  What the host says (process id, names, disk usage, environment) and the readings of
  the clock are arguments; \<open>sha256\<close> is the hexadecimal digest of a text.
\<close>

section \<open>Snapshots\<close>

definition package_version :: string where "package_version = ''0.1.0''"

record snapshot_host =
  h_hostname :: string
  h_node :: string
  h_system :: string
  h_run_systemd :: bool
  h_pid :: int
  h_commit :: "string option"
  h_provenance :: "string option"
  h_disk_free :: int
  h_disk_total :: int

definition env_or :: "string option \<Rightarrow> string \<Rightarrow> string" where
  "env_or v d = (case v of None \<Rightarrow> d | Some s \<Rightarrow> s)"

definition stable_node_hash :: "(string \<Rightarrow> string) \<Rightarrow> snapshot_host \<Rightarrow> string" where
  "stable_node_hash sha256 h = ''sha256:'' @ sha256 (h_hostname h @ '':'' @ h_node h)"

definition service_manager :: "snapshot_host \<Rightarrow> string" where
  "service_manager h =
     (let system = lower (h_system h) in
      if system = ''darwin'' then ''launchd''
      else if system = ''windows'' then ''windows-service''
      else if h_run_systemd h then ''systemd''
      else ''manual'')"

definition disk_pressure :: "pyfloat \<Rightarrow> string" where
  "disk_pressure free_ratio =
     (if float_le free_ratio (Dec 5 (- 2)) then ''critical''
      else if float_le free_ratio (Dec 1 (- 1)) then ''warning''
      else if float_le free_ratio (Dec 2 (- 1)) then ''watch''
      else ''none'')"

definition empty_pipeline_counts :: json where
  "empty_pipeline_counts = JObj [
     (''external_requested'', JInt 0), (''internal_generated'', JInt 0), (''accepted'', JInt 0),
     (''journaled'', JInt 0), (''applied'', JInt 0), (''deduped'', JInt 0), (''replayed'', JInt 0),
     (''skipped'', JInt 0), (''failed'', JInt 0)]"

definition free_ratio_of :: "snapshot_host \<Rightarrow> pyfloat" where
  "free_ratio_of h = round_digits 4 (to_double (h_disk_free h) (max (h_disk_total h) 1))"

definition collect_resources :: "snapshot_host \<Rightarrow> json" where
  "collect_resources h =
     (let free_ratio = free_ratio_of h in
      JObj [
        (''disk'', JObj [
          (''filesystem'', JStr ''unknown''), (''free_bytes'', JInt (h_disk_free h)),
          (''total_bytes'', JInt (h_disk_total h)), (''free_ratio'', JFloat free_ratio),
          (''pressure'', JStr (disk_pressure free_ratio))]),
        (''memory'', JObj [
          (''total_gb'', JNull), (''budget_mb'', JInt 256), (''pressure'', JStr ''unknown''),
          (''unavailable_reason'', JStr ''standard_library_only_collector'')])])"

definition snapshot_identity :: "(string \<Rightarrow> string) \<Rightarrow> snapshot_host \<Rightarrow> json" where
  "snapshot_identity sha256 h = JObj [
     (''component'', JStr ''sourceos-syncd''), (''repo'', JStr ''SourceOS-Linux/sourceos-syncd''),
     (''pid'', JInt (h_pid h)), (''process_name'', JStr ''sourceos-syncd''),
     (''node_id_hash'', JStr (stable_node_hash sha256 h)), (''boot_id'', JStr ''unknown''),
     (''version'', JStr package_version), (''commit'', JStr (env_or (h_commit h) ''unknown'')),
     (''build_provenance'', JStr (env_or (h_provenance h) ''local-dev'')),
     (''platform'', JStr (if lower (h_system h) = '''' then ''unknown'' else lower (h_system h))),
     (''service_manager'', JStr (service_manager h))]"

definition snapshot_collection :: json where
  "snapshot_collection = JObj [
     (''status'', JStr ''partial''), (''duration_ms'', JInt 0), (''errors'', JList []),
     (''redacted_fields'', JList []), (''permission_denied_fields'', JList []),
     (''timed_out_fields'', JList []),
     (''unavailable_fields'', strs [''memory.total_gb'', ''identity.boot_id''])]"

definition snapshot_runtime :: "string \<Rightarrow> json" where
  "snapshot_runtime now = JObj [
     (''process_started_at'', JStr now), (''runtime_ready_at'', JStr now), (''store_opened_at'', JStr now),
     (''replay_started_at'', JStr now), (''replay_completed_at'', JStr now),
     (''first_heartbeat_at'', JStr now), (''last_heartbeat_at'', JStr now),
     (''last_clean_shutdown_at'', JNull), (''last_dirty_open_at'', JNull)]"

definition snapshot_store :: json where
  "snapshot_store = JObj [
     (''name'', JStr ''content-store-a''), (''role'', JStr ''active''), (''backend'', JStr ''filesystem''),
     (''schema_version'', JStr ''1.0.0''), (''created_by_version'', JStr package_version),
     (''runtime_version'', JStr package_version), (''previous_runtime_version'', JNull),
     (''migration_state'', JStr ''none''), (''active_generation'', JInt 1),
     (''last_known_good_generation'', JInt 1), (''shadow_present'', JBool False),
     (''manifest_present'', JBool False), (''checksum_state'', JStr ''unverified''),
     (''flags_raw'', JInt 0), (''flags_hex'', JStr ''0x0''), (''flags_decoded'', JList []),
     (''unknown_flags'', JList [])]"

definition snapshot_lane :: json where
  "snapshot_lane = JObj [
     (''name'', JStr ''normal''), (''status'', JStr ''active''),
     (''sla'', JObj [
       (''max_heartbeat_age_ms'', JInt 30000), (''max_replay_lag_events'', JInt 100),
       (''max_replay_lag_ms'', JInt 10000)]),
     (''objects'', JObj [
       (''total'', JInt 0), (''tombstones'', JInt 0), (''orphans'', JInt 0), (''corrupted'', JInt 0),
       (''encrypted'', JInt 0), (''redacted'', JInt 0)]),
     (''journal'', JObj [
       (''segment_count'', JInt 0), (''total_bytes'', JInt 0), (''max_segment_bytes'', JInt 0),
       (''oldest_unapplied_event_age_ms'', JInt 0), (''replay_lag_events'', JInt 0),
       (''replay_lag_bytes'', JInt 0), (''replay_throughput_events_per_sec'', JInt 0),
       (''replay_eta_ms'', JInt 0), (''checksum_state'', JStr ''verified'')]),
     (''maintenance'', JObj [
       (''last_compact_started_at'', JNull), (''last_compact_completed_at'', JNull),
       (''last_compact_duration_ms'', JNull), (''compaction_debt'', JStr ''none''),
       (''last_purge_started_at'', JNull), (''last_purge_completed_at'', JNull),
       (''purge_debt'', JStr ''none''), (''last_repair_at'', JNull), (''repair_debt'', JStr ''none'')])]"

definition snapshot_pipeline :: json where
  "snapshot_pipeline = JObj [
     (''add'', empty_pipeline_counts), (''update'', empty_pipeline_counts),
     (''delete'', JObj [
       (''external_requested'', JInt 0), (''authorized'', JInt 0), (''tombstoned'', JInt 0),
       (''journaled'', JInt 0), (''propagated'', JInt 0), (''purged'', JInt 0), (''failed'', JInt 0)])]"

definition snapshot_policy :: json where
  "snapshot_policy = JObj [
     (''policy_engine'', JStr ''policy-fabric''), (''policy_version'', JStr ''unknown''),
     (''indexing_policy'', JStr ''sourceos.index/default''),
     (''retention_policy'', JStr ''sourceos.retention/local-first-default''),
     (''replication_policy'', JStr ''sourceos.replication/local-only''),
     (''agent_access_policy'', JStr ''sourceos.agent/trust-gated''),
     (''policy_decisions'', JObj [
       (''allowed'', JInt 0), (''denied'', JInt 0), (''redacted'', JInt 0), (''deferred'', JInt 0)])]"

definition base_snapshot :: "(string \<Rightarrow> string) \<Rightarrow> snapshot_host \<Rightarrow> utc_clock \<Rightarrow> jdict" where
  "base_snapshot sha256 h clock =
     (let now = utc_now clock in [
     (''schema'', JStr STATE_SCHEMA),
     (''generated_at'', JStr now),
     (''identity'', snapshot_identity sha256 h),
     (''collection'', snapshot_collection),
     (''runtime'', snapshot_runtime now),
     (''stores'', JList [snapshot_store]),
     (''lanes'', JList [snapshot_lane]),
     (''pipeline'', snapshot_pipeline),
     (''resources'', collect_resources h),
     (''policy'', snapshot_policy),
     (''invariants'', JList []),
     (''diagnosis'', JObj []),
     (''controls'', JList []),
     (''attestation'', JObj [(''signed'', JBool False), (''reason'', JStr ''unsigned-runtime-snapshot'')])])"

section \<open>Verification\<close>

datatype check_status = Pass | Warn | Fail

fun status_order :: "check_status \<Rightarrow> nat" where
  "status_order Pass = 0" | "status_order Warn = 1" | "status_order Fail = 2"

fun status_text :: "check_status \<Rightarrow> string" where
  "status_text Pass = ''pass''" | "status_text Warn = ''warn''" | "status_text Fail = ''fail''"

instantiation check_status :: linorder
begin

definition less_eq_check_status :: "check_status \<Rightarrow> check_status \<Rightarrow> bool" where
  "s \<le> t \<longleftrightarrow> status_order s \<le> status_order t"

definition less_check_status :: "check_status \<Rightarrow> check_status \<Rightarrow> bool" where
  "s < t \<longleftrightarrow> status_order s < status_order t"

instance
proof
  fix s t :: check_status
  assume "s \<le> t" and "t \<le> s"
  then show "s = t" by (cases s; cases t) (simp_all add: less_eq_check_status_def)
qed (auto simp: less_eq_check_status_def less_check_status_def)

end

record check_result =
  cr_id :: string
  cr_status :: check_status
  cr_severity :: string
  cr_evidence :: jdict
  cr_remediation :: string

definition check_to_dict :: "check_result \<Rightarrow> json" where
  "check_to_dict c = JObj [
     (''id'', JStr (cr_id c)), (''status'', JStr (status_text (cr_status c))),
     (''severity'', JStr (cr_severity c)), (''evidence'', JObj (cr_evidence c)),
     (''remediation'', JStr (cr_remediation c))]"

text \<open>The shape all six checks share: passed with severity \<open>info\<close>, or the given failure.\<close>

definition check :: "string \<Rightarrow> bool \<Rightarrow> check_status \<Rightarrow> string \<Rightarrow> jdict \<Rightarrow> string \<Rightarrow> check_result" where
  "check cid ok bad severity evidence remediation =
     \<lparr>cr_id = cid, cr_status = (if ok then Pass else bad),
      cr_severity = (if ok then ''info'' else severity),
      cr_evidence = evidence, cr_remediation = remediation\<rparr>"

definition heartbeat_age_ms :: "instant \<Rightarrow> jdict \<Rightarrow> int option res" where
  "heartbeat_age_ms now report =
     ebind (jget (dget report ''runtime'' (JObj [])) ''last_heartbeat_at'' JNull) (\<lambda>beat.
     ebind (parse_instant beat) (\<lambda>last.
     ebind (parse_instant (dget0 report ''generated_at'')) (\<lambda>g.
     let generated = (case g of None \<Rightarrow> now | Some t \<Rightarrow> t) in
     case last of
       None \<Rightarrow> Inr None
     | Some l \<Rightarrow> ebind (minus_instant generated l) (\<lambda>d. Inr (Some (max 0 (total_millis d)))))))"

text \<open>The lanes that are dicts.\<close>

definition dict_items :: "json list \<Rightarrow> jdict list" where
  "dict_items vs = map dict_or_empty [v \<leftarrow> vs. is_dict v]"

definition report_lanes :: "jdict \<Rightarrow> jdict list res" where
  "report_lanes report = ebind (py_iter (dget report ''lanes'' (JList []))) (\<lambda>vs. Inr (dict_items vs))"

definition report_stores :: "jdict \<Rightarrow> jdict list res" where
  "report_stores report = ebind (py_iter (dget report ''stores'' (JList []))) (\<lambda>vs. Inr (dict_items vs))"

definition lane_value :: "string \<Rightarrow> string \<Rightarrow> jdict \<Rightarrow> json res" where
  "lane_value s key lane = jget (dget lane s (JObj [])) key JNull"

definition lane_lag :: "jdict \<Rightarrow> int res" where
  "lane_lag lane = ebind (lane_value ''journal'' ''replay_lag_events'' lane) int_or_zero"

definition lane_allowed_lag :: "jdict \<Rightarrow> int res" where
  "lane_allowed_lag lane = ebind (lane_value ''sla'' ''max_replay_lag_events'' lane) int_or_zero"

definition max_heartbeat_age :: "jdict list \<Rightarrow> int res" where
  "max_heartbeat_age lanes =
     ebind (emap (lane_value ''sla'' ''max_heartbeat_age_ms'') lanes) (\<lambda>vs.
     case List.map_filter int_value vs of
       [] \<Rightarrow> Inr 30000
     | sla # slas \<Rightarrow> Inr (foldl min sla slas))"

definition replay_lags :: "jdict list \<Rightarrow> (int \<times> int) res" where
  "replay_lags lanes =
     efold (\<lambda>lane (total, allowed).
       ebind (lane_lag lane) (\<lambda>l. ebind (lane_allowed_lag lane) (\<lambda>a. Inr (total + l, allowed + a))))
       lanes (0, 0)"

definition shadow_unverified :: "jdict \<Rightarrow> bool res" where
  "shadow_unverified store =
     (if dget0 store ''role'' = JStr ''active'' \<and> truthy (dget0 store ''shadow_present'')
      then ebind (in_set (dget0 store ''checksum_state'') [''verified'', ''unsupported'']) (\<lambda>b. Inr (\<not> b))
      else Inr False)"

definition shadow_failures :: "jdict list \<Rightarrow> json list res" where
  "shadow_failures stores =
     efold (\<lambda>store acc. ebind (shadow_unverified store) (\<lambda>b.
       Inr (if b then acc @ [dget store ''name'' (JStr ''unknown'')] else acc))) stores []"

definition opt_int :: "int option \<Rightarrow> json" where
  "opt_int v = (case v of None \<Rightarrow> JNull | Some i \<Rightarrow> JInt i)"

definition verification_checks ::
  "string list \<Rightarrow> int option \<Rightarrow> int \<Rightarrow> int \<times> int \<Rightarrow> json list \<Rightarrow> bool \<Rightarrow> json \<Rightarrow> json \<Rightarrow> json
   \<Rightarrow> check_result list" where
  "verification_checks errors age max_age lags shadow ok_pressure pressure free_ratio dirty_open = [
     check ''report.contract_valid'' (errors = []) Fail ''critical''
       [(''errors'', strs errors)] ''fix_report_contract'',
     check ''heartbeat.within_sla'' (case age of None \<Rightarrow> False | Some a \<Rightarrow> a \<le> max_age) Fail ''error''
       [(''age_ms'', opt_int age), (''max_heartbeat_age_ms'', JInt max_age)] ''restart_or_mark_stale'',
     check ''journal.replay_lag_within_sla'' (fst lags \<le> snd lags) Fail ''error''
       [(''replay_lag_events'', JInt (fst lags)), (''allowed_replay_lag_events'', JInt (snd lags))]
       ''run_replay'',
     check ''store.shadow_verified_when_present'' (shadow = []) Warn ''warning''
       [(''stores'', JList shadow)] ''verify_or_rebuild_shadow'',
     check ''resources.disk_pressure_below_critical'' ok_pressure Fail ''critical''
       [(''pressure'', pressure), (''free_ratio'', free_ratio)] ''compact_or_purge_preview'',
     check ''runtime.no_unrecovered_dirty_open'' (\<not> truthy dirty_open) Warn ''warning''
       [(''last_dirty_open_at'', dirty_open)] ''verify_before_ready'']"

definition overall_status :: "check_result list \<Rightarrow> check_status" where
  "overall_status checks = foldr max (map cr_status checks) Pass"

definition verify :: "instant \<Rightarrow> jdict \<Rightarrow> (check_status \<times> check_result list) res" where
  "verify now report =
     ebind (validate_report report) (\<lambda>errors.
     ebind (heartbeat_age_ms now report) (\<lambda>age.
     ebind (report_lanes report) (\<lambda>lanes.
     ebind (max_heartbeat_age lanes) (\<lambda>max_age.
     ebind (replay_lags lanes) (\<lambda>lags.
     ebind (report_stores report) (\<lambda>stores.
     ebind (shadow_failures stores) (\<lambda>shadow.
     ebind (jget (dget report ''resources'' (JObj [])) ''disk'' (JObj [])) (\<lambda>disk.
     let pressure = (case disk of JObj d \<Rightarrow> dget d ''pressure'' (JStr ''unknown'') | _ \<Rightarrow> JStr ''unknown'');
         free_ratio = (case disk of JObj d \<Rightarrow> dget0 d ''free_ratio'' | _ \<Rightarrow> JNull)
     in
     ebind (in_set pressure [''critical'', ''unknown'']) (\<lambda>bad.
     ebind (jget (dget report ''runtime'' (JObj [])) ''last_dirty_open_at'' JNull) (\<lambda>dirty_open.
     let checks = verification_checks errors age max_age lags shadow (\<not> bad) pressure free_ratio dirty_open
     in Inr (overall_status checks, checks)))))))))))"

section \<open>Diagnosis\<close>

record diagnosis =
  dg_status :: string
  dg_severity :: string
  dg_summary :: string
  dg_causes :: "string list"
  dg_affected_lanes :: "json list"
  dg_safe_actions :: "string list"
  dg_blocked_actions :: "string list"

definition diagnosis_to_dict :: "diagnosis \<Rightarrow> json" where
  "diagnosis_to_dict d = JObj [
     (''status'', JStr (dg_status d)), (''severity'', JStr (dg_severity d)),
     (''summary'', JStr (dg_summary d)), (''causes'', strs (dg_causes d)),
     (''affected_lanes'', JList (dg_affected_lanes d)), (''affected_domains'', JList []),
     (''safe_actions'', strs (dg_safe_actions d)), (''blocked_actions'', strs (dg_blocked_actions d))]"

definition lane_affected :: "jdict \<Rightarrow> bool res" where
  "lane_affected lane =
     ebind (lane_lag lane) (\<lambda>lag.
     ebind (lane_allowed_lag lane) (\<lambda>allowed.
     ebind (in_set (dget0 lane ''status'') [''degraded'', ''repairing'', ''unsafe'']) (\<lambda>b.
     Inr (b \<or> lag > allowed))))"

text \<open>Adding a value to a set raises when the value cannot be hashed.\<close>

definition affected_lanes :: "jdict list \<Rightarrow> json list res" where
  "affected_lanes lanes =
     efold (\<lambda>lane acc.
       ebind (lane_affected lane) (\<lambda>b.
       if b then
         (let name = dget lane ''name'' (JStr ''unknown'')
          in if hashable name then Inr (acc @ [name]) else Inl TypeError)
       else Inr acc)) lanes []"

definition disk_pressure_of :: "jdict \<Rightarrow> json res" where
  "disk_pressure_of report =
     ebind (jget (dget report ''resources'' (JObj [])) ''disk'' (JObj [])) (\<lambda>disk.
     jget disk ''pressure'' JNull)"

definition verdict :: "check_result list \<Rightarrow> string \<times> string" where
  "verdict checks =
     (if list_ex (\<lambda>c. cr_severity c = ''critical'' \<and> cr_status c = Fail) checks then (''unsafe'', ''critical'')
      else if list_ex (\<lambda>c. cr_status c = Fail) checks then (''degraded'', ''error'')
      else if list_ex (\<lambda>c. cr_status c = Warn) checks then (''degraded'', ''warning'')
      else (''healthy'', ''info''))"

definition summary_text :: "string \<Rightarrow> string" where
  "summary_text status =
     (if status = ''healthy'' then ''All required state integrity invariants pass.''
      else if status = ''degraded'' then
        ''One or more state integrity invariants need attention before full trust.''
      else
        ''Critical state integrity invariant failed; restrict mutation and require repair planning.'')"

definition diagnose :: "instant \<Rightarrow> jdict \<Rightarrow> diagnosis res" where
  "diagnose now report =
     ebind (verify now report) (\<lambda>(overall, checks).
     let failing = [c \<leftarrow> checks. cr_status c \<noteq> Pass];
         causes0 = map cr_id failing;
         actions0 = [r \<leftarrow> map cr_remediation failing. r \<noteq> '''']
     in
     ebind (report_lanes report) (\<lambda>lanes.
     ebind (affected_lanes lanes) (\<lambda>affected.
     ebind (jget (dget report ''collection'' (JObj [])) ''status'' JNull) (\<lambda>collection_status.
     let causes = causes0 @ note_if (collection_status = JStr ''partial'') ''collection.partial''
                    @ note_if (collection_status = JStr ''failed'') ''collection.failed''
     in
     ebind (disk_pressure_of report) (\<lambda>pressure.
     ebind (in_set pressure [''warning'', ''critical'']) (\<lambda>tight.
     let actions = actions0 @ note_if tight ''purge_preview'';
         blocked = note_if tight ''destructive_purge_without_policy_grant''
           @ note_if (list_ex (\<lambda>c. contains ''replay_lag'' c \<or> contains ''heartbeat'' c) causes)
               ''agent_action_requiring_fresh_state'';
         v = verdict checks
     in
     ebind (sorted_values (dedup affected)) (\<lambda>names.
     Inr \<lparr>dg_status = fst v, dg_severity = snd v, dg_summary = summary_text (fst v),
          dg_causes = sorted_set causes, dg_affected_lanes = names,
          dg_safe_actions = (if actions = [] then [''continue_normal_operation''] else sorted_set actions),
          dg_blocked_actions = sorted_set blocked\<rparr>)))))))"

section \<open>Controls\<close>

record control =
  ct_id :: string
  ct_trigger :: string
  ct_action :: string
  ct_mode :: string

definition control_to_dict :: "control \<Rightarrow> json" where
  "control_to_dict c = JObj [
     (''id'', JStr (ct_id c)), (''trigger'', JStr (ct_trigger c)), (''action'', JStr (ct_action c)),
     (''mode'', JStr (ct_mode c))]"

definition controls_for :: "instant \<Rightarrow> jdict \<Rightarrow> control list res" where
  "controls_for now report =
     ebind (diagnose now report) (\<lambda>d.
     ebind (disk_pressure_of report) (\<lambda>pressure.
     ebind (in_set pressure [''warning'', ''critical'']) (\<lambda>tight.
     Inr ((if ''journal.replay_lag_within_sla'' \<in> set (dg_causes d) then
             [\<lparr>ct_id = ''run_replay'', ct_trigger = ''journal.replay_lag_above_sla'',
               ct_action = ''run_replay'', ct_mode = ''automatic_allowed''\<rparr>] else [])
        @ (if tight then
             [\<lparr>ct_id = ''disk_pressure_purge_preview'', ct_trigger = ''disk.pressure_warning_or_critical'',
               ct_action = ''purge_preview'', ct_mode = ''manual_approval_required''\<rparr>] else [])
        @ (if ''runtime.no_unrecovered_dirty_open'' \<in> set (dg_causes d) then
             [\<lparr>ct_id = ''verify_dirty_open'', ct_trigger = ''runtime.last_dirty_open_present'',
               ct_action = ''verify_before_ready'', ct_mode = ''automatic_allowed''\<rparr>] else [])))))"

text \<open>The three assignments of \<open>snapshot\<close> and \<open>with_fresh_diagnosis\<close>, each with its own clock reading.\<close>

definition refresh :: "instant \<Rightarrow> instant \<Rightarrow> instant \<Rightarrow> jdict \<Rightarrow> jdict res" where
  "refresh now1 now2 now3 report =
     ebind (verify now1 report) (\<lambda>(overall, checks).
     let r1 = dset ''invariants'' (JList (map check_to_dict checks)) report in
     ebind (diagnose now2 r1) (\<lambda>d.
     let r2 = dset ''diagnosis'' (diagnosis_to_dict d) r1 in
     ebind (controls_for now3 r2) (\<lambda>cs.
     Inr (dset ''controls'' (JList (map control_to_dict cs)) r2))))"

definition snapshot ::
  "(string \<Rightarrow> string) \<Rightarrow> snapshot_host \<Rightarrow> utc_clock \<Rightarrow> instant \<Rightarrow> instant \<Rightarrow> instant \<Rightarrow> jdict res" where
  "snapshot sha256 h clock now1 now2 now3 = refresh now1 now2 now3 (base_snapshot sha256 h clock)"

definition with_fresh_diagnosis :: "instant \<Rightarrow> instant \<Rightarrow> instant \<Rightarrow> jdict \<Rightarrow> jdict res" where
  "with_fresh_diagnosis now1 now2 now3 report = refresh now1 now2 now3 report"

section \<open>Repair plans\<close>

record repair_step =
  rs_id :: string
  rs_kind :: string
  rs_description :: string
  rs_expected :: string

text \<open>\<open>add_step\<close>: the order is the position in the list.\<close>

definition repair_step_to_dict :: "nat \<times> repair_step \<Rightarrow> json" where
  "repair_step_to_dict = (\<lambda>(n, s). JObj [
     (''order'', JInt (int n)), (''id'', JStr (rs_id s)), (''kind'', JStr (rs_kind s)),
     (''destructive'', JBool False), (''description'', JStr (rs_description s)),
     (''expected_result'', JStr (rs_expected s))])"

definition step_if :: "bool \<Rightarrow> string \<Rightarrow> string \<Rightarrow> string \<Rightarrow> string \<Rightarrow> repair_step list" where
  "step_if c i k d e = (if c then [\<lparr>rs_id = i, rs_kind = k, rs_description = d, rs_expected = e\<rparr>] else [])"

definition repair_steps :: "string list \<Rightarrow> bool \<Rightarrow> repair_step list" where
  "repair_steps causes pressed =
     (let steps =
        step_if (''heartbeat.within_sla'' \<in> set causes) ''mark_stale_and_restart_if_managed'' ''control''
          ''Mark stale state as degraded and restart only if service management owns the process.''
          ''Freshness is not advertised until a valid heartbeat returns.''
        @ step_if (''journal.replay_lag_within_sla'' \<in> set causes) ''run_replay'' ''replay''
          ''Apply verified journal events until replay lag reaches lane SLA.''
          ''Replay lag falls within the configured lane threshold.''
        @ step_if (''store.shadow_verified_when_present'' \<in> set causes) ''verify_or_rebuild_shadow'' ''verification''
          ''Verify active and shadow generation checksums before any rebuild.''
          ''Shadow state is verified or a follow-up rebuild plan is produced.''
        @ step_if (''runtime.no_unrecovered_dirty_open'' \<in> set causes) ''verify_dirty_open_recovery'' ''verification''
          ''Verify manifest, journal continuity, and last-known-good generation before ready state.''
          ''Dirty-open recovery evidence is recorded and readiness can be reassessed.''
        @ step_if pressed ''generate_purge_preview'' ''purge-preview''
          ''List purge-eligible ephemeral and archive objects without deleting them.''
          ''Operator receives policy basis, recoverable bytes, object counts, and audit impact.''
      in if steps = [] then
           step_if True ''no_op'' ''control''
             ''No repair action is required because state integrity invariants pass.''
             ''System continues normal operation.''
         else steps)"

definition plan_document ::
  "(string \<Rightarrow> string) \<Rightarrow> string \<Rightarrow> diagnosis \<Rightarrow> json \<Rightarrow> json \<Rightarrow> json \<Rightarrow> json \<Rightarrow> repair_step list \<Rightarrow> jdict" where
  "plan_document sha256 now d schema component generated engine steps = [
     (''schema'', JStr REPAIR_SCHEMA),
     (''generated_at'', JStr now),
     (''source_report'', JObj [
       (''schema'', schema), (''component'', component), (''generated_at'', generated)]),
     (''plan_id'', JStr (''repair-plan-'' @ take 16 (sha256 (json_dumps_sorted (diagnosis_to_dict d))))),
     (''status'', JStr ''preview''),
     (''severity'', JStr (dg_severity d)),
     (''summary'', JStr (dg_summary d)),
     (''policy'', JObj [
       (''engine'', engine),
       (''required_grants'', strs [''sourceos.repair/preview'']),
       (''destructive_grants_required'', strs [''sourceos.repair/apply'', ''sourceos.purge/apply'']),
       (''destructive_actions_present'', JBool False)]),
     (''preconditions'', JList [
       JObj [(''id'', JStr ''report.shape_valid''), (''status'', JStr ''required''),
             (''check'', JStr ''report schema is supported'')],
       JObj [(''id'', JStr ''no_destructive_apply''), (''status'', JStr ''required''),
             (''check'', JStr ''this plan is preview-only'')]]),
     (''checkpoint'', JObj [
       (''required'', JBool True), (''type'', JStr ''last-known-good-generation''),
       (''write_audit_record'', JBool True)]),
     (''steps'', JList (map repair_step_to_dict (enumerate 1 steps))),
     (''blocked_steps'', JList [JObj [
       (''id'', JStr ''apply_destructive_changes''),
       (''reason'', JStr ''Requires explicit policy grant, checkpoint, rollback path, and evidence write.'')]]),
     (''rollback'', JObj [
       (''available'', JBool True),
       (''strategy'', JStr ''restore last-known-good generation and replay only verified journal events''),
       (''requires_operator_approval'', JBool True)]),
     (''postconditions'', strs [
       ''diagnosis.status != unsafe'',
       ''heartbeat.within_sla in [pass, warn]'',
       ''journal.replay_lag_within_sla == pass'',
       ''repair evidence is written when Lampstand is available''])]"

definition repair_plan :: "(string \<Rightarrow> string) \<Rightarrow> instant \<Rightarrow> utc_clock \<Rightarrow> jdict \<Rightarrow> jdict res" where
  "repair_plan sha256 now clock report =
     ebind (diagnose now report) (\<lambda>d.
     ebind (disk_pressure_of report) (\<lambda>pressure.
     ebind (in_set pressure [''watch'', ''warning'', ''critical'']) (\<lambda>pressed.
     ebind (jget (dget report ''identity'' (JObj [])) ''component'' JNull) (\<lambda>component.
     ebind (jget (dget report ''policy'' (JObj [])) ''policy_engine'' (JStr ''policy-fabric'')) (\<lambda>engine.
     Inr (plan_document sha256 (utc_now clock) d (dget0 report ''schema'') component
           (dget0 report ''generated_at'') engine (repair_steps (dg_causes d) pressed)))))))"

section \<open>Printing\<close>

definition pretty_json :: "bool \<Rightarrow> json \<Rightarrow> string" where
  "pretty_json pretty data = (if pretty then json_indented 0 data else json_compact data) @ [newline]"

section \<open>Verification of a valid report\<close>

definition number_or_zero :: "json \<Rightarrow> int" where
  "number_or_zero v = (case int_value v of None \<Rightarrow> 0 | Some i \<Rightarrow> i)"

definition sub_dict :: "jdict \<Rightarrow> string \<Rightarrow> jdict" where
  "sub_dict d k = dict_or_empty (dget0 d k)"

definition lanes_of :: "jdict \<Rightarrow> jdict list" where
  "lanes_of r = (case dget0 r ''lanes'' of JList vs \<Rightarrow> map dict_or_empty vs | _ \<Rightarrow> [])"

definition stores_of :: "jdict \<Rightarrow> jdict list" where
  "stores_of r = (case dget0 r ''stores'' of JList vs \<Rightarrow> map dict_or_empty vs | _ \<Rightarrow> [])"

definition stamp :: "json \<Rightarrow> instant option" where
  "stamp v = (case parse_instant v of Inr t \<Rightarrow> t | Inl e \<Rightarrow> None)"

text \<open>The last heartbeat, and whether it can be compared with the time of the report.\<close>

definition heartbeat_of :: "jdict \<Rightarrow> instant option" where
  "heartbeat_of r = stamp (dget0 (sub_dict r ''runtime'') ''last_heartbeat_at'')"

definition comparable_stamps :: "jdict \<Rightarrow> bool" where
  "comparable_stamps r \<longleftrightarrow> (case (heartbeat_of r, stamp (dget0 r ''generated_at'')) of
     (Some l, Some g) \<Rightarrow> aware l = aware g | _ \<Rightarrow> True)"

text \<open>The age of the heartbeat in milliseconds and the strictest lane limit.\<close>

definition age_of :: "jdict \<Rightarrow> int option" where
  "age_of r = (case (heartbeat_of r, stamp (dget0 r ''generated_at'')) of
     (Some l, Some g) \<Rightarrow> (case minus_instant g l of Inr d \<Rightarrow> Some (max 0 (total_millis d)) | _ \<Rightarrow> None)
   | _ \<Rightarrow> None)"

definition heartbeat_limits :: "jdict \<Rightarrow> int list" where
  "heartbeat_limits r =
     List.map_filter (\<lambda>lane. int_value (dget0 (sub_dict lane ''sla'') ''max_heartbeat_age_ms'')) (lanes_of r)"

definition heartbeat_limit :: "jdict \<Rightarrow> int" where
  "heartbeat_limit r = (if heartbeat_limits r = [] then 30000 else Min (set (heartbeat_limits r)))"

definition lag_of :: "jdict \<Rightarrow> int" where
  "lag_of lane = number_or_zero (dget0 (sub_dict lane ''journal'') ''replay_lag_events'')"

definition allowed_lag_of :: "jdict \<Rightarrow> int" where
  "allowed_lag_of lane = number_or_zero (dget0 (sub_dict lane ''sla'') ''max_replay_lag_events'')"

definition total_lag :: "jdict \<Rightarrow> int" where "total_lag r = sum_list (map lag_of (lanes_of r))"
definition total_allowed :: "jdict \<Rightarrow> int" where "total_allowed r = sum_list (map allowed_lag_of (lanes_of r))"

definition bad_shadow :: "jdict \<Rightarrow> bool" where
  "bad_shadow store \<longleftrightarrow> dget0 store ''role'' = JStr ''active'' \<and> truthy (dget0 store ''shadow_present'')
     \<and> dget0 store ''checksum_state'' \<notin> {JStr ''verified'', JStr ''unsupported''}"

definition disk_of :: "jdict \<Rightarrow> jdict" where
  "disk_of r = sub_dict (sub_dict r ''resources'') ''disk''"

definition pressure_of :: "jdict \<Rightarrow> json" where
  "pressure_of r = dget0 (disk_of r) ''pressure''"

definition dirty_open_of :: "jdict \<Rightarrow> json" where
  "dirty_open_of r = dget0 (sub_dict r ''runtime'') ''last_dirty_open_at''"

definition checks_of :: "jdict \<Rightarrow> check_result list" where
  "checks_of r = verification_checks [] (age_of r) (heartbeat_limit r) (total_lag r, total_allowed r)
     (map (\<lambda>s. dget s ''name'' (JStr ''unknown'')) [s \<leftarrow> stores_of r. bad_shadow s])
     (pressure_of r \<notin> {JStr ''critical'', JStr ''unknown''}) (pressure_of r)
     (dget0 (disk_of r) ''free_ratio'') (dirty_open_of r)"

lemma sub_dict_JObj: "dget0 d k = JObj x \<Longrightarrow> sub_dict d k = x"
  by (simp add: sub_dict_def)

lemma dget_JObj: "dget0 d k = JObj x \<Longrightarrow> dget d k v = JObj x"
  by (auto simp: dget_def split: option.splits)

lemma all_counts_get: "all_counts (JObj d) \<Longrightarrow> dget0 d k = JNull \<or> is_nonnegative_int (dget0 d k)"
  by (auto simp: all_counts_def list_all_iff dget_def split: option.splits dest!: map_of_SomeD)

lemma all_countsE:
  assumes "all_counts v"
  obtains d where "v = JObj d" and "all_counts (JObj d)"
  using assms by (cases v) (auto simp: all_counts_def)

lemma count_int_or_zero: "v = JNull \<or> is_nonnegative_int v \<Longrightarrow> int_or_zero v = Inr (number_or_zero v)"
  by (cases v) (auto simp: is_nonnegative_int_def number_or_zero_def int_or_zero_def)

lemma lane_values:
  assumes "lane_ok lane"
  shows "lane_lag lane = Inr (lag_of lane)" and "lane_allowed_lag lane = Inr (allowed_lag_of lane)"
    and "lane_value ''sla'' k lane = Inr (dget0 (sub_dict lane ''sla'') k)"
    and "\<exists>s. dget0 lane ''status'' = JStr s"
proof -
  obtain sla where sla: "dget0 lane ''sla'' = JObj sla" "all_counts (JObj sla)"
    using assms by (auto simp: lane_ok_def elim: all_countsE)
  have jok: "journal_ok (dget0 lane ''journal'')" using assms by (simp add: lane_ok_def)
  then obtain j where j: "dget0 lane ''journal'' = JObj j"
    by (cases "dget0 lane ''journal''") (simp_all add: journal_ok_def)
  have "''replay_lag_events'' \<in> set JOURNAL_COUNTS" by (simp add: JOURNAL_COUNTS_def)
  then have "\<not> dhas j ''replay_lag_events'' \<or> is_nonnegative_int (dget0 j ''replay_lag_events'')"
    using jok by (simp only: j journal_ok_def json.case list_all_iff)
  then have lag: "dget0 j ''replay_lag_events'' = JNull \<or> is_nonnegative_int (dget0 j ''replay_lag_events'')"
    using dget_absent [of j "''replay_lag_events''" JNull] by argo
  show "lane_lag lane = Inr (lag_of lane)"
    using count_int_or_zero [OF lag]
    by (simp add: lane_lag_def lane_value_def dget_JObj [OF j] lag_of_def sub_dict_JObj [OF j])
  show "lane_allowed_lag lane = Inr (allowed_lag_of lane)"
    using count_int_or_zero [OF all_counts_get [OF sla(2)]]
    by (simp add: lane_allowed_lag_def lane_value_def dget_JObj [OF sla(1)] allowed_lag_of_def sub_dict_JObj [OF sla(1)])
  show "lane_value ''sla'' k lane = Inr (dget0 (sub_dict lane ''sla'') k)"
    by (simp add: lane_value_def dget_JObj [OF sla(1)] sub_dict_JObj [OF sla(1)])
  show "\<exists>s. dget0 lane ''status'' = JStr s"
    using assms by (auto simp: lane_ok_def field_in_def split: json.splits)
qed

lemma list_whereE:
  assumes "list_where P v"
  obtains vs where "v = JList vs" and "P vs"
  using assms by (cases v) (auto simp: list_where_def)

lemma dicts_where_items:
  "dicts_where P vs \<Longrightarrow> dict_items vs = map dict_or_empty vs \<and> list_all P (map dict_or_empty vs)"
  by (induction vs) (auto simp: dicts_where_def dict_items_def split: json.splits)

lemma report_lists:
  assumes "report_ok r"
  shows "report_lanes r = Inr (lanes_of r)" and "list_all lane_ok (lanes_of r)"
    and "report_stores r = Inr (stores_of r)" and "list_all store_ok (stores_of r)"
proof -
  obtain ls where ls: "dget0 r ''lanes'' = JList ls" "dicts_where lane_ok ls"
    using assms by (auto simp: report_ok_def elim: list_whereE)
  obtain ss where ss: "dget0 r ''stores'' = JList ss" "dicts_where store_ok ss"
    using assms by (auto simp: report_ok_def elim: list_whereE)
  have get: "dget r k (JList []) = JList vs" if "dget0 r k = JList vs" for k vs
    using that by (auto simp: dget_def split: option.splits)
  show "report_lanes r = Inr (lanes_of r)" "list_all lane_ok (lanes_of r)"
    using ls dicts_where_items [OF ls(2)] by (simp_all add: report_lanes_def lanes_of_def get [OF ls(1)])
  show "report_stores r = Inr (stores_of r)" "list_all store_ok (stores_of r)"
    using ss dicts_where_items [OF ss(2)] by (simp_all add: report_stores_def stores_of_def get [OF ss(1)])
qed

lemma foldl_min: "foldl min (x :: int) xs = Min (set (x # xs))"
proof -
  have "min = (\<lambda>y s. min s (y :: int))" by (intro ext) (rule min.commute)
  then show ?thesis by (simp only: Min.set_eq_fold foldl_conv_fold)
qed

lemma heartbeat_limit_lanes:
  "list_all lane_ok ls \<Longrightarrow>
   emap (lane_value ''sla'' ''max_heartbeat_age_ms'') ls
     = Inr (map (\<lambda>lane. dget0 (sub_dict lane ''sla'') ''max_heartbeat_age_ms'') ls)"
  by (intro emap_Inr_map) (simp add: list_all_iff lane_values)

lemma max_heartbeat_age_ok:
  assumes "report_ok r"
  shows "max_heartbeat_age (lanes_of r) = Inr (heartbeat_limit r)"
proof -
  have "List.map_filter int_value
      (map (\<lambda>lane. dget0 (sub_dict lane ''sla'') ''max_heartbeat_age_ms'') (lanes_of r)) = heartbeat_limits r"
    by (simp add: heartbeat_limits_def map_filter_def filter_map comp_def)
  then show ?thesis
    unfolding max_heartbeat_age_def heartbeat_limit_lanes [OF report_lists(2) [OF assms]]
    by (cases "heartbeat_limits r") (simp_all add: heartbeat_limit_def foldl_min del: Min_insert2)
qed

lemma replay_lags_sum:
  "list_all lane_ok ls \<Longrightarrow>
   efold (\<lambda>lane (total, allowed).
       ebind (lane_lag lane) (\<lambda>l. ebind (lane_allowed_lag lane) (\<lambda>a. Inr (total + l, allowed + a)))) ls (t, a)
     = Inr (t + sum_list (map lag_of ls), a + sum_list (map allowed_lag_of ls))"
  by (induction ls arbitrary: t a) (simp_all add: lane_values add.assoc)

lemma replay_lags_ok: "report_ok r \<Longrightarrow> replay_lags (lanes_of r) = Inr (total_lag r, total_allowed r)"
  using report_lists(2) by (simp add: replay_lags_def replay_lags_sum total_lag_def total_allowed_def)

lemma shadow_unverified_ok: "store_ok s \<Longrightarrow> shadow_unverified s = Inr (bad_shadow s)"
  by (cases "dget0 s ''checksum_state''")
    (auto simp: shadow_unverified_def bad_shadow_def store_ok_def field_in_def)

lemma shadow_failures_ok:
  "list_all store_ok ss \<Longrightarrow>
   shadow_failures ss = Inr (map (\<lambda>s. dget s ''name'' (JStr ''unknown'')) [s \<leftarrow> ss. bad_shadow s])"
proof -
  have "list_all store_ok ss \<Longrightarrow>
     efold (\<lambda>store acc. ebind (shadow_unverified store) (\<lambda>b.
       Inr (if b then acc @ [dget store ''name'' (JStr ''unknown'')] else acc))) ss acc
     = Inr (acc @ map (\<lambda>s. dget s ''name'' (JStr ''unknown'')) [s \<leftarrow> ss. bad_shadow s])" for acc
    by (induction ss arbitrary: acc) (simp_all add: shadow_unverified_ok)
  then show "list_all store_ok ss \<Longrightarrow> ?thesis" by (simp add: shadow_failures_def)
qed


lemma has_instant_stamp: "has_instant v \<Longrightarrow> parse_instant v = Inr (stamp v) \<and> stamp v \<noteq> None"
  by (auto simp: has_instant_def stamp_def split: sum.splits option.splits)

lemma parse_JNull [simp]: "parse_instant JNull = Inr None"
  by (simp add: parse_instant_def)

lemma runtime_stamps:
  assumes "runtime_ok (JObj rt)" and "ends_with ''_at'' k"
  shows "parse_instant (dget0 rt k) = Inr (stamp (dget0 rt k))"
proof (cases "dhas rt k")
  case True
  then obtain v where v: "map_of rt k = Some v" by (auto simp: dhas_map_of)
  then have "(k, v) \<in> set rt" by (rule map_of_SomeD)
  then have "v = JNull \<or> has_instant v" using assms by (auto simp: runtime_ok_def list_all_iff)
  then show ?thesis using v has_instant_stamp [of v] by (auto simp: dget_def stamp_def)
qed (simp add: dget_absent stamp_def)

lemma report_dicts:
  assumes "report_ok r"
  shows "dget r ''runtime'' (JObj []) = JObj (sub_dict r ''runtime'')" "runtime_ok (JObj (sub_dict r ''runtime''))"
    and "dget r ''resources'' (JObj []) = JObj (sub_dict r ''resources'')"
    and "dget (sub_dict r ''resources'') ''disk'' (JObj []) = JObj (disk_of r)"
    and "\<exists>s. pressure_of r = JStr s \<and> s \<in> set PRESSURE_STATES" and "dhas (disk_of r) ''pressure''"
    and "dget r ''collection'' (JObj []) = JObj (sub_dict r ''collection'')"
    and "dget r ''identity'' (JObj []) = JObj (sub_dict r ''identity'')"
    and "dget r ''policy'' (JObj []) = JObj (sub_dict r ''policy'')"
proof -
  have "runtime_ok (dget0 r ''runtime'')" using assms by (simp add: report_ok_def)
  then obtain rt where rt: "dget0 r ''runtime'' = JObj rt"
    by (cases "dget0 r ''runtime''") (simp_all add: runtime_ok_def)
  show "dget r ''runtime'' (JObj []) = JObj (sub_dict r ''runtime'')" "runtime_ok (JObj (sub_dict r ''runtime''))"
    using \<open>runtime_ok (dget0 r ''runtime'')\<close> by (simp_all add: rt dget_JObj sub_dict_JObj)
  have d: "disk_ok (dget0 r ''resources'')" using assms by (simp add: report_ok_def)
  then obtain rs where rs: "dget0 r ''resources'' = JObj rs"
    by (cases "dget0 r ''resources''") (simp_all add: disk_ok_def)
  with d obtain dk where dk: "dget0 rs ''disk'' = JObj dk"
    by (cases "dget0 rs ''disk''") (simp_all add: disk_ok_def)
  show "dget r ''resources'' (JObj []) = JObj (sub_dict r ''resources'')"
    "dget (sub_dict r ''resources'') ''disk'' (JObj []) = JObj (disk_of r)"
    by (simp_all add: rs dk disk_of_def dget_JObj sub_dict_JObj)
  have "field_in dk ''pressure'' PRESSURE_STATES" using d by (simp add: disk_ok_def rs dk)
  then obtain s where s: "dget0 dk ''pressure'' = JStr s" "s \<in> set PRESSURE_STATES"
    by (auto simp: field_in_def split: json.splits)
  moreover from s have "dhas dk ''pressure''"
    using dget_absent [of dk "''pressure''" JNull] by (cases "dhas dk ''pressure''") auto
  ultimately show "\<exists>s. pressure_of r = JStr s \<and> s \<in> set PRESSURE_STATES" "dhas (disk_of r) ''pressure''"
    by (simp_all add: pressure_of_def disk_of_def sub_dict_JObj [OF rs] sub_dict_JObj [OF dk])
  have dict: "dget r k (JObj []) = JObj (sub_dict r k)" if "is_dict (dget0 r k)" for k
  proof -
    from that obtain d where d: "dget0 r k = JObj d" by (rule is_dictE)
    show ?thesis by (simp add: dget_JObj [OF d] sub_dict_JObj [OF d])
  qed
  have "is_dict (dget0 r ''collection'')" using assms by (auto simp: report_ok_def collection_ok_def split: json.splits)
  then show "dget r ''collection'' (JObj []) = JObj (sub_dict r ''collection'')" by (rule dict)
  have "is_dict (dget0 r ''identity'')" using assms by (auto simp: report_ok_def identity_ok_def split: json.splits)
  then show "dget r ''identity'' (JObj []) = JObj (sub_dict r ''identity'')" by (rule dict)
  have "is_dict (dget0 r ''policy'')" using assms by (auto simp: report_ok_def policy_ok_def split: json.splits)
  then show "dget r ''policy'' (JObj []) = JObj (sub_dict r ''policy'')" by (rule dict)
qed

lemma heartbeat_age_ok:
  assumes "report_ok r"
  shows "heartbeat_age_ms now r = (if comparable_stamps r then Inr (age_of r) else Inl TypeError)"
proof -
  have "ends_with ''_at'' ''last_heartbeat_at''" by code_simp
  then have hb: "parse_instant (dget0 (sub_dict r ''runtime'') ''last_heartbeat_at'') = Inr (heartbeat_of r)"
    using runtime_stamps [OF report_dicts(2) [OF assms]] by (simp add: heartbeat_of_def)
  have "has_instant (dget0 r ''generated_at'')" using assms by (simp add: report_ok_def)
  then obtain g where g: "parse_instant (dget0 r ''generated_at'') = Inr (Some g)" "stamp (dget0 r ''generated_at'') = Some g"
    using has_instant_stamp by fastforce
  show ?thesis
  proof (cases "heartbeat_of r")
    case (Some l)
    show ?thesis
    proof (cases "aware l = aware g")
      case True
      then obtain d where "minus_instant g l = Inr d" using minus_instant_total [of g l] by auto
      then show ?thesis
        using True Some by (simp add: heartbeat_age_ms_def report_dicts [OF assms] hb g comparable_stamps_def age_of_def)
    next
      case False
      then have "minus_instant g l = Inl TypeError" using minus_instant_mixed by metis
      then show ?thesis
        using False Some by (simp add: heartbeat_age_ms_def report_dicts [OF assms] hb g comparable_stamps_def)
    qed
  qed (simp add: heartbeat_age_ms_def report_dicts [OF assms] hb g comparable_stamps_def age_of_def)
qed

lemma verify_ok:
  assumes "report_ok report"
  shows "verify now report =
    (if comparable_stamps report then Inr (overall_status (checks_of report), checks_of report)
     else Inl TypeError)"
proof -
  note r = report_dicts [OF assms] report_lists [OF assms]
  have valid: "validate_report report = Inr []" using assms by (simp add: validate_report_Nil)
  obtain s where s: "pressure_of report = JStr s" using r(5) by blast
  have p: "dget (disk_of report) ''pressure'' (JStr ''unknown'') = pressure_of report"
    unfolding pressure_of_def by (rule dget_present [OF r(6)])
  have bad: "in_set (pressure_of report) [''critical'', ''unknown'']
      = Inr (pressure_of report \<in> {JStr ''critical'', JStr ''unknown''})"
    by (auto simp: s)
  show ?thesis
  proof (cases "comparable_stamps report")
    case True
    show ?thesis
      unfolding verify_def valid heartbeat_age_ok [OF assms] r max_heartbeat_age_ok [OF assms]
        replay_lags_ok [OF assms] ebind_simps shadow_failures_ok [OF r(13)]
      using True
      by (simp only: if_True ebind_simps jget.simps r p bad Let_def json.case checks_of_def dirty_open_of_def
          replay_lags_ok [OF assms] max_heartbeat_age_ok [OF assms] shadow_failures_ok [OF r(13)])
  next
    case False
    then show ?thesis by (simp add: verify_def valid heartbeat_age_ok [OF assms])
  qed
qed

section \<open>Diagnosis of a valid report\<close>

definition fresh :: "jdict \<Rightarrow> bool" where
  "fresh r \<longleftrightarrow> (case age_of r of None \<Rightarrow> False | Some a \<Rightarrow> a \<le> heartbeat_limit r)"

definition lag_within :: "jdict \<Rightarrow> bool" where "lag_within r \<longleftrightarrow> total_lag r \<le> total_allowed r"
definition shadows_good :: "jdict \<Rightarrow> bool" where "shadows_good r \<longleftrightarrow> \<not> list_ex bad_shadow (stores_of r)"
definition clean_open :: "jdict \<Rightarrow> bool" where "clean_open r \<longleftrightarrow> \<not> truthy (dirty_open_of r)"

definition disk_safe :: "jdict \<Rightarrow> bool" where
  "disk_safe r \<longleftrightarrow> pressure_of r \<notin> {JStr ''critical'', JStr ''unknown''}"

definition expected_verdict :: "jdict \<Rightarrow> string \<times> string" where
  "expected_verdict r =
     (if \<not> disk_safe r then (''unsafe'', ''critical'')
      else if \<not> (fresh r \<and> lag_within r) then (''degraded'', ''error'')
      else if \<not> (shadows_good r \<and> clean_open r) then (''degraded'', ''warning'')
      else (''healthy'', ''info''))"

definition lane_name :: "jdict \<Rightarrow> json" where
  "lane_name lane = dget lane ''name'' (JStr ''unknown'')"

definition needs_attention :: "jdict \<Rightarrow> bool" where
  "needs_attention lane \<longleftrightarrow>
     dget0 lane ''status'' \<in> {JStr ''degraded'', JStr ''repairing'', JStr ''unsafe''}
     \<or> lag_of lane > allowed_lag_of lane"

definition text_names :: "jdict \<Rightarrow> bool" where
  "text_names r \<longleftrightarrow> list_all (\<lambda>lane. is_str (lane_name lane)) (lanes_of r)"

lemma bad_shadow_names:
  "map (\<lambda>s. dget s ''name'' (JStr ''unknown'')) [s \<leftarrow> stores_of r. bad_shadow s] = [] \<longleftrightarrow> shadows_good r"
  by (simp add: shadows_good_def filter_empty_conv list_ex_iff)

lemma checks_cases:
  "checks_of r =
   [check ''report.contract_valid'' True Fail ''critical'' [(''errors'', strs [])] ''fix_report_contract'',
    check ''heartbeat.within_sla'' (fresh r) Fail ''error''
      [(''age_ms'', opt_int (age_of r)), (''max_heartbeat_age_ms'', JInt (heartbeat_limit r))] ''restart_or_mark_stale'',
    check ''journal.replay_lag_within_sla'' (lag_within r) Fail ''error''
      [(''replay_lag_events'', JInt (total_lag r)), (''allowed_replay_lag_events'', JInt (total_allowed r))] ''run_replay'',
    check ''store.shadow_verified_when_present'' (shadows_good r) Warn ''warning''
      [(''stores'', JList (map (\<lambda>s. dget s ''name'' (JStr ''unknown'')) [s \<leftarrow> stores_of r. bad_shadow s]))]
      ''verify_or_rebuild_shadow'',
    check ''resources.disk_pressure_below_critical'' (disk_safe r) Fail ''critical''
      [(''pressure'', pressure_of r), (''free_ratio'', dget0 (disk_of r) ''free_ratio'')] ''compact_or_purge_preview'',
    check ''runtime.no_unrecovered_dirty_open'' (clean_open r) Warn ''warning''
      [(''last_dirty_open_at'', dirty_open_of r)] ''verify_before_ready'']"
  unfolding checks_of_def verification_checks_def bad_shadow_names
  by (simp only: fresh_def lag_within_def clean_open_def disk_safe_def fst_conv snd_conv list.map refl)

lemma check_fields [simp]:
  "cr_id (check i ok bad sev ev rem) = i" "cr_status (check i ok bad sev ev rem) = (if ok then Pass else bad)"
  "cr_severity (check i ok bad sev ev rem) = (if ok then ''info'' else sev)"
  "cr_remediation (check i ok bad sev ev rem) = rem"
  by (simp_all add: check_def)

lemma verdict_checks: "verdict (checks_of r) = expected_verdict r"
  unfolding checks_cases verdict_def expected_verdict_def
  by (cases "fresh r"; cases "lag_within r"; cases "shadows_good r"; cases "disk_safe r"; cases "clean_open r") simp_all

lemma overall_checks:
  "overall_status (checks_of r) =
     (if \<not> (fresh r \<and> lag_within r \<and> disk_safe r) then Fail
      else if \<not> (shadows_good r \<and> clean_open r) then Warn else Pass)"
  unfolding checks_cases overall_status_def
  by (cases "fresh r"; cases "lag_within r"; cases "shadows_good r"; cases "disk_safe r"; cases "clean_open r")
    (simp_all add: max_def less_eq_check_status_def)

definition failing_ids :: "jdict \<Rightarrow> string list" where
  "failing_ids r = map cr_id [c \<leftarrow> checks_of r. cr_status c \<noteq> Pass]"

lemma failing_ids_cases:
  "failing_ids r = note_if (\<not> fresh r) ''heartbeat.within_sla''
     @ note_if (\<not> lag_within r) ''journal.replay_lag_within_sla''
     @ note_if (\<not> shadows_good r) ''store.shadow_verified_when_present''
     @ note_if (\<not> disk_safe r) ''resources.disk_pressure_below_critical''
     @ note_if (\<not> clean_open r) ''runtime.no_unrecovered_dirty_open''"
  unfolding checks_cases failing_ids_def by (simp add: note_if_def)

lemma lane_affected_ok: "lane_ok lane \<Longrightarrow> lane_affected lane = Inr (needs_attention lane)"
proof -
  assume ok: "lane_ok lane"
  obtain s where "dget0 lane ''status'' = JStr s" using lane_values(4) [OF ok] by blast
  then show ?thesis by (simp add: lane_affected_def needs_attention_def lane_values [OF ok])
qed

lemma is_str_hashable: "is_str v \<Longrightarrow> hashable v"
  by (cases v) auto

lemma affected_lanes_ok:
  assumes "list_all lane_ok ls" and "list_all (\<lambda>lane. is_str (lane_name lane)) ls"
  shows "affected_lanes ls = Inr (map lane_name [lane \<leftarrow> ls. needs_attention lane])"
proof -
  have "efold (\<lambda>lane acc. ebind (lane_affected lane) (\<lambda>b.
       if b then (let name = dget lane ''name'' (JStr ''unknown'')
                  in if hashable name then Inr (acc @ [name]) else Inl TypeError)
       else Inr acc)) ls acc = Inr (acc @ map lane_name [lane \<leftarrow> ls. needs_attention lane])" for acc
    using assms
    by (induction ls arbitrary: acc) (auto simp: lane_affected_ok lane_name_def is_str_hashable)
  then show ?thesis by (simp add: affected_lanes_def)
qed

lemma py_eq_str: "is_str x \<Longrightarrow> py_eq x y \<longleftrightarrow> x = y"
  by (cases x) (auto simp: py_eq_def)

lemma dedup_strs: "list_all is_str xs \<Longrightarrow> set (dedup xs) = set xs"
  by (induction xs) (auto simp: py_eq_str)

lemma sorted_strs:
  assumes "list_all is_str xs"
  shows "\<exists>ys. sorted_values xs = Inr ys \<and> set ys = set xs"
proof (cases "length xs \<le> 1")
  case False
  have "JStr (str_value x) = x" if "is_str x" for x using that by (cases x) simp_all
  then have "JStr ` str_value ` set xs = set xs"
    using assms by (force simp: list_all_iff image_image intro: image_eqI)
  then show ?thesis using False assms by (simp add: sorted_values_def)
qed (simp add: sorted_values_def)


definition collection_causes :: "jdict \<Rightarrow> string list" where
  "collection_causes r =
     note_if (dget0 (sub_dict r ''collection'') ''status'' = JStr ''partial'') ''collection.partial''
     @ note_if (dget0 (sub_dict r ''collection'') ''status'' = JStr ''failed'') ''collection.failed''"

definition under_pressure :: "jdict \<Rightarrow> bool" where
  "under_pressure r \<longleftrightarrow> pressure_of r \<in> {JStr ''warning'', JStr ''critical''}"

definition blocked_actions :: "jdict \<Rightarrow> string list" where
  "blocked_actions r = note_if (under_pressure r) ''destructive_purge_without_policy_grant''
     @ note_if (\<not> (fresh r \<and> lag_within r)) ''agent_action_requiring_fresh_state''"

text \<open>The diagnosis of a valid report, up to the order in which the lanes are listed.\<close>

definition agrees :: "jdict \<Rightarrow> diagnosis \<Rightarrow> bool" where
  "agrees r d \<longleftrightarrow>
     (dg_status d, dg_severity d) = expected_verdict r
     \<and> dg_summary d = summary_text (fst (expected_verdict r))
     \<and> dg_causes d = sorted_set (failing_ids r @ collection_causes r)
     \<and> set (dg_affected_lanes d) = lane_name ` {lane \<in> set (lanes_of r). needs_attention lane}
     \<and> dg_blocked_actions d = sorted_set (blocked_actions r)"

lemma stale_causes:
  "list_ex (\<lambda>c. contains ''replay_lag'' c \<or> contains ''heartbeat'' c) (failing_ids r @ collection_causes r)
     \<longleftrightarrow> \<not> (fresh r \<and> lag_within r)"
proof -
  define stale where "stale = (\<lambda>c. contains ''replay_lag'' c \<or> contains ''heartbeat'' c)"
  have eqs: "stale ''heartbeat.within_sla'' = True" "stale ''journal.replay_lag_within_sla'' = True"
    "stale ''store.shadow_verified_when_present'' = False" "stale ''resources.disk_pressure_below_critical'' = False"
    "stale ''runtime.no_unrecovered_dirty_open'' = False" "stale ''collection.partial'' = False"
    "stale ''collection.failed'' = False"
    unfolding stale_def by code_simp+
  have ex_note: "list_ex stale (note_if b x) \<longleftrightarrow> b \<and> stale x" for b x by (simp add: note_if_def)
  show ?thesis
    unfolding stale_def [symmetric] failing_ids_cases collection_causes_def list_ex_append ex_note eqs by simp
qed

lemma pressure_in_set:
  assumes "report_ok r"
  shows "in_set (pressure_of r) S = Inr (pressure_of r \<in> JStr ` set S)"
  using report_dicts(5) [OF assms] by auto

lemma disk_pressure_ok: "report_ok r \<Longrightarrow> disk_pressure_of r = Inr (pressure_of r)"
  by (simp only: disk_pressure_of_def report_dicts jget.simps ebind_simps pressure_of_def)

lemma diagnose_agrees:
  assumes ok: "report_ok r" and cmp: "comparable_stamps r" and names: "text_names r"
  shows "\<exists>d. diagnose now r = Inr d \<and> agrees r d"
proof -
  let ?names = "map lane_name [lane \<leftarrow> lanes_of r. needs_attention lane]"
  have strs: "list_all is_str ?names"
    using names by (auto simp: text_names_def list_all_iff)
  then have strs': "list_all is_str (dedup ?names)" by (simp add: list_all_iff dedup_strs)
  obtain ys where ys: "sorted_values (dedup ?names) = Inr ys" "set ys = set ?names"
    using sorted_strs [OF strs'] dedup_strs [OF strs] by auto
  have aff: "affected_lanes (lanes_of r) = Inr ?names"
    using affected_lanes_ok report_lists(2) [OF ok] names by (simp add: text_names_def)
  have ids: "map cr_id [c \<leftarrow> checks_of r. cr_status c \<noteq> Pass] = failing_ids r" by (simp add: failing_ids_def)
  have press: "in_set (pressure_of r) [''warning'', ''critical''] = Inr (under_pressure r)"
    unfolding pressure_in_set [OF ok] by (simp add: under_pressure_def)
  have stale: "list_ex (\<lambda>c. contains ''replay_lag'' c \<or> contains ''heartbeat'' c)
      (failing_ids r @ note_if (dget0 (sub_dict r ''collection'') ''status'' = JStr ''partial'') ''collection.partial''
         @ note_if (dget0 (sub_dict r ''collection'') ''status'' = JStr ''failed'') ''collection.failed'')
      = (\<not> (fresh r \<and> lag_within r))"
    using stale_causes unfolding collection_causes_def .
  have ver: "verify now r = Inr (overall_status (checks_of r), checks_of r)"
    using verify_ok [OF ok] cmp by simp
  show ?thesis
    unfolding diagnose_def ver ebind_simps prod.case ids Let_def report_lists(1) [OF ok] aff
      report_dicts(7) [OF ok] jget.simps disk_pressure_ok [OF ok] press stale verdict_checks ys
    by (rule exI, rule conjI, rule refl)
      (simp add: agrees_def collection_causes_def blocked_actions_def ys(2) image_Collect [symmetric])
qed

section \<open>Fresh diagnoses and snapshots\<close>

text \<open>The sections that verification, diagnosis and repair read.\<close>

definition OBSERVED :: "string list" where
  "OBSERVED = [''schema'', ''generated_at'', ''identity'', ''collection'', ''runtime'', ''stores'', ''lanes'',
     ''resources'', ''policy'']"

definition same_facts :: "jdict \<Rightarrow> jdict \<Rightarrow> bool" where
  "same_facts r r' \<longleftrightarrow> list_all (\<lambda>k. map_of r' k = map_of r k) OBSERVED"

lemma same_facts_get: "same_facts r r' \<Longrightarrow> k \<in> set OBSERVED \<Longrightarrow> dget r' k v = dget r k v"
  by (auto simp: same_facts_def list_all_iff dget_def)

lemma same_facts_trans: "same_facts r s \<Longrightarrow> same_facts s t \<Longrightarrow> same_facts r t"
  by (simp add: same_facts_def list_all_iff)

lemma same_facts_dset: "k \<notin> set OBSERVED \<Longrightarrow> same_facts r (dset k v r)"
  by (auto simp: same_facts_def list_all_iff map_of_dset)

lemma observed_keys:
  "''schema'' \<in> set OBSERVED" "''generated_at'' \<in> set OBSERVED" "''identity'' \<in> set OBSERVED"
  "''collection'' \<in> set OBSERVED" "''runtime'' \<in> set OBSERVED" "''stores'' \<in> set OBSERVED"
  "''lanes'' \<in> set OBSERVED" "''resources'' \<in> set OBSERVED" "''policy'' \<in> set OBSERVED"
  by (simp_all add: OBSERVED_def)

lemma derived_keys:
  "''invariants'' \<notin> set OBSERVED" "''diagnosis'' \<notin> set OBSERVED" "''controls'' \<notin> set OBSERVED"
  by (simp_all add: OBSERVED_def)

lemma same_checks:
  assumes "same_facts r r'"
  shows "checks_of r' = checks_of r" and "comparable_stamps r' = comparable_stamps r"
    and "text_names r' = text_names r" and "agrees r' = agrees r"
proof -
  note g = observed_keys [THEN same_facts_get [OF assms]]
  have hb: "heartbeat_of r' = heartbeat_of r" by (simp only: heartbeat_of_def sub_dict_def g)
  have lanes: "lanes_of r' = lanes_of r" by (simp only: lanes_of_def g)
  have stores: "stores_of r' = stores_of r" by (simp only: stores_of_def g)
  have disk: "disk_of r' = disk_of r" by (simp only: disk_of_def sub_dict_def g)
  have dirty: "dirty_open_of r' = dirty_open_of r" by (simp only: dirty_open_of_def sub_dict_def g)
  have age: "age_of r' = age_of r" by (simp only: age_of_def hb g)
  have lim: "heartbeat_limit r' = heartbeat_limit r" by (simp only: heartbeat_limit_def heartbeat_limits_def lanes)
  have press: "pressure_of r' = pressure_of r" by (simp only: pressure_of_def disk)
  have lag: "total_lag r' = total_lag r" "total_allowed r' = total_allowed r"
    by (simp_all only: total_lag_def total_allowed_def lanes)
  show checks: "checks_of r' = checks_of r"
    by (simp only: checks_of_def age lim lag stores press disk dirty)
  show "comparable_stamps r' = comparable_stamps r" by (simp only: comparable_stamps_def hb g)
  show "text_names r' = text_names r" by (simp only: text_names_def lanes)
  have "expected_verdict r' = expected_verdict r" "failing_ids r' = failing_ids r"
    by (simp_all only: verdict_checks [symmetric] failing_ids_def checks)
  moreover have "collection_causes r' = collection_causes r" by (simp only: collection_causes_def sub_dict_def g)
  moreover have "blocked_actions r' = blocked_actions r"
    by (simp only: blocked_actions_def under_pressure_def fresh_def lag_within_def press age lim lag)
  ultimately show "agrees r' = agrees r" by (intro ext) (simp only: agrees_def lanes)
qed

lemma diagnose_same:
  assumes "same_facts r r'" and "report_ok r" and "report_ok r'"
  shows "diagnose now' r' = diagnose now r" and "disk_pressure_of r' = disk_pressure_of r"
proof -
  note g = observed_keys [THEN same_facts_get [OF assms(1)]]
  have v: "verify now' r' = verify now r"
    by (simp only: verify_ok [OF assms(2)] verify_ok [OF assms(3)] same_checks [OF assms(1)])
  show p: "disk_pressure_of r' = disk_pressure_of r" by (simp only: disk_pressure_of_def g)
  show "diagnose now' r' = diagnose now r"
    by (simp only: diagnose_def v p report_lanes_def g)
qed

lemma controls_same:
  assumes "same_facts r r'" and "report_ok r" and "report_ok r'"
  shows "controls_for now' r' = controls_for now r"
  by (simp only: controls_for_def diagnose_same(1) [OF assms, of now' now] diagnose_same(2) [OF assms])

text \<open>A report stays valid when its derived sections are replaced.\<close>

lemma report_ok_dset:
  assumes "report_ok r" and "k \<notin> set OBSERVED" and "k \<noteq> ''invariants'' \<or> list_where (dicts_where invariant_ok) v"
  shows "report_ok (dset k v r)"
proof -
  note g = observed_keys [THEN same_facts_get [OF same_facts_dset [OF assms(2)]]]
  have "has_keys (dset k v r) ks" if "has_keys r ks" for ks
    using that by (simp add: has_keys_def list_all_iff)
  moreover have "list_where (dicts_where invariant_ok) (dget0 (dset k v r) ''invariants'')"
    using assms(1,3) by (auto simp: report_ok_def)
  ultimately show ?thesis using assms(1) by (simp add: report_ok_def g del: dget_dset)
qed

lemma check_invariant_ok:
  assumes "cr_severity c \<in> set SEVERITIES"
  shows "invariant_ok (dict_or_empty (check_to_dict c))"
  using assms
  by (cases "cr_status c")
    (simp_all add: invariant_ok_def check_to_dict_def has_keys_def REQUIRED_INVARIANT_KEYS_def field_in_def
      INVARIANT_STATUSES_def)

lemma checks_valid: "list_where (dicts_where invariant_ok) (JList (map check_to_dict (checks_of r)))"
proof -
  have sev: "list_all (\<lambda>c. cr_severity c \<in> set SEVERITIES) (checks_of r)"
    unfolding checks_cases by (simp add: SEVERITIES_def)
  have "list_all (\<lambda>v. case v of JObj d \<Rightarrow> invariant_ok d | _ \<Rightarrow> False) (map check_to_dict cs)"
    if "list_all (\<lambda>c. cr_severity c \<in> set SEVERITIES) cs" for cs
    using that
  proof (induction cs)
    case (Cons c cs)
    then have "invariant_ok (dict_or_empty (check_to_dict c))" by (intro check_invariant_ok) simp
    then have "case check_to_dict c of JObj d \<Rightarrow> invariant_ok d | _ \<Rightarrow> False" by (simp add: check_to_dict_def)
    then show ?case using Cons by simp
  qed simp
  then show ?thesis using sev by (simp add: list_where_def dicts_where_def)
qed


text \<open>What a refresh of a valid report yields.\<close>

lemma refresh_ok:
  assumes ok: "report_ok r" and cmp: "comparable_stamps r" and names: "text_names r"
  obtains d cs r' where "refresh now1 now2 now3 r = Inr r'" and "report_ok r'" and "same_facts r r'"
    and "diagnose now1 r = Inr d" and "controls_for now1 r = Inr cs"
    and "r' = dset ''controls'' (JList (map control_to_dict cs))
          (dset ''diagnosis'' (diagnosis_to_dict d) (dset ''invariants'' (JList (map check_to_dict (checks_of r))) r))"
proof -
  define r1 where "r1 = dset ''invariants'' (JList (map check_to_dict (checks_of r))) r"
  obtain d where d: "diagnose now1 r = Inr d" using diagnose_agrees [OF assms] by blast
  define r2 where "r2 = dset ''diagnosis'' (diagnosis_to_dict d) r1"
  have ok1: "report_ok r1" and same1: "same_facts r r1"
    unfolding r1_def using ok derived_keys checks_valid by (auto intro!: report_ok_dset same_facts_dset)
  have d1: "diagnose now2 r1 = Inr d" using d by (simp only: diagnose_same(1) [OF same1 ok ok1, of now2 now1])
  have ok2: "report_ok r2" and same2: "same_facts r r2"
    unfolding r2_def using ok1 same1 derived_keys
    by (auto intro!: report_ok_dset same_facts_dset intro: same_facts_trans)
  have press: "disk_pressure_of r = Inr (pressure_of r)" by (rule disk_pressure_ok [OF ok])
  obtain cs where cs: "controls_for now1 r = Inr cs"
    unfolding controls_for_def d press ebind_simps pressure_in_set [OF ok] by blast
  have cs2: "controls_for now3 r2 = Inr cs" using cs by (simp only: controls_same [OF same2 ok ok2, of now3 now1])
  define r3 where "r3 = dset ''controls'' (JList (map control_to_dict cs)) r2"
  have "report_ok r3" "same_facts r r3"
    unfolding r3_def using ok2 same2 derived_keys
    by (auto intro!: report_ok_dset same_facts_dset intro: same_facts_trans)
  moreover have "refresh now1 now2 now3 r = Inr r3"
    using cmp by (simp add: refresh_def verify_ok [OF ok] r1_def [symmetric] d1 r2_def [symmetric] cs2 r3_def)
  ultimately show thesis using d cs by (intro that) (simp_all add: r3_def r2_def r1_def)
qed

lemma dset_idem: "dget0 r k = v \<Longrightarrow> dhas r k \<Longrightarrow> dset k v r = r"
  by (induction r) auto

lemma refresh_again:
  assumes "report_ok r" and "comparable_stamps r" and "text_names r"
    and "refresh now1 now2 now3 r = Inr r'"
  shows "refresh now4 now5 now6 r' = Inr r'"
proof -
  obtain d cs s where s: "refresh now1 now2 now3 r = Inr s" and "report_ok s" "same_facts r s"
    "diagnose now1 r = Inr d" "controls_for now1 r = Inr cs"
    "s = dset ''controls'' (JList (map control_to_dict cs))
          (dset ''diagnosis'' (diagnosis_to_dict d) (dset ''invariants'' (JList (map check_to_dict (checks_of r))) r))"
    by (rule refresh_ok [OF assms(1-3), of now1 now2 now3])
  moreover have "s = r'" using s assms(4) by simp
  ultimately have one: "report_ok r'" "same_facts r r'" "diagnose now1 r = Inr d" "controls_for now1 r = Inr cs"
    "r' = dset ''controls'' (JList (map control_to_dict cs))
          (dset ''diagnosis'' (diagnosis_to_dict d) (dset ''invariants'' (JList (map check_to_dict (checks_of r))) r))"
    by simp_all
  note same = same_checks [OF one(2)]
  obtain d' cs' r'' where two: "refresh now4 now5 now6 r' = Inr r''" "diagnose now4 r' = Inr d'"
    "controls_for now4 r' = Inr cs'"
    "r'' = dset ''controls'' (JList (map control_to_dict cs'))
          (dset ''diagnosis'' (diagnosis_to_dict d') (dset ''invariants'' (JList (map check_to_dict (checks_of r'))) r'))"
    by (rule refresh_ok [of r' now4 now5 now6]) (use one(1) assms(2,3) same in simp_all)
  have "d' = d" "cs' = cs"
    using two(2,3) one(3,4) diagnose_same(1) [OF one(2) assms(1) one(1), of now4 now1]
      controls_same [OF one(2) assms(1) one(1), of now4 now1] by simp_all
  moreover have "dset ''invariants'' (JList (map check_to_dict (checks_of r))) r' = r'"
    by (rule dset_idem) (simp_all add: one(5))
  moreover have "dset ''diagnosis'' (diagnosis_to_dict d) r' = r'"
    by (rule dset_idem) (simp_all add: one(5))
  moreover have "dset ''controls'' (JList (map control_to_dict cs)) r' = r'"
    by (rule dset_idem) (simp_all add: one(5))
  ultimately show ?thesis using two(1,4) same(1) by simp
qed

end
