(* ===== verification/Report_Properties.thy ===== *)
theory Report_Properties
  imports Reports
begin

text \<open>
  Properties of \<open>reports.py\<close> over the model of \<open>Reports\<close>: what verification and diagnosis say of a valid
  report, that refreshing a report is idempotent, that the snapshot of a host is valid, and that repair
  plans are valid, harmless and complete.
\<close>

section \<open>The snapshot of a host\<close>

definition host_ok :: "snapshot_host \<Rightarrow> bool" where
  "host_ok h \<longleftrightarrow> 0 \<le> h_pid h \<and> 0 \<le> h_disk_free h \<and> h_disk_free h \<le> h_disk_total h \<and> 0 < h_disk_total h"

lemma free_ratio_unit:
  assumes "host_ok h"
  obtains m e where "free_ratio_of h = Dec m e" and "0 \<le> m" and "dec_le m e 1 0"
proof -
  have "max (h_disk_total h) 1 = h_disk_total h" using assms by (simp add: host_ok_def)
  then show thesis
    using that to_double_unit [of "h_disk_free h" "h_disk_total h"] assms round_digits_unit
    by (metis free_ratio_of_def host_ok_def)
qed

lemma disk_pressure_cases: "disk_pressure x \<in> {''critical'', ''warning'', ''watch'', ''none''}"
  by (simp add: disk_pressure_def)

lemma disk_ok_collect:
  assumes "host_ok h"
  shows "disk_ok (collect_resources h)"
proof -
  obtain m e where x: "free_ratio_of h = Dec m e" "0 \<le> m" "dec_le m e 1 0" using free_ratio_unit [OF assms] .
  have "disk_pressure (Dec m e) \<in> set PRESSURE_STATES"
    using disk_pressure_cases [of "Dec m e"] by (auto simp: PRESSURE_STATES_def)
  then show ?thesis
    using assms dec_in_unit [OF x(2,3)]
    by (simp add: disk_ok_def collect_resources_def x(1) field_in_def host_ok_def Let_def)
qed

lemma has_instant_now: "utc_clock_ok c \<Longrightarrow> has_instant (JStr (utc_now c))"
  by (simp add: has_instant_def parse_utc_now)

lemma snapshot_sections:
  "identity_ok (snapshot_identity sha256 h) \<longleftrightarrow> 0 \<le> h_pid h"
  "collection_ok snapshot_collection"
  "utc_clock_ok c \<Longrightarrow> runtime_ok (snapshot_runtime (utc_now c))"
  "store_ok (dict_or_empty snapshot_store)" "lane_ok (dict_or_empty snapshot_lane)"
  "policy_ok snapshot_policy"
proof -
  show "identity_ok (snapshot_identity sha256 h) \<longleftrightarrow> 0 \<le> h_pid h"
    by (simp add: identity_ok_def snapshot_identity_def has_keys_def REQUIRED_IDENTITY_KEYS_def
        is_nonnegative_int_def stable_node_hash_def starts_with_def)
  show "collection_ok snapshot_collection" by code_simp
  show "runtime_ok (snapshot_runtime (utc_now c))" if "utc_clock_ok c"
    using has_instant_now [OF that] by (simp add: runtime_ok_def snapshot_runtime_def)
  show "store_ok (dict_or_empty snapshot_store)" by code_simp
  show "lane_ok (dict_or_empty snapshot_lane)" by code_simp
  show "policy_ok snapshot_policy" by code_simp
qed

lemma base_snapshot_get:
  "dget0 (base_snapshot sha256 h c) ''runtime'' = snapshot_runtime (utc_now c)"
  "dget0 (base_snapshot sha256 h c) ''generated_at'' = JStr (utc_now c)"
  "dget0 (base_snapshot sha256 h c) ''lanes'' = JList [snapshot_lane]"
  "dget0 (base_snapshot sha256 h c) ''stores'' = JList [snapshot_store]"
  "dget0 (base_snapshot sha256 h c) ''resources'' = collect_resources h"
  "dget0 (base_snapshot sha256 h c) ''collection'' = snapshot_collection"
  "dget0 (base_snapshot sha256 h c) ''identity'' = snapshot_identity sha256 h"
  "dget0 (base_snapshot sha256 h c) ''policy'' = snapshot_policy"
  "dget0 (base_snapshot sha256 h c) ''invariants'' = JList []"
  "dget0 (base_snapshot sha256 h c) ''schema'' = JStr STATE_SCHEMA"
  "has_keys (base_snapshot sha256 h c) REQUIRED_TOP_LEVEL_KEYS"
  by (simp_all add: base_snapshot_def Let_def has_keys_def REQUIRED_TOP_LEVEL_KEYS_def)

lemma base_snapshot_ok:
  assumes "host_ok h" and "utc_clock_ok c"
  shows "report_ok (base_snapshot sha256 h c)"
proof -
  have one: "dicts_where P [v] \<longleftrightarrow> P (dict_or_empty v)" if "is_dict v" for P v
    using that by (cases v) (simp_all add: dicts_where_def)
  have "is_dict snapshot_store" "is_dict snapshot_lane" "item_names [snapshot_store] = [''content-store-a'']"
    "item_names [snapshot_lane] = [''normal'']"
    by (simp_all add: snapshot_store_def snapshot_lane_def item_names_def map_filter_def)
  then show ?thesis
    using assms
    by (simp add: report_ok_def base_snapshot_get has_instant_now snapshot_sections disk_ok_collect one
        list_where_def host_ok_def dicts_where_def [of invariant_ok])
qed

lemma base_snapshot_facts:
  fixes sha256 :: "string \<Rightarrow> string"
  assumes "host_ok h" and "utc_clock_ok c"
  defines "r \<equiv> base_snapshot sha256 h c"
  shows "comparable_stamps r" and "text_names r"
    and "fresh r" and "lag_within r" and "shadows_good r" and "clean_open r"
    and "disk_safe r \<longleftrightarrow> \<not> float_le (free_ratio_of h) (Dec 5 (- 2))"
proof -
  have st: "stamp (JStr (utc_now c)) = Some (utc_instant (c\<lparr>uc_micro := 0\<rparr>))"
    by (simp add: stamp_def parse_utc_now [OF assms(2)])
  have rt: "dget0 (sub_dict r ''runtime'') ''last_heartbeat_at'' = JStr (utc_now c)"
    "dget0 (sub_dict r ''runtime'') ''last_dirty_open_at'' = JNull"
    by (simp_all add: r_def sub_dict_def base_snapshot_get snapshot_runtime_def)
  then show "comparable_stamps r"
    by (simp add: comparable_stamps_def heartbeat_of_def st r_def base_snapshot_get)
  have lanes: "lanes_of r = [dict_or_empty snapshot_lane]" and stores: "stores_of r = [dict_or_empty snapshot_store]"
    by (simp_all add: lanes_of_def stores_of_def r_def base_snapshot_get)
  show "text_names r" unfolding text_names_def lanes by code_simp
  have zero: "total_millis 0 = 0" by code_simp
  have age: "age_of r = Some 0"
    using rt(1) by (simp add: age_of_def heartbeat_of_def st r_def base_snapshot_get minus_instant_def
        utc_instant_def zero)
  have "heartbeat_limits r = [30000]" unfolding heartbeat_limits_def lanes by code_simp
  then show "fresh r" by (simp add: fresh_def age heartbeat_limit_def)
  have "lag_of (dict_or_empty snapshot_lane) = 0" "allowed_lag_of (dict_or_empty snapshot_lane) = 100" by code_simp+
  then show "lag_within r" by (simp add: lag_within_def total_lag_def total_allowed_def lanes)
  show "shadows_good r" unfolding shadows_good_def stores by code_simp
  show "clean_open r" by (simp add: clean_open_def dirty_open_of_def rt)
  have "pressure_of r = JStr (disk_pressure (free_ratio_of h))"
    by (simp add: pressure_of_def disk_of_def sub_dict_def r_def base_snapshot_get collect_resources_def Let_def)
  then show "disk_safe r \<longleftrightarrow> \<not> float_le (free_ratio_of h) (Dec 5 (- 2))"
    by (auto simp: disk_safe_def disk_pressure_def)
qed

section \<open>Repair plans\<close>

lemma steps_errors_built:
  "steps_errors (int k) (enumerate n (map repair_step_to_dict (enumerate k ss))) = []"
proof (induction ss arbitrary: k n)
  case (Cons s ss)
  obtain d where d: "repair_step_to_dict (k, s) = JObj d" by (simp add: repair_step_to_dict_def)
  then have "step_errors p (int k) d = []" for p
    by (auto simp: step_errors_def repair_step_to_dict_def STEP_KEYS_def)
  then show ?case
    using Cons.IH [of "Suc k" "Suc n"] d by (simp add: add.commute)
qed simp

lemma not_destructive: "\<not> is_destructive (repair_step_to_dict x)"
  by (cases x) (simp add: is_destructive_def repair_step_to_dict_def)

lemma repair_steps_nonempty: "repair_steps causes pressed \<noteq> []"
  unfolding repair_steps_def Let_def by (simp add: step_if_def)

definition plan_steps :: "jdict \<Rightarrow> json list" where
  "plan_steps plan = (case dget0 plan ''steps'' of JList vs \<Rightarrow> vs | _ \<Rightarrow> [])"

lemma plan_document_valid:
  assumes "utc_clock_ok clock" and "dg_severity d \<in> set SEVERITIES" and "steps \<noteq> []"
  shows "validate_repair_plan (plan_document sha256 (utc_now clock) d schema component generated engine steps)
      = Inr []" (is "validate_repair_plan ?plan = _")
proof -
  have get: "dget0 ?plan ''schema'' = JStr REPAIR_SCHEMA" "dget0 ?plan ''generated_at'' = JStr (utc_now clock)"
    "dget0 ?plan ''status'' = JStr ''preview''" "dget0 ?plan ''severity'' = JStr (dg_severity d)"
    "dget ?plan ''policy'' (JObj []) = JObj [(''engine'', engine),
       (''required_grants'', strs [''sourceos.repair/preview'']),
       (''destructive_grants_required'', strs [''sourceos.repair/apply'', ''sourceos.purge/apply'']),
       (''destructive_actions_present'', JBool False)]"
    "dget0 ?plan ''steps'' = JList (map repair_step_to_dict (enumerate 1 steps))"
    by (simp_all add: plan_document_def)
  have keys: "missing_keys REQUIRED_REPAIR_KEYS ?plan = []"
    unfolding missing_keys_empty_iff by (simp add: REQUIRED_REPAIR_KEYS_def plan_document_def)
  obtain v vs where vs: "map repair_step_to_dict (enumerate 1 steps) = v # vs"
    using assms(3) by (cases steps) auto
  have nd: "\<not> list_ex is_destructive (v # vs)"
    unfolding vs [symmetric] by (simp add: list_ex_iff not_destructive)
  have se: "steps_errors 1 (enumerate 0 (v # vs)) = []"
    using steps_errors_built [of 1 0 steps] by (simp only: vs of_nat_1)
  have "note_not_in (JStr ''preview'') REPAIR_STATUSES msg = Inr []"
    "note_not_in (JStr (dg_severity d)) SEVERITIES msg = Inr []" for msg
    using assms(2) by (simp_all add: note_not_in_def note_if_def REPAIR_STATUSES_def)
  then show ?thesis
    unfolding validate_repair_plan_def Let_def collect_Nil_iff keys get vs list.case json.case se
    using has_instant_now [OF assms(1)] nd
    by (simp only: list.pred_inject accept_simps) (simp add: note_if_def)
qed

lemma verdict_severity: "snd (verdict cs) \<in> set SEVERITIES"
  by (simp add: verdict_def SEVERITIES_def)

lemma diagnose_severity: "diagnose now r = Inr d \<Longrightarrow> dg_severity d \<in> set SEVERITIES"
  using verdict_severity by (fastforce simp: diagnose_def res_simps Let_def)

lemma repair_plan_cases:
  assumes "repair_plan sha256 now clock r = Inr plan"
  obtains d schema component generated engine pressed where "diagnose now r = Inr d"
    and "plan = plan_document sha256 (utc_now clock) d schema component generated engine
           (repair_steps (dg_causes d) pressed)"
  using assms by (auto simp: repair_plan_def res_simps)

text \<open>The remedy of each failing check, in the order of the plan.\<close>

definition expected_steps :: "jdict \<Rightarrow> string list" where
  "expected_steps r =
     (let ids =
        note_if (\<not> fresh r) ''mark_stale_and_restart_if_managed''
        @ note_if (\<not> lag_within r) ''run_replay''
        @ note_if (\<not> shadows_good r) ''verify_or_rebuild_shadow''
        @ note_if (\<not> clean_open r) ''verify_dirty_open_recovery''
        @ note_if (pressure_of r \<in> {JStr ''watch'', JStr ''warning'', JStr ''critical''}) ''generate_purge_preview''
      in if ids = [] then [''no_op''] else ids)"

definition step_id :: "json \<Rightarrow> json" where
  "step_id v = dget0 (dict_or_empty v) ''id''"

lemma step_ids: "map step_id (map repair_step_to_dict (enumerate n ss)) = map (JStr \<circ> rs_id) ss"
  by (induction ss arbitrary: n) (simp_all add: step_id_def repair_step_to_dict_def)

lemma failing_causes:
  assumes "dg_causes d = sorted_set (failing_ids r @ collection_causes r)"
  shows "''heartbeat.within_sla'' \<in> set (dg_causes d) \<longleftrightarrow> \<not> fresh r"
    and "''journal.replay_lag_within_sla'' \<in> set (dg_causes d) \<longleftrightarrow> \<not> lag_within r"
    and "''store.shadow_verified_when_present'' \<in> set (dg_causes d) \<longleftrightarrow> \<not> shadows_good r"
    and "''runtime.no_unrecovered_dirty_open'' \<in> set (dg_causes d) \<longleftrightarrow> \<not> clean_open r"
proof -
  have in_note: "x \<in> set (note_if b y) \<longleftrightarrow> b \<and> x = y" for b and x y :: string by (auto simp: note_if_def)
  note cs = assms failing_ids_cases collection_causes_def
  show "''heartbeat.within_sla'' \<in> set (dg_causes d) \<longleftrightarrow> \<not> fresh r"
    "''journal.replay_lag_within_sla'' \<in> set (dg_causes d) \<longleftrightarrow> \<not> lag_within r"
    "''store.shadow_verified_when_present'' \<in> set (dg_causes d) \<longleftrightarrow> \<not> shadows_good r"
    "''runtime.no_unrecovered_dirty_open'' \<in> set (dg_causes d) \<longleftrightarrow> \<not> clean_open r"
    by (simp_all add: cs in_note)
qed

lemma repair_steps_ids:
  assumes "dg_causes d = sorted_set (failing_ids r @ collection_causes r)"
  shows "map rs_id (repair_steps (dg_causes d)
      (pressure_of r \<in> {JStr ''watch'', JStr ''warning'', JStr ''critical''})) = expected_steps r"
  unfolding repair_steps_def expected_steps_def failing_causes [OF assms] Let_def
  by (cases "fresh r"; cases "lag_within r"; cases "shadows_good r"; cases "clean_open r")
    (simp_all add: step_if_def note_if_def)

section \<open>What the reports promise\<close>

definition example_host :: snapshot_host where
  "example_host = \<lparr>h_hostname = ''laptop'', h_node = ''laptop'', h_system = ''Linux'', h_run_systemd = True,
     h_pid = 4242, h_commit = None, h_provenance = None, h_disk_free = 30, h_disk_total = 100\<rparr>"

definition example_clock :: utc_clock where
  "example_clock = \<lparr>uc_year = 2026, uc_month = 5, uc_day = 1, uc_hour = 9, uc_minute = 30, uc_second = 0, uc_micro = 7\<rparr>"

definition example_digest :: "string \<Rightarrow> string" where
  "example_digest s = ''0123456789abcdef0123456789abcdef''"

definition example_report :: jdict where
  "example_report = base_snapshot example_digest example_host example_clock"

definition example_now :: instant where "example_now = \<lparr>in_local = 0, in_offset = Some 0\<rparr>"

lemma example_ok: "host_ok example_host" "utc_clock_ok example_clock"
  by code_simp+

lemma example_report_ok: "report_ok example_report" "comparable_stamps example_report" "text_names example_report"
  unfolding example_report_def
  using base_snapshot_ok [OF example_ok] base_snapshot_facts(1,2) [OF example_ok] by blast+

text \<open>
  The six checks a report should get, each by the figures of the report: its identifier, its status, its severity, its evidence and its remedy.
\<close>

definition verdict_of :: "bool \<Rightarrow> check_status \<Rightarrow> string \<Rightarrow> check_status \<times> string" where
  "verdict_of good bad severity = (if good then (Pass, ''info'') else (bad, severity))"

definition check_table :: "jdict \<Rightarrow> (string \<times> (check_status \<times> string) \<times> jdict \<times> string) list" where
  "check_table r = [
     (''report.contract_valid'', (Pass, ''info''), [(''errors'', JList [])], ''fix_report_contract''),
     (''heartbeat.within_sla'', verdict_of (\<exists>age. age_of r = Some age \<and> age \<le> heartbeat_limit r) Fail ''error'',
        [(''age_ms'', case age_of r of None \<Rightarrow> JNull | Some age \<Rightarrow> JInt age), (''max_heartbeat_age_ms'', JInt (heartbeat_limit r))],
        ''restart_or_mark_stale''),
     (''journal.replay_lag_within_sla'', verdict_of (total_lag r \<le> total_allowed r) Fail ''error'',
        [(''replay_lag_events'', JInt (total_lag r)), (''allowed_replay_lag_events'', JInt (total_allowed r))], ''run_replay''),
     (''store.shadow_verified_when_present'', verdict_of (\<forall>store \<in> set (stores_of r). \<not> bad_shadow store) Warn ''warning'',
        [(''stores'', JList (map (\<lambda>s. dget s ''name'' (JStr ''unknown'')) (filter bad_shadow (stores_of r))))], ''verify_or_rebuild_shadow''),
     (''resources.disk_pressure_below_critical'', verdict_of (pressure_of r \<noteq> JStr ''critical'' \<and> pressure_of r \<noteq> JStr ''unknown'') Fail ''critical'',
        [(''pressure'', pressure_of r), (''free_ratio'', dget0 (disk_of r) ''free_ratio'')], ''compact_or_purge_preview''),
     (''runtime.no_unrecovered_dirty_open'', verdict_of (\<not> truthy (dirty_open_of r)) Warn ''warning'',
        [(''last_dirty_open_at'', dirty_open_of r)], ''verify_before_ready'')]"

definition check_row :: "check_result \<Rightarrow> string \<times> (check_status \<times> string) \<times> jdict \<times> string" where
  "check_row c = (cr_id c, (cr_status c, cr_severity c), cr_evidence c, cr_remediation c)"

lemma check_row_check: "check_row (check i ok bad sev ev rem) = (i, verdict_of ok bad sev, ev, rem)"
  by (simp add: check_row_def check_def verdict_of_def)

lemma fresh_iff: "fresh r \<longleftrightarrow> (\<exists>age. age_of r = Some age \<and> age \<le> heartbeat_limit r)"
  by (simp add: fresh_def split: option.splits)

lemma check_rows: "map check_row (checks_of r) = check_table r"
  unfolding checks_cases check_table_def fresh_iff [symmetric]
  by (simp add: check_row_check lag_within_def shadows_good_def disk_safe_def clean_open_def opt_int_def verdict_of_def
      list_ex_iff split: option.split)

lemma overall_table:
  "overall_status (checks_of r) =
     (if \<exists>row \<in> set (check_table r). fst (fst (snd row)) = Fail then Fail
      else if \<exists>row \<in> set (check_table r). fst (fst (snd row)) = Warn then Warn else Pass)"
proof -
  have "overall_status cs = (if Fail \<in> cr_status ` set cs then Fail else if Warn \<in> cr_status ` set cs then Warn else Pass)" for cs
    unfolding overall_status_def
  proof (induction cs)
    case (Cons c cs)
    then show ?case by (cases "cr_status c") (auto simp: max_def less_eq_check_status_def)
  qed simp
  moreover have "cr_status ` set cs = (\<lambda>row. fst (fst (snd row))) ` set (map check_row cs)" for cs
    by (force simp: check_row_def)
  ultimately show ?thesis unfolding check_rows [symmetric] by (metis (no_types, lifting) image_iff)
qed

text \<open>
  C25: on a valid report whose time stamps can be compared, verification returns, whatever the clock says, exactly the six checks of \<open>check_table\<close>: the
  contract holds; the heartbeat passes when its age is known and at most the strictest lane limit; the lag when the events that wait are at most those the lanes allow
  together; shadows when no active store has an unverified one; disk pressure when it is neither critical nor unknown; and the dirty open when none was recorded.
  Each check carries the figures it judged and its remedy, and the whole fails when one check fails, warns when one warns and passes otherwise.
  Verification raises exactly when one of the last heartbeat and the time of the report has an offset from UTC and the other has none, and then a \<open>TypeError\<close>.
\<close>

theorem verify_valid:
  assumes "report_ok report"
  shows "if comparable_stamps report
    then \<exists>status cs. verify now report = Inr (status, cs) \<and> map check_row cs = check_table report
      \<and> status = (if \<exists>row \<in> set (check_table report). fst (fst (snd row)) = Fail then Fail
          else if \<exists>row \<in> set (check_table report). fst (fst (snd row)) = Warn then Warn else Pass)
    else verify now report = Inl TypeError"
  by (simp only: verify_ok [OF assms] overall_table) (simp add: check_rows)

theorem verify_valid_witness:
  "\<exists>status cs. verify example_now example_report = Inr (status, cs) \<and> map check_row cs = check_table example_report"
  using verify_valid [OF example_report_ok(1), of example_now] example_report_ok(2) by auto

text \<open>
  C27: the diagnosis of a valid report whose lane names are texts and whose time stamps can be compared: it is
  \<open>unsafe\<close> when disk pressure is critical or unknown; otherwise \<open>degraded\<close> when the last heartbeat is
  missing or older than the strictest lane allows or more journal events wait than all lanes together
  allow (\<open>error\<close>), or when an active store has an unverified shadow or a dirty open was recorded
  (\<open>warning\<close>); otherwise \<open>healthy\<close>.  The causes are the failed checks and an incomplete collection, the
  affected lanes those with a bad status or too much lag, and actions that need fresh state are
  blocked exactly when heartbeat or lag fail.
\<close>

theorem diagnose_valid:
  assumes "report_ok report" and "comparable_stamps report" and "text_names report"
  shows "\<exists>d. diagnose now report = Inr d \<and> agrees report d"
  using assms by (rule diagnose_agrees)

theorem diagnose_valid_witness: "\<exists>d. diagnose example_now example_report = Inr d \<and> agrees example_report d"
  using diagnose_valid [OF example_report_ok] .

text \<open>
  \<open>with_fresh_diagnosis\<close> of such a report returns a valid report with the same facts, whose derived
  sections are its checks, diagnosis and controls; doing it again, at any time, changes nothing.
\<close>

theorem fresh_diagnosis_idempotent:
  assumes "report_ok report" and "comparable_stamps report" and "text_names report"
  shows "\<exists>fresh. with_fresh_diagnosis now1 now2 now3 report = Inr fresh \<and> report_ok fresh
    \<and> same_facts report fresh \<and> dget0 fresh ''invariants'' = JList (map check_to_dict (checks_of report))
    \<and> with_fresh_diagnosis now4 now5 now6 fresh = Inr fresh"
proof -
  obtain d cs r' where "refresh now1 now2 now3 report = Inr r'" "report_ok r'" "same_facts report r'"
    "diagnose now1 report = Inr d" "controls_for now1 report = Inr cs"
    "r' = dset ''controls'' (JList (map control_to_dict cs)) (dset ''diagnosis'' (diagnosis_to_dict d)
            (dset ''invariants'' (JList (map check_to_dict (checks_of report))) report))"
    by (rule refresh_ok [OF assms, of now1 now2 now3])
  moreover from this have "refresh now4 now5 now6 r' = Inr r'" by (intro refresh_again [OF assms])
  ultimately show ?thesis unfolding with_fresh_diagnosis_def by (intro exI [of _ r']) simp
qed

theorem fresh_diagnosis_idempotent_witness:
  "\<exists>fresh. with_fresh_diagnosis example_now example_now example_now example_report = Inr fresh \<and> report_ok fresh
    \<and> same_facts example_report fresh
    \<and> dget0 fresh ''invariants'' = JList (map check_to_dict (checks_of example_report))
    \<and> with_fresh_diagnosis example_now example_now example_now fresh = Inr fresh"
  by (rule fresh_diagnosis_idempotent [OF example_report_ok])

text \<open>
  C28: a host with a disk of positive size and a working clock gets a snapshot that satisfies the contract and
  needs no repair but, perhaps, of the disk: its diagnosis is \<open>unsafe\<close> when the free share of the disk,
  rounded to four digits, is at most 0.05, and \<open>healthy\<close> otherwise; its only other cause is the
  collection the snapshot itself marks as partial.
\<close>

theorem snapshot_valid:
  assumes "host_ok h" and "utc_clock_ok clock"
  shows "\<exists>report d. snapshot sha256 h clock now1 now2 now3 = Inr report \<and> report_ok report
    \<and> diagnose now4 report = Inr d
    \<and> dg_status d = (if float_le (free_ratio_of h) (Dec 5 (- 2)) then ''unsafe'' else ''healthy'')
    \<and> set (dg_causes d) = {''collection.partial''} \<union>
        (if float_le (free_ratio_of h) (Dec 5 (- 2)) then {''resources.disk_pressure_below_critical''} else {})"
proof -
  let ?b = "base_snapshot sha256 h clock"
  note ok = base_snapshot_ok [OF assms, of sha256] base_snapshot_facts(1,2) [OF assms, of sha256]
  note facts = base_snapshot_facts(3-) [OF assms, of sha256]
  obtain d cs r' where r': "refresh now1 now2 now3 ?b = Inr r'" "report_ok r'" "same_facts ?b r'"
    "diagnose now1 ?b = Inr d" "controls_for now1 ?b = Inr cs"
    "r' = dset ''controls'' (JList (map control_to_dict cs)) (dset ''diagnosis'' (diagnosis_to_dict d)
            (dset ''invariants'' (JList (map check_to_dict (checks_of ?b))) ?b))"
    by (rule refresh_ok [OF ok, of now1 now2 now3])
  have d: "diagnose now4 r' = Inr d"
    using r'(4) by (simp only: diagnose_same(1) [OF r'(3) ok(1) r'(2), of now4 now1])
  have "agrees ?b d" using diagnose_agrees [OF ok, of now1] r'(4) by simp
  moreover have "expected_verdict ?b =
      (if float_le (free_ratio_of h) (Dec 5 (- 2)) then (''unsafe'', ''critical'') else (''healthy'', ''info''))"
    by (simp add: expected_verdict_def facts)
  moreover have "failing_ids ?b = note_if (float_le (free_ratio_of h) (Dec 5 (- 2))) ''resources.disk_pressure_below_critical''"
    by (simp add: failing_ids_cases facts) (simp add: note_if_def)
  moreover have "collection_causes ?b = [''collection.partial'']"
    by (simp add: collection_causes_def sub_dict_def base_snapshot_get snapshot_collection_def note_if_def)
  ultimately have "dg_status d = (if float_le (free_ratio_of h) (Dec 5 (- 2)) then ''unsafe'' else ''healthy'')"
    "set (dg_causes d) = {''collection.partial''} \<union>
        (if float_le (free_ratio_of h) (Dec 5 (- 2)) then {''resources.disk_pressure_below_critical''} else {})"
    by (cases "float_le (free_ratio_of h) (Dec 5 (- 2))"; auto simp: agrees_def note_if_def)+
  then show ?thesis using r'(1,2) d unfolding snapshot_def by blast
qed

theorem snapshot_valid_witness:
  "\<exists>report d. snapshot example_digest example_host example_clock example_now example_now example_now = Inr report
    \<and> report_ok report \<and> diagnose example_now report = Inr d \<and> dg_status d = ''healthy''"
proof -
  have "\<not> float_le (free_ratio_of example_host) (Dec 5 (- 2))" by code_simp
  then show ?thesis
    using snapshot_valid [OF example_ok, of example_digest example_now example_now example_now example_now] by auto
qed

lemma repair_plan_returns:
  assumes "report_ok report" and "comparable_stamps report" and "text_names report"
  shows "\<exists>plan. repair_plan sha256 now clock report = Inr plan
    \<and> map step_id (plan_steps plan) = map JStr (expected_steps report)"
proof -
  obtain d where d: "diagnose now report = Inr d" "agrees report d" using diagnose_agrees [OF assms] by blast
  let ?pressed = "pressure_of report \<in> {JStr ''watch'', JStr ''warning'', JStr ''critical''}"
  have p: "in_set (pressure_of report) [''watch'', ''warning'', ''critical''] = Inr ?pressed"
    unfolding pressure_in_set [OF assms(1)] by simp
  have "repair_plan sha256 now clock report = Inr (plan_document sha256 (utc_now clock) d (dget0 report ''schema'')
      (dget0 (sub_dict report ''identity'') ''component'') (dget0 report ''generated_at'')
      (dget (sub_dict report ''policy'') ''policy_engine'' (JStr ''policy-fabric''))
      (repair_steps (dg_causes d) ?pressed))" (is "_ = Inr ?plan")
    by (simp only: repair_plan_def d disk_pressure_ok [OF assms(1)] p report_dicts(8,9) [OF assms(1)] jget.simps ebind_simps)
  moreover have "map step_id (plan_steps ?plan) = map (JStr \<circ> rs_id) (repair_steps (dg_causes d) ?pressed)"
    by (simp add: plan_steps_def plan_document_def step_ids del: map_map)
  moreover have "map rs_id (repair_steps (dg_causes d) ?pressed) = expected_steps report"
    by (rule repair_steps_ids) (use d(2) in \<open>simp add: agrees_def\<close>)
  ultimately show ?thesis by (simp only: map_map [symmetric]) blast
qed

text \<open>
  C29: a repair plan, of whatever report, passes the validator of repair plans, is a preview and has no
  destructive step.
\<close>

theorem repair_plan_safe:
  assumes "utc_clock_ok clock" and "repair_plan sha256 now clock report = Inr plan"
  shows "validate_repair_plan plan = Inr [] \<and> dget0 plan ''status'' = JStr ''preview''
    \<and> list_all (\<lambda>s. \<not> is_destructive s) (plan_steps plan) \<and> plan_steps plan \<noteq> []"
proof -
  obtain d schema component generated engine pressed where d: "diagnose now report = Inr d"
    and plan: "plan = plan_document sha256 (utc_now clock) d schema component generated engine
           (repair_steps (dg_causes d) pressed)"
    by (rule repair_plan_cases [OF assms(2)])
  have "plan_steps plan = map repair_step_to_dict (enumerate 1 (repair_steps (dg_causes d) pressed))"
    "dget0 plan ''status'' = JStr ''preview''"
    by (simp_all add: plan plan_steps_def plan_document_def)
  moreover have "list_all (\<lambda>s. \<not> is_destructive s) (map repair_step_to_dict xs)" for xs
    by (simp add: list_all_iff not_destructive)
  ultimately show ?thesis
    using plan_document_valid [OF assms(1) diagnose_severity [OF d] repair_steps_nonempty]
      repair_steps_nonempty [of "dg_causes d" pressed]
    by (simp add: plan) (metis enumerate_Suc_eq length_enumerate length_0_conv)
qed

theorem repair_plan_safe_witness:
  "\<exists>plan. repair_plan example_digest example_now example_clock example_report = Inr plan
    \<and> validate_repair_plan plan = Inr [] \<and> list_all (\<lambda>s. \<not> is_destructive s) (plan_steps plan)"
proof -
  obtain plan where "repair_plan example_digest example_now example_clock example_report = Inr plan"
    using repair_plan_returns [OF example_report_ok] by blast
  then show ?thesis using repair_plan_safe [OF example_ok(2)] by blast
qed

text \<open>
  For a valid report whose lane names are texts and whose time stamps can be compared there is a repair
  plan, and its steps are the remedies of the failed checks and of a disk under pressure, in a fixed
  order, or the one step \<open>no_op\<close>.
\<close>

theorem repair_plan_covers:
  assumes "report_ok report" and "comparable_stamps report" and "text_names report"
  shows "\<exists>plan. repair_plan sha256 now clock report = Inr plan
    \<and> map step_id (plan_steps plan) = map JStr (expected_steps report)"
  using assms by (rule repair_plan_returns)

theorem repair_plan_covers_witness:
  "\<exists>plan. repair_plan example_digest example_now example_clock example_report = Inr plan
    \<and> map step_id (plan_steps plan) = map JStr (expected_steps example_report)"
  by (rule repair_plan_covers [OF example_report_ok])

end
