(* ===== verification/Evidence.thy ===== *)
theory Evidence
  imports Report_Properties
begin

text \<open>
  \<open>evidence.py\<close>: evidence envelopes and the directory they are written to.  \<open>sha256\<close> is the hexadecimal
  digest of a text, \<open>now\<close> the text of the clock.
\<close>

section \<open>Envelopes\<close>

definition EVIDENCE_SCHEMA :: string where "EVIDENCE_SCHEMA = ''sourceos.lampstand-evidence/v1alpha1''"
definition DEFAULT_WRITER :: string where "DEFAULT_WRITER = ''sourceos-syncd-local-evidence-writer''"

definition canonical_json :: "json \<Rightarrow> string" where
  "canonical_json value = json_compact (sort_keys value)"

definition digest_json :: "(string \<Rightarrow> string) \<Rightarrow> json \<Rightarrow> string" where
  "digest_json sha256 value = ''sha256:'' @ sha256 (canonical_json value)"

record evidence_envelope =
  ee_evidence_id :: string
  ee_evidence_type :: string
  ee_subject :: string
  ee_artifact_digest :: string
  ee_artifact :: jdict
  ee_writer :: string
  ee_generated_at :: string
  ee_signed :: bool
  ee_signature :: json

definition envelope_as_dict :: "evidence_envelope \<Rightarrow> jdict" where
  "envelope_as_dict e = [
     (''schema'', JStr EVIDENCE_SCHEMA), (''evidence_id'', JStr (ee_evidence_id e)),
     (''generated_at'', JStr (ee_generated_at e)), (''writer'', JStr (ee_writer e)),
     (''evidence_type'', JStr (ee_evidence_type e)), (''subject'', JStr (ee_subject e)),
     (''artifact_digest'', JStr (ee_artifact_digest e)), (''artifact'', JObj (ee_artifact e)),
     (''attestation'', JObj [
       (''signed'', JBool (ee_signed e)), (''signature'', ee_signature e),
       (''reason'', JStr (if \<not> ee_signed e then ''local-stub-unsigned'' else ''signed''))])]"

definition make_evidence ::
  "(string \<Rightarrow> string) \<Rightarrow> string \<Rightarrow> jdict \<Rightarrow> string \<Rightarrow> string \<Rightarrow> string \<Rightarrow> jdict" where
  "make_evidence sha256 now artifact evidence_type subject writer =
     (let artifact_digest = digest_json sha256 (JObj artifact);
          seed = JObj [(''artifact_digest'', JStr artifact_digest), (''evidence_type'', JStr evidence_type),
                       (''subject'', JStr subject), (''writer'', JStr writer)];
          evidence_id = ''evidence-'' @ take 20 (sha256 (canonical_json seed))
      in envelope_as_dict
           \<lparr>ee_evidence_id = evidence_id, ee_evidence_type = evidence_type, ee_subject = subject,
            ee_artifact_digest = artifact_digest, ee_artifact = artifact, ee_writer = writer,
            ee_generated_at = now, ee_signed = False, ee_signature = JNull\<rparr>)"

definition EVIDENCE_KEYS :: "string list" where
  "EVIDENCE_KEYS = [''schema'', ''evidence_id'', ''generated_at'', ''writer'', ''evidence_type'',
     ''subject'', ''artifact_digest'', ''artifact'', ''attestation'']"

definition validate_evidence :: "(string \<Rightarrow> string) \<Rightarrow> jdict \<Rightarrow> string list" where
  "validate_evidence sha256 envelope =
     (let missing = missing_keys EVIDENCE_KEYS envelope;
          digest = dget0 envelope ''artifact_digest'';
          artifact = dget0 envelope ''artifact''
      in note_if (missing \<noteq> []) (''missing evidence keys: '' @ join '', '' missing)
       @ note_if (dget0 envelope ''schema'' \<noteq> JStr EVIDENCE_SCHEMA)
           (''unsupported evidence schema: '' @ py_repr (dget0 envelope ''schema''))
       @ note_if (\<not> starts_with ''sha256:'' (py_str (dget envelope ''artifact_digest'' (JStr ''''))))
           ''artifact_digest must start with sha256:''
       @ note_if (is_dict artifact \<and> digest \<noteq> JStr (digest_json sha256 artifact))
           ''artifact_digest does not match artifact''
       @ note_if (\<not> is_dict (dget0 envelope ''attestation'')) ''attestation must be an object'')"

section \<open>The evidence directory\<close>

text \<open>
  The files of the output directory, by name.  The temporary file is renamed over its target and does not
  outlive the call.  What the file system does with a name that leaves the directory is the
  argument \<open>elsewhere\<close>.
\<close>

type_synonym evidence_dir = "string dict"

definition get_file :: "evidence_dir \<Rightarrow> string \<Rightarrow> string option" where
  "get_file d f = map_of d f"

definition put_file :: "string \<Rightarrow> string \<Rightarrow> evidence_dir \<Rightarrow> evidence_dir" where
  "put_file f text d = dset f text d"

definition write_evidence_file ::
  "(string \<Rightarrow> string) \<Rightarrow> (string \<Rightarrow> string \<Rightarrow> evidence_dir \<Rightarrow> evidence_dir \<times> string res) \<Rightarrow> jdict
   \<Rightarrow> evidence_dir \<Rightarrow> evidence_dir \<times> string res" where
  "write_evidence_file sha256 elsewhere envelope d =
     (let errors = validate_evidence sha256 envelope in
      if errors \<noteq> [] then (d, Inl (ValueError (''invalid evidence envelope: '' @ join ''; '' errors)))
      else
        (let target = py_str (dget0 envelope ''evidence_id'') @ ''.json'';
             text = pretty_json True (JObj envelope)
         in if CHR ''/'' \<in> set target then elsewhere target text d
            else (put_file target text d, Inr target)))"

interpretation evidence_files: keyed_store get_file put_file
  by unfold_locales (simp_all add: get_file_def put_file_def map_of_dset)

section \<open>Properties\<close>

text \<open>An envelope whose artifact is a dict is accepted exactly when it is complete and its digest is the one of
  the artifact.\<close>

definition envelope_ok :: "(string \<Rightarrow> string) \<Rightarrow> jdict \<Rightarrow> bool" where
  "envelope_ok sha256 e \<longleftrightarrow> has_keys e EVIDENCE_KEYS \<and> dget0 e ''schema'' = JStr EVIDENCE_SCHEMA
     \<and> is_dict (dget0 e ''attestation'')
     \<and> (case dget0 e ''artifact'' of
          JObj a \<Rightarrow> dget0 e ''artifact_digest'' = JStr (digest_json sha256 (JObj a))
        | _ \<Rightarrow> starts_with ''sha256:'' (py_str (dget0 e ''artifact_digest'')))"

lemma validate_evidence_Nil: "validate_evidence sha256 e = [] \<longleftrightarrow> envelope_ok sha256 e"
proof (cases "has_keys e EVIDENCE_KEYS")
  case True
  then have keys: "missing_keys EVIDENCE_KEYS e = []" "dhas e ''artifact_digest''"
    by (simp_all add: missing_keys_empty_iff has_keys_def list_all_iff EVIDENCE_KEYS_def)
  have get: "dget e ''artifact_digest'' (JStr '''') = dget0 e ''artifact_digest''"
    by (rule dget_present [OF keys(2)])
  have pre: "starts_with ''sha256:'' (digest_json sha256 a)" for a by (simp add: digest_json_def starts_with_def)
  show ?thesis
    using True keys(1) pre
    by (cases "dget0 e ''artifact''") (auto simp: validate_evidence_def envelope_ok_def get)
next
  case False
  then have "missing_keys EVIDENCE_KEYS e \<noteq> []"
    by (simp add: missing_keys_empty_iff has_keys_def list_all_iff)
  then show ?thesis using False by (simp add: validate_evidence_def envelope_ok_def Let_def)
qed

lemma make_evidence_ok: "envelope_ok sha256 (make_evidence sha256 now artifact kind subject writer)"
  by (simp add: envelope_ok_def make_evidence_def envelope_as_dict_def Let_def has_keys_def EVIDENCE_KEYS_def)

definition evidence_file :: "(string \<Rightarrow> string) \<Rightarrow> jdict \<Rightarrow> string \<Rightarrow> string \<Rightarrow> string \<Rightarrow> string" where
  "evidence_file sha256 artifact kind subject writer =
     py_str (dget0 (make_evidence sha256 '''' artifact kind subject writer) ''evidence_id'') @ ''.json''"

text \<open>
  Evidence made for an artifact is written under a name that depends on the artifact, its type, subject
  and writer but not on the time, and no other file changes; replacing the artifact in the envelope is
  noticed by the validator unless the digests of both artifacts agree.
\<close>

theorem evidence_written:
  assumes "\<And>s. CHR ''/'' \<notin> set (sha256 s)"
  shows "snd (write_evidence_file sha256 elsewhere (make_evidence sha256 now a kind subject writer) d)
      = Inr (evidence_file sha256 a kind subject writer)
    \<and> get_file (fst (write_evidence_file sha256 elsewhere (make_evidence sha256 now a kind subject writer) d))
      = (get_file d)(evidence_file sha256 a kind subject writer
          \<mapsto> pretty_json True (JObj (make_evidence sha256 now a kind subject writer)))
    \<and> (validate_evidence sha256 (dset ''artifact'' (JObj b) (make_evidence sha256 now a kind subject writer)) = []
        \<longleftrightarrow> digest_json sha256 (JObj b) = digest_json sha256 (JObj a))"
proof -
  let ?e = "make_evidence sha256 now a kind subject writer"
  let ?f = "evidence_file sha256 a kind subject writer"
  have name: "py_str (dget0 ?e ''evidence_id'') @ ''.json'' = ?f"
    by (simp add: evidence_file_def make_evidence_def envelope_as_dict_def Let_def)
  have "CHR ''/'' \<notin> set (take 20 (sha256 s))" for s using assms [of s] by (meson in_set_takeD)
  then have no_slash: "CHR ''/'' \<notin> set ?f"
    by (simp add: evidence_file_def make_evidence_def envelope_as_dict_def Let_def)
  have w: "write_evidence_file sha256 elsewhere ?e d = (put_file ?f (pretty_json True (JObj ?e)) d, Inr ?f)"
    using validate_evidence_Nil [of sha256 ?e] make_evidence_ok no_slash
    by (simp add: write_evidence_file_def name Let_def)
  have "has_keys (dset ''artifact'' (JObj b) ?e) EVIDENCE_KEYS"
    using make_evidence_ok [of sha256 now a kind subject writer]
    by (simp add: envelope_ok_def has_keys_def list_all_iff)
  then have "envelope_ok sha256 (dset ''artifact'' (JObj b) ?e) \<longleftrightarrow>
      digest_json sha256 (JObj b) = digest_json sha256 (JObj a)"
    by (simp add: envelope_ok_def) (auto simp: make_evidence_def envelope_as_dict_def Let_def)
  then show ?thesis by (simp add: w validate_evidence_Nil evidence_files.get_put fun_eq_iff)
qed

theorem evidence_written_witness:
  "get_file (fst (write_evidence_file example_digest (\<lambda>f t d. (d, Inr f))
      (make_evidence example_digest ''2026-01-01T00:00:00Z'' [(''x'', JInt 1)] ''report'' ''node'' DEFAULT_WRITER) []))
    ''evidence-0123456789abcdef0123.json'' \<noteq> None"
proof -
  have "\<And>s. CHR ''/'' \<notin> set (example_digest s)" by (simp add: example_digest_def)
  moreover have "evidence_file example_digest [(''x'', JInt 1)] ''report'' ''node'' DEFAULT_WRITER
      = ''evidence-0123456789abcdef0123.json''" by code_simp
  ultimately show ?thesis
    using evidence_written [of example_digest "\<lambda>f t d. (d, Inr f)" "''2026-01-01T00:00:00Z''" "[(''x'', JInt 1)]"
        "''report''" "''node''" DEFAULT_WRITER "[]"]
    by simp
qed

end
