(* ===== verification/Trust.thy ===== *)
theory Trust
  imports Evidence
begin

text \<open>
  \<open>trust.py\<close>: whether an agent may act on the state that a report describes.  \<open>now\<close> is the instant that
  stands in for a missing report time, \<open>written\<close> the text of the clock.
\<close>

section \<open>Requests and decisions\<close>

definition TRUST_DECISION_SCHEMA :: string where
  "TRUST_DECISION_SCHEMA = ''sourceos.agent-trust-decision/v1alpha1''"
definition TRUST_ENGINE :: string where "TRUST_ENGINE = ''agentplane-local-trust-gate''"
definition TRUST_STATUSES :: "string list" where
  "TRUST_STATUSES = [''allowed'', ''degraded_allowed'', ''blocked'', ''unknown'']"

record trust_request =
  tr_subject :: string
  tr_action :: string
  tr_lane :: string
  tr_allow_degraded :: bool
  tr_require_attestation :: bool

record trust_decision =
  td_decision_id :: string
  td_status :: string
  td_reason :: string
  td_request :: trust_request
  td_report_digest :: string
  td_report_status :: string
  td_generated_at :: string
  td_evidence :: jdict

definition trust_to_dict :: "trust_decision \<Rightarrow> jdict" where
  "trust_to_dict d = [
     (''schema'', JStr TRUST_DECISION_SCHEMA), (''decision_id'', JStr (td_decision_id d)),
     (''generated_at'', JStr (td_generated_at d)), (''engine'', JStr TRUST_ENGINE),
     (''subject'', JStr (tr_subject (td_request d))), (''action'', JStr (tr_action (td_request d))),
     (''lane'', JStr (tr_lane (td_request d))), (''status'', JStr (td_status d)),
     (''reason'', JStr (td_reason d)), (''report_digest'', JStr (td_report_digest d)),
     (''report_status'', JStr (td_report_status d)),
     (''allow_degraded'', JBool (tr_allow_degraded (td_request d))),
     (''require_attestation'', JBool (tr_require_attestation (td_request d))),
     (''evidence'', JObj (td_evidence d))]"

definition trust_decision_id :: "(string \<Rightarrow> string) \<Rightarrow> json \<Rightarrow> string" where
  "trust_decision_id sha256 seed = ''trust-'' @ take 20 (sha256 (canonical_json seed))"

section \<open>Evaluation\<close>

text \<open>\<open>{lane.get("name") for lane in lanes if isinstance(lane, dict)}\<close>.\<close>

definition lane_name_set :: "jdict \<Rightarrow> json list res" where
  "lane_name_set report =
     ebind (report_lanes report) (\<lambda>lanes.
     let names = map (\<lambda>lane. dget0 lane ''name'') lanes in
     if list_all hashable names then Inr (dedup names) else Inl TypeError)"

text \<open>The chain of conditions that decides the first verdict.\<close>

definition trust_verdict ::
  "trust_request \<Rightarrow> string list \<Rightarrow> json list \<Rightarrow> bool \<Rightarrow> string \<Rightarrow> string \<times> string" where
  "trust_verdict req contract_errors lane_names attested report_status =
     (if contract_errors \<noteq> [] then (''blocked'', ''report_contract_invalid'')
      else if JStr (tr_lane req) \<notin> set lane_names then (''blocked'', ''requested_lane_missing'')
      else if tr_require_attestation req \<and> \<not> attested then (''blocked'', ''required_attestation_missing'')
      else if report_status = ''unsafe'' then (''blocked'', ''report_status_unsafe'')
      else if report_status \<in> set [''stale'', ''unknown''] then (''blocked'', ''report_status_not_trusted'')
      else if report_status = ''degraded'' \<and> tr_allow_degraded req then
        (''degraded_allowed'', ''degraded_mode_explicitly_allowed'')
      else if report_status = ''degraded'' then
        (''blocked'', ''degraded_mode_requires_explicit_allowance'')
      else (''allowed'', ''state_integrity_allows_agent_action''))"

text \<open>\<open>v > 0\<close>.\<close>

definition above_zero :: "json \<Rightarrow> bool res" where
  "above_zero v = (case num_value v of None \<Rightarrow> Inl TypeError | Some x \<Rightarrow> Inr (float_lt (Dec 0 0) x))"

definition restricted_lane :: "trust_request \<Rightarrow> json \<Rightarrow> string \<times> string \<Rightarrow> (string \<times> string) res" where
  "restricted_lane req policy_counts v =
     (if fst v \<in> set [''allowed'', ''degraded_allowed''] \<and> tr_lane req \<in> set [''secure'', ''repair''] then
        ebind (jget policy_counts ''denied'' (JInt 0)) (\<lambda>denied.
        ebind (above_zero denied) (\<lambda>b.
        Inr (if b then (''blocked'', ''policy_counts_indicate_restricted_lane'') else v)))
      else Inr v)"

definition policy_counts_of :: "jdict \<Rightarrow> json" where
  "policy_counts_of report = (case dget0 report ''policy'' of
     JObj policy \<Rightarrow> dget policy ''policy_decisions'' (JObj []) | _ \<Rightarrow> JObj [])"

definition report_attested :: "jdict \<Rightarrow> bool" where
  "report_attested report = (case dget0 report ''attestation'' of
     JObj att \<Rightarrow> truthy (dget0 att ''signed'') | _ \<Rightarrow> False)"

definition evaluate_trust ::
  "(string \<Rightarrow> string) \<Rightarrow> instant \<Rightarrow> string \<Rightarrow> jdict \<Rightarrow> trust_request \<Rightarrow> trust_decision res" where
  "evaluate_trust sha256 now written report req =
     ebind (validate_report report) (\<lambda>contract_errors.
     ebind (diagnose now report) (\<lambda>d.
     let report_digest = digest_json sha256 (JObj report); attested = report_attested report in
     ebind (lane_name_set report) (\<lambda>lane_names.
     let policy_counts = policy_counts_of report in
     ebind (restricted_lane req policy_counts
              (trust_verdict req contract_errors lane_names attested (dg_status d))) (\<lambda>(status, reason).
     let seed = JObj [
           (''subject'', JStr (tr_subject req)), (''action'', JStr (tr_action req)),
           (''lane'', JStr (tr_lane req)), (''status'', JStr status), (''reason'', JStr reason),
           (''report_digest'', JStr report_digest), (''allow_degraded'', JBool (tr_allow_degraded req)),
           (''require_attestation'', JBool (tr_require_attestation req))]
     in Inr \<lparr>td_decision_id = trust_decision_id sha256 seed, td_status = status, td_reason = reason,
             td_request = req, td_report_digest = report_digest, td_report_status = dg_status d,
             td_generated_at = written,
             td_evidence = [
               (''contract_errors'', strs contract_errors), (''diagnosis'', diagnosis_to_dict d),
               (''attestation_signed'', JBool attested),
               (''available_lanes'', strs (sort (map py_str [n \<leftarrow> lane_names. truthy n]))),
               (''policy_counts'', policy_counts)]\<rparr>))))"

definition TRUST_KEYS :: "string list" where
  "TRUST_KEYS = [''schema'', ''decision_id'', ''generated_at'', ''engine'', ''subject'', ''action'',
     ''lane'', ''status'', ''reason'', ''report_digest'', ''report_status'', ''allow_degraded'',
     ''require_attestation'', ''evidence'']"

definition validate_trust_decision :: "jdict \<Rightarrow> string list res" where
  "validate_trust_decision decision =
     (let missing = missing_keys TRUST_KEYS decision in
      collect [
        Inr (note_if (missing \<noteq> []) (''missing trust decision keys: '' @ join '', '' missing)),
        Inr (note_if (dget0 decision ''schema'' \<noteq> JStr TRUST_DECISION_SCHEMA)
          (''unsupported trust decision schema: '' @ py_repr (dget0 decision ''schema''))),
        note_not_in (dget0 decision ''status'') TRUST_STATUSES ''status is invalid'',
        Inr (note_if (\<not> starts_with ''sha256:'' (py_str (dget decision ''report_digest'' (JStr ''''))))
          ''report_digest must start with sha256:''),
        Inr (note_if (\<not> is_bool (dget0 decision ''allow_degraded'')) ''allow_degraded must be boolean''),
        Inr (note_if (\<not> is_bool (dget0 decision ''require_attestation''))
          ''require_attestation must be boolean''),
        Inr (note_if (\<not> is_dict (dget0 decision ''evidence'')) ''evidence must be an object'')])"

section \<open>The gate\<close>

text \<open>What the status rests on, in terms of the facts of a valid report.\<close>

definition lane_present :: "jdict \<Rightarrow> string \<Rightarrow> bool" where
  "lane_present r lane \<longleftrightarrow> JStr lane \<in> set (map (\<lambda>l. dget0 l ''name'') (lanes_of r))"

definition denials :: "jdict \<Rightarrow> int" where
  "denials r = number_or_zero (dget0 (sub_dict (sub_dict r ''policy'') ''policy_decisions'') ''denied'')"

definition expected_trust :: "jdict \<Rightarrow> trust_request \<Rightarrow> string" where
  "expected_trust r req =
     (let health = fst (expected_verdict r) in
      if lane_present r (tr_lane req) \<and> (tr_require_attestation req \<longrightarrow> report_attested r)
         \<and> \<not> (tr_lane req \<in> {''secure'', ''repair''} \<and> 0 < denials r)
         \<and> (health = ''healthy'' \<or> health = ''degraded'' \<and> tr_allow_degraded req)
      then if health = ''healthy'' then ''allowed'' else ''degraded_allowed''
      else ''blocked'')"

lemma diagnose_status:
  assumes "report_ok r" and "diagnose now r = Inr d"
  shows "comparable_stamps r" and "dg_status d = fst (expected_verdict r)"
proof -
  obtain v where "verify now r = Inr v" using assms(2) by (auto simp: diagnose_def res_simps)
  then show "comparable_stamps r" by (simp add: verify_ok [OF assms(1)] split: if_splits)
  then have "verify now r = Inr (overall_status (checks_of r), checks_of r)" by (simp add: verify_ok [OF assms(1)])
  then show "dg_status d = fst (expected_verdict r)"
    using assms(2) by (auto simp: diagnose_def res_simps Let_def verdict_checks)
qed

lemma dedup_subset: "set (dedup xs) \<subseteq> set xs"
  by (induction xs) auto

lemma in_dedup_str: "JStr s \<in> set (dedup xs) \<longleftrightarrow> JStr s \<in> set xs"
proof (induction xs)
  case (Cons x xs)
  have "py_eq x (JStr s) \<longleftrightarrow> x = JStr s" by (cases x) (auto simp: py_eq_def split: option.splits)
  then show ?case using Cons by auto
qed simp

lemma above_zero_count: "v = JNull \<or> is_nonnegative_int v \<Longrightarrow> v \<noteq> JNull \<Longrightarrow> above_zero v = Inr (0 < number_or_zero v)"
  by (cases v) (auto simp: above_zero_def number_or_zero_def float_lt_def dec_le_def is_nonnegative_int_def)

lemma denied_count:
  assumes "report_ok r"
  shows "jget (policy_counts_of r) ''denied'' (JInt 0)
      = Inr (dget (sub_dict (sub_dict r ''policy'') ''policy_decisions'') ''denied'' (JInt 0))"
    and "above_zero (dget (sub_dict (sub_dict r ''policy'') ''policy_decisions'') ''denied'' (JInt 0))
      = Inr (0 < denials r)"
proof -
  have "policy_ok (dget0 r ''policy'')" using assms by (simp add: report_ok_def)
  then obtain p where p: "dget0 r ''policy'' = JObj p" "all_counts (dget0 p ''policy_decisions'')"
    by (cases "dget0 r ''policy''") (simp_all add: policy_ok_def)
  then obtain c where c: "dget0 p ''policy_decisions'' = JObj c" "all_counts (JObj c)"
    by (auto elim: all_countsE)
  have counts: "policy_counts_of r = JObj c" by (simp add: policy_counts_of_def p(1) dget_JObj [OF c(1)])
  have sub: "sub_dict (sub_dict r ''policy'') ''policy_decisions'' = c"
    by (simp add: sub_dict_JObj [OF p(1)] sub_dict_JObj [OF c(1)])
  show "jget (policy_counts_of r) ''denied'' (JInt 0)
      = Inr (dget (sub_dict (sub_dict r ''policy'') ''policy_decisions'') ''denied'' (JInt 0))"
    by (simp add: counts sub)
  show "above_zero (dget (sub_dict (sub_dict r ''policy'') ''policy_decisions'') ''denied'' (JInt 0))
      = Inr (0 < denials r)"
  proof (cases "dhas c ''denied''")
    case True
    then obtain v where v: "map_of c ''denied'' = Some v" by (auto simp: dhas_map_of)
    then have "is_nonnegative_int v" using c(2) by (auto simp: all_counts_def list_all_iff dest: map_of_SomeD)
    then show ?thesis
      using above_zero_count [of v] v by (cases v) (auto simp: sub denials_def dget_def is_nonnegative_int_def)
  next
    case False
    then show ?thesis
      by (simp add: sub denials_def dget_absent number_or_zero_def above_zero_def float_lt_def dec_le_def)
  qed
qed

lemma lane_names_ok:
  assumes "lane_name_set r = Inr ns" and "report_ok r"
  shows "JStr s \<in> set ns \<longleftrightarrow> lane_present r s"
proof -
  have "ns = dedup (map (\<lambda>l. dget0 l ''name'') (lanes_of r))"
    using assms(1) by (simp add: lane_name_set_def report_lists(1) [OF assms(2)] Let_def split: if_splits)
  then show ?thesis by (simp only: in_dedup_str lane_present_def)
qed

lemma evaluate_trust_cases:
  assumes "evaluate_trust sha256 now written r req = Inr t"
  obtains es d ns where "validate_report r = Inr es" and "diagnose now r = Inr d" and "lane_name_set r = Inr ns"
    and "restricted_lane req (policy_counts_of r) (trust_verdict req es ns (report_attested r) (dg_status d))
       = Inr (td_status t, td_reason t)"
    and "td_report_digest t = digest_json sha256 (JObj r)" and "td_request t = req"
proof -
  obtain es where es: "validate_report r = Inr es" using assms by (auto simp: evaluate_trust_def ebind_Inr_iff)
  obtain d where d: "diagnose now r = Inr d" using assms by (auto simp: evaluate_trust_def ebind_Inr_iff)
  obtain ns where ns: "lane_name_set r = Inr ns" using assms by (auto simp: evaluate_trust_def ebind_Inr_iff Let_def)
  obtain v where v: "restricted_lane req (policy_counts_of r)
      (trust_verdict req es ns (report_attested r) (dg_status d)) = Inr v"
    using assms by (auto simp: evaluate_trust_def es d ns ebind_Inr_iff Let_def)
  show thesis
    using assms es d ns v by (intro that) (auto simp: evaluate_trust_def Let_def split: prod.splits)
qed

lemma expected_verdict_cases: "fst (expected_verdict r) \<in> {''unsafe'', ''degraded'', ''healthy''}"
  by (simp add: expected_verdict_def)

text \<open>The chain of conditions, when no report status but these three occurs.\<close>

lemma trust_verdict_status:
  assumes "health \<in> {''unsafe'', ''degraded'', ''healthy''}"
  shows "fst (trust_verdict req [] ns attested health) =
     (if JStr (tr_lane req) \<in> set ns \<and> (tr_require_attestation req \<longrightarrow> attested) \<and> health \<noteq> ''unsafe''
         \<and> (health = ''healthy'' \<or> tr_allow_degraded req)
      then if health = ''healthy'' then ''allowed'' else ''degraded_allowed'' else ''blocked'')"
  using assms by (auto simp: trust_verdict_def)

lemma trust_status_valid:
  assumes ok: "report_ok r" and e: "evaluate_trust sha256 now written r req = Inr t"
  shows "td_status t = expected_trust r req"
proof -
  have v: "validate_report r = Inr []" using ok by (simp add: validate_report_Nil)
  obtain d ns where d: "diagnose now r = Inr d" and ns: "lane_name_set r = Inr ns"
    and t: "restricted_lane req (policy_counts_of r) (trust_verdict req [] ns (report_attested r) (dg_status d))
       = Inr (td_status t, td_reason t)"
    using evaluate_trust_cases [OF e] v by (metis Inr_inject)
  have health: "dg_status d = fst (expected_verdict r)" by (rule diagnose_status(2) [OF ok d])
  let ?v = "trust_verdict req [] ns (report_attested r) (dg_status d)"
  have fst: "fst ?v = (if lane_present r (tr_lane req) \<and> (tr_require_attestation req \<longrightarrow> report_attested r)
         \<and> dg_status d \<noteq> ''unsafe'' \<and> (dg_status d = ''healthy'' \<or> tr_allow_degraded req)
      then if dg_status d = ''healthy'' then ''allowed'' else ''degraded_allowed'' else ''blocked'')"
    using trust_verdict_status expected_verdict_cases [of r] lane_names_ok [OF ns ok] health by simp
  have r: "td_status t = (if fst ?v \<in> set [''allowed'', ''degraded_allowed'']
      \<and> tr_lane req \<in> set [''secure'', ''repair''] \<and> 0 < denials r then ''blocked'' else fst ?v)"
    using t by (auto simp: restricted_lane_def denied_count [OF ok] split: if_splits)
  show ?thesis
    unfolding r fst expected_trust_def Let_def
    using expected_verdict_cases [of r] health by auto
qed

lemma trust_invalid_blocked:
  assumes "evaluate_trust sha256 now written r req = Inr t" and "\<not> report_ok r"
  shows "td_status t = ''blocked''"
proof -
  obtain es d ns where es: "validate_report r = Inr es" and "diagnose now r = Inr d"
    and t: "restricted_lane req (policy_counts_of r) (trust_verdict req es ns (report_attested r) (dg_status d))
       = Inr (td_status t, td_reason t)"
    using evaluate_trust_cases [OF assms(1)] by metis
  have "es \<noteq> []" using es assms(2) by (auto simp: validate_report_Nil)
  then show ?thesis using t by (simp add: trust_verdict_def restricted_lane_def)
qed

text \<open>The gate returns on a report whose time stamps compare and whose lane names are texts.\<close>

lemma trust_returns:
  assumes "report_ok r" and "comparable_stamps r" and "text_names r"
  shows "\<exists>t. evaluate_trust sha256 now written r req = Inr t"
proof -
  have v: "validate_report r = Inr []" using assms(1) by (simp add: validate_report_Nil)
  obtain d where d: "diagnose now r = Inr d" using diagnose_agrees [OF assms] by blast
  have "hashable (dget0 l ''name'')" if "l \<in> set (lanes_of r)" for l
  proof -
    have "is_str (lane_name l)" using assms(3) that by (auto simp: text_names_def list_all_iff)
    then show ?thesis
      using dget_present [of l "''name''" "JStr ''unknown''"]
      by (cases "dhas l ''name''") (simp_all add: lane_name_def dget_absent is_str_hashable)
  qed
  then have "list_all hashable (map (\<lambda>l. dget0 l ''name'') (lanes_of r))" by (simp add: list_all_iff)
  then obtain ns where ns: "lane_name_set r = Inr ns"
    by (simp add: lane_name_set_def report_lists(1) [OF assms(1)])
  have "\<exists>x. restricted_lane req (policy_counts_of r) v = Inr x" for v
    by (simp add: restricted_lane_def denied_count [OF assms(1)])
  then obtain x where "restricted_lane req (policy_counts_of r)
      (trust_verdict req [] ns (report_attested r) (dg_status d)) = Inr x" by blast
  then show ?thesis by (cases x) (simp add: evaluate_trust_def v d ns Let_def)
qed

definition trusts :: "trust_decision \<Rightarrow> bool" where
  "trusts t \<longleftrightarrow> td_status t \<in> {''allowed'', ''degraded_allowed''}"

definition trustworthy :: "instant \<Rightarrow> jdict \<times> trust_request \<Rightarrow> bool" where
  "trustworthy now = (\<lambda>(r, req). report_ok r \<and> comparable_stamps r \<and> text_names r
     \<and> expected_trust r req \<noteq> ''blocked'')"

text \<open>The gate, over the reports whose lane names are texts.\<close>

definition gated_trust ::
  "(string \<Rightarrow> string) \<Rightarrow> instant \<Rightarrow> string \<Rightarrow> jdict \<times> trust_request \<Rightarrow> trust_decision res" where
  "gated_trust sha256 now written = (\<lambda>(r, req).
     if text_names r then evaluate_trust sha256 now written r req else Inl TypeError)"

lemma expected_trust_cases: "expected_trust r req \<in> {''allowed'', ''degraded_allowed'', ''blocked''}"
  by (auto simp: expected_trust_def Let_def)

interpretation trust_gate: decision_gate "gated_trust sha256 now written" trusts "trustworthy now" for sha256 now written
proof unfold_locales
  fix i d
  assume g: "gated_trust sha256 now written i = Inr d" and t: "trusts d"
  obtain r req where i: "i = (r, req)" by (cases i)
  then have names: "text_names r" and e: "evaluate_trust sha256 now written r req = Inr d"
    using g by (auto simp: gated_trust_def split: if_splits)
  have ok: "report_ok r"
  proof (rule ccontr)
    assume "\<not> report_ok r"
    from trust_invalid_blocked [OF e this] show False using t by (simp add: trusts_def)
  qed
  obtain d' where "diagnose now r = Inr d'" by (rule evaluate_trust_cases [OF e])
  then have "comparable_stamps r" by (rule diagnose_status(1) [OF ok])
  then show "trustworthy now i"
    using ok names trust_status_valid [OF ok e] t by (auto simp: i trustworthy_def trusts_def)
next
  fix i
  assume j: "trustworthy now i"
  obtain r req where i: "i = (r, req)" by (cases i)
  obtain t where t: "evaluate_trust sha256 now written r req = Inr t"
    using trust_returns [of r sha256 now written req] j by (auto simp: i trustworthy_def)
  then have "td_status t = expected_trust r req" using trust_status_valid j by (auto simp: i trustworthy_def)
  then show "\<exists>d. gated_trust sha256 now written i = Inr d \<and> trusts d"
    using j t expected_trust_cases [of r req] by (auto simp: i gated_trust_def trustworthy_def trusts_def)
qed

text \<open>
  C26: the trust gate on a valid report whose time stamps compare and whose lane names are texts: it returns a
  decision; an action is allowed exactly when the lane exists, a required attestation is signed, no
  denial is counted where the lane is \<open>secure\<close> or \<open>repair\<close>, and the report is healthy, or degraded and
  the request accepts that; the decision passes its validator.
\<close>

theorem trust_decides:
  assumes "report_ok report" and "comparable_stamps report" and "text_names report"
  shows "\<exists>t. evaluate_trust sha256 now written report req = Inr t \<and> td_status t = expected_trust report req
    \<and> validate_trust_decision (trust_to_dict t) = Inr []"
proof -
  obtain t where t: "evaluate_trust sha256 now written report req = Inr t" using trust_returns [OF assms] by blast
  have s: "td_status t = expected_trust report req" by (rule trust_status_valid [OF assms(1) t])
  have "starts_with ''sha256:'' (td_report_digest t)"
    by (rule evaluate_trust_cases [OF t]) (simp add: digest_json_def starts_with_def)
  moreover have "missing_keys TRUST_KEYS (trust_to_dict t) = []"
    unfolding missing_keys_empty_iff by (simp add: TRUST_KEYS_def trust_to_dict_def)
  ultimately have "validate_trust_decision (trust_to_dict t) = Inr []"
    using expected_trust_cases [of report req] s
    by (auto simp: validate_trust_decision_def trust_to_dict_def note_not_in_def TRUST_STATUSES_def)
  then show ?thesis using t s by blast
qed

definition example_request :: trust_request where
  "example_request = \<lparr>tr_subject = ''agent'', tr_action = ''read'', tr_lane = ''normal'',
     tr_allow_degraded = False, tr_require_attestation = False\<rparr>"

theorem trust_decides_witness:
  "\<exists>t. evaluate_trust example_digest example_now ''2026-05-01T09:30:00Z'' example_report example_request = Inr t
    \<and> td_status t = ''allowed''"
proof -
  have "expected_trust example_report example_request = ''allowed''" by code_simp
  then show ?thesis using trust_decides [OF example_report_ok] by metis
qed

text \<open>
  An action on a report that does not satisfy the contract is never allowed: the gate blocks it or raises.
\<close>

theorem trust_needs_contract:
  assumes "\<not> report_ok report" and "evaluate_trust sha256 now written report req = Inr t"
  shows "td_status t = ''blocked'' \<and> \<not> trusts t"
  using trust_invalid_blocked [OF assms(2,1)] by (simp add: trusts_def)

theorem trust_needs_contract_witness:
  "\<exists>t. evaluate_trust example_digest example_now '''' [] example_request = Inr t \<and> td_status t = ''blocked''"
proof -
  have bad: "\<not> report_ok []" by (simp add: report_ok_def has_keys_def REQUIRED_TOP_LEVEL_KEYS_def)
  have "case evaluate_trust example_digest example_now '''' [] example_request of Inr t \<Rightarrow> True | Inl e \<Rightarrow> False"
    by code_simp
  then obtain t where "evaluate_trust example_digest example_now '''' [] example_request = Inr t"
    by (cases "evaluate_trust example_digest example_now '''' [] example_request") simp_all
  then show ?thesis using trust_needs_contract [OF bad] by blast
qed

end
