(* ===== verification/Json_Reader.thy ===== *)
theory Json_Reader
  imports Json_Text Py_Float
begin

text \<open>
  \<open>json.loads\<close> as the C scanner of CPython 3.11 implements it, with the text of its errors.  The scanner
  works on the text that is left; an error carries how much was left where it is reported.  A code
  point outside the model that an escape denotes is read as a question mark.
\<close>

section \<open>Strings\<close>

type_synonym 'a scan = "(string \<times> nat) + ('a \<times> string)"

definition json_space :: "char \<Rightarrow> bool" where
  "json_space c \<longleftrightarrow> c \<in> {CHR '' '', CHR 0x09, CHR 0x0A, CHR 0x0D}"

definition skip_space :: "string \<Rightarrow> string" where
  "skip_space s = dropWhile json_space s"

definition hex_value :: "char \<Rightarrow> nat option" where
  "hex_value c = (let n = (of_char c :: nat) in
     if 48 \<le> n \<and> n \<le> 57 then Some (n - 48)
     else if 97 \<le> n \<and> n \<le> 102 then Some (n - 87)
     else if 65 \<le> n \<and> n \<le> 70 then Some (n - 55) else None)"

text \<open>The four digits of an escape; a character has to follow them.\<close>

fun hex4 :: "string \<Rightarrow> nat option" where
  "hex4 (a # b # c # d # e # s) =
     (case (hex_value a, hex_value b, hex_value c, hex_value d) of
        (Some i, Some j, Some k, Some l) \<Rightarrow> Some (((i * 16 + j) * 16 + k) * 16 + l)
      | _ \<Rightarrow> None)"
| "hex4 _ = None"

definition escaped_char :: "nat \<Rightarrow> char" where
  "escaped_char n = (if n = 8212 then hd em_dash else if n = 8211 then hd en_dash
     else if n < 256 \<and> n \<noteq> 0x96 \<and> n \<noteq> 0x97 then char_of n else CHR ''?'')"

definition simple_escape :: "char \<Rightarrow> char option" where
  "simple_escape c =
     (if c = CHR 0x22 \<or> c = CHR 0x5C \<or> c = CHR ''/'' then Some c
      else if c = CHR ''n'' then Some CHR 0x0A
      else if c = CHR ''r'' then Some CHR 0x0D
      else if c = CHR ''t'' then Some CHR 0x09
      else if c = CHR ''f'' then Some CHR 0x0C
      else if c = CHR ''b'' then Some CHR 0x08 else None)"

text \<open>What follows a backslash and \<open>u\<close>: the character and the text after the escape.  A high surrogate takes a
  low one with it.\<close>

definition unicode_scan :: "string \<Rightarrow> char scan" where
  "unicode_scan s = (case hex4 s of
       None \<Rightarrow> Inl (''Invalid '' @ [CHR 0x5C] @ ''uXXXX escape'', Suc (length s))
     | Some n \<Rightarrow>
         (let r = drop 4 s in
          if 0xD800 \<le> n \<and> n \<le> 0xDBFF \<and> 6 < length r \<and> starts_with [CHR 0x5C, CHR ''u''] r
          then (case hex4 (drop 2 r) of
                  None \<Rightarrow> Inl (''Invalid '' @ [CHR 0x5C] @ ''uXXXX escape'', length r - 1)
                | Some k \<Rightarrow> Inr (CHR ''?'', if 0xDC00 \<le> k \<and> k \<le> 0xDFFF then drop 6 r else r))
          else Inr (escaped_char n, r)))"

definition prepend :: "char \<Rightarrow> string scan \<Rightarrow> string scan" where
  "prepend c m = (case m of Inl e \<Rightarrow> Inl e | Inr (t, r) \<Rightarrow> Inr (c # t, r))"

lemma unicode_scan_shorter: "unicode_scan s = Inr (c, r) \<Longrightarrow> length r < length s"
  by (cases s rule: hex4.cases)
    (auto simp: unicode_scan_def Let_def split: option.splits if_splits)

text \<open>The rest of a string literal; \<open>start\<close> is what was left at its opening quote.\<close>

function scan_string :: "nat \<Rightarrow> string \<Rightarrow> string scan" where
  "scan_string start [] = Inl (''Unterminated string starting at'', start)"
| "scan_string start (c # s) =
     (if c = CHR 0x22 then Inr ([], s)
      else if c = CHR 0x5C then
        (case s of
           [] \<Rightarrow> Inl (''Unterminated string starting at'', start)
         | e # r \<Rightarrow>
             if e = CHR ''u'' then
               (case unicode_scan r of Inl err \<Rightarrow> Inl err
                | Inr (x, r') \<Rightarrow> prepend x (scan_string start r'))
             else (case simple_escape e of
                     None \<Rightarrow> Inl (''Invalid '' @ [CHR 0x5C] @ ''escape'', Suc (length s))
                   | Some x \<Rightarrow> prepend x (scan_string start r)))
      else if (of_char c :: nat) < 32 then Inl (''Invalid control character at'', Suc (length s))
      else prepend c (scan_string start s))"
  by pat_completeness auto
termination
  by (relation "measure (\<lambda>(start, s). length s)") (auto dest: unicode_scan_shorter)

section \<open>Numbers\<close>

definition ascii_digit :: "char \<Rightarrow> bool" where
  "ascii_digit c \<longleftrightarrow> (let n = (of_char c :: nat) in 48 \<le> n \<and> n \<le> 57)"

definition digits_nat :: "string \<Rightarrow> nat" where
  "digits_nat s = foldl (\<lambda>n c. 10 * n + (of_char c - 48)) 0 s"

text \<open>The double nearest to \<open>p / q\<close> with the range of a double, as the shortest decimal that reads as it.\<close>

definition nearest_double :: "int \<Rightarrow> int \<Rightarrow> double" where
  "nearest_double p q = (let x = to_double p q in
     if snd x < - 1074 then (round_half_even (p * 2 ^ 1074) q, - 1074) else x)"

definition same_double :: "double \<Rightarrow> double \<Rightarrow> bool" where
  "same_double x y \<longleftrightarrow> num_of x * den_of y = num_of y * den_of x"

definition dec_num :: "int \<Rightarrow> int \<Rightarrow> int" where "dec_num m e = m * 10 ^ nat e"
definition dec_den :: "int \<Rightarrow> int" where "dec_den e = 10 ^ nat (- e)"

text \<open>The exponent of the first decimal digit of \<open>p / q\<close>.\<close>

function tens_below :: "int \<Rightarrow> int \<Rightarrow> nat" where
  "tens_below p q = (if p \<le> 0 \<or> q \<le> p then 0 else Suc (tens_below (10 * p) q))"
  by pat_completeness auto
termination
  by (relation "measure (\<lambda>(p, q). nat (q - p))") auto

declare tens_below.simps [simp del]

definition first_exponent :: "int \<Rightarrow> int \<Rightarrow> int" where
  "first_exponent p q = (if q \<le> p then int (length (nat_str (nat (p div q)))) - 1
     else - int (tens_below p q))"

definition shortest_with :: "double \<Rightarrow> nat \<Rightarrow> (int \<times> int) option" where
  "shortest_with x n =
     (let p = num_of x; q = den_of x; e = first_exponent p q - int n + 1;
          m = p * dec_den e div (q * 10 ^ nat e);
          reads = (\<lambda>k. same_double (nearest_double (dec_num k e) (dec_den e)) x)
      in if reads m \<and> (\<not> reads (m + 1)
            \<or> 2 * p * dec_den e \<le> (2 * m + 1) * q * 10 ^ nat e) then Some (m, e)
         else if reads (m + 1) then Some (m + 1, e) else None)"

definition shortest :: "double \<Rightarrow> pyfloat" where
  "shortest x = (if fst x = 0 then Dec 0 0
     else case find (\<lambda>n. shortest_with x n \<noteq> None) [1..<18] of
            None \<Rightarrow> Dec 0 0
          | Some n \<Rightarrow> (case shortest_with x n of None \<Rightarrow> Dec 0 0 | Some (m, e) \<Rightarrow> strip_zeros m e))"

definition read_decimal :: "bool \<Rightarrow> int \<Rightarrow> int \<Rightarrow> pyfloat" where
  "read_decimal neg m e =
     (let x = nearest_double (dec_num m e) (dec_den e) in
      if num_of x \<ge> 2 ^ 1024 * den_of x then (if neg then NegInf else PosInf)
      else case shortest x of Dec k f \<Rightarrow> Dec (if neg then - k else k) f | y \<Rightarrow> y)"

definition digit_run :: "string \<Rightarrow> string \<times> string" where
  "digit_run s = (takeWhile ascii_digit s, dropWhile ascii_digit s)"

definition int_part :: "string \<Rightarrow> string \<times> string" where
  "int_part s = (if starts_with ''0'' s then (''0'', drop 1 s) else digit_run s)"

definition frac_part :: "string \<Rightarrow> string \<times> string" where
  "frac_part s = (let (ds, r) = digit_run (drop 1 s) in
     if starts_with ''.'' s \<and> ds \<noteq> [] then (ds, r) else ([], s))"

definition exp_part :: "string \<Rightarrow> int option \<times> string" where
  "exp_part s = (let t = drop 1 s; signed = starts_with ''+'' t \<or> starts_with ''-'' t;
       (ds, r) = digit_run (if signed then drop 1 t else t) in
     if (starts_with ''e'' s \<or> starts_with ''E'' s) \<and> ds \<noteq> []
     then (Some (if starts_with ''-'' t then - int (digits_nat ds) else int (digits_nat ds)), r)
     else (None, s))"

definition expecting_value :: "string \<Rightarrow> 'a scan" where
  "expecting_value s = Inl (''Expecting value'', length s)"

definition read_number :: "string \<Rightarrow> json scan" where
  "read_number s =
     (let neg = starts_with ''-'' s; body = (if neg then drop 1 s else s);
          (ds, r1) = int_part body; (fs, r2) = frac_part r1; (ex, r3) = exp_part r2;
          sign = (if neg then - 1 else 1)
      in if neg \<and> starts_with ''Infinity'' body then Inr (JFloat NegInf, drop 8 body)
         else if ds = [] then expecting_value s
         else if fs = [] \<and> ex = None then Inr (JInt (sign * int (digits_nat ds)), r3)
         else Inr (JFloat (read_decimal neg (int (digits_nat (ds @ fs)))
                (case_option 0 (\<lambda>e. e) ex - int (length fs))), r3))"

definition read_atom :: "string \<Rightarrow> json scan" where
  "read_atom s =
     (if starts_with ''null'' s then Inr (JNull, drop 4 s)
      else if starts_with ''true'' s then Inr (JBool True, drop 4 s)
      else if starts_with ''false'' s then Inr (JBool False, drop 5 s)
      else if starts_with ''NaN'' s then Inr (JFloat NaN, drop 3 s)
      else if starts_with ''Infinity'' s then Inr (JFloat PosInf, drop 8 s)
      else read_number s)"

section \<open>Values\<close>

text \<open>The fuel bounds the number of calls under way; \<open>read_fuel\<close> below is enough for every text.\<close>

definition comma_or :: "char \<Rightarrow> string \<Rightarrow> (string \<times> nat) + bool" where
  "comma_or close s = (if starts_with [close] s then Inr True
     else if starts_with '','' s then Inr False
     else Inl (''Expecting '' @ [CHR 0x27] @ '','' @ [CHR 0x27] @ '' delimiter'', length s))"

definition read_key :: "string \<Rightarrow> string scan" where
  "read_key s =
     (case s of [] \<Rightarrow> Inl (''Expecting property name enclosed in double quotes'', length s)
      | c # r \<Rightarrow>
        if c \<noteq> CHR 0x22 then Inl (''Expecting property name enclosed in double quotes'', length s)
        else (case scan_string (length s) r of Inl e \<Rightarrow> Inl e
              | Inr (k, r1) \<Rightarrow>
                 (let r2 = skip_space r1 in
                  if starts_with '':'' r2 then Inr (k, skip_space (drop 1 r2))
                  else Inl (''Expecting '' @ [CHR 0x27] @ '':'' @ [CHR 0x27] @ '' delimiter'', length r2))))"

fun read_value :: "nat \<Rightarrow> string \<Rightarrow> json scan"
  and read_items :: "nat \<Rightarrow> string \<Rightarrow> json list scan"
  and read_members :: "nat \<Rightarrow> jdict \<Rightarrow> string \<Rightarrow> jdict scan" where
  "read_value 0 s = Inl (''out of fuel'', length s)"
| "read_value (Suc n) s =
     (case s of [] \<Rightarrow> expecting_value s
      | c # r \<Rightarrow>
        if c = CHR 0x22 then
          (case scan_string (length s) r of Inl e \<Rightarrow> Inl e | Inr (t, r') \<Rightarrow> Inr (JStr t, r'))
        else if c = CHR ''['' then
          (if starts_with '']'' (skip_space r) then Inr (JList [], drop 1 (skip_space r))
           else (case read_items n (skip_space r) of Inl e \<Rightarrow> Inl e
                 | Inr (xs, r') \<Rightarrow> Inr (JList xs, r')))
        else if c = CHR ''{'' then
          (if starts_with ''}'' (skip_space r) then Inr (JObj [], drop 1 (skip_space r))
           else (case read_members n [] (skip_space r) of Inl e \<Rightarrow> Inl e
                 | Inr (d, r') \<Rightarrow> Inr (JObj d, r')))
        else read_atom s)"
| "read_items 0 s = Inl (''out of fuel'', length s)"
| "read_items (Suc n) s =
     (case read_value n s of Inl e \<Rightarrow> Inl e
      | Inr (v, r) \<Rightarrow>
        (case comma_or CHR '']'' (skip_space r) of Inl e \<Rightarrow> Inl e
         | Inr True \<Rightarrow> Inr ([v], drop 1 (skip_space r))
         | Inr False \<Rightarrow>
            (case read_items n (skip_space (drop 1 (skip_space r))) of Inl e \<Rightarrow> Inl e
             | Inr (vs, r') \<Rightarrow> Inr (v # vs, r'))))"
| "read_members 0 d s = Inl (''out of fuel'', length s)"
| "read_members (Suc n) d s =
     (case read_key s of Inl e \<Rightarrow> Inl e
      | Inr (k, r1) \<Rightarrow>
        (case read_value n r1 of Inl e \<Rightarrow> Inl e
         | Inr (v, r) \<Rightarrow>
           (case comma_or CHR ''}'' (skip_space r) of Inl e \<Rightarrow> Inl e
            | Inr True \<Rightarrow> Inr (dset k v d, drop 1 (skip_space r))
            | Inr False \<Rightarrow> read_members n (dset k v d) (skip_space (drop 1 (skip_space r))))))"

definition read_fuel :: "string \<Rightarrow> nat" where
  "read_fuel s = 2 * length s + 2"

definition read_text :: "string \<Rightarrow> (string \<times> nat) + json" where
  "read_text text =
     (let s = skip_space text in
      case read_value (read_fuel s) s of Inl e \<Rightarrow> Inl e
      | Inr (v, r) \<Rightarrow> (if skip_space r = [] then Inr v
                     else Inl (''Extra data'', length (skip_space r))))"

text \<open>The text of a \<open>JSONDecodeError\<close>.\<close>

definition decode_error :: "string \<Rightarrow> string \<times> nat \<Rightarrow> string" where
  "decode_error text e =
     (let pos = length text - snd e; front = take pos text;
          line = length (filter (\<lambda>c. c = newline) front) + 1;
          column = length (takeWhile (\<lambda>c. c \<noteq> newline) (rev front)) + 1
      in fst e @ '': line '' @ nat_str line @ '' column '' @ nat_str column
         @ '' (char '' @ nat_str pos @ '')'')"

definition json_loads :: "string \<Rightarrow> string + json" where
  "json_loads text = (case read_text text of Inl e \<Rightarrow> Inl (decode_error text e) | Inr v \<Rightarrow> Inr v)"

section \<open>What was printed is read back\<close>

lemma hex_value_digit: "k < 16 \<Longrightarrow> hex_value (hex_digit k) = Some k"
proof -
  have "list_all (\<lambda>k. hex_value (hex_digit k) = Some k) [0..<16]" by code_simp
  then show "k < 16 \<Longrightarrow> hex_value (hex_digit k) = Some k" by (auto simp: list_all_iff)
qed

lemma of_char_less: "(of_char c :: nat) < 256"
  by (metis mod_less_divisor of_char_mod_256 zero_less_numeral)

lemma of_char_small: "256 \<le> k \<Longrightarrow> (of_char c :: nat) \<noteq> k" "256 \<le> k \<Longrightarrow> \<not> k \<le> (of_char c :: nat)"
  using of_char_less [of c] by (meson leD le_less_trans less_irrefl less_le_trans not_le)+

lemma hex_value_zero [simp]: "hex_value CHR ''0'' = Some 0" "hex_value CHR ''2'' = Some 2"
  "hex_value CHR ''1'' = Some 1" "hex_value CHR ''3'' = Some 3" "hex_value CHR ''4'' = Some 4"
  by code_simp+

lemma hex4_hex2:
  assumes "n < 256" and "t \<noteq> []"
  shows "hex4 (''00'' @ hex2 n @ t) = Some n"
proof -
  obtain e s where t: "t = e # s" using assms(2) by (cases t) auto
  have "n div 16 < 16" and "n mod 16 < 16" using assms(1) by auto
  then show ?thesis by (simp add: t hex2_def hex_value_digit)
qed

lemma hex4_dashes: "t \<noteq> [] \<Longrightarrow> hex4 (''2014'' @ t) = Some 8212" "t \<noteq> [] \<Longrightarrow> hex4 (''2013'' @ t) = Some 8211"
  by (cases t; simp)+

lemma dash_codes: "(of_char c :: nat) = 0x97 \<longleftrightarrow> [c] = em_dash" "(of_char c :: nat) = 0x96 \<longleftrightarrow> [c] = en_dash"
proof -
  have "(of_char CHR 0x97 :: nat) = 0x97" "(of_char CHR 0x96 :: nat) = 0x96" by simp_all
  then show "(of_char c :: nat) = 0x97 \<longleftrightarrow> [c] = em_dash" "(of_char c :: nat) = 0x96 \<longleftrightarrow> [c] = en_dash"
    by (metis list.inject of_char_eq_iff)+
qed

lemma escaped_char_of_char:
  "[c] \<noteq> em_dash \<Longrightarrow> [c] \<noteq> en_dash \<Longrightarrow> escaped_char (of_char c) = c"
  by (simp add: escaped_char_def dash_codes of_char_small)

lemma unicode_scan_escape:
  assumes "t \<noteq> []"
  shows "unicode_scan (drop 2 (unicode_escape c) @ t) = Inr (c, t)"
proof -
  consider "[c] = em_dash" | "[c] = en_dash" | "[c] \<noteq> em_dash" "[c] \<noteq> en_dash" by blast
  then show ?thesis
  proof cases
    case 3
    then have "drop 2 (unicode_escape c) = ''00'' @ hex2 (of_char c)"
      by (simp only: unicode_escape_def if_False) simp
    moreover have "drop 4 (''00'' @ hex2 (of_char c) @ t) = t" by (simp add: hex2_def)
    ultimately show ?thesis
      using hex4_hex2 [OF of_char_less [of c] assms] of_char_less [of c] 3
      by (simp add: unicode_scan_def Let_def escaped_char_of_char of_char_small)
  qed (use hex4_dashes [OF assms] in \<open>simp_all add: unicode_scan_def unicode_escape_def Let_def escaped_char_def\<close>)
qed

lemma simple_escapes [simp]:
  "simple_escape CHR 0x22 = Some CHR 0x22" "simple_escape CHR 0x5C = Some CHR 0x5C"
  "simple_escape CHR ''n'' = Some CHR 0x0A" "simple_escape CHR ''r'' = Some CHR 0x0D"
  "simple_escape CHR ''t'' = Some CHR 0x09" "simple_escape CHR ''f'' = Some CHR 0x0C"
  "simple_escape CHR ''b'' = Some CHR 0x08"
  by (simp_all add: simple_escape_def)

lemma scan_json_char:
  assumes "t \<noteq> []"
  shows "scan_string q (json_char c @ t) = prepend c (scan_string q t)"
proof -
  have unicode: "scan_string q (unicode_escape c @ t) = prepend c (scan_string q t)"
  proof -
    have "unicode_escape c @ t = [CHR 0x5C, CHR ''u''] @ drop 2 (unicode_escape c) @ t"
      by (simp add: unicode_escape_def)
    then show ?thesis by (simp only: append_Cons append_Nil scan_string.simps)
        (simp add: unicode_scan_escape [OF assms])
  qed
  then show ?thesis unfolding json_char_def by (simp split: if_splits)
qed

lemma scan_json_string:
  "scan_string q (concat (map json_char s) @ CHR 0x22 # r) = Inr (s, r)"
  by (induction s) (simp_all add: scan_json_char prepend_def)

section \<open>Enough fuel\<close>

text \<open>Reading consumes text, so twice the length of the text bounds the depth of the calls.\<close>

lemma skip_space_shorter: "length (skip_space s) \<le> length s"
  by (simp add: skip_space_def length_dropWhile_le)

lemma digit_run_shorter: "digit_run s = (ds, r) \<Longrightarrow> length r + length ds = length s"
  by (metis add.commute digit_run_def length_append prod.inject takeWhile_dropWhile_id)

lemma int_part_shorter: "int_part s = (ds, r) \<Longrightarrow> ds \<noteq> [] \<Longrightarrow> length r < length s"
  by (cases s; cases ds) (auto simp: int_part_def starts_with_def dest!: digit_run_shorter split: if_splits)

lemma frac_part_shorter: "frac_part s = (ds, r) \<Longrightarrow> length r \<le> length s"
  by (auto simp: frac_part_def dest!: digit_run_shorter split: if_splits prod.splits)

lemma exp_part_shorter: "exp_part s = (ex, r) \<Longrightarrow> length r \<le> length s"
  by (auto simp: exp_part_def Let_def dest!: digit_run_shorter split: if_splits prod.splits)

lemma starts_with_nonempty: "starts_with p s \<Longrightarrow> p \<noteq> [] \<Longrightarrow> s \<noteq> []"
  by (auto simp: starts_with_def)

lemma drop_shorter: "starts_with p s \<Longrightarrow> p \<noteq> [] \<Longrightarrow> 0 < k \<Longrightarrow> length (drop k s) < length s"
  by (cases s) (auto dest: starts_with_nonempty)

lemma read_number_shorter: "read_number s = Inr (v, r) \<Longrightarrow> length r < length s"
proof -
  assume read: "read_number s = Inr (v, r)"
  define body where "body = (if starts_with ''-'' s then drop 1 s else s)"
  obtain ds r1 where 1: "int_part body = (ds, r1)" by fastforce
  obtain fs r2 where 2: "frac_part r1 = (fs, r2)" by fastforce
  obtain ex r3 where 3: "exp_part r2 = (ex, r3)" by fastforce
  have "length body \<le> length s" by (simp add: body_def)
  moreover have "length r3 < length body" if "ds \<noteq> []"
    using int_part_shorter [OF 1 that] frac_part_shorter [OF 2] exp_part_shorter [OF 3] by linarith
  moreover have "starts_with ''Infinity'' body \<Longrightarrow> length (drop 8 body) < length body"
    by (drule drop_shorter [where k = 8]) auto
  ultimately show ?thesis using read 1 2 3
    by (auto simp: read_number_def Let_def body_def [symmetric] expecting_value_def split: if_splits)
qed

lemma read_atom_shorter: "read_atom s = Inr (v, r) \<Longrightarrow> length r < length s"
  by (auto simp: read_atom_def dest: drop_shorter read_number_shorter split: if_splits)

lemma scan_string_shorter: "scan_string q s = Inr (t, r) \<Longrightarrow> length r < length s"
  by (induction q s arbitrary: t r rule: scan_string.induct)
    (fastforce simp: prepend_def dest: unicode_scan_shorter split: if_splits list.splits sum.splits option.splits)+

lemma read_key_shorter: "read_key s = Inr (k, r) \<Longrightarrow> length r < length s"
proof -
  assume read: "read_key s = Inr (k, r)"
  then obtain c r0 k' r1 where s: "s = c # r0" and scan: "scan_string (length s) r0 = Inr (k', r1)"
    and r: "r = skip_space (drop 1 (skip_space r1))"
    by (auto simp: read_key_def Let_def split: list.splits if_splits sum.splits)
  then show ?thesis
    using scan_string_shorter [OF scan] skip_space_shorter [of r1]
      skip_space_shorter [of "drop 1 (skip_space r1)"] by simp
qed

lemma read_shorter:
  "read_value n s = Inr (v, r) \<Longrightarrow> length r < length s"
  "read_items n s = Inr (vs, r) \<Longrightarrow> length r < length s"
  "read_members n d s = Inr (d', r) \<Longrightarrow> length r < length s"
proof (induction n s and n s and n d s arbitrary: v r and vs r and d' r
    rule: read_value_read_items_read_members.induct)
  case (2 n s)
  show ?case
  proof (cases s)
    case (Cons c t)
    have "length (skip_space t) \<le> length t" by (rule skip_space_shorter)
    then show ?thesis using 2 Cons
      by (fastforce dest: read_atom_shorter scan_string_shorter split: if_splits sum.splits prod.splits)
  qed (use 2 in \<open>simp add: expecting_value_def\<close>)
next
  case (4 n s)
  from 4(3) obtain w r1 where w: "read_value n s = Inr (w, r1)"
    by (auto split: sum.splits)
  have less: "length r1 < length s" by (rule 4(1) [OF w])
  have "length (skip_space r1) \<le> length r1" by (rule skip_space_shorter)
  moreover have "length (skip_space (drop 1 (skip_space r1))) \<le> length (drop 1 (skip_space r1))"
    by (rule skip_space_shorter)
  ultimately show ?case using 4(3) 4(2) [OF w refl] less w
    by (fastforce split: sum.splits bool.splits)
next
  case (6 n d s)
  from 6(3) obtain k r0 where k: "read_key s = Inr (k, r0)"
    by (auto split: sum.splits)
  from 6(3) k obtain w r1 where w: "read_value n r0 = Inr (w, r1)"
    by (auto split: sum.splits)
  have less: "length r1 < length s"
    using 6(1) [OF k refl w] read_key_shorter [OF k] by linarith
  have "length (skip_space r1) \<le> length r1" by (rule skip_space_shorter)
  moreover have "length (skip_space (drop 1 (skip_space r1))) \<le> length (drop 1 (skip_space r1))"
    by (rule skip_space_shorter)
  ultimately show ?case using 6(3) 6(2) [OF k refl w refl] less w k
    by (fastforce split: sum.splits bool.splits)
qed simp_all


lemma fuel_step:
  "2 * length s + 1 \<le> n \<Longrightarrow> read_value (Suc n) s = read_value n s"
  "2 * length s + 2 \<le> n \<Longrightarrow> read_items (Suc n) s = read_items n s"
  "2 * length s + 2 \<le> n \<Longrightarrow> read_members (Suc n) d s = read_members n d s"
proof (induction n arbitrary: s d)
  case (Suc n)
  have shorter: "length (skip_space t) \<le> length t" for t by (rule skip_space_shorter)
  { case 1
    show ?case
    proof (cases s)
      case (Cons c t)
      have "2 * length (skip_space t) + 2 \<le> n" using 1 Cons shorter [of t] by simp
      then have "read_items (Suc n) (skip_space t) = read_items n (skip_space t)"
        and "read_members (Suc n) [] (skip_space t) = read_members n [] (skip_space t)"
        by (rule Suc.IH(2), rule Suc.IH(3))
      then show ?thesis by (simp only: Cons read_value.simps list.case)
    qed (simp add: expecting_value_def)
  next
    case 2
    have val: "read_value (Suc n) s = read_value n s" using 2 by (intro Suc.IH(1)) simp
    have items: "read_items (Suc n) (skip_space (drop 1 (skip_space r)))
        = read_items n (skip_space (drop 1 (skip_space r)))" if "read_value n s = Inr (v, r)" for v r
      using read_shorter(1) [OF that] 2 shorter [of r] shorter [of "drop 1 (skip_space r)"]
      by (intro Suc.IH(2)) auto
    show ?case unfolding read_items.simps(2) [of "Suc n"] read_items.simps(2) [of n] val
      using items by (auto split: sum.splits bool.splits)
  next
    case 3
    have val: "read_value (Suc n) r = read_value n r" if "read_key s = Inr (k, r)" for k r
      using read_key_shorter [OF that] 3 by (intro Suc.IH(1)) auto
    have members: "read_members (Suc n) d' (skip_space (drop 1 (skip_space r')))
        = read_members n d' (skip_space (drop 1 (skip_space r')))"
      if "read_key s = Inr (k, r)" "read_value n r = Inr (v, r')" for k r v r' d'
      using read_key_shorter [OF that(1)] read_shorter(1) [OF that(2)] 3 shorter [of r']
        shorter [of "drop 1 (skip_space r')"]
      by (intro Suc.IH(3)) auto
    show ?case
      unfolding read_members.simps(2) [of "Suc n"] read_members.simps(2) [of n]
      using val members by (auto split: sum.splits bool.splits)
  }
qed simp_all

lemma enough_fuel: "read_fuel s \<le> n \<Longrightarrow> read_value n s = read_value (read_fuel s) s"
proof (induction n rule: nat_induct_at_least)
  case (Suc n)
  then show ?case by (simp add: fuel_step(1) read_fuel_def del: read_value.simps)
qed simp

text \<open>So a reading that ends with some fuel, however much, is the one \<open>json_loads\<close> makes.\<close>

lemma read_value_eventually:
  "\<forall>n \<ge> k. read_value n s = x \<Longrightarrow> read_value (read_fuel s) s = x"
  by (metis enough_fuel max.cobounded1 max.cobounded2)

section \<open>Printed documents are read back\<close>

text \<open>A float as Python has it: not finite, or the decimal that reading its own digits gives back, the shortest one of a double.\<close>

definition python_float :: "pyfloat \<Rightarrow> bool" where
  "python_float x \<longleftrightarrow> (case x of Dec m e \<Rightarrow> if m = 0 then e = 0 else read_decimal (m < 0) \<bar>m\<bar> e = Dec m e | _ \<Rightarrow> True)"

text \<open>A value as Python has it: objects have distinct keys.\<close>

fun python_value :: "json \<Rightarrow> bool" where
  "python_value (JFloat x) = python_float x"
| "python_value (JList xs) = list_all python_value xs"
| "python_value (JObj d) = (distinct (map fst d) \<and> list_all (\<lambda>(k, v). python_value v) d)"
| "python_value _ = True"

definition number_end :: "string \<Rightarrow> bool" where
  "number_end r \<longleftrightarrow> r = [] \<or> \<not> ascii_digit (hd r) \<and> hd r \<notin> set ''.eE''"

lemma digits_nat_snoc: "digits_nat (s @ [c]) = 10 * digits_nat s + (of_char c - 48)"
  by (simp add: digits_nat_def)

lemma decimal_digit: "k < 10 \<Longrightarrow> ascii_digit (''0123456789'' ! k) \<and> of_char (''0123456789'' ! k) = 48 + k
    \<and> (''0123456789'' ! k = CHR ''0'' \<longrightarrow> k = 0)"
proof -
  have "list_all (\<lambda>k. ascii_digit (''0123456789'' ! k) \<and> of_char (''0123456789'' ! k) = 48 + k
    \<and> (''0123456789'' ! k = CHR ''0'' \<longrightarrow> k = 0)) [0..<10]" by code_simp
  then show "k < 10 \<Longrightarrow> ascii_digit (''0123456789'' ! k) \<and> of_char (''0123456789'' ! k) = 48 + k
    \<and> (''0123456789'' ! k = CHR ''0'' \<longrightarrow> k = 0)"
    by (simp only: list_all_iff atLeastLessThan_upt [symmetric]) simp
qed

lemma nat_str_digits: "list_all ascii_digit (nat_str n) \<and> digits_nat (nat_str n) = n
    \<and> (hd (nat_str n) = CHR ''0'' \<longrightarrow> nat_str n = ''0'')"
proof (induction n rule: nat_str.induct)
  case (1 n)
  show ?case
  proof (cases "n < 10")
    case True
    then have "nat_str n = [''0123456789'' ! n]" by (subst nat_str.simps) simp
    then show ?thesis using decimal_digit [OF True]
      by (auto simp: digits_nat_def simp del: nth_Cons_numeral)
  next
    case False
    then have n: "nat_str n = nat_str (n div 10) @ [''0123456789'' ! (n mod 10)]"
      by (subst nat_str.simps) simp
    have IH: "list_all ascii_digit (nat_str (n div 10))" "digits_nat (nat_str (n div 10)) = n div 10"
      "hd (nat_str (n div 10)) = CHR ''0'' \<longrightarrow> nat_str (n div 10) = ''0''"
      using 1 [OF False] by blast+
    have "hd (nat_str (n div 10)) \<noteq> CHR ''0''"
    proof
      assume "hd (nat_str (n div 10)) = CHR ''0''"
      then have "digits_nat (nat_str (n div 10)) = 0" using IH(3) by (simp add: digits_nat_def)
      then show False using IH(2) False by simp
    qed
    then show ?thesis
      using decimal_digit [of "n mod 10"] IH by (simp only: n digits_nat_snoc list_all_append hd_append2 nat_str_nonempty) simp
  qed
qed

lemma digit_run_nat_str:
  assumes "number_end r"
  shows "digit_run (nat_str n @ r) = (nat_str n, r)"
proof -
  have "\<forall>c \<in> set (nat_str n). ascii_digit c" using nat_str_digits [of n] by (simp add: list_all_iff)
  then show ?thesis using assms
    by (cases r) (auto simp: digit_run_def number_end_def takeWhile_append2 dropWhile_append2)
qed

lemma read_nat:
  assumes "number_end r"
  shows "int_part (nat_str n @ r) = (nat_str n, r)" and "frac_part r = ([], r)" and "exp_part r = (None, r)"
proof -
  show "int_part (nat_str n @ r) = (nat_str n, r)"
  proof (cases "starts_with ''0'' (nat_str n @ r)")
    case True
    then have "hd (nat_str n) = CHR ''0''"
      by (cases "nat_str n") (auto simp: starts_with_def)
    then have "nat_str n = ''0''" using nat_str_digits [of n] by blast
    then show ?thesis by (simp add: int_part_def starts_with_def)
  qed (simp add: int_part_def digit_run_nat_str [OF assms])
  show "frac_part r = ([], r)" "exp_part r = (None, r)" using assms
    by (cases r; auto simp: number_end_def frac_part_def exp_part_def starts_with_def Let_def split: prod.splits)+
qed

lemma nat_str_head: "ascii_digit (hd (nat_str n))"
  using nat_str_digits [of n] by (cases "nat_str n") auto


lemma read_int:
  assumes "number_end r"
  shows "read_number (int_str i @ r) = Inr (JInt i, r)"
proof -
  have digits: "digits_nat (nat_str n) = n" for n using nat_str_digits by blast
  obtain c t where c: "nat_str (nat i) = c # t" by (cases "nat_str (nat i)") auto
  have "c \<noteq> CHR ''-''" using nat_str_head [of "nat i"] by (auto simp: c ascii_digit_def)
  then have pos: "\<not> starts_with ''-'' (nat_str (nat i) @ r)" by (simp add: c starts_with_def)
  obtain c' t' where c': "nat_str (nat (- i)) = c' # t'" by (cases "nat_str (nat (- i))") auto
  have "c' \<noteq> CHR ''I''" using nat_str_head [of "nat (- i)"] by (auto simp: c' ascii_digit_def)
  then have neg: "\<not> starts_with ''Infinity'' (nat_str (nat (- i)) @ r)" by (simp add: c' starts_with_def)
  show ?thesis
  proof (cases "i < 0")
    case True
    then have "int_str i @ r = ''-'' @ nat_str (nat (- i)) @ r" by (simp add: int_str_def)
    then show ?thesis using True neg
      by (simp only: read_number_def starts_with_append)
        (simp add: Let_def read_nat [OF assms] digits)
  next
    case False
    then have "int_str i @ r = nat_str (nat i) @ r" by (simp add: int_str_def)
    then show ?thesis using False pos
      by (simp only: read_number_def)
        (simp add: Let_def read_nat [OF assms] digits)
  qed
qed

lemma number_head:
  assumes "c = CHR ''-'' \<or> ascii_digit c"
  shows "\<not> json_space c" "c \<notin> set '']},:''" "c \<notin> set ([CHR 0x22] @ ''[{ntfNI'')"
  using assms by (auto simp: ascii_digit_def json_space_def)

text \<open>Reading a decimal depends on its value only, so the digits \<open>float_repr\<close> writes are read as the float they stand for.\<close>

lemma nearest_same_ratio:
  assumes "p * q' = p' * q" and "0 < q" and "0 < q'" and "0 \<le> p" and "0 \<le> p'"
  shows "nearest_double p q = nearest_double p' q'"
proof -
  have sg: "sgn p = sgn p'"
  proof -
    have "p = 0 \<longleftrightarrow> p' = 0" using assms(1,2,3) by (metis less_irrefl mult_eq_0_iff)
    then show ?thesis using assms(4,5) by (simp add: sgn_if)
  qed
  have "round_half_even (p * 2 ^ k) (q * 2 ^ j) = round_half_even (p' * 2 ^ k) (q' * 2 ^ j)" for j k
    by (rule round_same_ratio) (use assms in \<open>simp_all add: algebra_simps\<close>)
  moreover have "round_half_even (p * 2 ^ 1074) q = round_half_even (p' * 2 ^ 1074) q'"
    by (rule round_same_ratio) (use assms in \<open>simp_all add: algebra_simps\<close>)
  ultimately show ?thesis
    using assms(4,5) by (simp only: nearest_double_def to_double_def Let_def abs_of_nonneg sg
        scale_up_ratio [OF assms(1-3)] scale_down_ratio [OF assms(1-3)])
qed

lemma read_decimal_shift:
  assumes "0 \<le> m"
  shows "read_decimal neg (m * 10 ^ k) (e - int k) = read_decimal neg m e"
proof -
  have "dec_num (m * 10 ^ k) (e - int k) * dec_den e = dec_num m e * dec_den (e - int k)"
  proof -
    have "k + nat (e - int k) + nat (- e) = nat e + nat (- (e - int k))" by simp
    then have "(10 :: int) ^ (k + nat (e - int k) + nat (- e)) = 10 ^ (nat e + nat (- (e - int k)))" by (rule arg_cong)
    then show ?thesis unfolding dec_num_def dec_den_def power_add by (simp add: mult.assoc)
  qed
  then have "nearest_double (dec_num (m * 10 ^ k) (e - int k)) (dec_den (e - int k)) = nearest_double (dec_num m e) (dec_den e)"
    by (rule nearest_same_ratio) (use assms in \<open>simp_all add: dec_num_def dec_den_def\<close>)
  then show ?thesis by (simp only: read_decimal_def)
qed

definition no_digit :: "string \<Rightarrow> bool" where
  "no_digit t \<longleftrightarrow> t = [] \<or> \<not> ascii_digit (hd t)"

lemma digit_run_all:
  assumes "list_all ascii_digit ds" and "no_digit t"
  shows "digit_run (ds @ t) = (ds, t)"
  using assms by (cases t) (auto simp: digit_run_def no_digit_def list_all_iff takeWhile_append2 dropWhile_append2)

lemma int_part_digits:
  assumes "list_all ascii_digit ip" and "ip = ''0'' \<or> ip \<noteq> [] \<and> hd ip \<noteq> CHR ''0''" and "no_digit t"
  shows "int_part (ip @ t) = (ip, t)"
proof (cases "ip = ''0''")
  case False
  then have "\<not> starts_with ''0'' (ip @ t)" using assms(2) by (cases ip) (auto simp: starts_with_def)
  then show ?thesis by (simp add: int_part_def digit_run_all [OF assms(1,3)])
qed (simp add: int_part_def starts_with_def)

definition frac_text :: "string \<Rightarrow> string" where
  "frac_text fs = (if fs = [] then '''' else ''.'' @ fs)"

definition exp_text :: "(bool \<times> string) option \<Rightarrow> string" where
  "exp_text ex = (case ex of None \<Rightarrow> '''' | Some (ng, es) \<Rightarrow> ''e'' @ (if ng then ''-'' else ''+'') @ es)"

definition exp_value :: "(bool \<times> string) option \<Rightarrow> int" where
  "exp_value ex = (case ex of None \<Rightarrow> 0 | Some (ng, es) \<Rightarrow> if ng then - int (digits_nat es) else int (digits_nat es))"

definition exp_ok :: "(bool \<times> string) option \<Rightarrow> bool" where
  "exp_ok ex \<longleftrightarrow> (case ex of None \<Rightarrow> True | Some (ng, es) \<Rightarrow> es \<noteq> [] \<and> list_all ascii_digit es)"

lemma frac_part_text:
  assumes "list_all ascii_digit fs" and "no_digit t" and "t = [] \<or> hd t \<noteq> CHR ''.''"
  shows "frac_part (frac_text fs @ t) = (fs, t)"
proof (cases "fs = []")
  case True
  then show ?thesis using assms(3) by (cases t) (auto simp: frac_part_def frac_text_def starts_with_def split: prod.splits)
next
  case False
  then show ?thesis by (simp add: frac_part_def frac_text_def starts_with_def digit_run_all [OF assms(1,2)])
qed

lemma exp_part_text:
  assumes "exp_ok ex" and "number_end r"
  shows "exp_part (exp_text ex @ r) = (map_option (\<lambda>_. exp_value ex) ex, r)"
proof (cases ex)
  case None
  then show ?thesis using read_nat(3) [OF assms(2)] by (simp add: exp_text_def)
next
  case (Some p)
  obtain ng es where p: "p = (ng, es)" by (cases p)
  then have es: "es \<noteq> []" "list_all ascii_digit es" using assms(1) by (simp_all add: Some exp_ok_def)
  have "digit_run (es @ r) = (es, r)" using assms(2) by (intro digit_run_all es) (auto simp: number_end_def no_digit_def)
  then show ?thesis using es(1) by (auto simp: Some p exp_text_def exp_value_def exp_part_def starts_with_def Let_def)
qed

lemma number_head_digit: "ascii_digit c \<Longrightarrow> c \<noteq> CHR ''-'' \<and> c \<noteq> CHR ''I''"
  by (auto simp: ascii_digit_def)

lemma read_parts:
  assumes ip: "list_all ascii_digit ip" "ip = ''0'' \<or> ip \<noteq> [] \<and> hd ip \<noteq> CHR ''0''"
    and fs: "list_all ascii_digit fs" and ex: "exp_ok ex" and some: "fs \<noteq> [] \<or> ex \<noteq> None" and r: "number_end r"
  shows "read_number ((if neg then ''-'' else '''') @ ip @ frac_text fs @ exp_text ex @ r) =
    Inr (JFloat (read_decimal neg (int (digits_nat (ip @ fs))) (exp_value ex - int (length fs))), r)"
proof -
  obtain c t where c: "ip = c # t" "ascii_digit c" using ip by (cases ip) auto
  have nd: "no_digit (exp_text ex @ r)" "exp_text ex @ r = [] \<or> hd (exp_text ex @ r) \<noteq> CHR ''.''"
    using r by (cases ex; auto simp: exp_text_def no_digit_def number_end_def ascii_digit_def)+
  then have nf: "no_digit (frac_text fs @ exp_text ex @ r)"
    by (auto simp: frac_text_def no_digit_def ascii_digit_def)
  define body where "body = ip @ frac_text fs @ exp_text ex @ r"
  have b: "int_part body = (ip, frac_text fs @ exp_text ex @ r)" unfolding body_def by (rule int_part_digits [OF ip nf])
  have "\<not> starts_with ''-'' body" "\<not> starts_with ''Infinity'' body"
    using number_head_digit [OF c(2)] by (simp_all add: body_def c(1) starts_with_def)
  moreover have "starts_with ''-'' ((if neg then ''-'' else '''') @ body) \<longleftrightarrow> neg"
    "drop 1 (''-'' @ body) = body" using \<open>\<not> starts_with ''-'' body\<close> by (auto simp: starts_with_def)
  moreover have "ip \<noteq> []" by (simp add: c)
  ultimately show ?thesis
    using some unfolding body_def [symmetric]
    by (cases neg) (auto simp: read_number_def Let_def b frac_part_text [OF fs nd] exp_part_text [OF ex r] exp_value_def
      split: option.splits)
qed

lemma digits_nat_append: "digits_nat (s @ t) = digits_nat s * 10 ^ length t + digits_nat t"
proof (induction t rule: rev_induct)
  case (snoc c t)
  then show ?case by (simp only: append_assoc [symmetric] digits_nat_snoc) (simp add: algebra_simps)
qed (simp add: digits_nat_def)

lemma digits_nat_only_zeros: "digits_nat (replicate k CHR ''0'') = 0"
proof (induction k)
  case (Suc k)
  have "digits_nat (replicate (Suc k) CHR ''0'') = digits_nat (replicate k CHR ''0'' @ [CHR ''0''])"
    by (simp only: replicate_append_same replicate_Suc)
  then show ?case using Suc by (simp only: digits_nat_snoc) simp
qed (simp add: digits_nat_def)

lemma zeros_digits: "list_all ascii_digit (replicate k CHR ''0'')"
  by (simp add: list_all_iff ascii_digit_def)

lemma nat_str_facts: "list_all ascii_digit (nat_str n)" "digits_nat (nat_str n) = n" "0 < n \<Longrightarrow> hd (nat_str n) \<noteq> CHR ''0''"
  "nat_str n \<noteq> []"
proof -
  show "list_all ascii_digit (nat_str n)" "digits_nat (nat_str n) = n" "nat_str n \<noteq> []" using nat_str_digits [of n] by simp_all
  show "hd (nat_str n) \<noteq> CHR ''0''" if "0 < n"
  proof
    assume "hd (nat_str n) = CHR ''0''"
    then have "nat_str n = ''0''" using nat_str_digits [of n] by blast
    then have "digits_nat (nat_str n) = 0" by (simp add: digits_nat_def)
    then show False using that nat_str_digits [of n] by simp
  qed
qed

lemma digits_split:
  assumes "list_all ascii_digit s"
  shows "list_all ascii_digit (take k s)" and "list_all ascii_digit (drop k s)"
  using assms by (auto simp: list_all_iff dest: in_set_takeD in_set_dropD)

lemma digits_nat_zero_Cons: "digits_nat (CHR ''0'' # s) = digits_nat s"
  using digits_nat_append [of "''0''" s] by (simp add: digits_nat_def [of "''0''"])

lemma dec_repr_parts:
  assumes n: "0 < N"
  obtains ip fs ex k where "dec_repr (nat_str N) e = ip @ frac_text fs @ exp_text ex"
    "list_all ascii_digit ip" "ip = ''0'' \<or> ip \<noteq> [] \<and> hd ip \<noteq> CHR ''0''" "list_all ascii_digit fs" "exp_ok ex"
    "fs \<noteq> [] \<or> ex \<noteq> None" "digits_nat (ip @ fs) = N * 10 ^ k" "exp_value ex - int (length fs) = e - int k"
proof -
  define ds where "ds = nat_str N"
  define n where "n = int (length ds)"
  define p where "p = n + e"
  note ds = nat_str_facts(1,2,4) [of N, folded ds_def] nat_str_facts(3) [OF n, folded ds_def]
  have n1: "1 \<le> n" using ds(3) by (simp add: n_def Suc_leI)
  have repr: "dec_repr ds e = (if - 4 < p \<and> p \<le> 16 then
       (if p \<le> 0 then ''0.'' @ replicate (nat (- p)) CHR ''0'' @ ds
        else if n \<le> p then ds @ replicate (nat (p - n)) CHR ''0'' @ ''.0''
        else take (nat p) ds @ ''.'' @ drop (nat p) ds)
     else take 1 ds @ (if n = 1 then '''' else ''.'' @ drop 1 ds) @ ''e''
       @ (if p - 1 < 0 then ''-'' else ''+'') @ pad_zeros 2 (nat_str (nat \<bar>p - 1\<bar>)))"
    by (simp add: dec_repr_def Let_def n_def p_def)
  consider (small) "- 4 < p" "p \<le> 0" | (whole) "0 < p" "p \<le> 16" "n \<le> p" | (mid) "0 < p" "p \<le> 16" "p < n"
    | (sci) "\<not> (- 4 < p \<and> p \<le> 16)" by linarith
  then show thesis
  proof cases
    case small
    show thesis
      by (rule that [of "''0''" "replicate (nat (- p)) CHR ''0'' @ ds" None 0])
        (use small ds n1 in \<open>simp_all add: ds_def [symmetric] repr frac_text_def exp_text_def exp_ok_def exp_value_def zeros_digits
          digits_nat_append digits_nat_only_zeros digits_nat_zero_Cons p_def n_def ascii_digit_def\<close>)
  next
    case whole
    have hd: "hd (ds @ x) \<noteq> CHR ''0''" for x using ds(3,4) by simp
    show thesis
      by (rule that [of "ds @ replicate (nat (p - n)) CHR ''0''" "''0''" None "Suc (nat e)"])
        (use whole ds n1 hd in \<open>simp_all add: ds_def [symmetric] repr frac_text_def exp_text_def exp_ok_def exp_value_def zeros_digits
          digits_nat_append digits_nat_only_zeros p_def n_def digits_nat_def [of "''0''"] ascii_digit_def\<close>)
  next
    case mid
    have t: "take (nat p) ds \<noteq> []" "hd (take (nat p) ds) = hd ds" "drop (nat p) ds \<noteq> []" "length (drop (nat p) ds) = nat (n - p)"
      using mid ds(3) by (auto simp: n_def)
    show thesis
      by (rule that [of "take (nat p) ds" "drop (nat p) ds" None 0])
        (use mid ds t n1 digits_split [OF ds(1)] in \<open>simp_all add: ds_def [symmetric] repr frac_text_def exp_text_def exp_ok_def exp_value_def, simp_all add: p_def n_def\<close>)
  next
    case sci
    define es where "es = pad_zeros 2 (nat_str (nat \<bar>p - 1\<bar>))"
    have es: "es \<noteq> []" "list_all ascii_digit es" "digits_nat es = nat \<bar>p - 1\<bar>"
      by (simp_all add: es_def pad_zeros_def nat_str_facts zeros_digits digits_nat_append digits_nat_only_zeros)
    have t: "take 1 ds \<noteq> []" "hd (take 1 ds) = hd ds" using ds(3) by (cases ds; simp)+
    have d: "drop 1 ds = [] \<longleftrightarrow> n = 1" using n1 by (auto simp: n_def)
    show thesis
      by (rule that [of "take 1 ds" "drop 1 ds" "Some (p - 1 < 0, es)" 0])
        (use sci ds t d es n1 digits_split [OF ds(1)] in \<open>simp_all add: ds_def [symmetric] repr frac_text_def exp_text_def exp_ok_def exp_value_def
          es_def [symmetric], auto simp add: p_def n_def\<close>)
  qed
qed

lemma read_dec:
  assumes "0 < N" and "number_end r"
  shows "read_number ((if neg then ''-'' else '''') @ dec_repr (nat_str N) e @ r) = Inr (JFloat (read_decimal neg (int N) e), r)"
proof -
  obtain ip fs ex k where p: "dec_repr (nat_str N) e = ip @ frac_text fs @ exp_text ex"
    "list_all ascii_digit ip" "ip = ''0'' \<or> ip \<noteq> [] \<and> hd ip \<noteq> CHR ''0''" "list_all ascii_digit fs" "exp_ok ex"
    "fs \<noteq> [] \<or> ex \<noteq> None" "digits_nat (ip @ fs) = N * 10 ^ k" "exp_value ex - int (length fs) = e - int k"
    using dec_repr_parts [OF assms(1)] by blast
  have "read_decimal neg (int (digits_nat (ip @ fs))) (exp_value ex - int (length fs)) = read_decimal neg (int N) e"
    using read_decimal_shift [of "int N" neg k e] by (simp add: p(7,8))
  then show ?thesis using read_parts [OF p(2-6) assms(2), of neg] by (simp only: p(1) append_assoc)
qed

lemma dec_repr_head: "0 < N \<Longrightarrow> \<exists>c t. dec_repr (nat_str N) e = c # t \<and> ascii_digit c"
  using dec_repr_parts [of N e thesis for thesis] by (metis append_Cons list.pred_inject(2) neq_Nil_conv)

lemma json_float_head: "\<exists>c t. json_float (Dec m e) = c # t \<and> (c = CHR ''-'' \<or> ascii_digit c)"
proof (cases "m = 0")
  case False
  then obtain c t where "dec_repr (nat_str (nat \<bar>m\<bar>)) e = c # t" "ascii_digit c" using dec_repr_head [of "nat \<bar>m\<bar>" e] by auto
  then show ?thesis using False by (cases "m < 0") auto
qed (simp add: ascii_digit_def)

lemma read_float:
  assumes "python_float x" and "number_end r"
  shows "read_value (Suc n) (json_float x @ r) = Inr (JFloat x, r)"
proof (cases x)
  case (Dec m e)
  have num: "read_value (Suc n) s = read_number s" if "s = c # t" "c = CHR ''-'' \<or> ascii_digit c" for s c t
    using number_head(3) [OF that(2)] by (simp add: that(1) read_atom_def starts_with_def)
  show ?thesis
  proof (cases "m = 0")
    case True
    have "read_number (''0.0'' @ r) = Inr (JFloat (read_decimal False 0 (- 1)), r)"
      using read_parts [of "''0''" "''0''" None r False] assms(2)
      by (simp add: frac_text_def exp_text_def exp_ok_def exp_value_def digits_nat_def ascii_digit_def)
    moreover have "read_decimal False 0 (- 1) = Dec 0 0" by code_simp
    ultimately show ?thesis
      using num [of "''0.0'' @ r" "CHR ''0''" "''.0'' @ r"] True assms(1) by (simp add: Dec python_float_def ascii_digit_def)
  next
    case False
    then have N: "0 < nat \<bar>m\<bar>" by simp
    obtain c t where c: "dec_repr (nat_str (nat \<bar>m\<bar>)) e = c # t" "ascii_digit c" using dec_repr_head [OF N] by blast
    have "read_number (json_float x @ r) = Inr (JFloat (read_decimal (m < 0) (int (nat \<bar>m\<bar>)) e), r)"
      using read_dec [OF N assms(2), of "m < 0" e] False by (simp add: Dec)
    moreover have "read_decimal (m < 0) (int (nat \<bar>m\<bar>)) e = x" using assms(1) False by (simp add: Dec python_float_def)
    moreover have "read_value (Suc n) (json_float x @ r) = read_number (json_float x @ r)"
      by (rule num [of _ "if m < 0 then CHR ''-'' else c" "if m < 0 then c # t @ r else t @ r"])
        (use c(2) False in \<open>simp_all add: Dec c(1)\<close>)
    ultimately show ?thesis by simp
  qed
qed (simp_all add: read_atom_def starts_with_def read_number_def Let_def split: prod.splits)

text \<open>The first character of a printed document is no white space and closes nothing.\<close>

definition opens :: "string \<Rightarrow> bool" where
  "opens s \<longleftrightarrow> s \<noteq> [] \<and> \<not> json_space (hd s) \<and> hd s \<notin> set '']},:''"

lemma opensI: "\<not> json_space c \<Longrightarrow> c \<notin> set '']},:'' \<Longrightarrow> opens (c # t)"
  by (simp add: opens_def)

lemma int_str_head: "\<exists>c t. int_str i = c # t \<and> (c = CHR ''-'' \<or> ascii_digit c)"
  using nat_str_head by (cases "nat_str (nat i)") (auto simp: int_str_def, metis list.sel(1))

lemma opens_append: "opens s \<Longrightarrow> opens (s @ r)"
  by (simp add: opens_def)

text \<open>The printers that differ in the white space after a comma and a colon.\<close>

fun json_with :: "string \<Rightarrow> json \<Rightarrow> string" where
  "json_with gap (JList xs) = ''['' @ join ('','' @ gap) (map (json_with gap) xs) @ '']''"
| "json_with gap (JObj d) =
     ''{'' @ join ('','' @ gap) (map (\<lambda>(k, v). json_string k @ '':'' @ gap @ json_with gap v) d) @ ''}''"
| "json_with gap v = json_dumps v"

lemma json_with_printers: "json_with '' '' v = json_dumps v" "json_with [] v = json_compact v"
proof -
  have rest: "map f d = map g d" if "\<And>k v. (k, v) \<in> set d \<Longrightarrow> f (k, v) = g (k, v)"
    for f g :: "string \<times> json \<Rightarrow> string" and d
    using that by auto
  show "json_with '' '' v = json_dumps v"
  proof (induction v)
    case (JObj d)
    have "map (\<lambda>(k, v). json_string k @ '':'' @ '' '' @ json_with '' '' v) d
        = map (\<lambda>(k, v). json_string k @ '': '' @ json_dumps v) d"
      using JObj by (intro rest) (fastforce simp: snds.simps)
    then show ?case by (simp only: json_with.simps json_dumps.simps append_Cons append_Nil)
  next
    case (JList xs)
    then have "map (json_with '' '') xs = map json_dumps xs" by simp
    then show ?case by (simp only: json_with.simps json_dumps.simps append_Cons append_Nil)
  qed simp_all
  show "json_with [] v = json_compact v"
  proof (induction v)
    case (JObj d)
    have "map (\<lambda>(k, v). json_string k @ '':'' @ [] @ json_with [] v) d
        = map (\<lambda>(k, v). json_string k @ '':'' @ json_compact v) d"
      using JObj by (intro rest) (fastforce simp: snds.simps)
    then show ?case by (simp only: json_with.simps json_compact.simps append_Nil2)
  next
    case (JList xs)
    then have "map (json_with []) xs = map json_compact xs" by simp
    then show ?case by (simp only: json_with.simps json_compact.simps append_Nil2)
  qed simp_all
qed

definition blank :: "string \<Rightarrow> bool" where
  "blank gap \<longleftrightarrow> list_all json_space gap"

lemma opens_dumps: "python_value v \<Longrightarrow> opens (json_with gap v)"
proof (cases v)
  case (JInt i)
  obtain c t where "int_str i = c # t" "c = CHR ''-'' \<or> ascii_digit c" using int_str_head by blast
  then show ?thesis using number_head [of c] by (simp add: JInt opens_def)
next
  case (JFloat x)
  show ?thesis
  proof (cases x)
    case (Dec m e)
    obtain c t where c: "json_float x = c # t" "c = CHR ''-'' \<or> ascii_digit c"
      using json_float_head [of m e] unfolding Dec by blast
    then show ?thesis using number_head [OF c(2)] by (simp add: JFloat opens_def)
  qed (auto simp: JFloat json_space_def intro!: opensI)
qed (auto simp: json_space_def json_string_def intro!: opensI)

lemma skip_space_opens: "opens s \<Longrightarrow> skip_space s = s" "blank gap \<Longrightarrow> opens s \<Longrightarrow> skip_space (gap @ s) = s"
proof -
  show "opens s \<Longrightarrow> skip_space s = s" by (cases s) (simp_all add: opens_def skip_space_def)
  then show "blank gap \<Longrightarrow> opens s \<Longrightarrow> skip_space (gap @ s) = s"
    by (induction gap) (simp_all add: blank_def skip_space_def)
qed

lemma opens_not_closed: "opens s \<Longrightarrow> \<not> starts_with '']'' s" "opens s \<Longrightarrow> \<not> starts_with ''}'' s"
  by (cases s; simp add: opens_def starts_with_def)+

text \<open>A reading that no longer depends on its fuel.\<close>

definition settles :: "(nat \<Rightarrow> 'a) \<Rightarrow> 'a \<Rightarrow> bool" where
  "settles f x \<longleftrightarrow> (\<exists>k. \<forall>n \<ge> k. f n = x)"

lemma settles_const: "(\<And>n. f (Suc n) = x) \<Longrightarrow> settles f x"
  unfolding settles_def by (intro exI [of _ 1]) (metis Suc_le_D One_nat_def)

lemma settles_Suc:
  assumes "settles f x" and "\<And>n. f n = x \<Longrightarrow> g (Suc n) = y"
  shows "settles g y"
proof -
  from assms(1) obtain k where "\<forall>n \<ge> k. f n = x" unfolding settles_def by blast
  then have "g n = y" if "Suc k \<le> n" for n using that assms(2) by (cases n) auto
  then show ?thesis unfolding settles_def by blast
qed

lemma settles_Suc2:
  assumes "settles f x" and "settles f' x'" and "\<And>n. f n = x \<Longrightarrow> f' n = x' \<Longrightarrow> g (Suc n) = y"
  shows "settles g y"
proof -
  from assms(1,2) obtain k k' where "\<forall>n \<ge> k. f n = x" "\<forall>n \<ge> k'. f' n = x'" unfolding settles_def by blast
  then have "g n = y" if "Suc (max k k') \<le> n" for n using that assms(3) by (cases n) auto
  then show ?thesis unfolding settles_def by blast
qed

definition reads_as :: "string \<Rightarrow> json \<Rightarrow> bool" where
  "reads_as gap v \<longleftrightarrow> (\<forall>r. number_end r \<longrightarrow> settles (\<lambda>n. read_value n (json_with gap v @ r)) (Inr (v, r)))"

lemma number_end_delimiter [simp]: "number_end (CHR '','' # r)" "number_end (CHR '']'' # r)" "number_end (CHR ''}'' # r)"
  by (simp_all add: number_end_def ascii_digit_def)

lemma skip_delimiter [simp]: "skip_space (CHR '','' # r) = CHR '','' # r" "skip_space (CHR '']'' # r) = CHR '']'' # r"
  "skip_space (CHR ''}'' # r) = CHR ''}'' # r"
  by (simp_all add: skip_space_def json_space_def)

lemma comma_or_simps [simp]: "comma_or c (c # r) = Inr True" "c \<noteq> CHR '','' \<Longrightarrow> comma_or c (CHR '','' # r) = Inr False"
  by (simp_all add: comma_or_def starts_with_def)

lemma reads_items:
  assumes gap: "blank gap" and "list_all python_value xs" and "list_all (reads_as gap) xs" and "xs \<noteq> []"
  shows "settles (\<lambda>n. read_items n (join ('','' @ gap) (map (json_with gap) xs) @ '']'' @ r)) (Inr (xs, r))"
  using assms(2-)
proof (induction xs rule: induct_list012)
  case (2 x)
  then have "settles (\<lambda>n. read_value n (json_with gap x @ '']'' @ r)) (Inr (x, '']'' @ r))"
    by (simp add: reads_as_def)
  then show ?case by (rule settles_Suc) simp
next
  case (3 x y zs)
  let ?rest = "join ('','' @ gap) (map (json_with gap) (y # zs)) @ '']'' @ r"
  have "settles (\<lambda>n. read_value n (json_with gap x @ '','' @ gap @ ?rest)) (Inr (x, '','' @ gap @ ?rest))"
    using 3 by (simp add: reads_as_def)
  moreover have "settles (\<lambda>n. read_items n ?rest) (Inr (y # zs, r))" using 3 by simp
  moreover have "opens ?rest"
    using 3 opens_append [OF opens_dumps [of y]] by (cases zs) (simp_all add: opens_append)
  then have "skip_space (gap @ ?rest) = ?rest" by (rule skip_space_opens(2) [OF gap])
  ultimately show ?case
    by - (erule settles_Suc2, assumption, simp)
qed simp

lemma read_key_printed:
  assumes "blank gap" and "opens t"
  shows "read_key (json_string k @ CHR '':'' # gap @ t) = Inr (k, t)"
  using skip_space_opens(2) [OF assms]
  by (simp add: read_key_def json_string_def scan_json_string skip_space_def json_space_def starts_with_def Let_def)

lemma dset_new: "\<not> dhas d k \<Longrightarrow> dset k v d = d @ [(k, v)]"
  by (induction d) auto

lemma reads_members:
  assumes gap: "blank gap" and "list_all (\<lambda>(k, v). python_value v) kvs" and "list_all (\<lambda>(k, v). reads_as gap v) kvs" and "kvs \<noteq> []"
    and "distinct (map fst d @ map fst kvs)"
  shows "settles (\<lambda>n. read_members n d
      (join ('','' @ gap) (map (\<lambda>(k, v). json_string k @ '':'' @ gap @ json_with gap v) kvs) @ ''}'' @ r)) (Inr (d @ kvs, r))"
  using assms(2-)
proof (induction kvs arbitrary: d rule: induct_list012)
  case (2 kv)
  obtain k v where kv: "kv = (k, v)" by fastforce
  then have "settles (\<lambda>n. read_value n (json_with gap v @ ''}'' @ r)) (Inr (v, ''}'' @ r))"
    and new: "dset k v d = d @ [(k, v)]" and "opens (json_with gap v @ ''}'' @ r)"
    using 2 by (simp_all add: reads_as_def dset_new dhas_def opens_append opens_dumps)
  then show ?case
    by (elim settles_Suc) (simp add: kv read_key_printed [OF gap])
next
  case (3 kv kv' kvs)
  obtain k v where kv: "kv = (k, v)" by fastforce
  let ?rest = "join ('','' @ gap) (map (\<lambda>(k, v). json_string k @ '':'' @ gap @ json_with gap v) (kv' # kvs)) @ ''}'' @ r"
  have "settles (\<lambda>n. read_value n (json_with gap v @ '','' @ gap @ ?rest)) (Inr (v, '','' @ gap @ ?rest))"
    and new: "dset k v d = d @ [(k, v)]" and v: "opens (json_with gap v @ '','' @ gap @ ?rest)"
    using 3 kv by (simp_all add: reads_as_def dset_new dhas_def opens_append opens_dumps)
  moreover have "settles (\<lambda>n. read_members n (d @ [(k, v)]) ?rest) (Inr ((d @ [(k, v)]) @ kv' # kvs, r))"
    using 3 kv by (intro "3.IH"(2)) auto
  moreover have "opens ?rest"
    by (cases kv'; cases kvs) (simp_all add: json_string_def opens_def json_space_def)
  then have "skip_space (gap @ ?rest) = ?rest" by (rule skip_space_opens(2) [OF gap])
  ultimately show ?case
    by - (erule settles_Suc2, assumption, simp add: kv read_key_printed [OF gap])
qed simp


lemma reads_list:
  assumes gap: "blank gap" and xs: "list_all python_value xs" "list_all (reads_as gap) xs"
  shows "reads_as gap (JList xs)"
proof -
  show ?thesis unfolding reads_as_def
  proof (intro allI impI)
    fix r
    show "settles (\<lambda>n. read_value n (json_with gap (JList xs) @ r)) (Inr (JList xs, r))"
    proof (cases xs)
      case Nil
      show ?thesis by (rule settles_const) (simp add: Nil starts_with_def)
    next
      case (Cons x ys)
      let ?body = "join ('','' @ gap) (map (json_with gap) xs) @ '']'' @ r"
      have "opens ?body"
        using opens_append [OF opens_dumps [of x]] xs(1) Cons by (cases ys) (simp_all add: opens_append)
      then have "skip_space ?body = ?body" "\<not> starts_with '']'' ?body"
        by (rule skip_space_opens(1), rule opens_not_closed)
      moreover have "settles (\<lambda>n. read_items n ?body) (Inr (xs, r))"
        by (rule reads_items [OF gap xs]) (simp add: Cons)
      ultimately show ?thesis by - (erule settles_Suc, simp)
    qed
  qed
qed

lemma reads_object:
  assumes gap: "blank gap" and d: "list_all (\<lambda>(k, v). python_value v) d" "list_all (\<lambda>(k, v). reads_as gap v) d" "distinct (map fst d)"
  shows "reads_as gap (JObj d)"
proof -
  show ?thesis unfolding reads_as_def
  proof (intro allI impI)
    fix r
    show "settles (\<lambda>n. read_value n (json_with gap (JObj d) @ r)) (Inr (JObj d, r))"
    proof (cases d)
      case Nil
      show ?thesis by (rule settles_const) (simp add: Nil starts_with_def)
    next
      case (Cons kv kvs)
      let ?body = "join ('','' @ gap) (map (\<lambda>(k, v). json_string k @ '':'' @ gap @ json_with gap v) d) @ ''}'' @ r"
      have "opens ?body"
        by (cases kv; cases kvs) (simp_all add: Cons json_string_def opens_def json_space_def)
      then have "skip_space ?body = ?body" "\<not> starts_with ''}'' ?body"
        by (rule skip_space_opens(1), rule opens_not_closed)
      moreover have "settles (\<lambda>n. read_members n [] ?body) (Inr (d, r))"
        using reads_members [OF gap d(1,2), of "[]" r] d(3) Cons by simp
      ultimately show ?thesis by - (erule settles_Suc, simp)
    qed
  qed
qed

lemma reads_printed:
  assumes gap: "blank gap"
  shows "python_value v \<Longrightarrow> reads_as gap v"
proof (induction v)
  case JNull
  show ?case unfolding reads_as_def
    by (intro allI impI settles_const) (simp add: read_atom_def starts_with_def)
next
  case (JBool b)
  show ?case unfolding reads_as_def
    by (intro allI impI settles_const) (simp add: read_atom_def starts_with_def)
next
  case (JInt i)
  show ?case unfolding reads_as_def
  proof (intro allI impI settles_const)
    fix r n
    assume r: "number_end r"
    obtain c t where i: "int_str i = c # t" and c: "c = CHR ''-'' \<or> ascii_digit c" using int_str_head by blast
    have "read_atom (int_str i @ r) = read_number (int_str i @ r)"
      using number_head(3) [OF c] by (simp add: i read_atom_def starts_with_def)
    then show "read_value (Suc n) (json_with gap (JInt i) @ r) = Inr (JInt i, r)"
      using number_head(3) [OF c] read_int [OF r, of i] by (simp add: i)
  qed
next
  case (JStr s)
  show ?case unfolding reads_as_def
    by (intro allI impI settles_const) (simp add: json_string_def scan_json_string)
next
  case (JList xs)
  then show ?case by (intro reads_list [OF gap]) (auto simp: list_all_iff)
next
  case (JObj d)
  then show ?case by (intro reads_object [OF gap]) (auto simp: list_all_iff)
next
  case (JFloat x)
  then show ?case unfolding reads_as_def
    by (intro allI impI settles_const) (simp only: python_value.simps json_with.simps json_dumps.simps read_float)
qed

lemma loads_with:
  assumes "blank gap" and "python_value v"
  shows "json_loads (json_with gap v) = Inr v"
proof -
  have "settles (\<lambda>n. read_value n (json_with gap v)) (Inr (v, []))"
    using reads_printed [OF assms] unfolding reads_as_def number_end_def by (metis append_Nil2)
  then have "read_value (read_fuel (json_with gap v)) (json_with gap v) = Inr (v, [])"
    unfolding settles_def using read_value_eventually by blast
  then show ?thesis
    using skip_space_opens(1) [OF opens_dumps [OF assms(2)]]
    by (simp add: json_loads_def read_text_def skip_space_def)
qed

lemma loads_dumps: "python_value v \<Longrightarrow> json_loads (json_dumps v) = Inr v"
  using loads_with [of "'' ''" v] by (simp add: json_with_printers blank_def json_space_def)

lemma loads_compact: "python_value v \<Longrightarrow> json_loads (json_compact v) = Inr v"
  using loads_with [of "[]" v] by (simp add: json_with_printers blank_def)

text \<open>For instance \<open>0.5\<close> is such a float.\<close>

lemma scale_up_half: "scale_up 5 10 = 53"
  by (rule scale_up_at) simp_all
lemma scale_down_half: "scale_down 5 10 = 0"
  by (subst scale_down.simps) simp
lemma nearest_half: "nearest_double 5 10 = (4503599627370496, - 53)"
  by (simp add: nearest_double_def to_double_def scale_up_half scale_down_half round_half_even_def Let_def)
lemma exponent_half: "first_exponent 4503599627370496 9007199254740992 = - 1"
proof -
  have "tens_below 4503599627370496 9007199254740992 = 1"
    by (subst tens_below.simps, subst tens_below.simps) simp
  then show ?thesis  by (simp add: first_exponent_def)
qed
lemma shortest_with_half: "shortest_with (4503599627370496, - 53) (Suc 0) = Some (5, - 1)"
  by (simp add: shortest_with_def Let_def num_of_def den_of_def exponent_half dec_num_def dec_den_def same_double_def nearest_half)
lemma strip_half: "strip_zeros 5 (- 1) = Dec 5 (- 1)"
  by (subst strip_zeros.simps) simp
lemma shortest_half: "shortest (4503599627370496, - 53) = Dec 5 (- 1)"
proof -
  have "[1..<18] = Suc 0 # [2..<18]" by (simp add: upt_rec)
  then show ?thesis by (simp add: shortest_def shortest_with_half strip_half)
qed
lemma half_is_a_float: "python_float (Dec 5 (- 1))"
  by (simp add: python_float_def read_decimal_def dec_num_def dec_den_def nearest_half shortest_half num_of_def den_of_def)

section \<open>Text files and their lines\<close>

text \<open>Reading a file in text mode translates its line ends; \<open>str.splitlines\<close> splits at every boundary
  Python knows and drops the boundaries.\<close>

fun universal_newlines :: "string \<Rightarrow> string" where
  "universal_newlines [] = []"
| "universal_newlines [c] = [if c = CHR 0x0D then newline else c]"
| "universal_newlines (c # d # s) =
     (if c = CHR 0x0D then (if d = newline then universal_newlines (d # s)
                            else newline # universal_newlines (d # s))
      else c # universal_newlines (d # s))"

definition line_break :: "char \<Rightarrow> bool" where
  "line_break c \<longleftrightarrow> of_char c \<in> set ([10, 11, 12, 13, 28, 29, 30, 133] :: nat list)"

fun splitlines :: "string \<Rightarrow> string list" where
  "splitlines [] = []"
| "splitlines [c] = (if line_break c then [[]] else [[c]])"
| "splitlines (c # d # s) =
     (if c = CHR 0x0D \<and> d = newline then [] # splitlines s
      else if line_break c then [] # splitlines (d # s)
      else (case splitlines (d # s) of [] \<Rightarrow> [[c]] | l # ls \<Rightarrow> (c # l) # ls))"

definition file_lines :: "string \<Rightarrow> string list" where
  "file_lines text = splitlines (universal_newlines text)"

lemma line_break_newline [simp]: "line_break newline"
  by (simp add: line_break_def)

lemma ascii_no_break: "ascii_text s \<Longrightarrow> c \<in> set s \<Longrightarrow> \<not> line_break c \<and> c \<noteq> CHR 0x0D"
  by (fastforce simp: ascii_text_def line_break_def)

lemma universal_newlines_id: "CHR 0x0D \<notin> set s \<Longrightarrow> universal_newlines s = s"
  by (induction s rule: universal_newlines.induct) auto

lemma universal_newlines_Nil [simp]: "universal_newlines s = [] \<longleftrightarrow> s = []"
  by (induction s rule: universal_newlines.induct) auto

lemma universal_newlines_append:
  "whole_lines s \<Longrightarrow> universal_newlines (s @ t) = universal_newlines s @ universal_newlines t"
proof (induction s rule: universal_newlines.induct)
  case (2 c)
  then show ?case by (cases t) (auto simp: whole_lines_def)
qed (auto simp: whole_lines_def)

lemma universal_newlines_whole: "whole_lines s \<Longrightarrow> whole_lines (universal_newlines s)"
  by (induction s rule: universal_newlines.induct) (auto simp: whole_lines_def split: if_splits)

lemma splitlines_Nil [simp]: "splitlines s = [] \<longleftrightarrow> s = []"
  by (cases s rule: splitlines.cases) (auto split: list.splits)

lemma splitlines_append:
  "whole_lines s \<Longrightarrow> splitlines (s @ t) = splitlines s @ splitlines t"
proof (induction s rule: splitlines.induct)
  case (2 c)
  then show ?case by (cases t) (auto simp: whole_lines_def)
next
  case (3 c d s)
  have "whole_lines (d # s)" using 3(4) by (simp add: whole_lines_def)
  moreover have "whole_lines s" using 3(4) by (auto simp: whole_lines_def split: if_splits)
  ultimately have IH: "\<not> (c = CHR 0x0D \<and> d = newline) \<Longrightarrow> splitlines (d # s @ t) = splitlines (d # s) @ splitlines t"
    "c = CHR 0x0D \<and> d = newline \<Longrightarrow> splitlines (s @ t) = splitlines s @ splitlines t"
    using 3 by (cases "line_break c", auto)
  show ?case
  proof (cases "c = CHR 0x0D \<and> d = newline")
    case False
    obtain l ls where "splitlines (d # s) = l # ls" by (cases "splitlines (d # s)") auto
    then show ?thesis using IH(1) [OF False] False by auto
  qed (use IH in simp)
qed simp

lemma splitlines_line: "\<forall>c \<in> set l. \<not> line_break c \<Longrightarrow> splitlines (l @ [newline]) = [l]"
proof (induction l)
  case (Cons c l)
  have l: "splitlines (l @ [newline]) = [l]" by (rule Cons.IH) (use Cons.prems in simp)
  have c: "\<not> line_break c" using Cons.prems by simp
  then have "c \<noteq> CHR 0x0D" by (auto simp: line_break_def)
  then show ?case using l c by (cases l) simp_all
qed simp

lemma file_lines_append:
  assumes "whole_lines text" and "ascii_text l"
  shows "file_lines (append_line l text) = file_lines text @ [l]"
proof -
  have "universal_newlines (l @ [newline]) = l @ [newline]"
    using ascii_no_break [OF assms(2)] by (intro universal_newlines_id) auto
  then show ?thesis
    using assms(1) splitlines_line [of l] ascii_no_break [OF assms(2)]
    by (simp add: file_lines_def append_line_def universal_newlines_append splitlines_append
      universal_newlines_whole)
qed

lemma whole_lines_append [simp]: "whole_lines (append_line l text)"
  by (simp add: whole_lines_def append_line_def)

interpretation file_log: append_log file_lines append_line whole_lines ascii_text
  by unfold_locales (auto simp: file_lines_append)

section \<open>Reading ends\<close>

text \<open>A reading that stopped for want of fuel.\<close>

definition starved :: "(string \<times> nat) + 'a \<Rightarrow> bool" where
  "starved m = (case m of Inl e \<Rightarrow> fst e = ''out of fuel'' | Inr r \<Rightarrow> False)"

lemma starved_Inr [simp]: "\<not> starved (Inr r)"
  by (simp add: starved_def)

lemma starved_Inl: "starved (Inl e) \<longleftrightarrow> fst e = ''out of fuel''"
  by (simp add: starved_def)

lemma expecting_value_fed [simp]: "\<not> starved (expecting_value s)"
  by (simp add: expecting_value_def starved_Inl)

lemma scan_string_fed: "\<not> starved (scan_string q s)"
proof -
  have unicode: "fst e \<noteq> ''out of fuel''" if "unicode_scan s = Inl e" for s e
    using that by (auto simp: unicode_scan_def Let_def split: option.splits if_splits)
  have later: "\<not> starved (prepend c m)" if "\<not> starved m" for c m
    using that by (auto simp: starved_def prepend_def split: sum.splits prod.splits)
  show ?thesis
    by (induction q s rule: scan_string.induct)
      (auto simp: starved_Inl unicode later split: list.splits option.splits sum.splits prod.splits)
qed

lemma read_atom_fed: "\<not> starved (read_atom s)"
  by (simp add: read_atom_def read_number_def Let_def split: prod.split)

lemma read_key_fed: "\<not> starved (read_key s)"
  using scan_string_fed [of "length s" "drop 1 s"]
  by (auto simp: read_key_def Let_def starved_def split: list.splits sum.splits prod.splits)

lemma comma_or_fed: "\<not> starved (comma_or c s)"
  by (auto simp: comma_or_def starved_Inl)

lemma starved_case:
  "starved (case m of Inl e \<Rightarrow> Inl e | Inr v \<Rightarrow> f v) \<longleftrightarrow> starved m \<or> (\<exists>v. m = Inr v \<and> starved (f v))"
  by (cases m) (simp_all add: starved_Inl)

lemma reading_fed:
  "2 * length s + 1 \<le> n \<Longrightarrow> \<not> starved (read_value n s)"
  "2 * length s + 2 \<le> n \<Longrightarrow> \<not> starved (read_items n s)"
  "2 * length s + 2 \<le> n \<Longrightarrow> \<not> starved (read_members n d s)"
proof (induction n arbitrary: s d)
  case (Suc n)
  have shorter: "length (skip_space t) \<le> length t" for t by (rule skip_space_shorter)
  { case 1
    show ?case
    proof (cases s)
      case (Cons c t)
      have "2 * length (skip_space t) + 2 \<le> n" using 1 Cons shorter [of t] by simp
      then have "\<not> starved (read_items n (skip_space t))" "\<not> starved (read_members n [] (skip_space t))"
        by (rule Suc.IH(2), rule Suc.IH(3))
      then show ?thesis
        using scan_string_fed [of "length s" t] read_atom_fed [of s]
        by (simp add: Cons starved_case split: prod.split)
    qed simp
  next
    case 2
    have val: "\<not> starved (read_value n s)" using 2 by (intro Suc.IH(1)) simp
    have items: "\<not> starved (read_items n (skip_space (drop 1 (skip_space r))))"
      if "read_value n s = Inr (v, r)" for v r
      using read_shorter(1) [OF that] 2 shorter [of r] shorter [of "drop 1 (skip_space r)"]
      by (intro Suc.IH(2)) auto
    show ?case unfolding read_items.simps(2) [of n]
      using val items comma_or_fed by (auto simp: starved_case split: bool.splits)
  next
    case 3
    have val: "\<not> starved (read_value n r)" if "read_key s = Inr (k, r)" for k r
      using read_key_shorter [OF that] 3 by (intro Suc.IH(1)) auto
    have members: "\<not> starved (read_members n d' (skip_space (drop 1 (skip_space r'))))"
      if "read_key s = Inr (k, r)" "read_value n r = Inr (v, r')" for k r v r' d'
      using read_key_shorter [OF that(1)] read_shorter(1) [OF that(2)] 3 shorter [of r']
        shorter [of "drop 1 (skip_space r')"]
      by (intro Suc.IH(3)) auto
    show ?case
      unfolding read_members.simps(2) [of n]
      using val members read_key_fed [of s] comma_or_fed
      by (auto simp: starved_case split: bool.splits)
  }
qed simp_all

text \<open>\<open>json.loads\<close> with a fuel of one's own.\<close>

definition json_loads_within :: "nat \<Rightarrow> string \<Rightarrow> string + json" where
  "json_loads_within n line =
     (case read_value n (skip_space line) of
        Inl e \<Rightarrow> Inl (decode_error line e)
      | Inr (v, r) \<Rightarrow> if skip_space r = [] then Inr v
          else Inl (decode_error line (''Extra data'', length (skip_space r))))"

lemma loads_within:
  assumes "read_fuel line \<le> n"
  shows "json_loads_within n line = json_loads line"
proof -
  have "read_fuel (skip_space line) \<le> n" using assms skip_space_shorter [of line] by (simp add: read_fuel_def)
  from enough_fuel [OF this] show ?thesis
    by (simp add: json_loads_within_def json_loads_def read_text_def Let_def split: sum.split prod.split)
qed

lemma loads_fed: "read_fuel line \<le> n \<Longrightarrow> \<not> starved (read_value n (skip_space line))"
  using skip_space_shorter [of line] by (intro reading_fed(1)) (simp add: read_fuel_def)

end
