(* ===== verification/Event_Queue.thy ===== *)
theory Event_Queue
  imports Json_Text
begin

text \<open>
  \<open>orchestration_events.py\<close>: the event-capability queue.  The queue directory is a record: which files
  each of its five directories holds, the manifest and the text of the audit log.  A file holds the
  value it was written with, or \<open>None\<close> when its text does not parse.  Every reading of the clock
  during an operation is its argument \<open>now\<close>; a file system that fails is not modelled.
\<close>

definition QUEUE_SCHEMA :: string where
  "QUEUE_SCHEMA = ''sourceos.orchestration.event-queue.v0.1''"
definition RECORD_SCHEMA :: string where
  "RECORD_SCHEMA = ''sourceos.orchestration.event-record.v0.1''"
definition REPLAY_SCHEMA :: string where
  "REPLAY_SCHEMA = ''sourceos.orchestration.replay.v0.1''"
definition EXECUTABLE_OUTCOMES :: "string list" where
  "EXECUTABLE_OUTCOMES = [''allowed'', ''redacted'']"
definition WAITING_OUTCOMES :: "string list" where
  "WAITING_OUTCOMES = [''requires_approval'']"
definition BLOCKING_OUTCOMES :: "string list" where
  "BLOCKING_OUTCOMES = [''denied'', ''degraded'', ''requires_local_only'']"
definition HIGH_RISK_EFFECTS :: "string list" where
  "HIGH_RISK_EFFECTS = [''high_risk_actuation'', ''irreversible_action'']"

definition safe_char :: "char \<Rightarrow> char" where
  "safe_char c = (if is_alnum c \<or> c \<in> set ''-_.'' then c else CHR ''_'')"

definition safe_id :: "string \<Rightarrow> string res" where
  "safe_id v =
     (let cleaned = strip_char CHR ''.'' (map safe_char (strip v))
      in if cleaned = '''' then Inl (ValueError ''idempotency key cannot be empty'') else Inr cleaned)"

section \<open>Records of a bundle\<close>

definition items_of :: "jdict \<Rightarrow> string \<Rightarrow> jdict list res" where
  "items_of d k = ebind (py_iter (dget d k (JList []))) (\<lambda>xs. Inr [dict_or_empty x. x \<leftarrow> xs, is_dict x])"

text \<open>\<open>{item.get(k): item for item in items}\<close>, whose keys are values; a later item replaces an earlier
  one with an equal key.\<close>

definition index_by :: "string \<Rightarrow> jdict list \<Rightarrow> (json \<times> jdict) list res" where
  "index_by k items = emap (\<lambda>item. if hashable (dget0 item k) then Inr (dget0 item k, item)
                                  else Inl TypeError) items"

definition index_get :: "(json \<times> jdict) list \<Rightarrow> json \<Rightarrow> json res" where
  "index_get ix key =
     (if \<not> hashable key then Inl TypeError
      else Inr (case find (\<lambda>(k, item). py_eq k key) (rev ix) of
                  None \<Rightarrow> JObj [] | Some (k, item) \<Rightarrow> JObj item))"

text \<open>\<open>s.split(":", 1)[-1]\<close>.\<close>

definition after_colon :: "string \<Rightarrow> string" where
  "after_colon s = (case dropWhile (\<lambda>c. c \<noteq> CHR '':'') s of [] \<Rightarrow> s | _ # t \<Rightarrow> t)"

definition reaction_to_record ::
  "(json \<times> jdict) list \<Rightarrow> (json \<times> jdict) list \<Rightarrow> jdict \<Rightarrow> jdict res" where
  "reaction_to_record capabilities events reaction =
     ebind (index_get events (dget0 reaction ''event_id'')) (\<lambda>event.
     ebind (index_get capabilities (dget0 reaction ''capability_id'')) (\<lambda>capability.
     Inr [(''record_id'', JStr (''record:''
             @ after_colon (py_str (dget reaction ''reaction_id'' (JStr ''unknown''))))),
          (''mode'', JStr ''event-capability-evidence-v0''),
          (''event'', event), (''capability'', capability), (''reaction'', JObj reaction),
          (''evidence_refs'', dget reaction ''receipt_refs'' (JList []))]))"

definition bundle_to_records :: "jdict \<Rightarrow> jdict list res" where
  "bundle_to_records bundle =
     ebind (ebind (items_of bundle ''capabilities'') (index_by ''capability_id'')) (\<lambda>capabilities.
     ebind (ebind (items_of bundle ''events'') (index_by ''event_id'')) (\<lambda>events.
     ebind (items_of bundle ''reaction_plans'') (emap (reaction_to_record capabilities events))))"

lemma dget_smaller: "dget0 d k = JObj d' \<Longrightarrow> size (JObj d') < size (JObj d)"
proof -
  assume "dget0 d k = JObj d'"
  then have "(k, JObj d') \<in> set d"
    by (auto simp: dget_def split: option.splits dest: map_of_SomeD)
  then show "size (JObj d') < size (JObj d)"
    by (induction d) auto
qed

definition dicts_in :: "json list \<Rightarrow> jdict list" where
  "dicts_in xs = [dict_or_empty x. x \<leftarrow> xs, is_dict x]"

definition no_records :: pyerr where
  "no_records = ValueError ''input must be records/results or a full event-capability bundle''"

fun listed_dicts :: "json \<Rightarrow> jdict list res" where
  "listed_dicts (JList xs) = Inr (dicts_in xs)"
| "listed_dicts _ = Inr []"

text \<open>The records of an object that does not defer to its \<open>data\<close>.\<close>

definition direct_records :: "jdict \<Rightarrow> jdict list res option" where
  "direct_records d =
     (if dhas d ''events'' \<and> dhas d ''capabilities'' \<and> dhas d ''reaction_plans''
      then Some (bundle_to_records d)
      else if is_list (dget0 d ''records'') then Some (listed_dicts (dget0 d ''records''))
      else if is_list (dget0 d ''results'') then Some (listed_dicts (dget0 d ''results''))
      else None)"

function extract_records :: "json \<Rightarrow> jdict list res" where
  "extract_records (JList xs) = Inr (dicts_in xs)"
| "extract_records (JObj d) =
     (case direct_records d of
        Some r \<Rightarrow> r
      | None \<Rightarrow> (let data = dget0 d ''data'' in
                 if is_dict data then extract_records data else Inl no_records))"
| "extract_records JNull = Inl no_records"
| "extract_records (JBool b) = Inl no_records"
| "extract_records (JInt i) = Inl no_records"
| "extract_records (JFloat x) = Inl no_records"
| "extract_records (JStr s) = Inl no_records"
  by pat_completeness auto
termination
  by (relation "measure size") (use dget_smaller in \<open>force elim!: is_dictE\<close>)+

section \<open>Validation\<close>

record event_decision =
  ev_state :: string
  ev_errors :: "string list"
  ev_warnings :: "string list"
  ev_event_id :: string
  ev_capability_id :: string
  ev_effect_class :: string
  ev_policy_outcome :: string
  ev_idempotency_key :: string
  ev_receipt_refs :: json

text \<open>The value of \<open>"valid"\<close>.\<close>

definition ev_valid :: "event_decision \<Rightarrow> bool" where
  "ev_valid d \<longleftrightarrow> ev_errors d = []"

definition STRICT_APPROVALS :: "string list" where
  "STRICT_APPROVALS = [''explicit_user_approval'', ''two_party_approval'', ''admin_approval'']"

definition str_field :: "jdict \<Rightarrow> string \<Rightarrow> string" where
  "str_field d k = py_str (dget d k (JStr ''''))"

definition event_errors ::
  "jdict \<Rightarrow> jdict \<Rightarrow> jdict \<Rightarrow> jdict \<Rightarrow> json \<Rightarrow> string list" where
  "event_errors event capability reaction causality refs =
     (let outcome = str_field reaction ''policy_outcome'';
          high = str_field capability ''effect_class'' \<in> set HIGH_RISK_EFFECTS
      in note_if (str_field event ''event_id'' = '''') ''missing event_id''
       @ note_if (str_field capability ''capability_id'' = '''') ''missing capability_id''
       @ note_if (str_field causality ''idempotency_key'' = '''') ''missing idempotency key''
       @ note_if (\<not> truthy refs) ''missing evidence receipt references''
       @ note_if (dget0 reaction ''dead_letter_on_failure'' \<noteq> JBool True)
           ''dead_letter_on_failure must be true''
       @ note_if (outcome \<noteq> str_field capability ''required_policy_outcome'')
           ''policy outcome does not match capability required_policy_outcome''
       @ note_if (high \<and> outcome = ''allowed'')
           ''high-risk event capability cannot be directly allowed''
       @ note_if (high \<and> outcome = ''requires_approval''
             \<and> str_field capability ''approval_mode'' \<notin> set STRICT_APPROVALS)
           ''high-risk approval outcome lacks strict approval mode'')"

definition queue_state :: "string \<Rightarrow> string list \<Rightarrow> string" where
  "queue_state outcome errors =
     (if outcome \<in> set EXECUTABLE_OUTCOMES \<and> errors = [] then ''pending''
      else if outcome \<in> set WAITING_OUTCOMES \<and> errors = [] then ''waiting-approval''
      else if outcome \<in> set BLOCKING_OUTCOMES \<and> errors = [] then ''blocked''
      else ''dead-letter'')"

definition validate_event_record :: "jdict \<Rightarrow> event_decision" where
  "validate_event_record r =
     (let event = dict_or_empty (dget0 r ''event'');
          capability = dict_or_empty (dget0 r ''capability'');
          reaction = dict_or_empty (dget0 r ''reaction'');
          causality = dict_or_empty (dget0 event ''causality'');
          refs = py_or (py_or (dget0 r ''evidence_refs'') (dget0 reaction ''receipt_refs'')) (JList []);
          effect = str_field capability ''effect_class'';
          outcome = str_field reaction ''policy_outcome'';
          errors = event_errors event capability reaction causality refs
      in \<lparr>ev_state = queue_state outcome errors, ev_errors = errors,
          ev_warnings = note_if (effect \<in> set HIGH_RISK_EFFECTS \<and> outcome = ''denied'')
            ''high-risk event capability denied; preserve denial receipt'',
          ev_event_id = str_field event ''event_id'',
          ev_capability_id = str_field capability ''capability_id'',
          ev_effect_class = effect, ev_policy_outcome = outcome,
          ev_idempotency_key = str_field causality ''idempotency_key'',
          ev_receipt_refs = refs\<rparr>)"

definition decision_json :: "event_decision \<Rightarrow> json" where
  "decision_json d = JObj [
     (''valid'', JBool (ev_valid d)), (''state'', JStr (ev_state d)),
     (''errors'', strs (ev_errors d)), (''warnings'', strs (ev_warnings d)),
     (''event_id'', JStr (ev_event_id d)), (''capability_id'', JStr (ev_capability_id d)),
     (''effect_class'', JStr (ev_effect_class d)), (''policy_outcome'', JStr (ev_policy_outcome d)),
     (''idempotency_key'', JStr (ev_idempotency_key d)), (''receipt_refs'', ev_receipt_refs d)]"

section \<open>The queue directory\<close>

datatype queue_dir = Pending | Waiting | Blocked | Dead_Letter | Replay

record event_queue =
  q_files :: "queue_dir \<Rightarrow> json option dict"
  q_manifest :: "json option option"
  q_audit :: "string option"

definition no_queue :: event_queue where
  "no_queue = \<lparr>q_files = (\<lambda>_. []), q_manifest = None, q_audit = None\<rparr>"

definition state_dir :: "string \<Rightarrow> queue_dir" where
  "state_dir state = (if state = ''pending'' then Pending
     else if state = ''waiting-approval'' then Waiting
     else if state = ''blocked'' then Blocked else Dead_Letter)"

fun dir_name :: "queue_dir \<Rightarrow> string" where
  "dir_name Pending = ''pending''"
| "dir_name Waiting = ''waiting-approval''"
| "dir_name Blocked = ''blocked''"
| "dir_name Dead_Letter = ''dead-letter''"
| "dir_name Replay = ''replay''"

definition new_manifest :: "string \<Rightarrow> json" where
  "new_manifest now = JObj [
     (''schema'', JStr QUEUE_SCHEMA), (''created_at'', JStr now), (''updated_at'', JStr now),
     (''delivery_mode'', JStr ''exactly_once_by_idempotency_key''),
     (''directories'', strs [''pending'', ''waiting-approval'', ''blocked'', ''dead-letter'', ''replay'']),
     (''non_mutating'', JBool True)]"

definition init_event_queue :: "string \<Rightarrow> event_queue \<Rightarrow> event_queue \<times> json res" where
  "init_event_queue now q =
     (let m = (case q_manifest q of None \<Rightarrow> Some (sort_keys (new_manifest now)) | Some v \<Rightarrow> v);
          q' = q\<lparr>q_audit := Some (case q_audit q of None \<Rightarrow> '''' | Some t \<Rightarrow> t),
                 q_manifest := Some m\<rparr>
      in (q', case m of None \<Rightarrow> Inl (ValueError ''invalid JSON'') | Some j \<Rightarrow> Inr j))"

definition write_json :: "queue_dir \<Rightarrow> string \<Rightarrow> json \<Rightarrow> event_queue \<Rightarrow> event_queue" where
  "write_json dir f v q =
     q\<lparr>q_files := (q_files q)(dir := dset f (Some (sort_keys v)) (q_files q dir))\<rparr>"

definition append_audit :: "json \<Rightarrow> event_queue \<Rightarrow> event_queue" where
  "append_audit item q =
     q\<lparr>q_audit := Some (append_line (json_dumps_sorted item)
        (case q_audit q of None \<Rightarrow> '''' | Some t \<Rightarrow> t))\<rparr>"

section \<open>Enqueueing\<close>

definition record_key :: "jdict \<Rightarrow> string" where
  "record_key r =
     (let key = ev_idempotency_key (validate_event_record r)
      in if key \<noteq> '''' then key else py_str (dget r ''record_id'' (JStr ''missing-id'')))"

definition audit_item :: "string \<Rightarrow> string \<Rightarrow> string \<Rightarrow> event_decision \<Rightarrow> json" where
  "audit_item now status key d = JObj [
     (''at'', JStr now), (''action'', JStr status), (''queue_state'', JStr (ev_state d)),
     (''idempotency_key'', JStr key), (''event_id'', JStr (ev_event_id d)),
     (''capability_id'', JStr (ev_capability_id d))]"

definition envelope :: "string \<Rightarrow> event_decision \<Rightarrow> jdict \<Rightarrow> json" where
  "envelope now d r = JObj [
     (''schema'', JStr RECORD_SCHEMA), (''queued_at'', JStr now), (''status'', JStr ''queued''),
     (''queue_state'', JStr (ev_state d)), (''decision'', decision_json d), (''record'', JObj r)]"

definition enqueue_result :: "string \<Rightarrow> string \<Rightarrow> event_decision \<Rightarrow> json" where
  "enqueue_result key status d = JObj [
     (''idempotency_key'', JStr key), (''status'', JStr status), (''queue_state'', JStr (ev_state d)),
     (''errors'', strs (ev_errors d)), (''warnings'', strs (ev_warnings d))]"

definition enqueue_one :: "string \<Rightarrow> jdict \<Rightarrow> event_queue \<Rightarrow> event_queue \<times> json res" where
  "enqueue_one now r q =
     (let d = validate_event_record r; key = record_key r; dir = state_dir (ev_state d) in
      case safe_id key of
        Inl e \<Rightarrow> (q, Inl e)
      | Inr name \<Rightarrow>
         (let f = name @ ''.json'';
              status = (if dhas (q_files q dir) f then ''deduped'' else ''queued'');
              q1 = (if status = ''queued'' then write_json dir f (envelope now d r) q else q)
          in (append_audit (audit_item now status key d) q1, Inr (enqueue_result key status d))))"

fun enqueue_all :: "string \<Rightarrow> jdict list \<Rightarrow> event_queue \<Rightarrow> event_queue \<times> json list res" where
  "enqueue_all now [] q = (q, Inr [])"
| "enqueue_all now (r # rs) q =
     (case enqueue_one now r q of
        (q1, Inl e) \<Rightarrow> (q1, Inl e)
      | (q1, Inr x) \<Rightarrow>
         (case enqueue_all now rs q1 of
            (q2, Inl e) \<Rightarrow> (q2, Inl e)
          | (q2, Inr xs) \<Rightarrow> (q2, Inr (x # xs))))"

definition json_files :: "queue_dir \<Rightarrow> event_queue \<Rightarrow> string list" where
  "json_files dir q = [f \<leftarrow> map fst (q_files q dir). ends_with ''.json'' f]"

definition queue_counts :: "event_queue \<Rightarrow> json" where
  "queue_counts q = JObj
     (map (\<lambda>dir. (dir_name dir, JInt (int (length (json_files dir q)))))
        [Pending, Waiting, Blocked, Dead_Letter, Replay])"

definition summarize_event_queue :: "string \<Rightarrow> string \<Rightarrow> event_queue \<Rightarrow> event_queue \<times> jdict res" where
  "summarize_event_queue root now q =
     (case init_event_queue now q of
        (q1, Inl e) \<Rightarrow> (q1, Inl e)
      | (q1, Inr _) \<Rightarrow> (q1, Inr [(''schema'', JStr QUEUE_SCHEMA), (''root'', JStr root),
          (''counts'', queue_counts q1), (''non_mutating'', JBool True)]))"

definition enqueue_event_records ::
  "string \<Rightarrow> string \<Rightarrow> jdict list \<Rightarrow> event_queue \<Rightarrow> event_queue \<times> jdict res" where
  "enqueue_event_records root now records q =
     (case init_event_queue now q of
        (q1, Inl e) \<Rightarrow> (q1, Inl e)
      | (q1, Inr _) \<Rightarrow>
         (case enqueue_all now records q1 of
            (q2, Inl e) \<Rightarrow> (q2, Inl e)
          | (q2, Inr results) \<Rightarrow>
             (case summarize_event_queue root now q2 of
                (q3, Inl e) \<Rightarrow> (q3, Inl e)
              | (q3, Inr summary) \<Rightarrow> (q3, Inr (dset ''enqueued'' (JList results) summary)))))"

text \<open>\<open>enqueue_event_file\<close>: \<open>payload\<close> is the value of the input file, or what loading it raises.\<close>

definition enqueue_event_file ::
  "string \<Rightarrow> string \<Rightarrow> json res \<Rightarrow> event_queue \<Rightarrow> event_queue \<times> jdict res" where
  "enqueue_event_file root now payload q =
     (case ebind payload extract_records of
        Inl e \<Rightarrow> (q, Inl e)
      | Inr records \<Rightarrow> enqueue_event_records root now records q)"

section \<open>Listing and replay\<close>

definition list_entry :: "string \<Rightarrow> string \<Rightarrow> queue_dir \<Rightarrow> string \<Rightarrow> json option \<Rightarrow> json res" where
  "list_entry root item_state dir f content =
     (case content of
        None \<Rightarrow> Inl (ValueError ''invalid JSON'')
      | Some payload \<Rightarrow>
         ebind (jget payload ''status'' JNull) (\<lambda>status.
         ebind (jget payload ''decision'' (JObj [])) (\<lambda>decision.
         ebind (jget decision ''event_id'' JNull) (\<lambda>event_id.
         ebind (jget decision ''capability_id'' JNull) (\<lambda>capability_id.
         ebind (jget decision ''policy_outcome'' JNull) (\<lambda>outcome.
         ebind (jget decision ''idempotency_key'' JNull) (\<lambda>key.
         Inr (JObj [(''path'', JStr (root @ ''/'' @ dir_name dir @ ''/'' @ f)),
           (''queue_state'', JStr item_state), (''status'', status), (''event_id'', event_id),
           (''capability_id'', capability_id), (''policy_outcome'', outcome),
           (''idempotency_key'', key)]))))))))"

definition list_state :: "string \<Rightarrow> event_queue \<Rightarrow> string \<Rightarrow> json list res" where
  "list_state root q item_state =
     (let dir = state_dir item_state in
      emap (\<lambda>f. list_entry root item_state dir f (dget (q_files q dir) f None))
        (sort (json_files dir q)))"

definition LISTED_STATES :: "string list" where
  "LISTED_STATES = [''pending'', ''waiting-approval'', ''blocked'', ''dead-letter'']"

definition list_event_queue ::
  "string \<Rightarrow> string \<Rightarrow> string option \<Rightarrow> event_queue \<Rightarrow> event_queue \<times> json list res" where
  "list_event_queue root now state q =
     (case init_event_queue now q of
        (q1, Inl e) \<Rightarrow> (q1, Inl e)
      | (q1, Inr _) \<Rightarrow>
         (let states = (case state of None \<Rightarrow> LISTED_STATES
                        | Some s \<Rightarrow> if s = '''' then LISTED_STATES else [s])
          in (q1, ebind (emap (list_state root q1) states) (\<lambda>xss. Inr (concat xss)))))"

definition replay_event_queue ::
  "string \<Rightarrow> string \<Rightarrow> string \<Rightarrow> event_queue \<Rightarrow> event_queue \<times> json res" where
  "replay_event_queue root now state q =
     (case list_event_queue root now (Some state) q of
        (q1, Inl e) \<Rightarrow> (q1, Inl e)
      | (q1, Inr listed) \<Rightarrow>
         (let replay = JObj [(''schema'', JStr REPLAY_SCHEMA), (''created_at'', JStr now),
                (''source_state'', JStr state), (''count'', JInt (int (length listed))),
                (''records'', JList listed), (''non_mutating'', JBool True)]
          in case safe_id state of
               Inl e \<Rightarrow> (q1, Inl e)
             | Inr s \<Rightarrow>
                (let f = ''replay-'' @ s @ ''-'' @ replace_char CHR '':'' '''' now @ ''.json''
                 in (write_json Replay f replay q1,
                     Inr (JObj [(''path'', JStr (root @ ''/replay/'' @ f)), (''replay'', replay)])))))"

section \<open>What enqueueing keeps\<close>

text \<open>Every file of one queue is in the other with the same content.\<close>

definition keeps_files :: "event_queue \<Rightarrow> event_queue \<Rightarrow> bool" where
  "keeps_files q q' \<longleftrightarrow> (\<forall>dir f j. map_of (q_files q dir) f = Some j \<longrightarrow> map_of (q_files q' dir) f = Some j)"

lemma keeps_refl [simp]: "keeps_files q q"
  by (simp add: keeps_files_def)

lemma keeps_trans: "keeps_files q q' \<Longrightarrow> keeps_files q' q'' \<Longrightarrow> keeps_files q q''"
  by (simp add: keeps_files_def)

lemma keeps_same: "q_files q' = q_files q \<Longrightarrow> keeps_files q q'"
  by (simp add: keeps_files_def)

lemma keeps_dhas: "keeps_files q q' \<Longrightarrow> dhas (q_files q dir) f \<Longrightarrow> dhas (q_files q' dir) f"
  by (auto simp: keeps_files_def dhas_map_of)

lemma queue_simps [simp]:
  "q_files (append_audit i q) = q_files q"
  "q_manifest (append_audit i q) = q_manifest q"
  "q_audit (write_json dir f v q) = q_audit q"
  "q_manifest (write_json dir f v q) = q_manifest q"
  "q_files (fst (init_event_queue now q)) = q_files q"
  by (simp_all add: append_audit_def write_json_def init_event_queue_def Let_def)

lemma keeps_write: "\<not> dhas (q_files q dir) f \<Longrightarrow> keeps_files q (write_json dir f v q)"
  by (auto simp: keeps_files_def write_json_def map_of_dset dhas_map_of)

text \<open>The file a record is stored in.\<close>

definition target_of :: "jdict \<Rightarrow> (queue_dir \<times> string) res" where
  "target_of r = ebind (safe_id (record_key r)) (\<lambda>name.
     Inr (state_dir (ev_state (validate_event_record r)), name @ ''.json''))"

definition holds :: "event_queue \<Rightarrow> queue_dir \<times> string \<Rightarrow> bool" where
  "holds q = (\<lambda>(dir, f). dhas (q_files q dir) f)"

definition result_status :: "json \<Rightarrow> json" where
  "result_status x = dget0 (dict_or_empty x) ''status''"

lemma enqueue_one_cases:
  assumes "enqueue_one now r q = (q1, res)"
  obtains (refused) e where "target_of r = Inl e" "q1 = q" "res = Inl e"
  | (stored) t where "target_of r = Inr t" "holds q1 t" "keeps_files q q1" "\<exists>x. res = Inr x"
      "holds q t \<longleftrightarrow> (\<exists>x. res = Inr x \<and> result_status x = JStr ''deduped'')"
      "holds q t \<Longrightarrow> q_files q1 = q_files q"
proof (cases "safe_id (record_key r)")
  case (Inl e)
  then show thesis using assms refused by (auto simp: enqueue_one_def target_of_def Let_def)
next
  case (Inr name)
  let ?d = "state_dir (ev_state (validate_event_record r))"
  show thesis
  proof (cases "dhas (q_files q ?d) (name @ ''.json'')")
    case True
    with Inr assms show thesis
      by (intro stored [of "(?d, name @ ''.json'')"])
        (auto simp: enqueue_one_def target_of_def Let_def holds_def enqueue_result_def result_status_def
          intro: keeps_same)
  next
    case False
    with Inr assms show thesis
      by (intro stored [of "(?d, name @ ''.json'')"])
        (auto simp: enqueue_one_def target_of_def Let_def holds_def enqueue_result_def result_status_def
          write_json_def dhas_map_of map_of_dset keeps_files_def)
  qed
qed

lemma enqueue_all_keeps: "keeps_files q (fst (enqueue_all now rs q))"
proof (induction rs arbitrary: q)
  case (Cons r rs)
  obtain q1 res where one: "enqueue_one now r q = (q1, res)" by fastforce
  then have "keeps_files q q1" by (cases rule: enqueue_one_cases) auto
  with Cons [of q1] one show ?case
    by (auto split: sum.splits prod.splits intro: keeps_trans)
qed simp

lemma enqueue_all_holds:
  "enqueue_all now rs q = (q1, Inr xs) \<Longrightarrow> r \<in> set rs \<Longrightarrow> \<exists>t. target_of r = Inr t \<and> holds q1 t"
proof (induction rs arbitrary: q xs)
  case (Cons r' rs)
  obtain q2 res where one: "enqueue_one now r' q = (q2, res)" by fastforce
  with Cons.prems(1) obtain x ys where all: "enqueue_all now rs q2 = (q1, Inr ys)" "res = Inr x"
    by (auto split: sum.splits prod.splits)
  show ?case
  proof (cases "r = r'")
    case True
    from one all(2) obtain t where "target_of r = Inr t" "holds q2 t"
      unfolding True by (cases rule: enqueue_one_cases) auto
    moreover have "keeps_files q2 q1" using enqueue_all_keeps [of q2 now rs] all(1) by simp
    ultimately show ?thesis by (auto simp: holds_def intro: keeps_dhas split: prod.splits)
  next
    case False
    with Cons all(1) show ?thesis by auto
  qed
qed simp

lemma enqueue_all_held:
  assumes "\<forall>r \<in> set rs. \<exists>t. target_of r = Inr t \<and> holds q t"
  shows "\<exists>q1 xs. enqueue_all now rs q = (q1, Inr xs) \<and> q_files q1 = q_files q
    \<and> list_all (\<lambda>x. result_status x = JStr ''deduped'') xs"
  using assms
proof (induction rs arbitrary: q)
  case (Cons r rs)
  obtain q1 res where one: "enqueue_one now r q = (q1, res)" by fastforce
  from one obtain x where same: "q_files q1 = q_files q" and x: "res = Inr x"
      "result_status x = JStr ''deduped''"
    by (cases rule: enqueue_one_cases) (use Cons.prems in auto)
  have "\<forall>r \<in> set rs. \<exists>t. target_of r = Inr t \<and> holds q1 t"
    using Cons.prems by (simp add: holds_def same)
  from Cons.IH [OF this] obtain q2 xs where "enqueue_all now rs q1 = (q2, Inr xs)"
    "q_files q2 = q_files q1" "list_all (\<lambda>x. result_status x = JStr ''deduped'') xs" by blast
  with one same x show ?case by simp
qed simp

section \<open>What enqueueing adds\<close>

definition result_key :: "json \<Rightarrow> json" where
  "result_key x = dget0 (dict_or_empty x) ''idempotency_key''"

text \<open>The file of a record queued at \<open>now\<close>, spelled out: the record itself, its decision and its state, with sorted keys.\<close>

definition queued_file :: "string \<Rightarrow> jdict \<Rightarrow> json option" where
  "queued_file now r = Some (JObj [
     (''decision'', sort_keys (decision_json (validate_event_record r))),
     (''queue_state'', JStr (ev_state (validate_event_record r))),
     (''queued_at'', JStr now), (''record'', sort_keys (JObj r)),
     (''schema'', JStr ''sourceos.orchestration.event-record.v0.1''), (''status'', JStr ''queued'')])"

lemma queued_file_envelope: "Some (sort_keys (envelope now (validate_event_record r) r)) = queued_file now r"
  by (simp add: queued_file_def envelope_def RECORD_SCHEMA_def)

lemma enqueue_one_exact:
  assumes "enqueue_one now r q = (q1, Inr x)"
  obtains dir f where "target_of r = Inr (dir, f)" "result_key x = JStr (record_key r)"
    "result_status x = JStr (if holds q (dir, f) then ''deduped'' else ''queued'')"
    "\<And>dir' f'. map_of (q_files q1 dir') f' = (if (dir', f') = (dir, f) \<and> \<not> holds q (dir, f) then Some (queued_file now r)
       else map_of (q_files q dir') f')"
proof (cases "safe_id (record_key r)")
  case (Inr name)
  show thesis
    using assms Inr
    by (intro that [of "state_dir (ev_state (validate_event_record r))" "name @ ''.json''"])
      (auto simp: enqueue_one_def target_of_def Let_def holds_def enqueue_result_def result_status_def result_key_def
        write_json_def map_of_dset queued_file_envelope split: if_splits)
qed (use assms in \<open>simp add: enqueue_one_def Let_def\<close>)

lemma enqueue_all_ConsE:
  assumes "enqueue_all now (r # rs) q = (q1, Inr xs)"
  obtains q2 x ys where "enqueue_one now r q = (q2, Inr x)" "enqueue_all now rs q2 = (q1, Inr ys)" "xs = x # ys"
  using assms by (auto split: sum.splits prod.splits)

lemma enqueue_all_keys: "enqueue_all now rs q = (q1, Inr xs) \<Longrightarrow> map result_key xs = map (\<lambda>r. JStr (record_key r)) rs"
  by (induction rs arbitrary: q xs) (auto elim!: enqueue_all_ConsE enqueue_one_exact simp del: enqueue_all.simps(2))

text \<open>A file that is new holds the first record that goes there.\<close>

definition files_after :: "string \<Rightarrow> jdict list \<Rightarrow> event_queue \<Rightarrow> event_queue \<Rightarrow> bool" where
  "files_after now rs q q1 \<longleftrightarrow> (\<forall>dir f. map_of (q_files q1 dir) f =
     (case map_of (q_files q dir) f of
        Some c \<Rightarrow> Some c
      | None \<Rightarrow> map_option (queued_file now) (find (\<lambda>r. target_of r = Inr (dir, f)) rs)))"

lemma enqueue_all_files: "enqueue_all now rs q = (q1, Inr xs) \<Longrightarrow> files_after now rs q q1"
proof (induction rs arbitrary: q xs)
  case Nil
  then show ?case by (simp add: files_after_def split: option.splits)
next
  case (Cons r rs)
  from Cons.prems obtain q2 x ys where one: "enqueue_one now r q = (q2, Inr x)" and all: "enqueue_all now rs q2 = (q1, Inr ys)"
    by (rule enqueue_all_ConsE)
  from one obtain dir f where "target_of r = Inr (dir, f)"
    "\<And>dir' f'. map_of (q_files q2 dir') f' = (if (dir', f') = (dir, f) \<and> \<not> holds q (dir, f) then Some (queued_file now r)
       else map_of (q_files q dir') f')"
    by (rule enqueue_one_exact) blast
  with Cons.IH [OF all] show ?case
    by (auto simp: files_after_def holds_def dhas_map_of split: option.splits)
qed

text \<open>Of the records that go to one file, one is reported queued, when the file is new, and the others as deduped.\<close>

definition queued_there :: "queue_dir \<times> string \<Rightarrow> jdict list \<Rightarrow> json list \<Rightarrow> nat" where
  "queued_there t rs xs = length [(r, x) \<leftarrow> zip rs xs. target_of r = Inr t \<and> result_status x = JStr ''queued'']"

lemma queued_there_Cons: "queued_there t (r # rs) (x # xs) =
    (if target_of r = Inr t \<and> result_status x = JStr ''queued'' then 1 else 0) + queued_there t rs xs"
  by (simp add: queued_there_def)

lemma enqueue_all_queued: "enqueue_all now rs q = (q1, Inr xs) \<Longrightarrow>
    set (map result_status xs) \<subseteq> {JStr ''queued'', JStr ''deduped''}
    \<and> (\<forall>t. queued_there t rs xs = (if \<not> holds q t \<and> Inr t \<in> target_of ` set rs then 1 else 0))"
proof (induction rs arbitrary: q xs)
  case Nil
  then show ?case by (simp add: queued_there_def)
next
  case (Cons r rs)
  from Cons.prems obtain q2 x ys where one: "enqueue_one now r q = (q2, Inr x)" and all: "enqueue_all now rs q2 = (q1, Inr ys)"
    and xs: "xs = x # ys" by (rule enqueue_all_ConsE)
  from one obtain dir f where t: "target_of r = Inr (dir, f)"
      "result_status x = JStr (if holds q (dir, f) then ''deduped'' else ''queued'')"
    and fs: "\<And>dir' f'. map_of (q_files q2 dir') f' = (if (dir', f') = (dir, f) \<and> \<not> holds q (dir, f) then Some (queued_file now r)
       else map_of (q_files q dir') f')"
    by (rule enqueue_one_exact) blast
  have h: "holds q2 u \<longleftrightarrow> holds q u \<or> u = (dir, f)" for u
    by (cases u) (auto simp: holds_def dhas_map_of fs)
  from Cons.IH [OF all] have ih: "set (map result_status ys) \<subseteq> {JStr ''queued'', JStr ''deduped''}"
    "queued_there u rs ys = (if \<not> holds q2 u \<and> Inr u \<in> target_of ` set rs then 1 else 0)" for u by blast+
  have "queued_there u (r # rs) xs = (if \<not> holds q u \<and> Inr u \<in> target_of ` set (r # rs) then 1 else 0)" for u
    by (cases "u = (dir, f)") (auto simp: xs queued_there_Cons t ih(2) h)
  with ih(1) show ?case by (simp add: xs t(2))
qed

section \<open>The audit log\<close>

definition audit_lines :: "event_queue \<Rightarrow> string list" where
  "audit_lines q = (case q_audit q of None \<Rightarrow> [] | Some t \<Rightarrow> text_lines t)"

definition audit_whole :: "event_queue \<Rightarrow> bool" where
  "audit_whole q \<longleftrightarrow> (case q_audit q of None \<Rightarrow> True | Some t \<Rightarrow> whole_lines t)"

lemma text_lines_empty [simp]: "text_lines [] = []" "whole_lines []"
  by (simp_all add: text_lines_def whole_lines_def)

lemma append_audit_lines:
  assumes "audit_whole q"
  shows "audit_lines (append_audit v q) = audit_lines q @ [json_dumps_sorted v]"
    and "audit_whole (append_audit v q)"
proof -
  define t where "t = (case q_audit q of None \<Rightarrow> '''' | Some t \<Rightarrow> t)"
  then have t: "whole_lines t" "audit_lines q = text_lines t"
    "q_audit (append_audit v q) = Some (append_line (json_dumps_sorted v) t)"
    using assms by (simp_all add: audit_whole_def audit_lines_def append_audit_def split: option.splits)
  have "newline \<notin> set (json_dumps_sorted v)"
    unfolding json_dumps_sorted_def by (rule newline_not_ascii [OF ascii_json_dumps])
  with t line_log.entries_append [of t "json_dumps_sorted v"] line_log.wf_append [of t "json_dumps_sorted v"]
  show "audit_lines (append_audit v q) = audit_lines q @ [json_dumps_sorted v]"
    and "audit_whole (append_audit v q)"
    by (simp_all add: audit_lines_def audit_whole_def)
qed

lemma enqueue_one_audit:
  assumes "enqueue_one now r q = (q1, Inr x)" and "audit_whole q"
  shows "\<exists>v. audit_lines q1 = audit_lines q @ [v]" and "audit_whole q1"
proof -
  obtain q' v where "q1 = append_audit v q'" "q_audit q' = q_audit q"
    using assms(1) by (fastforce simp: enqueue_one_def Let_def split: sum.splits if_splits)
  moreover from this assms(2) have "audit_whole q'" "audit_lines q' = audit_lines q"
    by (simp_all add: audit_whole_def audit_lines_def)
  ultimately show "\<exists>v. audit_lines q1 = audit_lines q @ [v]" "audit_whole q1"
    using append_audit_lines by auto
qed

lemma enqueue_all_audit:
  "enqueue_all now rs q = (q1, Inr xs) \<Longrightarrow> audit_whole q \<Longrightarrow>
     (\<exists>new. audit_lines q1 = audit_lines q @ new \<and> length new = length rs) \<and> audit_whole q1"
proof (induction rs arbitrary: q xs)
  case (Cons r rs)
  obtain q2 res where one: "enqueue_one now r q = (q2, res)" by fastforce
  with Cons.prems(1) obtain x ys where x: "res = Inr x" and rest: "enqueue_all now rs q2 = (q1, Inr ys)"
    by (auto split: sum.splits prod.splits)
  obtain v where "audit_lines q2 = audit_lines q @ [v]" "audit_whole q2"
    using enqueue_one_audit [OF one [unfolded x] Cons.prems(2)] by blast
  moreover from Cons.IH [OF rest this(2)] obtain new where
    "audit_lines q1 = audit_lines q2 @ new" "length new = length rs" "audit_whole q1" by blast
  ultimately show ?case by (intro conjI exI [of _ "v # new"]) simp_all
qed simp

section \<open>The whole operation\<close>

lemma init_queue_simps [simp]:
  "audit_lines (fst (init_event_queue now q)) = audit_lines q"
  "audit_whole (fst (init_event_queue now q)) = audit_whole q"
  by (auto simp: init_event_queue_def Let_def audit_lines_def audit_whole_def split: option.splits)

lemma init_event_queue_manifest:
  "init_event_queue now q = (q', Inr j) \<Longrightarrow> q_manifest q' = Some (Some j)"
  by (auto simp: init_event_queue_def Let_def split: option.splits)

lemma init_event_queue_again:
  "q_manifest q = Some (Some j) \<Longrightarrow> \<exists>q'. init_event_queue now q = (q', Inr j)
     \<and> q_files q' = q_files q \<and> q_manifest q' = q_manifest q"
  by (simp add: init_event_queue_def Let_def)

lemma enqueue_all_manifest: "q_manifest (fst (enqueue_all now rs q)) = q_manifest q"
proof (induction rs arbitrary: q)
  case (Cons r rs)
  have "q_manifest (fst (enqueue_one now r q)) = q_manifest q"
    by (simp add: enqueue_one_def Let_def split: sum.splits)
  with Cons [of "fst (enqueue_one now r q)"] show ?case
    by (auto split: sum.splits prod.splits)
qed simp

lemma enqueue_records_cases:
  assumes "enqueue_event_records root now rs q = (q1, Inr s)"
  obtains xs q0 where "enqueue_all now rs (fst (init_event_queue now q)) = (q0, Inr xs)"
    "q1 = fst (init_event_queue now q0)" "dget0 s ''enqueued'' = JList xs"
    "q_manifest q1 \<noteq> None" "\<exists>j. q_manifest q1 = Some (Some j)"
  using assms
  by (auto simp: enqueue_event_records_def summarize_event_queue_def split: prod.splits sum.splits
      dest!: init_event_queue_manifest)

section \<open>Properties\<close>


definition ex_record :: "string \<Rightarrow> string \<Rightarrow> jdict" where
  "ex_record key outcome = [
     (''record_id'', JStr ''record:1''),
     (''event'', JObj [(''event_id'', JStr ''event:1''),
        (''causality'', JObj [(''idempotency_key'', JStr key)])]),
     (''capability'', JObj [(''capability_id'', JStr ''cap:1''), (''effect_class'', JStr ''local_read''),
        (''required_policy_outcome'', JStr outcome)]),
     (''reaction'', JObj [(''policy_outcome'', JStr outcome), (''dead_letter_on_failure'', JBool True)]),
     (''evidence_refs'', strs [''receipt:1''])]"

definition ex_enqueued :: "event_queue \<times> jdict res" where
  "ex_enqueued = enqueue_event_records ''/q'' ''t0'' [ex_record ''k1'' ''allowed''] no_queue"

lemma ex_enqueued: "\<exists>q s. enqueue_event_records ''/q'' ''t0'' [ex_record ''k1'' ''allowed''] no_queue = (q, Inr s)"
proof -
  have "\<not> isl (snd ex_enqueued)" by code_simp
  then show ?thesis
    unfolding ex_enqueued_def
    by (cases "enqueue_event_records ''/q'' ''t0'' [ex_record ''k1'' ''allowed''] no_queue";
        cases "snd (enqueue_event_records ''/q'' ''t0'' [ex_record ''k1'' ''allowed''] no_queue)") auto
qed


text \<open>
  A stored record is never overwritten or removed: whatever is enqueued, and also when the call
  raises half way, every file of the queue keeps its content.
\<close>

theorem enqueue_keeps_records:
  "keeps_files q (fst (enqueue_event_records root now rs q))"
proof -
  obtain q1 r1 where i: "init_event_queue now q = (q1, r1)" by fastforce
  then have q1: "q_files q1 = q_files q" using queue_simps(5) [of now q] by simp
  obtain q2 r2 where a: "enqueue_all now rs q1 = (q2, r2)" by fastforce
  then have q2: "keeps_files q q2"
    using enqueue_all_keeps [of q1 now rs] keeps_same [OF q1] keeps_trans by fastforce
  obtain q3 r3 where i3: "init_event_queue now q2 = (q3, r3)" by fastforce
  then have "keeps_files q2 q3" using queue_simps(5) [of now q2] by (intro keeps_same) simp
  with i q1 a q2 i3 show ?thesis
    by (auto simp: enqueue_event_records_def summarize_event_queue_def split: sum.splits
        intro: keeps_same keeps_trans)
qed

text \<open>
  A call that succeeds on a log of whole lines adds exactly one line to it for each record.
\<close>

theorem enqueue_audits_each_record:
  assumes "enqueue_event_records root now rs q = (q1, Inr s)" and "audit_whole q"
  shows "\<exists>new. audit_lines q1 = audit_lines q @ new \<and> length new = length rs"
proof -
  from assms(1) obtain xs q0 where
    all: "enqueue_all now rs (fst (init_event_queue now q)) = (q0, Inr xs)"
    and q1: "q1 = fst (init_event_queue now q0)"
    by (rule enqueue_records_cases) blast
  from enqueue_all_audit [OF all] assms(2) show ?thesis by (simp add: q1)
qed

theorem enqueue_audits_each_record_witness:
  "\<exists>q s new. enqueue_event_records ''/q'' ''t0'' [ex_record ''k1'' ''allowed''] no_queue = (q, Inr s)
    \<and> audit_lines q = new \<and> length new = 1"
proof -
  from ex_enqueued obtain q s where
    q: "enqueue_event_records ''/q'' ''t0'' [ex_record ''k1'' ''allowed''] no_queue = (q, Inr s)" by blast
  have "audit_whole no_queue" "audit_lines no_queue = []"
    by (simp_all add: audit_whole_def audit_lines_def no_queue_def)
  with enqueue_audits_each_record [OF q this(1)] q show ?thesis by simp
qed

lemma queue_state_pending:
  "queue_state outcome errors = ''pending'' \<longleftrightarrow> outcome \<in> {''allowed'', ''redacted''} \<and> errors = []"
  by (simp add: queue_state_def EXECUTABLE_OUTCOMES_def)

lemma event_errors_Nil:
  "event_errors event capability reaction causality refs = [] \<longleftrightarrow>
     str_field event ''event_id'' \<noteq> '''' \<and> str_field capability ''capability_id'' \<noteq> ''''
     \<and> str_field causality ''idempotency_key'' \<noteq> '''' \<and> truthy refs
     \<and> dget0 reaction ''dead_letter_on_failure'' = JBool True
     \<and> str_field reaction ''policy_outcome'' = str_field capability ''required_policy_outcome''
     \<and> \<not> (str_field capability ''effect_class'' \<in> set HIGH_RISK_EFFECTS
          \<and> str_field reaction ''policy_outcome'' = ''allowed'')
     \<and> \<not> (str_field capability ''effect_class'' \<in> set HIGH_RISK_EFFECTS
          \<and> str_field reaction ''policy_outcome'' = ''requires_approval''
          \<and> str_field capability ''approval_mode'' \<notin> set STRICT_APPROVALS)"
  unfolding event_errors_def Let_def append_is_Nil_conv note_if_Nil by blast

lemma set_HIGH_RISK: "set HIGH_RISK_EFFECTS = {''high_risk_actuation'', ''irreversible_action''}"
  by (simp add: HIGH_RISK_EFFECTS_def)

lemma truthy_refs: "truthy (py_or (py_or v w) (JList [])) \<longleftrightarrow> \<not> (\<not> truthy v \<and> \<not> truthy w)"
  by (auto simp: py_or_def)

text \<open>
  C32: the exact condition under which a record is queued for execution.  It needs an event, a
  capability, an idempotency key, receipts and dead-lettering, an outcome that the capability
  requires and that is allowed or redacted, and a high-risk effect must not be plainly allowed.
\<close>

theorem pending_iff:
  "ev_state (validate_event_record r) = ''pending'' \<longleftrightarrow>
    (let event = dict_or_empty (dget0 r ''event'');
         capability = dict_or_empty (dget0 r ''capability'');
         reaction = dict_or_empty (dget0 r ''reaction'');
         outcome = py_str (dget reaction ''policy_outcome'' (JStr ''''))
     in py_str (dget event ''event_id'' (JStr '''')) \<noteq> ''''
      \<and> py_str (dget capability ''capability_id'' (JStr '''')) \<noteq> ''''
      \<and> py_str (dget (dict_or_empty (dget0 event ''causality'')) ''idempotency_key'' (JStr '''')) \<noteq> ''''
      \<and> \<not> (\<not> truthy (dget0 r ''evidence_refs'') \<and> \<not> truthy (dget0 reaction ''receipt_refs''))
      \<and> dget0 reaction ''dead_letter_on_failure'' = JBool True
      \<and> outcome = py_str (dget capability ''required_policy_outcome'' (JStr ''''))
      \<and> outcome \<in> {''allowed'', ''redacted''}
      \<and> \<not> (outcome = ''allowed'' \<and> py_str (dget capability ''effect_class'' (JStr '''')) \<in>
             {''high_risk_actuation'', ''irreversible_action''}))"
proof -
  have waits: "outcome \<noteq> ''requires_approval''" if "outcome \<in> {''allowed'', ''redacted''}" for outcome
    using that by auto
  show ?thesis
    unfolding validate_event_record_def Let_def event_decision.simps queue_state_pending event_errors_Nil
      str_field_def set_HIGH_RISK truthy_refs
    using waits by blast
qed

text \<open>
  Identity in the queue is coarser and finer than the idempotency key.  Two records with
  different keys that clean to one file name are taken for duplicates and the second is not stored;
  and one key whose records get different states is stored once in each.
\<close>

theorem keys_and_files_differ:
  "map fst (q_files (fst (enqueue_event_records ''/q'' ''t''
       [ex_record ''a/b'' ''allowed'', ex_record ''a_b'' ''allowed''] no_queue)) Pending) = [''a_b.json'']
   \<and> map fst (q_files (fst (enqueue_event_records ''/q'' ''t''
       [ex_record ''k'' ''allowed'', ex_record ''k'' ''denied''] no_queue)) Pending) = [''k.json'']
   \<and> map fst (q_files (fst (enqueue_event_records ''/q'' ''t''
       [ex_record ''k'' ''allowed'', ex_record ''k'' ''denied''] no_queue)) Blocked) = [''k.json'']"
  by (intro conjI; code_simp)

end
