(* ===== verification/Local_Store.thy ===== *)
theory Local_Store
  imports Json_Reader Event_Queue Py_Time
begin

text \<open>
  \<open>local_store.py\<close>: the local state store, a directory with a manifest, a journal and one directory of
  records per registry kind.  The journal is its text; the manifest and a record file hold the value
  they were written with, or \<open>None\<close> when their text does not parse.  A file is replaced atomically,
  so no temporary file is seen.  Every reading of the clock during an operation is its argument \<open>now\<close>; a
  file system that fails is not modelled.
\<close>

section \<open>Constants and names\<close>

definition DEFAULT_LANES :: "string list" where
  "DEFAULT_LANES = [''normal'', ''priority'', ''secure'', ''memory'', ''policy'', ''audit'', ''tombstone'',
     ''migration'', ''repair'', ''archive'']"
definition STORE_SCHEMA :: string where "STORE_SCHEMA = ''sourceos.local-state-store/v1alpha1''"
definition JOURNAL_SCHEMA :: string where "JOURNAL_SCHEMA = ''sourceos.journal-event/v1alpha1''"
definition EVENT_TYPES :: "string list" where
  "EVENT_TYPES = [''add'', ''update'', ''delete'', ''checkpoint'', ''repair'', ''policy'']"
definition REGISTRY_KINDS :: "string list" where
  "REGISTRY_KINDS = [''profiles'', ''devices'', ''actors'', ''schemas'', ''objects'', ''indexes'', ''repair-reports'']"
definition RECORD_SCHEMAS :: "string dict" where
  "RECORD_SCHEMAS = [
     (''profiles'', ''sourceos.profile-record/v1alpha1''), (''devices'', ''sourceos.device-record/v1alpha1''),
     (''actors'', ''sourceos.actor-record/v1alpha1''), (''schemas'', ''sourceos.schema-record/v1alpha1''),
     (''objects'', ''sourceos.object-record/v1alpha1''), (''indexes'', ''sourceos.index-record/v1alpha1''),
     (''repair-reports'', ''sourceos.repair-report/v1alpha1'')]"
definition DURABLE_DIRS :: "string list" where
  "DURABLE_DIRS = [''profiles'', ''devices'', ''actors'', ''schemas'', ''objects'', ''events'', ''repair-reports'']"
definition REBUILDABLE_DIRS :: "string list" where
  "REBUILDABLE_DIRS = [''indexes'', ''checkpoints'']"
definition DISPOSABLE_DIRS :: "string list" where
  "DISPOSABLE_DIRS = [''tmp'']"

definition safe_record_id :: "string \<Rightarrow> string res" where
  "safe_record_id record_id =
     (let cleaned = strip_char CHR ''.'' (map safe_char (strip record_id))
      in if cleaned = '''' then Inl (ValueError ''record id cannot be empty'') else Inr cleaned)"

text \<open>\<open>StorePaths.registry\<close>: the directory of a kind.\<close>

definition registry :: "string \<Rightarrow> string res" where
  "registry kind = (if kind \<in> set REGISTRY_KINDS then Inr kind
     else Inl (ValueError (''unknown registry kind: '' @ kind)))"

section \<open>The store\<close>

record local_store =
  ls_root :: string
  ls_dirs :: "string list"
  ls_manifest :: "json option option"
  ls_journal :: "string option"
  ls_records :: "string \<Rightarrow> json option dict"

definition no_store :: "string \<Rightarrow> local_store" where
  "no_store path = \<lparr>ls_root = path, ls_dirs = [], ls_manifest = None, ls_journal = None,
     ls_records = (\<lambda>_. [])\<rparr>"

definition is_initialized :: "local_store \<Rightarrow> bool" where
  "is_initialized st \<longleftrightarrow> ls_manifest st \<noteq> None"

definition uninitialized_manifest :: "local_store \<Rightarrow> jdict" where
  "uninitialized_manifest st = [
     (''schema'', JStr STORE_SCHEMA), (''initialized'', JBool False), (''root'', JStr (ls_root st)),
     (''backend'', JStr ''filesystem-jsonl''), (''active_generation'', JInt 0),
     (''last_known_good_generation'', JInt 0), (''lanes'', strs DEFAULT_LANES),
     (''durable_dirs'', strs DURABLE_DIRS), (''rebuildable_dirs'', strs REBUILDABLE_DIRS),
     (''disposable_dirs'', strs DISPOSABLE_DIRS), (''registry_kinds'', strs (sort REGISTRY_KINDS))]"

definition read_manifest :: "bool \<Rightarrow> local_store \<Rightarrow> json res" where
  "read_manifest require_initialized st = (case ls_manifest st of
       None \<Rightarrow> (if require_initialized
                then Inl (FileNotFound (''local store is not initialized: '' @ ls_root st))
                else Inr (JObj (uninitialized_manifest st)))
     | Some None \<Rightarrow> Inl (ValueError ''invalid JSON'')
     | Some (Some v) \<Rightarrow> Inr v)"

definition write_manifest :: "string \<Rightarrow> jdict \<Rightarrow> local_store \<Rightarrow> local_store" where
  "write_manifest now manifest st =
     st\<lparr>ls_manifest := Some (Some (JObj (dset ''updated_at'' (JStr now)
          (dset ''initialized'' (JBool True) manifest))))\<rparr>"

definition fresh_manifest :: "string \<Rightarrow> jdict" where
  "fresh_manifest now = [
     (''schema'', JStr STORE_SCHEMA), (''created_at'', JStr now), (''updated_at'', JStr now),
     (''active_generation'', JInt 1), (''last_known_good_generation'', JInt 1),
     (''lanes'', strs DEFAULT_LANES), (''backend'', JStr ''filesystem-jsonl''),
     (''durable_dirs'', strs DURABLE_DIRS), (''rebuildable_dirs'', strs REBUILDABLE_DIRS),
     (''disposable_dirs'', strs DISPOSABLE_DIRS), (''registry_kinds'', strs (sort REGISTRY_KINDS))]"

definition make_dirs :: "local_store \<Rightarrow> local_store" where
  "make_dirs st = st\<lparr>ls_dirs := List.union (DURABLE_DIRS @ REBUILDABLE_DIRS @ DISPOSABLE_DIRS) (ls_dirs st)\<rparr>"

definition make_journal :: "local_store \<Rightarrow> local_store" where
  "make_journal st = (case ls_journal st of None \<Rightarrow> st\<lparr>ls_journal := Some ''''\<rparr> | Some t \<Rightarrow> st)"

definition init :: "string \<Rightarrow> local_store \<Rightarrow> local_store \<times> json res" where
  "init now st =
     (let st1 = make_journal (make_dirs st);
          st2 = (if is_initialized st1 then st1 else write_manifest now (fresh_manifest now) st1)
      in (st2, read_manifest True st2))"

section \<open>The journal\<close>

definition corrupt_event :: "string \<Rightarrow> nat \<Rightarrow> string \<Rightarrow> jdict" where
  "corrupt_event now line_number msg = [
     (''schema'', JStr JOURNAL_SCHEMA), (''event_id'', JStr (''corrupt-line-'' @ nat_str line_number)),
     (''event_type'', JStr ''corrupt''), (''lane'', JStr ''repair''), (''object_id'', JNull),
     (''producer'', JStr ''local-store-reader''), (''created_at'', JStr now),
     (''payload'', JObj [(''line_number'', JInt (int line_number)), (''error'', JStr msg)]),
     (''applied'', JBool False)]"

definition journal_event :: "string \<Rightarrow> nat \<Rightarrow> string \<Rightarrow> json list" where
  "journal_event now line_number line =
     (if strip line = '''' then []
      else (case json_loads line of
              Inl msg \<Rightarrow> [JObj (corrupt_event now line_number msg)]
            | Inr v \<Rightarrow> [v]))"

fun journal_events :: "string \<Rightarrow> nat \<Rightarrow> string list \<Rightarrow> json list" where
  "journal_events now line_number [] = []"
| "journal_events now line_number (l # ls) =
     journal_event now line_number l @ journal_events now (Suc line_number) ls"

definition iter_events :: "string \<Rightarrow> local_store \<Rightarrow> json list" where
  "iter_events now st = (case ls_journal st of None \<Rightarrow> []
     | Some text \<Rightarrow> journal_events now 1 (file_lines text))"

definition event_id_of :: "nat \<Rightarrow> string" where
  "event_id_of count = ''evt-'' @ pad_zeros 8 (nat_str count)"

definition next_event_id :: "string \<Rightarrow> local_store \<Rightarrow> string" where
  "next_event_id now st = event_id_of (length (iter_events now st) + 1)"

text \<open>\<open>s in v\<close> for a string \<open>s\<close>.\<close>

fun str_in :: "string \<Rightarrow> json \<Rightarrow> bool res" where
  "str_in s (JList xs) = Inr (JStr s \<in> set xs)"
| "str_in s (JStr t) = Inr (contains s t)"
| "str_in s (JObj d) = Inr (dhas d s)"
| "str_in s _ = Inl TypeError"

definition new_event ::
  "string \<Rightarrow> string \<Rightarrow> string \<Rightarrow> string \<Rightarrow> string option \<Rightarrow> string \<Rightarrow> jdict option \<Rightarrow> jdict" where
  "new_event now event_id event_type lane object_id producer payload = [
     (''schema'', JStr JOURNAL_SCHEMA), (''event_id'', JStr event_id), (''event_type'', JStr event_type),
     (''lane'', JStr lane),
     (''object_id'', JStr (case object_id of None \<Rightarrow> ''object-'' @ event_id
        | Some i \<Rightarrow> if i = '''' then ''object-'' @ event_id else i)),
     (''producer'', JStr producer), (''created_at'', JStr now),
     (''payload'', JObj (case payload of None \<Rightarrow> [] | Some p \<Rightarrow> p)), (''applied'', JBool True)]"

definition append_journal :: "jdict \<Rightarrow> local_store \<Rightarrow> local_store" where
  "append_journal event st =
     st\<lparr>ls_journal := Some (append_line (json_dumps (JObj event))
          (case ls_journal st of None \<Rightarrow> '''' | Some t \<Rightarrow> t))\<rparr>"

text \<open>The checks before anything is written.\<close>

definition append_checks :: "string \<Rightarrow> string \<Rightarrow> local_store \<Rightarrow> jdict res" where
  "append_checks event_type lane st =
     ebind (read_manifest True st) (\<lambda>manifest.
     ebind (ebind (jget manifest ''lanes'' (JList [])) (str_in lane)) (\<lambda>known.
     ebind (eguard known (ValueError (''unknown lane: '' @ lane))) (\<lambda>_.
     ebind (eguard (event_type \<in> set EVENT_TYPES) (ValueError (''unknown event_type: '' @ event_type))) (\<lambda>_.
     Inr (dict_or_empty manifest)))))"

text \<open>The event is in the journal before the generation is raised, so it stays there when the
  manifest holds no number.\<close>

definition append_event ::
  "string \<Rightarrow> string \<Rightarrow> string \<Rightarrow> string option \<Rightarrow> string \<Rightarrow> jdict option \<Rightarrow> local_store
    \<Rightarrow> local_store \<times> jdict res" where
  "append_event now event_type lane object_id producer payload st =
     (case append_checks event_type lane st of
        Inl e \<Rightarrow> (st, Inl e)
      | Inr manifest \<Rightarrow>
          (let event = new_event now (next_event_id now st) event_type lane object_id producer payload;
               st1 = append_journal event st
           in case py_int (dget manifest ''active_generation'' (JInt 1)) of
                Inl e \<Rightarrow> (st1, Inl e)
              | Inr g \<Rightarrow> (write_manifest now (dset ''active_generation'' (JInt (g + 1)) manifest) st1,
                          Inr event)))"

section \<open>Records\<close>

definition record_file :: "string \<Rightarrow> string" where
  "record_file sid = sid @ ''.json''"

definition stored_record :: "string \<Rightarrow> string \<Rightarrow> string \<Rightarrow> jdict \<Rightarrow> jdict" where
  "stored_record now kind record_id r =
     dset ''updated_at'' (JStr now)
       (dsetdefault ''schema'' (JStr (dget RECORD_SCHEMAS kind ''''))
         (dsetdefault ''record_id'' (JStr record_id) r))"

definition put_file_record :: "string \<Rightarrow> string \<Rightarrow> json option \<Rightarrow> local_store \<Rightarrow> local_store" where
  "put_file_record kind f v st =
     st\<lparr>ls_records := (ls_records st)(kind := dset f v (ls_records st kind))\<rparr>"

definition make_registry :: "string \<Rightarrow> local_store \<Rightarrow> local_store" where
  "make_registry kind st = st\<lparr>ls_dirs := List.insert kind (ls_dirs st)\<rparr>"

text \<open>The directory of the kind is made before the identifier is looked at.\<close>

definition put_record ::
  "string \<Rightarrow> string \<Rightarrow> string \<Rightarrow> json \<Rightarrow> local_store \<Rightarrow> local_store \<times> jdict res" where
  "put_record now kind record_id r st =
     (case ebind (registry kind) (\<lambda>_. ebind (read_manifest True st) (\<lambda>_.
             eguard (is_dict r) TypeError)) of
        Inl e \<Rightarrow> (st, Inl e)
      | Inr _ \<Rightarrow>
          (let st1 = make_registry kind st in
           case safe_record_id record_id of
             Inl e \<Rightarrow> (st1, Inl e)
           | Inr sid \<Rightarrow>
               (let stored = stored_record now kind record_id (dict_or_empty r)
                in (put_file_record kind (record_file sid) (Some (JObj stored)) st1, Inr stored))))"

definition get_record :: "string \<Rightarrow> string \<Rightarrow> local_store \<Rightarrow> json res" where
  "get_record kind record_id st =
     ebind (registry kind) (\<lambda>k. ebind (safe_record_id record_id) (\<lambda>sid.
       case map_of (ls_records st k) (record_file sid) of
         None \<Rightarrow> Inl (FileNotFound (''record not found: '' @ kind @ ''/'' @ record_id))
       | Some None \<Rightarrow> Inl (ValueError ''invalid JSON'')
       | Some (Some v) \<Rightarrow> Inr v))"

definition list_records :: "string \<Rightarrow> local_store \<Rightarrow> json list res" where
  "list_records kind st =
     ebind (registry kind) (\<lambda>k.
       if k \<notin> set (ls_dirs st) then Inr []
       else emap (\<lambda>(f, v). case v of None \<Rightarrow> Inl (ValueError ''invalid JSON'') | Some j \<Rightarrow> Inr j)
              (sort_key fst [(f, v) \<leftarrow> ls_records st k. ends_with ''.json'' f]))"

section \<open>The summary\<close>

text \<open>A dictionary whose keys are hashable values; assignment replaces in place or appends.\<close>

type_synonym 'v vdict = "(json \<times> 'v) list"

definition vhas :: "'v vdict \<Rightarrow> json \<Rightarrow> bool" where
  "vhas d k \<longleftrightarrow> list_ex (\<lambda>(k', v). py_eq k' k) d"

definition vget :: "'v vdict \<Rightarrow> json \<Rightarrow> 'v \<Rightarrow> 'v" where
  "vget d k v = (case find (\<lambda>(k', v). py_eq k' k) d of None \<Rightarrow> v | Some (k', w) \<Rightarrow> w)"

definition vset :: "json \<Rightarrow> 'v \<Rightarrow> 'v vdict \<Rightarrow> 'v vdict" where
  "vset k v d = (if vhas d k then map (\<lambda>(k', w). (k', if py_eq k' k then v else w)) d else d @ [(k, v)])"

definition vadjust :: "json \<Rightarrow> ('v \<Rightarrow> 'v) \<Rightarrow> 'v vdict \<Rightarrow> 'v vdict" where
  "vadjust k f d = map (\<lambda>(k', w). (k', if py_eq k' k then f w else w)) d"

definition need_hashable :: "json \<Rightarrow> unit res" where
  "need_hashable v = eguard (hashable v) TypeError"

record lane_summary =
  sm_name :: json
  sm_status :: string
  sm_total :: int
  sm_tombstones :: int
  sm_corrupted :: int
  sm_segments :: int
  sm_bytes :: int
  sm_lag :: int
  sm_checksum :: string

definition empty_lane_summary :: "json \<Rightarrow> lane_summary" where
  "empty_lane_summary name = \<lparr>sm_name = name, sm_status = ''active'', sm_total = 0, sm_tombstones = 0,
     sm_corrupted = 0, sm_segments = 0, sm_bytes = 0, sm_lag = 0, sm_checksum = ''verified''\<rparr>"

definition lane_summary_json :: "lane_summary \<Rightarrow> json" where
  "lane_summary_json l = (let priority = (sm_name l = JStr ''priority'') in JObj [
     (''name'', sm_name l), (''status'', JStr (sm_status l)),
     (''sla'', JObj [(''max_heartbeat_age_ms'', JInt 30000),
        (''max_replay_lag_events'', JInt (if priority then 0 else 100)),
        (''max_replay_lag_ms'', JInt (if priority then 1000 else 10000))]),
     (''objects'', JObj [(''total'', JInt (sm_total l)), (''tombstones'', JInt (sm_tombstones l)),
        (''orphans'', JInt 0), (''corrupted'', JInt (sm_corrupted l)), (''encrypted'', JInt 0),
        (''redacted'', JInt 0)]),
     (''journal'', JObj [(''segment_count'', JInt (sm_segments l)), (''total_bytes'', JInt (sm_bytes l)),
        (''max_segment_bytes'', JInt (sm_bytes l)), (''oldest_unapplied_event_age_ms'', JInt 0),
        (''replay_lag_events'', JInt (sm_lag l)), (''replay_lag_bytes'', JInt 0),
        (''replay_throughput_events_per_sec'', JInt 0), (''replay_eta_ms'', JInt 0),
        (''checksum_state'', JStr (sm_checksum l))]),
     (''maintenance'', JObj [(''last_compact_started_at'', JNull), (''last_compact_completed_at'', JNull),
        (''last_compact_duration_ms'', JNull), (''compaction_debt'', JStr ''none''),
        (''last_purge_started_at'', JNull), (''last_purge_completed_at'', JNull),
        (''purge_debt'', JStr ''none''), (''last_repair_at'', JNull), (''repair_debt'', JStr ''none'')])])"

record event_counts =
  ec_external_requested :: int
  ec_accepted :: int
  ec_journaled :: int
  ec_applied :: int

definition empty_event_counts :: event_counts where
  "empty_event_counts = \<lparr>ec_external_requested = 0, ec_accepted = 0, ec_journaled = 0, ec_applied = 0\<rparr>"

definition event_counts_json :: "event_counts \<Rightarrow> json" where
  "event_counts_json c = JObj [
     (''external_requested'', JInt (ec_external_requested c)), (''internal_generated'', JInt 0),
     (''accepted'', JInt (ec_accepted c)), (''journaled'', JInt (ec_journaled c)),
     (''applied'', JInt (ec_applied c)), (''deduped'', JInt 0), (''replayed'', JInt 0),
     (''skipped'', JInt 0), (''failed'', JInt 0)]"

record delete_counts =
  dc_external_requested :: int
  dc_authorized :: int
  dc_tombstoned :: int
  dc_journaled :: int
  dc_propagated :: int

definition delete_counts_json :: "delete_counts \<Rightarrow> json" where
  "delete_counts_json c = JObj [
     (''external_requested'', JInt (dc_external_requested c)), (''authorized'', JInt (dc_authorized c)),
     (''tombstoned'', JInt (dc_tombstoned c)), (''journaled'', JInt (dc_journaled c)),
     (''propagated'', JInt (dc_propagated c)), (''purged'', JInt 0), (''failed'', JInt 0)]"

record tally =
  t_lanes :: "lane_summary vdict"
  t_add :: event_counts
  t_update :: event_counts
  t_delete :: delete_counts
  t_seen :: "string list"
  t_deleted :: "string list"
  t_corrupt :: int
  t_unapplied :: int
  t_producers :: "int vdict"

definition event_applied :: "jdict \<Rightarrow> bool" where
  "event_applied event \<longleftrightarrow> truthy (dget event ''applied'' (JBool True))"

definition count_change :: "bool \<Rightarrow> event_counts \<Rightarrow> event_counts" where
  "count_change applied c = \<lparr>ec_external_requested = ec_external_requested c + 1,
     ec_accepted = ec_accepted c + 1, ec_journaled = ec_journaled c + 1,
     ec_applied = ec_applied c + (if applied then 1 else 0)\<rparr>"

definition count_delete :: "bool \<Rightarrow> delete_counts \<Rightarrow> delete_counts" where
  "count_delete applied c = \<lparr>dc_external_requested = dc_external_requested c + 1,
     dc_authorized = dc_authorized c + 1, dc_tombstoned = dc_tombstoned c + 1,
     dc_journaled = dc_journaled c + 1, dc_propagated = dc_propagated c + (if applied then 1 else 0)\<rparr>"

definition add_to :: "string \<Rightarrow> string list \<Rightarrow> string list" where
  "add_to x xs = List.insert x xs"

definition tally_kind :: "json \<Rightarrow> json \<Rightarrow> json \<Rightarrow> bool \<Rightarrow> tally \<Rightarrow> tally" where
  "tally_kind event_type lane object_id applied t =
     (if event_type = JStr ''add'' then t\<lparr>t_add := count_change applied (t_add t)\<rparr>
      else if event_type = JStr ''update'' then t\<lparr>t_update := count_change applied (t_update t)\<rparr>
      else if event_type = JStr ''delete'' then
        (let t1 = t\<lparr>t_delete := count_delete applied (t_delete t)\<rparr> in
         if truthy object_id
         then t1\<lparr>t_deleted := add_to (py_str object_id) (t_deleted t1),
                 t_lanes := vadjust lane (\<lambda>l. l\<lparr>sm_tombstones := sm_tombstones l + 1\<rparr>) (t_lanes t1)\<rparr>
         else t1)
      else if event_type \<in> {JStr ''checkpoint'', JStr ''repair'', JStr ''policy''}
      then t\<lparr>t_lanes := vadjust lane (\<lambda>l. l\<lparr>sm_total := sm_total l + 1\<rparr>) (t_lanes t)\<rparr>
      else t)"

text \<open>One event of the journal.\<close>

definition tally_event :: "json \<Rightarrow> tally \<Rightarrow> tally res" where
  "tally_event v t =
     ebind (jget v ''lane'' (JStr ''repair'')) (\<lambda>lane.
     ebind (need_hashable lane) (\<lambda>_.
     let event = dict_or_empty v;
         event_type = dget0 event ''event_type'';
         producer = dget event ''producer'' (JStr ''unknown'');
         object_id = dget0 event ''object_id'';
         applied = event_applied event;
         lanes = (if vhas (t_lanes t) lane then t_lanes t
                  else t_lanes t @ [(lane, empty_lane_summary lane)])
     in ebind (need_hashable producer) (\<lambda>_.
        let t1 = t\<lparr>t_lanes := lanes, t_producers := vset producer (vget (t_producers t) producer 0 + 1) (t_producers t)\<rparr>
        in if event_type = JStr ''corrupt''
           then Inr (t1\<lparr>t_corrupt := t_corrupt t + 1,
                 t_lanes := vadjust lane (\<lambda>l. l\<lparr>sm_corrupted := sm_corrupted l + 1\<rparr>) lanes\<rparr>)
           else ebind (need_hashable event_type) (\<lambda>_.
             Inr (tally_kind event_type lane object_id applied
               (t1\<lparr>t_seen := (if truthy object_id then add_to (py_str object_id) (t_seen t) else t_seen t),
                   t_unapplied := t_unapplied t + (if applied then 0 else 1)\<rparr>))))))"

definition initial_lanes :: "json \<Rightarrow> lane_summary vdict res" where
  "initial_lanes lane_names = ebind (py_iter lane_names)
     (\<lambda>names. efold (\<lambda>name d. ebind (need_hashable name)
        (\<lambda>_. Inr (vset name (empty_lane_summary name) d))) names [])"

definition initial_tally :: "lane_summary vdict \<Rightarrow> tally" where
  "initial_tally lanes = \<lparr>t_lanes = lanes, t_add = empty_event_counts, t_update = empty_event_counts,
     t_delete = \<lparr>dc_external_requested = 0, dc_authorized = 0, dc_tombstoned = 0, dc_journaled = 0,
       dc_propagated = 0\<rparr>,
     t_seen = [], t_deleted = [], t_corrupt = 0, t_unapplied = 0, t_producers = []\<rparr>"

definition live_objects :: "tally \<Rightarrow> string list" where
  "live_objects t = [x \<leftarrow> t_seen t. x \<notin> set (t_deleted t)]"

definition finish_lane :: "bool \<Rightarrow> int \<Rightarrow> tally \<Rightarrow> lane_summary \<Rightarrow> lane_summary" where
  "finish_lane initialized journal_bytes t l =
     l\<lparr>sm_segments := (if journal_bytes \<noteq> 0 then 1 else 0), sm_bytes := journal_bytes,
       sm_lag := t_unapplied t, sm_checksum := (if t_corrupt t = 0 then ''verified'' else ''mismatch''),
       sm_status := (if initialized then sm_status l else ''dormant'')\<rparr>"

definition finish_repair :: "tally \<Rightarrow> lane_summary \<Rightarrow> lane_summary" where
  "finish_repair t l = l\<lparr>sm_corrupted := sm_corrupted l + t_corrupt t,
     sm_status := (if t_corrupt t \<noteq> 0 then ''degraded'' else sm_status l)\<rparr>"

definition finish_lanes :: "bool \<Rightarrow> int \<Rightarrow> tally \<Rightarrow> lane_summary vdict" where
  "finish_lanes initialized journal_bytes t =
     vadjust (JStr ''repair'') (finish_repair t)
       (vadjust (JStr ''normal'') (\<lambda>l. l\<lparr>sm_total := int (length (live_objects t))\<rparr>)
         (map (\<lambda>(k, l). (k, finish_lane initialized journal_bytes t l)) (t_lanes t)))"

definition registry_counts :: "bool \<Rightarrow> local_store \<Rightarrow> json res" where
  "registry_counts initialized st =
     ebind (emap (\<lambda>kind. if initialized then ebind (list_records kind st) (\<lambda>rs. Inr (kind, JInt (int (length rs))))
                         else Inr (kind, JInt 0)) (sort REGISTRY_KINDS)) (\<lambda>d. Inr (JObj d))"

definition local_state_json :: "local_store \<Rightarrow> json \<Rightarrow> jdict" where
  "local_state_json st counts = [
     (''initialized'', JBool (is_initialized st)), (''root'', JStr (ls_root st)),
     (''durable_dirs'', strs DURABLE_DIRS), (''rebuildable_dirs'', strs REBUILDABLE_DIRS),
     (''disposable_dirs'', strs DISPOSABLE_DIRS), (''registry_counts'', counts),
     (''journal_present'', JBool (ls_journal st \<noteq> None)), (''manifest_present'', JBool (is_initialized st))]"

definition store_checksum :: "bool \<Rightarrow> int \<Rightarrow> string" where
  "store_checksum initialized corrupt =
     (if initialized \<and> corrupt = 0 then ''verified'' else if \<not> initialized then ''unverified'' else ''mismatch'')"

definition store_json :: "local_store \<Rightarrow> jdict \<Rightarrow> int \<Rightarrow> json res" where
  "store_json st manifest corrupt =
     (let ini = is_initialized st in
     ebind (py_int (dget manifest ''active_generation'' (JInt 0))) (\<lambda>active.
     ebind (py_int (dget manifest ''last_known_good_generation'' (JInt 0))) (\<lambda>good.
     Inr (JObj [
       (''name'', JStr ''content-store-a''), (''role'', JStr (if ini then ''active'' else ''retired'')),
       (''backend'', dget manifest ''backend'' (JStr ''filesystem-jsonl'')),
       (''schema_version'', JStr ''1.0.0''),
       (''created_by_version'', dget manifest ''created_by_version'' (JStr ''0.1.0'')),
       (''runtime_version'', dget manifest ''runtime_version'' (JStr ''0.1.0'')),
       (''previous_runtime_version'', dget0 manifest ''previous_runtime_version''),
       (''migration_state'', dget manifest ''migration_state'' (JStr ''none'')),
       (''active_generation'', JInt active), (''last_known_good_generation'', JInt good),
       (''shadow_present'', JBool (''checkpoints'' \<in> set (ls_dirs st))),
       (''manifest_present'', JBool ini), (''checksum_state'', JStr (store_checksum ini corrupt)),
       (''flags_raw'', JInt (if ini then 100664130 else 0)),
       (''flags_hex'', JStr (if ini then ''0x6000342'' else ''0x0'')),
       (''flags_decoded'', strs (if ini then [''LANE_CONTENT'', ''LANE_USER_VISIBLE'', ''STORE_JOURNALED'',
          ''STORE_SHADOWED'', ''COMPACTION_ENABLED''] else [])),
       (''unknown_flags'', JList [])]))))"

definition producers_json :: "int vdict \<Rightarrow> json" where
  "producers_json d = JList (map (\<lambda>(k, n). JObj [(''producer'', k), (''events'', JInt n)])
     (sort_key (\<lambda>(k, n). - n) d))"

record store_summary =
  su_manifest :: json
  su_local_state :: jdict
  su_stores :: json
  su_lanes :: "json list"
  su_pipeline :: json
  su_top_producers :: json

definition pipeline_json :: "tally \<Rightarrow> json" where
  "pipeline_json t = JObj [(''add'', event_counts_json (t_add t)),
     (''update'', event_counts_json (t_update t)), (''delete'', delete_counts_json (t_delete t))]"

definition journal_size :: "local_store \<Rightarrow> int" where
  "journal_size st = (case ls_journal st of None \<Rightarrow> 0 | Some t \<Rightarrow> int (length (utf8 t)))"

definition tally_store :: "string \<Rightarrow> local_store \<Rightarrow> (jdict \<times> tally) res" where
  "tally_store now st =
     ebind (read_manifest False st) (\<lambda>m.
     ebind (jget m ''lanes'' (strs DEFAULT_LANES)) (\<lambda>lane_names.
     ebind (initial_lanes lane_names) (\<lambda>lanes.
     ebind (efold tally_event (if is_initialized st then iter_events now st else []) (initial_tally lanes)) (\<lambda>t.
     Inr (dict_or_empty m, t)))))"

definition summarize :: "string \<Rightarrow> local_store \<Rightarrow> store_summary res" where
  "summarize now st =
     ebind (tally_store now st) (\<lambda>(manifest, t).
     ebind (registry_counts (is_initialized st) st) (\<lambda>counts.
     ebind (store_json st manifest (t_corrupt t)) (\<lambda>store.
     Inr \<lparr>su_manifest = JObj manifest, su_local_state = local_state_json st counts,
         su_stores = JList [store],
         su_lanes = map (\<lambda>(k, l). lane_summary_json l) (finish_lanes (is_initialized st) (journal_size st) t),
         su_pipeline = pipeline_json t, su_top_producers = producers_json (t_producers t)\<rparr>)))"

end
