(* ===== verification/Local_Store_Properties.thy ===== *)
theory Local_Store_Properties
  imports Local_Store
begin

text \<open>
  The theorems about the local store.  \<open>holds_events\<close> relates a store to the list of events it holds;
  appending implements adding to that list, putting a record implements updating a map, and both keep
  the invariant \<open>store_inv\<close> of every history.
\<close>

section \<open>What the journal holds\<close>

text \<open>An event as \<open>append_event\<close> writes it.\<close>

definition event_wf :: "jdict \<Rightarrow> bool" where
  "event_wf e \<longleftrightarrow> python_value (JObj e) \<and> dget0 e ''event_type'' \<in> JStr ` set EVENT_TYPES
     \<and> dget0 e ''lane'' \<in> JStr ` set DEFAULT_LANES \<and> dhas e ''lane'' \<and> is_str (dget0 e ''object_id'')
     \<and> truthy (dget0 e ''object_id'') \<and> is_str (dget e ''producer'' (JStr '''')) \<and> dhas e ''producer''
     \<and> dget0 e ''applied'' = JBool True"

definition event_ids :: "jdict list \<Rightarrow> json list" where
  "event_ids es = map (\<lambda>e. dget0 e ''event_id'') es"

text \<open>The store holds exactly these events: the abstraction the journal implements.\<close>

definition holds_events :: "local_store \<Rightarrow> jdict list \<Rightarrow> bool" where
  "holds_events st es \<longleftrightarrow>
     (\<exists>d text. ls_manifest st = Some (Some (JObj d)) \<and> ls_journal st = Some text \<and> whole_lines text
        \<and> file_lines text = map (\<lambda>e. json_dumps (JObj e)) es \<and> list_all event_wf es
        \<and> event_ids es = map (\<lambda>i. JStr (event_id_of i)) [1..<Suc (length es)]
        \<and> dget0 d ''lanes'' = strs DEFAULT_LANES \<and> dhas d ''lanes''
        \<and> dget d ''active_generation'' (JInt 1) = JInt (1 + int (length es))
        \<and> dhas d ''active_generation''
        \<and> dget0 d ''last_known_good_generation'' = JInt 1 \<and> \<not> dhas d ''migration_state'')
     \<and> set (DURABLE_DIRS @ REBUILDABLE_DIRS @ DISPOSABLE_DIRS) \<subseteq> set (ls_dirs st)"

lemma strip_nonblank: "c \<in> set s \<Longrightarrow> \<not> is_space c \<Longrightarrow> strip s \<noteq> []"
proof -
  assume c: "c \<in> set s" "\<not> is_space c"
  then have "c \<in> set (lstrip s)" unfolding lstrip_def by (induction s) auto
  then show "strip s \<noteq> []" using c(2) by (auto simp: strip_def rstrip_def dropWhile_eq_Nil_conv)
qed

lemma dumped_nonblank: "strip (json_dumps (JObj e)) \<noteq> []"
  by (rule strip_nonblank [of "CHR ''{''"]) (simp_all add: is_space_def)

lemma journal_event_dumped: "python_value (JObj e) \<Longrightarrow> journal_event now i (json_dumps (JObj e)) = [JObj e]"
  by (simp only: journal_event_def dumped_nonblank if_False loads_dumps sum.case)

lemma journal_events_dumped:
  "list_all event_wf es \<Longrightarrow> journal_events now i (map (\<lambda>e. json_dumps (JObj e)) es) = map JObj es"
  by (induction es arbitrary: i)
    (simp_all add: journal_event_dumped event_wf_def del: json_dumps.simps python_value.simps)

lemma holds_iter: "holds_events st es \<Longrightarrow> iter_events now st = map JObj es"
  by (auto simp: holds_events_def iter_events_def journal_events_dumped simp del: json_dumps.simps upt_Suc One_nat_def)

lemma holds_unique: "holds_events st es \<Longrightarrow> holds_events st es' \<Longrightarrow> es = es'"
  by (metis holds_iter inj_map_eq_map inj_def json.inject(6))

lemma digits_nat_zeros: "digits_nat (replicate k CHR ''0'' @ s) = digits_nat s"
  by (induction k) (simp_all add: digits_nat_def)

lemma event_id_inj: "event_id_of i = event_id_of j \<longleftrightarrow> i = j"
proof
  assume "event_id_of i = event_id_of j"
  then have "digits_nat (pad_zeros 8 (nat_str i)) = digits_nat (pad_zeros 8 (nat_str j))"
    by (simp add: event_id_of_def)
  then show "i = j"
    by (simp only: pad_zeros_def digits_nat_zeros nat_str_digits [THEN conjunct2, THEN conjunct1])
qed simp

lemma event_ids_distinct:
  "event_ids es = map (\<lambda>i. JStr (event_id_of i)) [1..<Suc (length es)] \<Longrightarrow> distinct (event_ids es)"
  by (simp add: distinct_map inj_on_def event_id_inj del: upt_Suc)

section \<open>Appending implements adding to the list\<close>

lemma new_event_wf:
  assumes "event_type \<in> set EVENT_TYPES" and "lane \<in> set DEFAULT_LANES"
    and "case payload of None \<Rightarrow> True | Some p \<Rightarrow> python_value (JObj p)"
  shows "event_wf (new_event now i event_type lane object_id producer payload)"
  using assms by (auto simp: event_wf_def new_event_def split: option.splits)

lemma append_checks_holds:
  assumes "holds_events st es"
  shows "append_checks event_type lane st =
    (if lane \<notin> set DEFAULT_LANES then Inl (ValueError (''unknown lane: '' @ lane))
     else if event_type \<notin> set EVENT_TYPES then Inl (ValueError (''unknown event_type: '' @ event_type))
     else (case ls_manifest st of Some (Some (JObj d)) \<Rightarrow> Inr d | _ \<Rightarrow> Inr []))"
proof -
  obtain d where d: "ls_manifest st = Some (Some (JObj d))" "dget0 d ''lanes'' = strs DEFAULT_LANES" "dhas d ''lanes''"
    using assms by (auto simp: holds_events_def)
  have "dget d ''lanes'' (JList []) = strs DEFAULT_LANES"
    using d(2,3) by (auto simp: dget_def dhas_map_of split: option.splits)
  then show ?thesis
    by (auto simp: append_checks_def read_manifest_def d(1) eguard_def)
qed

lemma append_event_holds:
  assumes holds: "holds_events st es" and "event_type \<in> set EVENT_TYPES" "lane \<in> set DEFAULT_LANES"
    and "case payload of None \<Rightarrow> True | Some p \<Rightarrow> python_value (JObj p)"
    and e_def: "e = new_event now (event_id_of (Suc (length es))) event_type lane object_id producer payload"
  shows "snd (append_event now event_type lane object_id producer payload st) = Inr e"
    and "holds_events (fst (append_event now event_type lane object_id producer payload st)) (es @ [e])"
    and "ls_records (fst (append_event now event_type lane object_id producer payload st)) = ls_records st"
proof -
  have id: "next_event_id now st = event_id_of (Suc (length es))"
    by (simp add: next_event_id_def holds_iter [OF holds])
  obtain d jtext where d: "ls_manifest st = Some (Some (JObj d))" and jrn: "ls_journal st = Some jtext" "whole_lines jtext"
    and lines: "file_lines jtext = map (\<lambda>e. json_dumps (JObj e)) es" and es: "list_all event_wf es"
    and ids: "event_ids es = map (\<lambda>i. JStr (event_id_of i)) [1..<Suc (length es)]"
    and lanes: "dget0 d ''lanes'' = strs DEFAULT_LANES" "dhas d ''lanes''"
    and gen: "dget d ''active_generation'' (JInt 1) = JInt (1 + int (length es))" "dhas d ''active_generation''"
    and good: "dget0 d ''last_known_good_generation'' = JInt 1" "\<not> dhas d ''migration_state''"
    and dirs: "set (DURABLE_DIRS @ REBUILDABLE_DIRS @ DISPOSABLE_DIRS) \<subseteq> set (ls_dirs st)"
    using holds unfolding holds_events_def by blast
  let ?d = "dset ''active_generation'' (JInt (1 + int (length es) + 1)) d"
  have run: "append_event now event_type lane object_id producer payload st
      = (write_manifest now ?d (append_journal e st), Inr e)"
    using append_checks_holds [OF holds, of event_type lane] assms(2,3)
    by (simp add: append_event_def d gen id e_def Let_def)
  then show "snd (append_event now event_type lane object_id producer payload st) = Inr e"
    and "ls_records (fst (append_event now event_type lane object_id producer payload st)) = ls_records st"
    by (simp_all add: write_manifest_def append_journal_def)
  have "event_wf e" unfolding e_def by (rule new_event_wf) (use assms in auto)
  moreover have "dget0 e ''event_id'' = JStr (event_id_of (Suc (length es)))" by (simp add: e_def new_event_def)
  ultimately show "holds_events (fst (append_event now event_type lane object_id producer payload st)) (es @ [e])"
    using jrn lines es ids lanes gen good dirs ascii_json_dumps [of "JObj e"]
    unfolding run holds_events_def
    by (simp add: write_manifest_def append_journal_def file_lines_append event_ids_def del: json_dumps.simps)
qed

lemma append_event_refused:
  assumes "holds_events st es" and "event_type \<notin> set EVENT_TYPES \<or> lane \<notin> set DEFAULT_LANES"
  shows "\<exists>msg. append_event now event_type lane object_id producer payload st = (st, Inl (ValueError msg))"
  using append_checks_holds [OF assms(1), of event_type lane] assms(2)
  by (auto simp: append_event_def)

lemma init_fresh: "holds_events (fst (init now (no_store path))) []"
  by (simp add: init_def no_store_def make_dirs_def make_journal_def is_initialized_def write_manifest_def
    fresh_manifest_def holds_events_def whole_lines_def file_lines_def event_ids_def Let_def)

lemma init_again:
  assumes "holds_events st es"
  shows "init now st = (st, read_manifest True st)"
proof -
  have dirs: "set (DURABLE_DIRS @ REBUILDABLE_DIRS @ DISPOSABLE_DIRS) \<subseteq> set (ls_dirs st)"
    and m: "ls_manifest st \<noteq> None" and j: "ls_journal st \<noteq> None"
    using assms by (auto simp: holds_events_def)
  have "List.union xs ys = ys" if "set xs \<subseteq> set ys" for xs ys :: "string list"
    using that by (induction xs) (auto simp: List.union_def)
  then have "make_dirs st = st" using dirs by (simp add: make_dirs_def)
  then show ?thesis using m j by (auto simp: init_def make_journal_def is_initialized_def Let_def)
qed

section \<open>Records are stored under their file names\<close>

definition get_store_file :: "local_store \<Rightarrow> string \<times> string \<Rightarrow> json option option" where
  "get_store_file st = (\<lambda>(kind, f). map_of (ls_records st kind) f)"

definition put_store_file :: "string \<times> string \<Rightarrow> json option \<Rightarrow> local_store \<Rightarrow> local_store" where
  "put_store_file = (\<lambda>(kind, f). put_file_record kind f)"

interpretation record_files: keyed_store get_store_file put_store_file
  by unfold_locales (auto simp: get_store_file_def put_store_file_def put_file_record_def map_of_dset split: prod.splits)

lemma get_record_files:
  "get_record kind record_id st =
     ebind (registry kind) (\<lambda>k. ebind (safe_record_id record_id) (\<lambda>sid.
       case get_store_file st (k, record_file sid) of
         None \<Rightarrow> Inl (FileNotFound (''record not found: '' @ kind @ ''/'' @ record_id))
       | Some None \<Rightarrow> Inl (ValueError ''invalid JSON'')
       | Some (Some v) \<Rightarrow> Inr v))"
  by (simp add: get_record_def get_store_file_def)

lemma get_file_make_registry [simp]: "get_store_file (make_registry kind st) = get_store_file st"
  by (simp add: get_store_file_def make_registry_def)

lemma put_record_files:
  assumes "put_record now kind record_id r st = (st', Inr stored)"
  shows "\<exists>sid. safe_record_id record_id = Inr sid \<and> registry kind = Inr kind \<and> is_dict r
    \<and> stored = stored_record now kind record_id (dict_or_empty r)
    \<and> st' = put_store_file (kind, record_file sid) (Some (JObj stored)) (make_registry kind st)"
  using assms
  by (auto simp: put_record_def put_store_file_def registry_def Let_def res_simps split: sum.splits if_splits)

lemma record_file_inj [simp]: "record_file x = record_file y \<longleftrightarrow> x = y"
  by (simp add: record_file_def)

lemma get_put_record:
  assumes put: "put_record now kind record_id r st = (st', Inr stored)"
  shows "get_record kind' i st' =
    (if kind' = kind \<and> safe_record_id i = safe_record_id record_id then Inr (JObj stored)
     else get_record kind' i st)"
proof -
  obtain sid where sid: "safe_record_id record_id = Inr sid" and k: "registry kind = Inr kind"
    and st': "st' = put_store_file (kind, record_file sid) (Some (JObj stored)) (make_registry kind st)"
    using put_record_files [OF put] by blast
  show ?thesis
  proof (cases "registry kind'")
    case (Inr k')
    then have "k' = kind'" by (auto simp: registry_def split: if_splits)
    then show ?thesis using sid Inr
      by (cases "safe_record_id i") (auto simp: get_record_files st' record_files.get_put)
  qed (use k in \<open>auto simp: get_record_files\<close>)
qed

lemma put_holds:
  assumes "holds_events st es"
  shows "holds_events (fst (put_record now kind record_id r st)) es"
proof -
  let ?st = "fst (put_record now kind record_id r st)"
  have "ls_manifest ?st = ls_manifest st" "ls_journal ?st = ls_journal st" "set (ls_dirs st) \<subseteq> set (ls_dirs ?st)"
    by (auto simp: put_record_def put_file_record_def make_registry_def Let_def split: sum.splits)
  then show ?thesis using assms unfolding holds_events_def by fastforce
qed

section \<open>Every history\<close>

text \<open>The operations of the store, with payloads that have no floats.\<close>

inductive store_step :: "local_store \<Rightarrow> local_store \<Rightarrow> bool" where
  step_init: "store_step st (fst (init now st))"
| step_append: "case payload of None \<Rightarrow> True | Some p \<Rightarrow> python_value (JObj p) \<Longrightarrow>
    store_step st (fst (append_event now event_type lane object_id producer payload st))"
| step_put: "store_step st (fst (put_record now kind record_id r st))"

inductive_cases store_stepE: "store_step st st'"

text \<open>Every record file holds an object.\<close>

definition records_ok :: "local_store \<Rightarrow> bool" where
  "records_ok st \<longleftrightarrow> (\<forall>kind. list_all (\<lambda>(f, v). \<exists>d. v = Some (JObj d)) (ls_records st kind))"

lemma put_records_ok: "records_ok st \<Longrightarrow> records_ok (fst (put_record now kind record_id r st))"
  by (auto simp: put_record_def records_ok_def put_file_record_def make_registry_def Let_def
    intro!: list_all_dset split: sum.splits)

definition store_inv :: "local_store \<Rightarrow> bool" where
  "store_inv st \<longleftrightarrow> (\<exists>es. holds_events st es) \<and> records_ok st"

lemma append_inv:
  assumes "store_inv st" and "case payload of None \<Rightarrow> True | Some p \<Rightarrow> python_value (JObj p)"
  shows "store_inv (fst (append_event now event_type lane object_id producer payload st))"
proof -
  obtain es where es: "holds_events st es" using assms(1) unfolding store_inv_def by blast
  have r: "records_ok st" using assms(1) unfolding store_inv_def by blast
  show ?thesis
  proof (cases "event_type \<in> set EVENT_TYPES \<and> lane \<in> set DEFAULT_LANES")
    case True
    then show ?thesis using append_event_holds(2,3) [OF es _ _ assms(2) refl] r
      unfolding store_inv_def records_ok_def by metis
  next
    case False
    then obtain msg where "append_event now event_type lane object_id producer payload st = (st, Inl (ValueError msg))"
      using append_event_refused [OF es] by blast
    then show ?thesis using assms(1) by simp
  qed
qed

interpretation local_stores: invariant_machine store_step store_inv
proof
  fix s t
  assume "store_step s t" and inv: "store_inv s"
  then show "store_inv t"
  proof cases
    case (step_init now)
    then show ?thesis using inv init_again unfolding store_inv_def by fastforce
  next
    case (step_put now kind record_id r)
    then show ?thesis using inv put_holds put_records_ok unfolding store_inv_def by blast
  qed (use append_inv inv in blast)
qed

lemma init_inv: "store_inv (fst (init now (no_store path)))"
proof -
  have "records_ok (fst (init now (no_store path)))"
    by (simp add: records_ok_def init_def no_store_def make_dirs_def make_journal_def is_initialized_def
      write_manifest_def Let_def)
  then show ?thesis using init_fresh unfolding store_inv_def by blast
qed

lemma reachable_inv: "store_step\<^sup>*\<^sup>* (fst (init now (no_store path))) st \<Longrightarrow> store_inv st"
  using local_stores.inv_reachable init_inv by blast

section \<open>The summary counts the journal\<close>

definition of_type :: "string \<Rightarrow> jdict list \<Rightarrow> jdict list" where
  "of_type ty es = [e \<leftarrow> es. dget0 e ''event_type'' = JStr ty]"

definition object_ids :: "jdict list \<Rightarrow> string set" where
  "object_ids es = (\<lambda>e. py_str (dget0 e ''object_id'')) ` set es"

definition alike :: "nat \<Rightarrow> event_counts" where
  "alike n = \<lparr>ec_external_requested = int n, ec_accepted = int n, ec_journaled = int n, ec_applied = int n\<rparr>"

definition alike_deletes :: "nat \<Rightarrow> delete_counts" where
  "alike_deletes n = \<lparr>dc_external_requested = int n, dc_authorized = int n, dc_tombstoned = int n,
     dc_journaled = int n, dc_propagated = int n\<rparr>"

definition lane_clean :: "json \<times> lane_summary \<Rightarrow> bool" where
  "lane_clean = (\<lambda>(k, l). sm_name l = k \<and> sm_status l = ''active'' \<and> sm_corrupted l = 0
     \<and> 0 \<le> sm_total l \<and> 0 \<le> sm_tombstones l)"

definition lanes_clean :: "lane_summary vdict \<Rightarrow> bool" where
  "lanes_clean d \<longleftrightarrow> map fst d = map JStr DEFAULT_LANES \<and> list_all lane_clean d"

definition tally_of :: "jdict list \<Rightarrow> tally \<Rightarrow> bool" where
  "tally_of es t \<longleftrightarrow> lanes_clean (t_lanes t) \<and> t_corrupt t = 0 \<and> t_unapplied t = 0
     \<and> t_add t = alike (length (of_type ''add'' es)) \<and> t_update t = alike (length (of_type ''update'' es))
     \<and> t_delete t = alike_deletes (length (of_type ''delete'' es))
     \<and> set (t_seen t) = object_ids es \<and> distinct (t_seen t)
     \<and> set (t_deleted t) = object_ids (of_type ''delete'' es)"

lemma of_type_snoc: "of_type ty (es @ [e]) = of_type ty es @ (if dget0 e ''event_type'' = JStr ty then [e] else [])"
  by (simp add: of_type_def)

lemma object_ids_append [simp]: "object_ids (es @ es') = object_ids es \<union> object_ids es'"
  by (auto simp: object_ids_def)

lemma count_alike: "count_change True (alike n) = alike (Suc n)" "count_delete True (alike_deletes n) = alike_deletes (Suc n)"
  by (simp_all add: count_change_def count_delete_def alike_def alike_deletes_def)

lemma lanes_clean_adjust:
  assumes "lanes_clean d" and "\<And>l. sm_name (f l) = sm_name l" "\<And>l. sm_status (f l) = sm_status l"
    "\<And>l. sm_corrupted (f l) = sm_corrupted l" "\<And>l. sm_total l \<le> sm_total (f l)"
    "\<And>l. sm_tombstones l \<le> sm_tombstones (f l)"
  shows "lanes_clean (vadjust k f d)"
proof -
  have "lane_clean kl \<Longrightarrow> lane_clean (case kl of (k', w) \<Rightarrow> (k', if py_eq k' k then f w else w))" for kl
    using assms(2-) [of "snd kl"] by (auto simp: lane_clean_def)
  then have "list_all lane_clean d \<Longrightarrow> list_all lane_clean (vadjust k f d)"
    by (auto simp: vadjust_def list_all_iff)
  moreover have "map fst (vadjust k f d) = map fst d" by (simp add: vadjust_def case_prod_beta comp_def)
  ultimately show ?thesis using assms(1) unfolding lanes_clean_def by simp
qed

lemma lanes_clean_has: "lanes_clean d \<Longrightarrow> s \<in> set DEFAULT_LANES \<Longrightarrow> vhas d (JStr s)"
proof -
  assume "lanes_clean d" and s: "s \<in> set DEFAULT_LANES"
  then have "map fst d = map JStr DEFAULT_LANES" by (simp add: lanes_clean_def)
  then have "JStr s \<in> fst ` set d" using s by (metis image_eqI list.set_map)
  then show "vhas d (JStr s)" by (fastforce simp: vhas_def list_ex_iff py_eq_def)
qed

lemma initial_default_lanes:
  "initial_lanes (strs DEFAULT_LANES) = Inr (map (\<lambda>s. (JStr s, empty_lane_summary (JStr s))) DEFAULT_LANES)"
  unfolding initial_lanes_def need_hashable_def vset_def vhas_def py_eq_def DEFAULT_LANES_def by simp

lemma tally_initial:
  "tally_of [] (initial_tally (map (\<lambda>s. (JStr s, empty_lane_summary (JStr s))) DEFAULT_LANES))"
  by (simp add: tally_of_def initial_tally_def lanes_clean_def lane_clean_def empty_lane_summary_def
    of_type_def object_ids_def alike_def alike_deletes_def empty_event_counts_def comp_def list_all_iff)

lemma tally_event_of:
  assumes t: "tally_of es t" and e: "event_wf e"
  shows "\<exists>t'. tally_event (JObj e) t = Inr t' \<and> tally_of (es @ [e]) t'"
proof -
  obtain ty where ty: "dget0 e ''event_type'' = JStr ty" "ty \<in> set EVENT_TYPES" using e unfolding event_wf_def by auto
  obtain lane where lane: "dget e ''lane'' (JStr ''repair'') = JStr lane" "lane \<in> set DEFAULT_LANES"
    using e dget_present [of e "''lane''" "JStr ''repair''"] unfolding event_wf_def by auto
  obtain i where i: "dget0 e ''object_id'' = JStr i" "i \<noteq> ''''"
    using e unfolding event_wf_def by (auto elim!: is_strE)
  obtain p where p: "dget e ''producer'' (JStr ''unknown'') = JStr p"
    using e dget_present [of e "''producer''" "JStr ''unknown''"] dget_present [of e "''producer''" "JStr []"]
    unfolding event_wf_def by (auto elim!: is_strE)
  have "dget0 e ''applied'' = JBool True" using e unfolding event_wf_def by blast
  then have applied: "event_applied e"
    unfolding event_applied_def dget_def by (cases "map_of e ''applied''") simp_all
  have kinds: "ty \<in> {''add'', ''update'', ''delete'', ''checkpoint'', ''repair'', ''policy''}"
    using ty(2) by (simp add: EVENT_TYPES_def)
  have lanes: "lanes_clean (t_lanes t)" using t by (simp add: tally_of_def)
  define t1 where "t1 = t\<lparr>t_producers := vset (JStr p) (vget (t_producers t) (JStr p) 0 + 1) (t_producers t),
      t_seen := add_to i (t_seen t)\<rparr>"
  have run: "tally_event (JObj e) t = Inr (tally_kind (JStr ty) (JStr lane) (JStr i) True t1)"
    using lanes_clean_has [OF lanes lane(2)] applied kinds
    by (auto simp: tally_event_def need_hashable_def lane ty i p Let_def t1_def)
  have seen: "set (add_to i (t_seen t)) = insert i (object_ids es)" "distinct (add_to i (t_seen t))"
    using t by (simp_all add: tally_of_def add_to_def)
  have ids: "object_ids [e] = {i}" by (simp add: object_ids_def i)
  have add_total: "lanes_clean (vadjust (JStr lane) (\<lambda>l. l\<lparr>sm_total := sm_total l + 1\<rparr>) (t_lanes t))"
    and add_stone: "lanes_clean (vadjust (JStr lane) (\<lambda>l. l\<lparr>sm_tombstones := sm_tombstones l + 1\<rparr>) (t_lanes t))"
    by (rule lanes_clean_adjust [OF lanes]; simp)+
  have "tally_of (es @ [e]) (tally_kind (JStr ty) (JStr lane) (JStr i) True t1)"
    using t seen kinds ids add_total add_stone i(2)
    by (elim insertE emptyE)
      (simp_all add: tally_of_def tally_kind_def t1_def of_type_snoc ty count_alike Let_def add_to_def)
  then show ?thesis using run by blast
qed

lemma tally_journal:
  assumes "list_all event_wf es" and "tally_of [] t0"
  shows "\<exists>t. efold tally_event (map JObj es) t0 = Inr t \<and> tally_of es t"
  using assms(1)
proof (induction es rule: rev_induct)
  case (snoc e es)
  then obtain t where "efold tally_event (map JObj es) t0 = Inr t" "tally_of es t" by auto
  moreover from tally_event_of [OF this(2), of e] snoc.prems obtain t' where
    "tally_event (JObj e) t = Inr t'" "tally_of (es @ [e]) t'" by auto
  ultimately show ?case by (simp add: efold_append)
qed (use assms(2) in simp)

lemma list_records_total:
  assumes "records_ok st" and "kind \<in> set REGISTRY_KINDS"
  shows "\<exists>rs. list_records kind st = Inr rs"
proof -
  let ?f = "\<lambda>(f :: string, v). case v of None \<Rightarrow> Inl (ValueError ''invalid JSON'') | Some j \<Rightarrow> Inr j"
  have total: "\<exists>rs. emap ?f xs = Inr rs" if "\<forall>(f, v) \<in> set xs. \<exists>d. v = Some (JObj d)" for xs
    using that by (induction xs) auto
  have "\<forall>(f, v) \<in> set (ls_records st kind). \<exists>d. v = Some (JObj d)"
    using assms(1) by (simp add: records_ok_def list_all_iff)
  then have "\<forall>(f, v) \<in> set (sort_key fst [(f, v) \<leftarrow> ls_records st kind. ends_with ''.json'' f]). \<exists>d. v = Some (JObj d)"
    by auto
  from total [OF this] show ?thesis using assms(2) by (simp add: list_records_def registry_def)
qed

lemma registry_counts_total: "records_ok st \<Longrightarrow> \<exists>d. registry_counts b st = Inr (JObj d)"
proof -
  assume ok: "records_ok st"
  let ?f = "\<lambda>kind. if b then ebind (list_records kind st) (\<lambda>rs. Inr (kind, JInt (int (length rs))))
     else Inr (kind, JInt 0)"
  have "\<exists>ys. emap ?f xs = Inr ys" if "set xs \<subseteq> set REGISTRY_KINDS" for xs
    using that
  proof (induction xs)
    case (Cons x xs)
    then show ?case using list_records_total [OF ok, of x] by auto
  qed simp
  then have "\<exists>ys. emap ?f (sort REGISTRY_KINDS) = Inr ys" by simp
  then show ?thesis unfolding registry_counts_def by auto
qed

lemma tally_store_holds:
  assumes "holds_events st es"
  shows "\<exists>d t. tally_store now st = Inr (d, t) \<and> tally_of es t \<and> ls_manifest st = Some (Some (JObj d))"
proof -
  obtain d where d: "ls_manifest st = Some (Some (JObj d))" and es: "list_all event_wf es"
    and lanes: "dget0 d ''lanes'' = strs DEFAULT_LANES"
    using assms unfolding holds_events_def by blast
  obtain t where t: "efold tally_event (map JObj es)
      (initial_tally (map (\<lambda>s. (JStr s, empty_lane_summary (JStr s))) DEFAULT_LANES)) = Inr t" "tally_of es t"
    using tally_journal [OF es tally_initial] by blast
  have "dget d ''lanes'' (strs DEFAULT_LANES) = strs DEFAULT_LANES" by (rule dget_value [OF lanes]) simp
  then have "tally_store now st = Inr (d, t)"
    by (simp add: tally_store_def read_manifest_def d initial_default_lanes is_initialized_def
      holds_iter [OF assms] t(1))
  then show ?thesis using t(2) d by blast
qed

lemma summarize_holds:
  assumes "holds_events st es" and "records_ok st"
  shows "\<exists>d t counts store. tally_of es t \<and> ls_manifest st = Some (Some (JObj d))
    \<and> registry_counts True st = Inr (JObj counts) \<and> store_json st d 0 = Inr store
    \<and> summarize now st = Inr \<lparr>su_manifest = JObj d, su_local_state = local_state_json st (JObj counts),
        su_stores = JList [store],
        su_lanes = map (\<lambda>(k, l). lane_summary_json l) (finish_lanes True (journal_size st) t),
        su_pipeline = pipeline_json t, su_top_producers = producers_json (t_producers t)\<rparr>"
proof -
  obtain d t where t: "tally_store now st = Inr (d, t)" "tally_of es t" and d: "ls_manifest st = Some (Some (JObj d))"
    using tally_store_holds [OF assms(1)] by blast
  obtain counts where c: "registry_counts True st = Inr (JObj counts)" using registry_counts_total [OF assms(2)] by blast
  have "dget0 d ''last_known_good_generation'' = JInt 1"
    "dget d ''active_generation'' (JInt 1) = JInt (1 + int (length es))" "dhas d ''active_generation''"
    using assms(1) d unfolding holds_events_def by auto
  then have g: "dget d ''last_known_good_generation'' (JInt 0) = JInt 1"
    "dget d ''active_generation'' (JInt 0) = JInt (1 + int (length es))"
    using dget_value [of d "''last_known_good_generation''" "JInt 1" "JInt 0"]
      dget_present [of d "''active_generation''" "JInt 0"] dget_present [of d "''active_generation''" "JInt 1"]
    by (simp, metis)
  then obtain store where s: "store_json st d 0 = Inr store" by (simp add: store_json_def Let_def)
  have "is_initialized st" "t_corrupt t = 0" using d t(2) by (simp_all add: is_initialized_def tally_of_def)
  then show ?thesis using t d c s by (intro exI [of _ d] exI [of _ t] exI [of _ counts] exI [of _ store]) (simp add: summarize_def)
qed

lemma live_objects_count:
  assumes "tally_of es t"
  shows "int (length (live_objects t)) = int (card (object_ids es - object_ids (of_type ''delete'' es)))"
proof -
  have "distinct (live_objects t)" "set (live_objects t) = object_ids es - object_ids (of_type ''delete'' es)"
    using assms by (auto simp: live_objects_def tally_of_def)
  then show ?thesis by (metis distinct_card)
qed

section \<open>A torn line\<close>

lemma splitlines_single: "s \<noteq> [] \<Longrightarrow> \<forall>c \<in> set s. \<not> line_break c \<Longrightarrow> splitlines s = [s]"
proof (induction s rule: splitlines.induct)
  case (3 c d s)
  have c: "\<not> line_break c" using 3 by simp
  then have cr: "c \<noteq> CHR 0x0D" by (auto simp: line_break_def)
  have "splitlines (d # s) = [d # s]"
    by (rule 3(3)) (use 3(5) cr c in auto)
  then show ?case using c cr by simp
qed auto

lemma file_lines_torn:
  assumes "whole_lines t" and "ascii_text torn" and "torn \<noteq> []"
  shows "file_lines (t @ torn) = file_lines t @ [torn]"
proof -
  have "splitlines torn = [torn]" by (rule splitlines_single) (use assms ascii_no_break in auto)
  moreover have "universal_newlines torn = torn" using ascii_no_break [OF assms(2)] by (intro universal_newlines_id) auto
  ultimately show ?thesis
    by (simp add: file_lines_def universal_newlines_append [OF assms(1)] splitlines_append
      universal_newlines_whole [OF assms(1)])
qed

lemma journal_events_append:
  "journal_events now i (ls @ ls') = journal_events now i ls @ journal_events now (i + length ls) ls'"
  by (induction ls arbitrary: i) simp_all

lemma journal_event_one: "strip l \<noteq> [] \<Longrightarrow> length (journal_event now i l) = 1"
  by (simp add: journal_event_def split: sum.split)

lemma torn_append:
  assumes jrn: "ls_journal st = Some (t @ torn)" and t: "whole_lines t" and torn: "ascii_text torn" "strip torn \<noteq> []"
  shows "length (iter_events now (append_journal e st)) = length (iter_events now st)"
proof -
  let ?l = "json_dumps (JObj e)"
  obtain c where c: "c \<in> set torn" "\<not> is_space c"
  proof -
    have "strip torn = []" if "\<forall>c \<in> set torn. is_space c"
      using that by (simp add: strip_def lstrip_def rstrip_def dropWhile_eq_Nil_conv [THEN iffD2])
    then have "\<not> (\<forall>c \<in> set torn. is_space c)" using torn(2) by blast
    then show ?thesis using that by blast
  qed
  then have "strip (torn @ ?l) \<noteq> []" by (intro strip_nonblank [of c]) simp_all
  moreover have "file_lines (append_line ?l (t @ torn)) = file_lines t @ [torn @ ?l]"
    using file_lines_append [OF t, of "torn @ ?l"] torn(1) ascii_json_dumps [of "JObj e"]
    by (simp only: append_line_def append_assoc ascii_simps)
  moreover have "file_lines (t @ torn) = file_lines t @ [torn]"
    using c by (intro file_lines_torn t torn) auto
  ultimately show ?thesis using torn(2)
    by (simp add: iter_events_def append_journal_def jrn journal_events_append journal_event_one del: json_dumps.simps)
qed

section \<open>Properties\<close>

definition example_store :: local_store where
  "example_store = fst (append_event ''t1'' ''add'' ''normal'' (Some ''a'') ''cli'' None
     (fst (init ''t0'' (no_store ''/state''))))"

lemma example_store_step: "store_step (fst (init ''t0'' (no_store ''/state''))) example_store"
  unfolding example_store_def by (rule step_append) simp

lemma example_store_holds:
  "holds_events example_store [new_event ''t1'' (event_id_of 1) ''add'' ''normal'' (Some ''a'') ''cli'' None]"
  using append_event_holds(2) [OF init_fresh, of "''add''" "''normal''" None _ "''t1''" "Some ''a''" "''cli''", OF _ _ _ refl]
  by (simp add: example_store_def EVENT_TYPES_def DEFAULT_LANES_def)

lemma example_store_records: "records_ok example_store"
  using reachable_inv [OF r_into_rtranclp [of store_step, OF example_store_step]]
  unfolding store_inv_def by blast

text \<open>
  C19: a store that was initialised on an empty directory and then used only through its operations, in
  any order and with any arguments, holds a journal without corrupt lines: reading it gives the
  appended events, their identifiers are \<open>evt-00000001\<close>, \<open>evt-00000002\<close> and so on, all different,
  and the active generation of the manifest is one more than their number.
\<close>

theorem journal_of_any_history:
  assumes "store_step\<^sup>*\<^sup>* (fst (init now (no_store path))) st"
  shows "\<exists>es d. iter_events later st = map JObj es \<and> list_all event_wf es
    \<and> event_ids es = map (\<lambda>i. JStr (event_id_of i)) [1..<Suc (length es)] \<and> distinct (event_ids es)
    \<and> read_manifest True st = Inr (JObj d)
    \<and> dget d ''active_generation'' (JInt 1) = JInt (1 + int (length es))"
proof -
  obtain es where es: "holds_events st es" using reachable_inv [OF assms] unfolding store_inv_def by blast
  then obtain d where d: "ls_manifest st = Some (Some (JObj d))" and wf: "list_all event_wf es"
    and ids: "event_ids es = map (\<lambda>i. JStr (event_id_of i)) [1..<Suc (length es)]"
    and gen: "dget d ''active_generation'' (JInt 1) = JInt (1 + int (length es))"
    unfolding holds_events_def by blast
  have "read_manifest True st = Inr (JObj d)" by (simp add: read_manifest_def d)
  then show ?thesis using holds_iter [OF es] wf ids event_ids_distinct [OF ids] gen by blast
qed

theorem journal_of_any_history_witness:
  "\<exists>es d. iter_events ''t2'' example_store = map JObj es \<and> list_all event_wf es
    \<and> event_ids es = map (\<lambda>i. JStr (event_id_of i)) [1..<Suc (length es)] \<and> distinct (event_ids es)
    \<and> read_manifest True example_store = Inr (JObj d)
    \<and> dget d ''active_generation'' (JInt 1) = JInt (1 + int (length es))"
  by (rule journal_of_any_history [OF r_into_rtranclp [of store_step, OF example_store_step]])

text \<open>
  C20: appending an event implements adding it at the end of the list of events the store holds.  It is
  accepted exactly when the lane and the event type are known; then the event carries the next
  identifier and nothing is lost or changed, in the journal or among the records.  Otherwise the
  store is untouched.
\<close>

theorem append_event_refines:
  assumes "holds_events st es" and "case payload of None \<Rightarrow> True | Some p \<Rightarrow> python_value (JObj p)"
  shows "if event_type \<in> set EVENT_TYPES \<and> lane \<in> set DEFAULT_LANES
    then \<exists>st' e. append_event now event_type lane object_id producer payload st = (st', Inr e)
      \<and> holds_events st' (es @ [e]) \<and> ls_records st' = ls_records st
      \<and> dget0 e ''event_id'' = JStr (event_id_of (Suc (length es)))
      \<and> dget0 e ''lane'' = JStr lane \<and> dget0 e ''event_type'' = JStr event_type
    else \<exists>msg. append_event now event_type lane object_id producer payload st = (st, Inl (ValueError msg))"
proof (cases "event_type \<in> set EVENT_TYPES \<and> lane \<in> set DEFAULT_LANES")
  case True
  let ?e = "new_event now (event_id_of (Suc (length es))) event_type lane object_id producer payload"
  let ?r = "append_event now event_type lane object_id producer payload st"
  have "?r = (fst ?r, Inr ?e)" "holds_events (fst ?r) (es @ [?e])" "ls_records (fst ?r) = ls_records st"
    using append_event_holds [OF assms(1) _ _ assms(2) refl, of event_type lane] True by (simp_all add: prod_eq_iff)
  moreover have "dget0 ?e ''event_id'' = JStr (event_id_of (Suc (length es)))" "dget0 ?e ''lane'' = JStr lane"
    "dget0 ?e ''event_type'' = JStr event_type" by (simp_all add: new_event_def)
  ultimately show ?thesis unfolding if_P [OF True] by blast
next
  case False
  then show ?thesis using append_event_refused [OF assms(1)] by (simp only: if_False) blast
qed



theorem append_event_refines_witness:
  "\<exists>st' e. append_event ''t2'' ''delete'' ''normal'' (Some ''a'') ''cli'' None example_store = (st', Inr e)
    \<and> (\<exists>es. holds_events st' (es @ [e]))"
proof -
  have "''delete'' \<in> set EVENT_TYPES \<and> ''normal'' \<in> set DEFAULT_LANES" by code_simp
  then show ?thesis
    using append_event_refines [OF example_store_holds, of None "''delete''" "''normal''" "''t2''" "Some ''a''" "''cli''"]
    by (simp del: append_Cons) blast
qed

text \<open>
  The summary of a store counts its journal: of the events of a type as many are requested,
  accepted and applied as the journal holds, the normal lane counts the objects that were seen and not
  deleted, and a store that was used only through its operations always has a summary.
\<close>

theorem summary_accounts:
  assumes "holds_events st es" and "records_ok st"
  shows "\<exists>su t. summarize now st = Inr su
    \<and> su_pipeline su = JObj [
        (''add'', event_counts_json (alike (length (of_type ''add'' es)))),
        (''update'', event_counts_json (alike (length (of_type ''update'' es)))),
        (''delete'', delete_counts_json (alike_deletes (length (of_type ''delete'' es))))]
    \<and> su_lanes su = map (\<lambda>(k, l). lane_summary_json l) (finish_lanes True (journal_size st) t)
    \<and> int (length (live_objects t)) = int (card (object_ids es - object_ids (of_type ''delete'' es)))
    \<and> map fst (t_lanes t) = map JStr DEFAULT_LANES"
proof -
  obtain d t counts store where t: "tally_of es t" and run: "summarize now st = Inr \<lparr>su_manifest = JObj d,
      su_local_state = local_state_json st (JObj counts), su_stores = JList [store],
      su_lanes = map (\<lambda>(k, l). lane_summary_json l) (finish_lanes True (journal_size st) t),
      su_pipeline = pipeline_json t, su_top_producers = producers_json (t_producers t)\<rparr>"
    using summarize_holds [OF assms] by blast
  have "pipeline_json t = JObj [
        (''add'', event_counts_json (alike (length (of_type ''add'' es)))),
        (''update'', event_counts_json (alike (length (of_type ''update'' es)))),
        (''delete'', delete_counts_json (alike_deletes (length (of_type ''delete'' es))))]"
    "map fst (t_lanes t) = map JStr DEFAULT_LANES"
    using t by (simp_all add: pipeline_json_def tally_of_def lanes_clean_def)
  moreover from run obtain su where "summarize now st = Inr su" "su_pipeline su = pipeline_json t"
    "su_lanes su = map (\<lambda>(k, l). lane_summary_json l) (finish_lanes True (journal_size st) t)" by simp
  ultimately show ?thesis using live_objects_count [OF t] by (intro exI [of _ su] exI [of _ t]) simp
qed

theorem summary_accounts_witness:
  "\<exists>su. summarize ''t2'' example_store = Inr su"
  using summary_accounts [OF example_store_holds example_store_records, of "''t2''"] by blast





end
