(* ===== verification/Store_Reports.thy ===== *)
theory Store_Reports
  imports Local_Store_Properties Report_Properties Policy
begin

text \<open>
  \<open>store_reports.py\<close>: the report about a local store, composed of the snapshot of the host, the summary of
  the store, the policy decisions about its lanes and a fresh diagnosis, and the operations the
  command line uses.  The sections of a snapshot that are assigned to are objects.
\<close>

section \<open>The report\<close>

text \<open>\<open>report[k][...] = ...\<close> for a section that is an object, and the strings of a list.\<close>

definition section_update :: "string \<Rightarrow> (jdict \<Rightarrow> jdict) \<Rightarrow> jdict \<Rightarrow> jdict" where
  "section_update k f report = dset k (JObj (f (sub_dict report k))) report"

definition text_items :: "json \<Rightarrow> string list" where
  "text_items v = (case v of JList xs \<Rightarrow> map str_value xs | _ \<Rightarrow> [])"

definition more_texts :: "string \<Rightarrow> string list \<Rightarrow> jdict \<Rightarrow> jdict" where
  "more_texts k new d = dset k (strs (sorted_set (text_items (dget d k (JList [])) @ new))) d"

definition store_collection :: "bool \<Rightarrow> jdict \<Rightarrow> jdict" where
  "store_collection initialized d =
     (let d1 = dset ''status'' (JStr ''partial'') d;
          d2 = (if initialized then d1
                else more_texts ''errors'' [''local store is not initialized; run store init first''] d1)
      in more_texts ''unavailable_fields'' [''memory.total_gb'', ''identity.boot_id''] d2)"

definition with_summary :: "store_summary \<Rightarrow> string \<Rightarrow> jdict \<Rightarrow> jdict" where
  "with_summary su path report =
     (let r1 = dset ''stores'' (su_stores su) report;
          r2 = dset ''lanes'' (JList (su_lanes su)) r1;
          r3 = dset ''pipeline'' (su_pipeline su) r2;
          r4 = dset ''local_state'' (JObj (su_local_state su)) r3;
          r5 = section_update ''collection''
                 (store_collection (truthy (dget0 (su_local_state su) ''initialized''))) r4
      in section_update ''identity'' (dset ''store_root'' (JStr path)) r5)"

definition with_policy :: "(string \<times> int) list \<Rightarrow> jdict \<Rightarrow> jdict" where
  "with_policy counts report = section_update ''policy'' (\<lambda>d.
     dset ''policy_decisions'' (JObj (map (\<lambda>(s, n). (s, JInt n)) counts))
       (dset ''policy_version'' (JStr ''v0.1.0-local'') (dset ''policy_engine'' (JStr POLICY_ENGINE) d))) report"

definition store_diagnosis :: "store_summary \<Rightarrow> json \<Rightarrow> diagnosis \<Rightarrow> json" where
  "store_diagnosis su summary d =
     JObj (dset ''policy'' summary (dset ''top_producers'' (su_top_producers su)
       (dset ''local_state'' (JObj (su_local_state su)) (dict_or_empty (diagnosis_to_dict d)))))"

text \<open>The readings of the clock, in the order in which they are taken.\<close>

record report_times =
  rt_journal :: string
  rt_snapshot :: utc_clock
  rt_verified :: instant
  rt_diagnosed :: instant
  rt_controlled :: instant
  rt_store_diagnosed :: instant
  rt_store_verified :: instant
  rt_store_controlled :: instant

definition snapshot_from_store ::
  "policy_world \<Rightarrow> snapshot_host \<Rightarrow> report_times \<Rightarrow> local_store \<Rightarrow> jdict res" where
  "snapshot_from_store W h t st =
     ebind (summarize (rt_journal t) st) (\<lambda>su.
     ebind (snapshot (pw_sha256 W) h (rt_snapshot t) (rt_verified t) (rt_diagnosed t) (rt_controlled t)) (\<lambda>r0.
     let r1 = with_summary su (ls_root st) r0 in
     ebind (evaluate_report_policy W (su_lanes su) ''sourceos-syncd'') (\<lambda>ds.
     ebind (decision_counts (map JObj ds)) (\<lambda>counts.
     let r2 = with_policy counts r1 in
     ebind (diagnose (rt_store_diagnosed t) r2) (\<lambda>d.
     ebind (policy_summary (map JObj ds) 12) (\<lambda>summary.
     let r3 = dset ''diagnosis'' (store_diagnosis su summary d) r2 in
     ebind (verify (rt_store_verified t) r3) (\<lambda>(overall, checks).
     let r4 = dset ''invariants'' (JList (map check_to_dict checks)) r3 in
     ebind (controls_for (rt_store_controlled t) r4) (\<lambda>cs.
     Inr (dset ''controls'' (JList (map control_to_dict cs)) r4)))))))))"

section \<open>The operations of the command line\<close>

definition init_store :: "string \<Rightarrow> local_store \<Rightarrow> local_store \<times> json res" where
  "init_store now st = init now st"

definition append_store_event ::
  "string \<Rightarrow> string \<Rightarrow> string \<Rightarrow> string option \<Rightarrow> string \<Rightarrow> jdict option \<Rightarrow> local_store
    \<Rightarrow> local_store \<times> jdict res" where
  "append_store_event now event_type lane object_id producer payload st =
     (case init now st of
        (st1, Inl e) \<Rightarrow> (st1, Inl e)
      | (st1, Inr m) \<Rightarrow> append_event now event_type lane object_id producer payload st1)"

definition put_store_record ::
  "string \<Rightarrow> string \<Rightarrow> string \<Rightarrow> json \<Rightarrow> local_store \<Rightarrow> local_store \<times> jdict res" where
  "put_store_record now kind record_id r st = put_record now kind record_id r st"

definition get_store_record :: "string \<Rightarrow> string \<Rightarrow> local_store \<Rightarrow> json res" where
  "get_store_record kind record_id st = get_record kind record_id st"

definition list_store_records :: "string \<Rightarrow> local_store \<Rightarrow> json list res" where
  "list_store_records kind st = list_records kind st"

section \<open>The summary of a store that was used through its operations\<close>

definition store_usable :: "local_store \<Rightarrow> bool" where
  "store_usable st \<longleftrightarrow> store_inv st \<or> ls_manifest st = None"

definition summary_lanes :: "local_store \<Rightarrow> tally \<Rightarrow> json list" where
  "summary_lanes st t = map (\<lambda>(k, l). lane_summary_json l) (finish_lanes (is_initialized st) (journal_size st) t)"

lemma usable_summary:
  assumes "store_usable st"
  shows "\<exists>su t m counts. summarize now st = Inr su \<and> su_lanes su = summary_lanes st t
    \<and> lanes_clean (t_lanes t) \<and> t_corrupt t = 0 \<and> t_unapplied t = 0
    \<and> su_stores su = JList [case store_json st m 0 of Inr s \<Rightarrow> s | Inl e \<Rightarrow> JNull]
    \<and> (\<exists>s. store_json st m 0 = Inr s) \<and> \<not> dhas m ''migration_state''
    \<and> su_local_state su = local_state_json st counts"
  using assms unfolding store_usable_def
proof
  assume "store_inv st"
  then obtain es where es: "holds_events st es" and r: "records_ok st" unfolding store_inv_def by blast
  obtain d t counts store where 1: "tally_of es t" "ls_manifest st = Some (Some (JObj d))"
    "store_json st d 0 = Inr store"
    "summarize now st = Inr \<lparr>su_manifest = JObj d, su_local_state = local_state_json st (JObj counts),
        su_stores = JList [store],
        su_lanes = map (\<lambda>(k, l). lane_summary_json l) (finish_lanes True (journal_size st) t),
        su_pipeline = pipeline_json t, su_top_producers = producers_json (t_producers t)\<rparr>"
    using summarize_holds [OF es r] by blast
  moreover have "\<not> dhas d ''migration_state''" using es 1(2) unfolding holds_events_def by auto
  moreover have "is_initialized st" using 1(2) by (simp add: is_initialized_def)
  moreover from 1(4) obtain su where "summarize now st = Inr su" "su_local_state su = local_state_json st (JObj counts)"
    "su_stores su = JList [store]"
    "su_lanes su = map (\<lambda>(k, l). lane_summary_json l) (finish_lanes True (journal_size st) t)" by simp
  ultimately show ?thesis
    by (intro exI [of _ su] exI [of _ t] exI [of _ d] exI [of _ "JObj counts"]) (simp add: tally_of_def summary_lanes_def)
next
  assume m: "ls_manifest st = None"
  let ?t = "initial_tally (map (\<lambda>s. (JStr s, empty_lane_summary (JStr s))) DEFAULT_LANES)"
  have t: "tally_store now st = Inr (uninitialized_manifest st, ?t)"
    by (simp add: tally_store_def read_manifest_def m is_initialized_def uninitialized_manifest_def initial_default_lanes)
  have t_of: "tally_of [] ?t" by (rule tally_initial)
  obtain store where s: "store_json st (uninitialized_manifest st) 0 = Inr store"
    by (simp add: store_json_def uninitialized_manifest_def Let_def)
  have "\<not> is_initialized st" "t_corrupt ?t = 0" by (simp_all add: is_initialized_def m initial_tally_def)
  moreover obtain counts where c: "registry_counts False st = Inr counts"
    using emap_Inr_map [of "sort REGISTRY_KINDS" "\<lambda>kind. Inr (kind, JInt 0)"] by (simp add: registry_counts_def)
  moreover have "\<not> dhas (uninitialized_manifest st) ''migration_state''" by (simp add: uninitialized_manifest_def)
  moreover obtain su where "summarize now st = Inr su" "su_local_state su = local_state_json st counts"
      "su_stores su = JList [store]" "su_lanes su = summary_lanes st ?t"
    using calculation s by (simp add: summarize_def t summary_lanes_def)
  ultimately show ?thesis using t_of s
    by (intro exI [of _ su] exI [of _ ?t] exI [of _ "uninitialized_manifest st"] exI [of _ counts])
      (simp add: tally_of_def)
qed

section \<open>Its sections are valid\<close>

definition lane_final :: "json \<times> lane_summary \<Rightarrow> bool" where
  "lane_final = (\<lambda>(k, l). sm_name l = k \<and> is_str k \<and> sm_status l \<in> {''active'', ''dormant''} \<and> 0 \<le> sm_total l
     \<and> 0 \<le> sm_tombstones l \<and> 0 \<le> sm_corrupted l \<and> 0 \<le> sm_segments l \<and> 0 \<le> sm_bytes l \<and> sm_lag l = 0)"

lemma list_all_vadjust:
  "list_all P d \<Longrightarrow> (\<And>k' l. P (k', l) \<Longrightarrow> P (k', f l)) \<Longrightarrow> list_all P (vadjust k f d)"
  by (auto simp: vadjust_def list_all_iff)

lemma finish_lanes_final:
  assumes "lanes_clean (t_lanes t)" and "t_corrupt t = 0" and "t_unapplied t = 0" and "0 \<le> bytes"
  shows "list_all lane_final (finish_lanes initialized bytes t)"
    and "map fst (finish_lanes initialized bytes t) = map JStr DEFAULT_LANES"
proof -
  have names: "map fst (t_lanes t) = map JStr DEFAULT_LANES" and clean: "list_all lane_clean (t_lanes t)"
    using assms(1) by (simp_all add: lanes_clean_def)
  have str: "is_str k" if "(k, l) \<in> set (t_lanes t)" for k l
  proof -
    have "k \<in> set (map fst (t_lanes t))" using that by force
    then show ?thesis unfolding names by auto
  qed
  have one: "lane_final (k, finish_lane initialized bytes t l)" if kl: "(k, l) \<in> set (t_lanes t)" for k l
  proof -
    have "lane_clean (k, l)" using clean kl by (simp add: list_all_iff)
    then show ?thesis using str [OF kl] assms(3,4)
      by (cases initialized) (simp_all add: lane_clean_def lane_final_def finish_lane_def)
  qed
  have "list_all lane_final (map (\<lambda>(k, l). (k, finish_lane initialized bytes t l)) (t_lanes t))"
    unfolding list_all_iff by (auto dest: one)
  then show "list_all lane_final (finish_lanes initialized bytes t)"
    unfolding finish_lanes_def using assms(2)
    by (intro list_all_vadjust) (simp_all add: lane_final_def finish_repair_def)
  show "map fst (finish_lanes initialized bytes t) = map JStr DEFAULT_LANES"
    using names by (simp add: finish_lanes_def vadjust_def case_prod_beta comp_def)
qed

lemma lane_final_ok:
  assumes "lane_final (k, l)"
  shows "lane_ok (dict_or_empty (lane_summary_json l))" and "lag_of (dict_or_empty (lane_summary_json l)) = 0"
    and "0 \<le> allowed_lag_of (dict_or_empty (lane_summary_json l))" and "is_dict (lane_summary_json l)"
    and "dget0 (dict_or_empty (lane_summary_json l)) ''name'' = k"
    and "dhas (dict_or_empty (lane_summary_json l)) ''name''"
    and "sub_dict (dict_or_empty (lane_summary_json l)) ''sla'' \<noteq> []
      \<and> dget0 (sub_dict (dict_or_empty (lane_summary_json l)) ''sla'') ''max_heartbeat_age_ms'' = JInt 30000"
  using assms
  by (auto simp: lane_final_def lane_summary_json_def lane_ok_def has_keys_def REQUIRED_LANE_KEYS_def field_in_def
      LANE_STATUSES_def all_counts_def is_nonnegative_int_def journal_ok_def JOURNAL_COUNTS_def Let_def
      lag_of_def allowed_lag_of_def sub_dict_def number_or_zero_def)

abbreviation lanes_json :: "lane_summary vdict \<Rightarrow> json list" where
  "lanes_json d \<equiv> map (\<lambda>(k, l). lane_summary_json l) d"

lemma lanes_json_ok:
  assumes "list_all lane_final d"
  shows "dicts_where lane_ok (lanes_json d) \<and> item_names (lanes_json d) = map (str_value \<circ> fst) d
    \<and> sum_list (map lag_of (map dict_or_empty (lanes_json d))) = 0
    \<and> 0 \<le> sum_list (map allowed_lag_of (map dict_or_empty (lanes_json d)))
    \<and> list_all (\<lambda>lane. is_str (lane_name lane)) (map dict_or_empty (lanes_json d))
    \<and> list_all (\<lambda>lane. dget0 (sub_dict lane ''sla'') ''max_heartbeat_age_ms'' = JInt 30000)
        (map dict_or_empty (lanes_json d))
    \<and> map JObj (map dict_or_empty (lanes_json d)) = lanes_json d"
  using assms
proof (induction d)
  case (Cons kl d)
  obtain k l where kl: "kl = (k, l)" by fastforce
  then have final: "lane_final (k, l)" using Cons.prems by simp
  obtain x where x: "lane_summary_json l = JObj x" using lane_final_ok(4) [OF final] by (rule is_dictE)
  note ok = lane_final_ok [OF final, unfolded x dict_or_empty.simps]
  obtain s where s: "k = JStr s" using final by (auto simp: lane_final_def elim: is_strE)
  have "lane_name x = k" using dget_present [OF ok(6), of "JStr ''unknown''"] ok(5) by (simp add: lane_name_def)
  moreover have "dicts_where lane_ok (lanes_json d)" "item_names (lanes_json d) = map (str_value \<circ> fst) d"
    using Cons by simp_all
  ultimately show ?case using Cons ok s
    by (simp add: kl x dicts_where_def item_names_def map_filter_simps)
qed (simp add: dicts_where_def item_names_def map_filter_simps)

lemma store_json_ok:
  assumes "store_json st m 0 = Inr s" and "\<not> dhas m ''migration_state''"
  shows "store_ok (dict_or_empty s)" and "is_dict s" and "item_names [s] = [''content-store-a'']"
    and "\<not> bad_shadow (dict_or_empty s)"
proof -
  obtain a g where "py_int (dget m ''active_generation'' (JInt 0)) = Inr a"
    "py_int (dget m ''last_known_good_generation'' (JInt 0)) = Inr g"
    using assms(1) by (auto simp: store_json_def Let_def res_simps)
  note s = assms(1) [unfolded store_json_def Let_def this ebind_simps, symmetric, THEN Inr_inject]
  have hex: "HEX_RE ''0x6000342'' = Some 100664130" "HEX_RE ''0x0'' = Some 0" by code_simp+
  show "store_ok (dict_or_empty s)" unfolding s
    by (cases "is_initialized st")
      (simp_all add: store_ok_def has_keys_def REQUIRED_STORE_KEYS_def field_in_def STORE_ROLES_def MIGRATION_STATES_def
        CHECKSUM_STATES_def store_checksum_def flags_ok_def is_nonnegative_int_def dget_absent [OF assms(2)] hex)
  show "is_dict s" "item_names [s] = [''content-store-a'']" unfolding s by (simp_all add: item_names_def map_filter_simps)
  show "\<not> bad_shadow (dict_or_empty s)" unfolding s
    by (cases "is_initialized st") (simp_all add: bad_shadow_def store_checksum_def)
qed

lemma has_keys_dset: "has_keys d ks \<Longrightarrow> has_keys (dset k v d) ks"
  by (simp add: has_keys_def list_all_iff)

lemma identity_root: "identity_ok (JObj d) \<Longrightarrow> identity_ok (JObj (dset ''store_root'' v d))"
  by (simp add: identity_ok_def has_keys_dset)

lemma collection_store: "collection_ok (JObj d) \<Longrightarrow> collection_ok (JObj (store_collection b d))"
  by (simp add: collection_ok_def store_collection_def more_texts_def has_keys_dset field_in_def COLLECTION_STATUSES_def Let_def)

lemma policy_store:
  assumes "list_all (\<lambda>(s, n). 0 \<le> n) counts"
  shows "policy_ok (JObj (dset ''policy_decisions'' (JObj (map (\<lambda>(s, n). (s, JInt n)) counts)) d))"
  using assms by (induction counts) (auto simp: policy_ok_def all_counts_def is_nonnegative_int_def)

lemma decision_counts_nonneg:
  assumes "decision_counts ds = Inr counts"
  shows "list_all (\<lambda>(s, n). 0 \<le> n) counts"
proof -
  let ?P = "list_all (\<lambda>(s :: string, n :: int). 0 \<le> n)"
  have step: "?P (dset s (dget c s 0 + 1) c)" if c: "?P c" for s c
  proof -
    have "0 \<le> dget c s 0" using c by (induction c) auto
    then show ?thesis using c by (intro list_all_dset) simp_all
  qed
  show ?thesis
  proof (rule efold_invariant [where P = ?P, OF assms [unfolded decision_counts_def]])
    show "?P (map (\<lambda>s. (s, 0)) (sort STATUSES))" by (simp add: list_all_iff)
  qed (auto simp: res_simps count_status_def Let_def intro: step)
qed

lemma report_policy_total:
  "\<exists>ds counts summary. evaluate_report_policy W (map JObj lanes) subject = Inr ds
     \<and> decision_counts (map JObj ds) = Inr counts \<and> policy_summary (map JObj ds) n = Inr summary"
proof -
  let ?ds = "concat (map (\<lambda>lane. map (lane_decision W subject lane) LANE_ACTIONS) lanes)"
  have ok: "\<not> crosses_boundary (JObj d)" if "d \<in> set ?ds" for d
    using that by (auto simp: lane_decision_def default_boundary_ok evaluate_policy_boundary)
  obtain counts where c: "decision_counts (map JObj ?ds) = Inr counts"
    using decision_counts_ok [of "map JObj ?ds"] ok by auto
  have "emap validate_decision_boundary (map JObj ?ds) = Inr (map (\<lambda>_. ()) (map JObj ?ds))"
  proof (rule emap_Inr_map)
    fix v assume "v \<in> set (map JObj ?ds)"
    then obtain d where d: "v = JObj d" "d \<in> set ?ds" by auto
    then show "validate_decision_boundary v = Inr ()" using ok by (simp only: validate_boundary_iff d) simp
  qed
  then show ?thesis using c evaluate_report_policy_eq [of W lanes subject] by (simp add: policy_summary_def)
qed

text \<open>What the report takes from the snapshot and what from the store.\<close>

lemma with_summary_get:
  "dget0 (with_summary su path r) ''stores'' = su_stores su"
  "dget0 (with_summary su path r) ''lanes'' = JList (su_lanes su)"
  "dget0 (with_summary su path r) ''collection'' =
     JObj (store_collection (truthy (dget0 (su_local_state su) ''initialized'')) (sub_dict r ''collection''))"
  "dget0 (with_summary su path r) ''identity'' = JObj (dset ''store_root'' (JStr path) (sub_dict r ''identity''))"
  "k \<notin> {''stores'', ''lanes'', ''pipeline'', ''local_state'', ''collection'', ''identity''} \<Longrightarrow>
     dget0 (with_summary su path r) k = dget0 r k"
  "dget0 (with_summary su path r) ''pipeline'' = su_pipeline su"
  "dget0 (with_summary su path r) ''local_state'' = JObj (su_local_state su)"
  by (auto simp: with_summary_def section_update_def sub_dict_def Let_def)

lemma with_policy_get:
  "dget0 (with_policy counts r) k = (if k = ''policy'' then
     JObj (dset ''policy_decisions'' (JObj (map (\<lambda>(s, n). (s, JInt n)) counts))
       (dset ''policy_version'' (JStr ''v0.1.0-local'') (dset ''policy_engine'' (JStr POLICY_ENGINE)
          (sub_dict r ''policy'')))) else dget0 r k)"
  by (simp add: with_policy_def section_update_def)

lemma store_report_keys: "has_keys r ks \<Longrightarrow> has_keys (with_policy counts (with_summary su path r)) ks"
  by (simp add: with_policy_def with_summary_def section_update_def has_keys_dset Let_def)

definition store_report :: "(string \<times> int) list \<Rightarrow> store_summary \<Rightarrow> string \<Rightarrow> jdict \<Rightarrow> jdict" where
  "store_report counts su path r = with_policy counts (with_summary su path r)"

lemma store_report_get:
  "dget0 (store_report counts su path r) ''stores'' = su_stores su"
  "dget0 (store_report counts su path r) ''lanes'' = JList (su_lanes su)"
  "dget0 (store_report counts su path r) ''pipeline'' = su_pipeline su"
  "dget0 (store_report counts su path r) ''local_state'' = JObj (su_local_state su)"
  "dget0 (store_report counts su path r) ''collection'' =
     JObj (store_collection (truthy (dget0 (su_local_state su) ''initialized'')) (sub_dict r ''collection''))"
  "dget0 (store_report counts su path r) ''identity'' = JObj (dset ''store_root'' (JStr path) (sub_dict r ''identity''))"
  "dget0 (store_report counts su path r) ''schema'' = dget0 r ''schema''"
  "dget0 (store_report counts su path r) ''generated_at'' = dget0 r ''generated_at''"
  "dget0 (store_report counts su path r) ''runtime'' = dget0 r ''runtime''"
  "dget0 (store_report counts su path r) ''resources'' = dget0 r ''resources''"
  "dget0 (store_report counts su path r) ''invariants'' = dget0 r ''invariants''"
  by (simp_all add: store_report_def with_policy_get with_summary_get)

lemma store_report_ok:
  assumes r: "report_ok r" and counts: "list_all (\<lambda>(s, n). 0 \<le> n) counts"
    and stores: "su_stores su = JList [s]" "is_dict s" "store_ok (dict_or_empty s)" "distinct (item_names [s])"
    and lanes: "su_lanes su \<noteq> []" "dicts_where lane_ok (su_lanes su)" "distinct (item_names (su_lanes su))"
  shows "report_ok (store_report counts su path r)"
proof -
  have dicts: "\<exists>d. dget0 r ''identity'' = JObj d \<and> sub_dict r ''identity'' = d"
    "\<exists>d. dget0 r ''collection'' = JObj d \<and> sub_dict r ''collection'' = d"
    using r by (auto simp: report_ok_def identity_ok_def collection_ok_def sub_dict_def split: json.splits)
  have "dicts_where store_ok [s]" using stores(2,3) by (cases s) (simp_all add: dicts_where_def)
  moreover have "policy_ok (dget0 (store_report counts su path r) ''policy'')"
    by (simp add: store_report_def with_policy_get policy_store [OF counts])
  moreover have "identity_ok (JObj (dset ''store_root'' (JStr path) (sub_dict r ''identity'')))"
    "collection_ok (JObj (store_collection b (sub_dict r ''collection'')))" for b
    using r dicts by (auto simp: report_ok_def intro!: identity_root collection_store)
  ultimately show ?thesis
    using r stores(1,4) lanes
    by (simp add: report_ok_def store_report_get list_where_def store_report_keys [folded store_report_def])
qed

text \<open>The health of the report of a usable store is the health of the disk.\<close>

lemma store_report_facts:
  assumes base: "dget0 r ''runtime'' = dget0 b ''runtime''" "dget0 r ''generated_at'' = dget0 b ''generated_at''"
      "dget0 r ''resources'' = dget0 b ''resources''"
    and b: "comparable_stamps b" "age_of b = Some 0" "clean_open b"
    and lanes: "su_lanes su = lanes_json d" "list_all lane_final d" and s: "su_stores su = JList [s]" "\<not> bad_shadow (dict_or_empty s)"
    and q_def: "q = store_report counts su path r"
  shows "comparable_stamps q" "text_names q" "fresh q" "lag_within q" "shadows_good q" "clean_open q" "disk_safe q = disk_safe b"
proof -
  have same: "dget0 q ''runtime'' = dget0 b ''runtime''" "dget0 q ''generated_at'' = dget0 b ''generated_at''"
    "dget0 q ''resources'' = dget0 b ''resources''"
    by (simp_all add: q_def store_report_get base)
  then have hb: "heartbeat_of q = heartbeat_of b" by (simp add: heartbeat_of_def sub_dict_def)
  then show "comparable_stamps q" using b(1) same(2) by (simp add: comparable_stamps_def)
  have age: "age_of q = Some 0" using b(2) hb same(2) by (simp add: age_of_def)
  have ql: "lanes_of q = map dict_or_empty (lanes_json d)" by (simp add: lanes_of_def q_def store_report_get lanes(1))
  note ok = lanes_json_ok [OF lanes(2)]
  show "text_names q" using ok by (simp only: text_names_def ql)
  have "List.map_filter (\<lambda>lane. int_value (dget0 (sub_dict lane ''sla'') ''max_heartbeat_age_ms'')) ls = map (\<lambda>_. 30000) ls"
    if "list_all (\<lambda>lane. dget0 (sub_dict lane ''sla'') ''max_heartbeat_age_ms'' = JInt 30000) ls" for ls
    using that by (induction ls) (auto simp: map_filter_simps)
  then have "heartbeat_limits q = map (\<lambda>_. 30000) (lanes_of q)"
    using ok unfolding heartbeat_limits_def ql by blast
  then have "0 \<le> heartbeat_limit q" by (auto simp: heartbeat_limit_def)
  then show "fresh q" by (simp add: fresh_def age)
  show "lag_within q" using ok by (simp only: lag_within_def total_lag_def total_allowed_def ql)
  show "shadows_good q" using s by (simp add: shadows_good_def stores_of_def q_def store_report_get)
  show "clean_open q" using b(3) same(1) by (simp add: clean_open_def dirty_open_of_def sub_dict_def)
  show "disk_safe q = disk_safe b" using same(3) by (simp add: disk_safe_def pressure_of_def disk_of_def sub_dict_def)
qed

lemma base_snapshot_age:
  assumes "utc_clock_ok c"
  shows "age_of (base_snapshot sha256 h c) = Some 0"
proof -
  have "stamp (JStr (utc_now c)) = Some (utc_instant (c\<lparr>uc_micro := 0\<rparr>))"
    by (simp add: stamp_def parse_utc_now [OF assms])
  moreover have "total_millis 0 = 0" by code_simp
  ultimately show ?thesis
    by (simp add: age_of_def heartbeat_of_def sub_dict_def base_snapshot_get snapshot_runtime_def
        minus_instant_def utc_instant_def)
qed

section \<open>Properties\<close>

definition example_world :: policy_world where
  "example_world = \<lparr>pw_sha256 = example_digest, pw_now = ''t2'', pw_remote_url = None, pw_post = (\<lambda>_ _. None)\<rparr>"

definition example_times :: report_times where
  "example_times = \<lparr>rt_journal = ''t2'', rt_snapshot = example_clock, rt_verified = example_now,
     rt_diagnosed = example_now, rt_controlled = example_now, rt_store_diagnosed = example_now,
     rt_store_verified = example_now, rt_store_controlled = example_now\<rparr>"

text \<open>Diagnosing, verifying and controlling a valid report in turn adds three derived fields and changes no fact.\<close>

lemma derived_report:
  assumes ok: "report_ok q" and facts: "comparable_stamps q" "text_names q"
  obtains d cs q3 where "diagnose td q = Inr d" "agrees q d"
    "verify tv (dset ''diagnosis'' (store_diagnosis su summary d) q) = Inr (overall_status (checks_of q), checks_of q)"
    "controls_for tc (dset ''invariants'' (JList (map check_to_dict (checks_of q)))
       (dset ''diagnosis'' (store_diagnosis su summary d) q)) = Inr cs"
    "q3 = dset ''controls'' (JList (map control_to_dict cs)) (dset ''invariants'' (JList (map check_to_dict (checks_of q)))
       (dset ''diagnosis'' (store_diagnosis su summary d) q))"
    "report_ok q3" "same_facts q q3"
proof -
  obtain d where d: "diagnose td q = Inr d" "agrees q d" using diagnose_agrees [OF ok facts] by blast
  define q1 where "q1 = dset ''diagnosis'' (store_diagnosis su summary d) q"
  have ok1: "report_ok q1" and same1: "same_facts q q1"
    unfolding q1_def using ok derived_keys by (auto intro!: report_ok_dset same_facts_dset)
  have v: "verify tv q1 = Inr (overall_status (checks_of q), checks_of q)"
    using verify_ok [OF ok1] facts(1) same_checks(1,2) [OF same1] by simp
  define q2 where "q2 = dset ''invariants'' (JList (map check_to_dict (checks_of q))) q1"
  have ok2: "report_ok q2" and same2: "same_facts q q2"
    unfolding q2_def using ok1 same1 derived_keys checks_valid
    by (auto intro!: report_ok_dset same_facts_dset intro: same_facts_trans)
  obtain cs where "controls_for td q = Inr cs"
    unfolding controls_for_def d(1) disk_pressure_ok [OF ok] ebind_simps pressure_in_set [OF ok] by blast
  then have c: "controls_for tc q2 = Inr cs" by (simp only: controls_same [OF same2 ok ok2, of tc td])
  have "report_ok (dset ''controls'' (JList (map control_to_dict cs)) q2)"
    "same_facts q (dset ''controls'' (JList (map control_to_dict cs)) q2)"
    using ok2 same2 derived_keys by (auto intro!: report_ok_dset same_facts_dset intro: same_facts_trans)
  then show thesis using that d v c unfolding q1_def q2_def by blast
qed

lemma verdict_of_disk:
  assumes "agrees q d" and "fresh q" "lag_within q" "shadows_good q" "clean_open q"
    and "disk_safe q \<longleftrightarrow> \<not> float_le (free_ratio_of h) (Dec 5 (- 2))"
  shows "dg_status d = (if float_le (free_ratio_of h) (Dec 5 (- 2)) then ''unsafe'' else ''healthy'')"
proof -
  have "expected_verdict q = (if float_le (free_ratio_of h) (Dec 5 (- 2)) then (''unsafe'', ''critical'') else (''healthy'', ''info''))"
    using assms(2-6) by (simp add: expected_verdict_def)
  moreover have "(dg_status d, dg_severity d) = expected_verdict q" using assms(1) unfolding agrees_def by blast
  ultimately show ?thesis by (auto split: if_splits)
qed

lemma store_report_total:
  assumes h: "host_ok h" and t: "utc_clock_ok (rt_snapshot t)" and st: "store_usable st"
  shows "\<exists>su r d. summarize (rt_journal t) st = Inr su \<and> snapshot_from_store W h t st = Inr r \<and> report_ok r
    \<and> dget0 r ''stores'' = su_stores su \<and> dget0 r ''lanes'' = JList (su_lanes su)
    \<and> dget0 r ''pipeline'' = su_pipeline su \<and> dget0 r ''local_state'' = JObj (su_local_state su)
    \<and> diagnose now r = Inr d
    \<and> dg_status d = (if float_le (free_ratio_of h) (Dec 5 (- 2)) then ''unsafe'' else ''healthy'')
    \<and> (\<exists>summary. dget0 r ''diagnosis'' = store_diagnosis su summary d)"
proof -
  let ?b = "base_snapshot (pw_sha256 W) h (rt_snapshot t)"
  note base = base_snapshot_ok [OF h t, of "pw_sha256 W"] base_snapshot_facts [OF h t, of "pw_sha256 W"]
  obtain su ta m s where su: "summarize (rt_journal t) st = Inr su" "su_lanes su = summary_lanes st ta"
    and ta: "lanes_clean (t_lanes ta)" "t_corrupt ta = 0" "t_unapplied ta = 0"
    and s: "su_stores su = JList [s]" "store_json st m 0 = Inr s" "\<not> dhas m ''migration_state''"
    using usable_summary [OF st, of "rt_journal t"] by auto
  define fl where "fl = finish_lanes (is_initialized st) (journal_size st) ta"
  have "0 \<le> journal_size st" by (simp add: journal_size_def split: option.split)
  note fl = finish_lanes_final [OF ta this, of "is_initialized st", folded fl_def]
  have lanes: "su_lanes su = lanes_json fl" using su(2) by (simp add: summary_lanes_def fl_def)
  note lok = lanes_json_ok [OF fl(1)]
  obtain d0 cs0 r0 where r0: "snapshot (pw_sha256 W) h (rt_snapshot t) (rt_verified t) (rt_diagnosed t) (rt_controlled t) = Inr r0"
    "report_ok r0" "same_facts ?b r0"
    unfolding snapshot_def by (rule refresh_ok [OF base(1-3), of "rt_verified t" "rt_diagnosed t" "rt_controlled t"])
  note g = observed_keys [THEN same_facts_get [OF r0(3)]]
  have objects: "map JObj (map dict_or_empty (su_lanes su)) = su_lanes su" using lok unfolding lanes by blast
  obtain ds counts summary where p: "evaluate_report_policy W (su_lanes su) ''sourceos-syncd'' = Inr ds"
    "decision_counts (map JObj ds) = Inr counts" "policy_summary (map JObj ds) 12 = Inr summary"
    using report_policy_total [of W "map dict_or_empty (su_lanes su)" "''sourceos-syncd''" 12] objects by metis
  define q where "q = store_report counts su (ls_root st) r0"
  have "map (str_value \<circ> fst) fl = DEFAULT_LANES"
    using arg_cong [OF fl(2), of "map str_value"] by (simp add: comp_def)
  then have "distinct (item_names (su_lanes su))" using lok lanes by (simp add: DEFAULT_LANES_def)
  moreover have "su_lanes su \<noteq> []" using fl(2) lanes by (auto simp: DEFAULT_LANES_def)
  ultimately have ok: "report_ok q" unfolding q_def
    using store_json_ok [OF s(2,3)] s(1) lok lanes decision_counts_nonneg [OF p(2)]
    by (intro store_report_ok [where s = s] r0(2)) simp_all
  note facts = store_report_facts [OF g(5) g(2) g(8) base(2) base_snapshot_age [OF t] base(7) lanes fl(1) s(1)
      store_json_ok(4) [OF s(2,3)], OF q_def]
  obtain d cs q3 where d: "diagnose (rt_store_diagnosed t) q = Inr d" "agrees q d"
    and v: "verify (rt_store_verified t) (dset ''diagnosis'' (store_diagnosis su summary d) q) = Inr (overall_status (checks_of q), checks_of q)"
    and c: "controls_for (rt_store_controlled t) (dset ''invariants'' (JList (map check_to_dict (checks_of q)))
       (dset ''diagnosis'' (store_diagnosis su summary d) q)) = Inr cs"
    and q3: "q3 = dset ''controls'' (JList (map control_to_dict cs)) (dset ''invariants'' (JList (map check_to_dict (checks_of q)))
       (dset ''diagnosis'' (store_diagnosis su summary d) q))" "report_ok q3" "same_facts q q3"
    by (rule derived_report [OF ok facts(1,2)])
  have run: "snapshot_from_store W h t st = Inr q3"
    using d(1) v c p by (simp add: snapshot_from_store_def su(1) r0(1) store_report_def [symmetric] q_def [symmetric] q3(1) Let_def)
  have "diagnose now q3 = Inr d"
    using d(1) by (simp only: diagnose_same(1) [OF q3(3) ok q3(2), of now "rt_store_diagnosed t"])
  moreover have "dg_status d = (if float_le (free_ratio_of h) (Dec 5 (- 2)) then ''unsafe'' else ''healthy'')"
    using facts base(8) by (intro verdict_of_disk [OF d(2)]) simp_all
  moreover have "dget0 q3 ''pipeline'' = su_pipeline su" "dget0 q3 ''local_state'' = JObj (su_local_state su)"
    "dget0 q3 ''stores'' = su_stores su" "dget0 q3 ''lanes'' = JList (su_lanes su)" "dget0 q3 ''diagnosis'' = store_diagnosis su summary d"
    by (simp_all add: q3(1) q_def store_report_get)
  ultimately show ?thesis using run q3(2) su(1) by blast
qed



end
