(* ===== verification/Scorecard.thy ===== *)
theory Scorecard
  imports Trust Local_Store
begin

text \<open>
  \<open>scorecard.py\<close>: the delivery scorecard of a report.  \<open>sha256\<close> is the digest, \<open>written\<close> the time the
  scorecard bears, \<open>now1\<close> and \<open>now2\<close> the times at which the report is verified and diagnosed.
\<close>

section \<open>Scoring\<close>

definition SCORECARD_SCHEMA :: string where "SCORECARD_SCHEMA = ''sourceos.delivery-scorecard/v1alpha1''"
definition SCORECARD_ENGINE :: string where "SCORECARD_ENGINE = ''delivery-excellence-local-scorecard''"

text \<open>What the score is computed from.\<close>

record score_inputs =
  si_contract_errors :: "string list"
  si_fails :: int
  si_warns :: int
  si_criticals :: int
  si_policy_counts :: json
  si_lane_statuses :: "json vdict"
  si_lag :: int
  si_pressure :: json
  si_attested :: bool
  si_diagnosis :: diagnosis

definition count_checks :: "(check_result \<Rightarrow> bool) \<Rightarrow> check_result list \<Rightarrow> int" where
  "count_checks P checks = int (length (filter P checks))"

definition lane_statuses :: "jdict list \<Rightarrow> json vdict res" where
  "lane_statuses lanes = efold (\<lambda>lane d.
     let name = dget lane ''name'' (JStr ''unknown'') in
     ebind (need_hashable name) (\<lambda>_. Inr (vset name (dget lane ''status'' (JStr ''unknown'')) d))) lanes []"

definition sum_lags :: "jdict list \<Rightarrow> int res" where
  "sum_lags lanes = ebind (emap lane_lag lanes) (\<lambda>ls. Inr (sum_list ls))"

definition score_pressure :: "jdict \<Rightarrow> json res" where
  "score_pressure report =
     (case dget0 report ''resources'' of
        JObj resources \<Rightarrow> jget (dget resources ''disk'' (JObj [])) ''pressure'' (JStr ''unknown'')
      | _ \<Rightarrow> Inr (JStr ''unknown''))"

definition score_inputs_of :: "instant \<Rightarrow> instant \<Rightarrow> jdict \<Rightarrow> (string \<times> score_inputs) res" where
  "score_inputs_of now1 now2 report =
     ebind (validate_report report) (\<lambda>contract_errors.
     ebind (verify now1 report) (\<lambda>(overall, checks).
     ebind (diagnose now2 report) (\<lambda>d.
     ebind (jget (dget report ''identity'' (JObj [])) ''component'' (JStr ''unknown'')) (\<lambda>component.
     ebind (report_lanes report) (\<lambda>lanes.
     ebind (lane_statuses lanes) (\<lambda>statuses.
     ebind (sum_lags lanes) (\<lambda>lag.
     ebind (score_pressure report) (\<lambda>pressure.
     Inr (py_str component,
       \<lparr>si_contract_errors = contract_errors,
        si_fails = count_checks (\<lambda>c. cr_status c = Fail) checks,
        si_warns = count_checks (\<lambda>c. cr_status c = Warn) checks,
        si_criticals = count_checks (\<lambda>c. cr_severity c = ''critical'' \<and> cr_status c = Fail) checks,
        si_policy_counts = policy_counts_of report, si_lane_statuses = statuses, si_lag = lag,
        si_pressure = pressure, si_attested = report_attested report, si_diagnosis = d\<rparr>)))))))))"

record gate =
  gt_id :: string
  gt_pass :: bool
  gt_evidence :: jdict

definition gate_to_dict :: "gate \<Rightarrow> json" where
  "gate_to_dict g = JObj [
     (''id'', JStr (gt_id g)), (''status'', JStr (if gt_pass g then ''pass'' else ''fail'')),
     (''evidence'', JObj (gt_evidence g))]"

definition score_gates :: "score_inputs \<Rightarrow> gate list" where
  "score_gates i = [
     \<lparr>gt_id = ''contract.valid'', gt_pass = (si_contract_errors i = []),
      gt_evidence = [(''errors'', strs (si_contract_errors i))]\<rparr>,
     \<lparr>gt_id = ''diagnosis.not_unsafe'', gt_pass = (dg_status (si_diagnosis i) \<noteq> ''unsafe''),
      gt_evidence = [(''diagnosis'', JStr (dg_status (si_diagnosis i)))]\<rparr>,
     \<lparr>gt_id = ''critical_invariants.none'', gt_pass = (si_criticals i = 0),
      gt_evidence = [(''critical_failures'', JInt (si_criticals i))]\<rparr>,
     \<lparr>gt_id = ''disk.not_critical'', gt_pass = (si_pressure i \<noteq> JStr ''critical''),
      gt_evidence = [(''pressure'', si_pressure i)]\<rparr>]"

definition score_of :: "score_inputs \<Rightarrow> int" where
  "score_of i =
     (let s1 = 100 - min 40 (si_criticals i * 20);
          s2 = s1 - min 30 (si_fails i * 10);
          s3 = s2 - min 15 (si_warns i * 5);
          s4 = s3 - (if si_lag i \<noteq> 0 then 10 else 0);
          s5 = s4 - (if si_pressure i = JStr ''warning'' then 10 else 0);
          s6 = s5 - (if si_pressure i = JStr ''critical'' then 20 else 0);
          s7 = s6 - (if \<not> si_attested i then 5 else 0)
      in max 0 (min 100 s7))"

definition score_status :: "score_inputs \<Rightarrow> string" where
  "score_status i =
     (if \<not> list_all gt_pass (score_gates i) then ''blocked''
      else if 90 \<le> score_of i then ''ready''
      else if 70 \<le> score_of i then ''watch'' else ''degraded'')"

section \<open>The scorecard\<close>

record scorecard =
  sc_scorecard_id :: string
  sc_component :: string
  sc_status :: string
  sc_score :: int
  sc_report_digest :: string
  sc_summary :: string
  sc_inputs :: score_inputs
  sc_gates :: "gate list"
  sc_generated_at :: string

text \<open>The names of lanes as \<open>json\<close> prints them when they are keys.\<close>

definition key_text :: "json \<Rightarrow> string" where
  "key_text k = (case k of JStr s \<Rightarrow> s | _ \<Rightarrow> json_dumps k)"

definition dimensions :: "score_inputs \<Rightarrow> json" where
  "dimensions i = JObj [
     (''diagnosis'', diagnosis_to_dict (si_diagnosis i)), (''contract_errors'', strs (si_contract_errors i)),
     (''invariant_failures'', JInt (si_fails i)), (''invariant_warnings'', JInt (si_warns i)),
     (''critical_failures'', JInt (si_criticals i)),
     (''lane_statuses'', JObj (map (\<lambda>(k, v). (key_text k, v)) (si_lane_statuses i))),
     (''replay_lag_events'', JInt (si_lag i)), (''disk_pressure'', si_pressure i),
     (''policy_counts'', si_policy_counts i), (''attestation_signed'', JBool (si_attested i))]"

definition scorecard_as_dict :: "scorecard \<Rightarrow> jdict" where
  "scorecard_as_dict c = [
     (''schema'', JStr SCORECARD_SCHEMA), (''scorecard_id'', JStr (sc_scorecard_id c)),
     (''generated_at'', JStr (sc_generated_at c)), (''engine'', JStr SCORECARD_ENGINE),
     (''component'', JStr (sc_component c)), (''status'', JStr (sc_status c)), (''score'', JInt (sc_score c)),
     (''report_digest'', JStr (sc_report_digest c)), (''summary'', JStr (sc_summary c)),
     (''dimensions'', dimensions (sc_inputs c)), (''gates'', JList (map gate_to_dict (sc_gates c)))]"

definition scorecard_id :: "(string \<Rightarrow> string) \<Rightarrow> string \<Rightarrow> string \<Rightarrow> string \<Rightarrow> string" where
  "scorecard_id sha256 report_digest component status =
     ''scorecard-'' @ take 20 (sha256 (canonical_json (JObj [
        (''report_digest'', JStr report_digest), (''component'', JStr component), (''status'', JStr status)])))"

definition evaluate_scorecard ::
  "(string \<Rightarrow> string) \<Rightarrow> instant \<Rightarrow> instant \<Rightarrow> string \<Rightarrow> jdict \<Rightarrow> scorecard res" where
  "evaluate_scorecard sha256 now1 now2 written report =
     ebind (score_inputs_of now1 now2 report) (\<lambda>(component, i).
     let report_digest = digest_json sha256 (JObj report); status = score_status i; score = score_of i
     in Inr \<lparr>sc_scorecard_id = scorecard_id sha256 report_digest component status, sc_component = component,
          sc_status = status, sc_score = score, sc_report_digest = report_digest,
          sc_summary = component @ '' scorecard status='' @ status @ '' score='' @ int_str score
            @ '' diagnosis='' @ dg_status (si_diagnosis i),
          sc_inputs = i, sc_gates = score_gates i, sc_generated_at = written\<rparr>)"

definition SCORECARD_KEYS :: "string list" where
  "SCORECARD_KEYS = [''schema'', ''scorecard_id'', ''generated_at'', ''engine'', ''component'', ''status'',
     ''score'', ''report_digest'', ''summary'', ''dimensions'', ''gates'']"

definition SCORECARD_STATUSES :: "string list" where
  "SCORECARD_STATUSES = [''ready'', ''watch'', ''degraded'', ''blocked'']"

definition validate_scorecard :: "jdict \<Rightarrow> string list res" where
  "validate_scorecard doc =
     (let missing = missing_keys SCORECARD_KEYS doc;
          score = int_value (dget0 doc ''score'') in
      collect [
        Inr (note_if (missing \<noteq> []) (''missing scorecard keys: '' @ join '', '' missing)),
        Inr (note_if (dget0 doc ''schema'' \<noteq> JStr SCORECARD_SCHEMA)
          (''unsupported scorecard schema: '' @ py_repr (dget0 doc ''schema''))),
        ebind (in_set (dget0 doc ''status'') SCORECARD_STATUSES) (\<lambda>b. Inr (note_if (\<not> b) ''status is invalid'')),
        Inr (note_if (case score of None \<Rightarrow> True | Some n \<Rightarrow> n < 0 \<or> 100 < n)
          ''score must be an integer from 0 to 100''),
        Inr (note_if (\<not> starts_with ''sha256:'' (py_str (dget doc ''report_digest'' (JStr ''''))))
          ''report_digest must start with sha256:''),
        Inr (note_if (\<not> is_dict (dget0 doc ''dimensions'')) ''dimensions must be an object''),
        Inr (note_if (\<not> is_list (dget0 doc ''gates'')) ''gates must be a list'')])"

section \<open>The score of a valid report\<close>

definition one_if :: "bool \<Rightarrow> int" where "one_if b = (if b then 1 else 0)"

lemma one_if_cases [simp]: "one_if True = 1" "one_if False = 0"
  by (simp_all add: one_if_def)

lemma one_if_range: "0 \<le> one_if b" "one_if b \<le> 1"
  by (simp_all add: one_if_def)

lemma count_checks_of:
  "count_checks (\<lambda>c. cr_status c = Fail) (checks_of r) =
     one_if (\<not> fresh r) + one_if (\<not> lag_within r) + one_if (\<not> disk_safe r)"
  "count_checks (\<lambda>c. cr_status c = Warn) (checks_of r) = one_if (\<not> shadows_good r) + one_if (\<not> clean_open r)"
  "count_checks (\<lambda>c. cr_severity c = ''critical'' \<and> cr_status c = Fail) (checks_of r) = one_if (\<not> disk_safe r)"
  unfolding count_checks_def checks_cases by (simp_all add: one_if_def)

lemma lane_statuses_ok:
  assumes "list_all (\<lambda>lane. is_str (lane_name lane)) lanes"
  shows "\<exists>d. lane_statuses lanes = Inr d"
proof -
  have "\<exists>d. efold (\<lambda>lane d. let name = dget lane ''name'' (JStr ''unknown'') in
     ebind (need_hashable name) (\<lambda>_. Inr (vset name (dget lane ''status'' (JStr ''unknown'')) d))) lanes d0 = Inr d" for d0
    using assms by (induction lanes arbitrary: d0)
      (simp_all add: need_hashable_def lane_name_def is_str_hashable Let_def)
  then show ?thesis by (simp add: lane_statuses_def)
qed

lemma sum_lags_ok: "list_all lane_ok lanes \<Longrightarrow> sum_lags lanes = Inr (sum_list (map lag_of lanes))"
proof -
  assume "list_all lane_ok lanes"
  then have "emap lane_lag lanes = Inr (map lag_of lanes)"
    by (intro emap_Inr_map) (simp add: list_all_iff lane_values(1))
  then show ?thesis by (simp add: sum_lags_def)
qed

lemma score_pressure_ok:
  assumes "report_ok r"
  shows "score_pressure r = Inr (pressure_of r)"
proof -
  note d = report_dicts [OF assms]
  obtain rs where rs: "dget0 r ''resources'' = JObj rs"
    using assms by (auto simp: report_ok_def disk_ok_def split: json.splits)
  have "sub_dict r ''resources'' = rs" by (rule sub_dict_JObj [OF rs])
  then have "score_pressure r = jget (JObj (disk_of r)) ''pressure'' (JStr ''unknown'')"
    using d(4) by (simp add: score_pressure_def rs)
  also have "\<dots> = Inr (pressure_of r)"
    using dget_present [OF d(6), of "JStr ''unknown''"] by (simp add: pressure_of_def)
  finally show ?thesis .
qed

lemma score_inputs_valid:
  assumes ok: "report_ok r" and cmp: "comparable_stamps r" and names: "text_names r"
  shows "\<exists>component i. score_inputs_of now1 now2 r = Inr (component, i)
    \<and> si_contract_errors i = [] \<and> si_fails i = one_if (\<not> fresh r) + one_if (\<not> lag_within r) + one_if (\<not> disk_safe r)
    \<and> si_warns i = one_if (\<not> shadows_good r) + one_if (\<not> clean_open r) \<and> si_criticals i = one_if (\<not> disk_safe r)
    \<and> si_lag i = total_lag r \<and> si_pressure i = pressure_of r \<and> si_attested i = report_attested r
    \<and> dg_status (si_diagnosis i) = fst (expected_verdict r)"
proof -
  have valid: "validate_report r = Inr []" using ok by (simp add: validate_report_Nil)
  have ver: "verify now1 r = Inr (overall_status (checks_of r), checks_of r)" using verify_ok [OF ok] cmp by simp
  obtain d where d: "diagnose now2 r = Inr d" using diagnose_agrees [OF assms] by blast
  have health: "dg_status d = fst (expected_verdict r)" by (rule diagnose_status(2) [OF ok d])
  obtain statuses where st: "lane_statuses (lanes_of r) = Inr statuses"
    using lane_statuses_ok names unfolding text_names_def by blast
  have lag: "sum_lags (lanes_of r) = Inr (total_lag r)"
    using sum_lags_ok report_lists(2) [OF ok] by (simp add: total_lag_def)
  show ?thesis
    by (simp add: score_inputs_of_def valid ver d report_dicts(8) [OF ok] report_lists(1) [OF ok] st lag
        score_pressure_ok [OF ok] count_checks_of health)
qed

text \<open>The deductions of a report whose disk is safe.\<close>

definition deductions :: "jdict \<Rightarrow> int" where
  "deductions r = 10 * one_if (\<not> fresh r) + 10 * one_if (\<not> lag_within r) + 5 * one_if (\<not> shadows_good r)
     + 5 * one_if (\<not> clean_open r) + 10 * one_if (total_lag r \<noteq> 0)
     + 10 * one_if (pressure_of r = JStr ''warning'') + 5 * one_if (\<not> report_attested r)"

lemma score_safe:
  assumes "disk_safe r" and "si_fails i = one_if (\<not> fresh r) + one_if (\<not> lag_within r) + one_if (\<not> disk_safe r)"
    "si_warns i = one_if (\<not> shadows_good r) + one_if (\<not> clean_open r)" "si_criticals i = one_if (\<not> disk_safe r)"
    "si_lag i = total_lag r" "si_pressure i = pressure_of r" "si_attested i = report_attested r"
  shows "score_of i = 100 - deductions r"
proof -
  have "pressure_of r \<noteq> JStr ''critical''" using assms(1) by (auto simp: disk_safe_def)
  then have crit: "(if pressure_of r = JStr ''critical'' then 20 else 0) = (0 :: int)" by simp
  have fails: "min 30 (si_fails i * 10) = 10 * one_if (\<not> fresh r) + 10 * one_if (\<not> lag_within r)"
    using one_if_range [of "\<not> fresh r"] one_if_range [of "\<not> lag_within r"] assms(1) by (simp add: assms(2))
  have warns: "min 15 (si_warns i * 5) = 5 * one_if (\<not> shadows_good r) + 5 * one_if (\<not> clean_open r)"
    using one_if_range [of "\<not> shadows_good r"] one_if_range [of "\<not> clean_open r"] by (simp add: assms(3))
  have other: "min 40 (si_criticals i * 20) = 0" using assms(1) by (simp add: assms(4))
  have ifs: "(if b then 10 else 0) = 10 * one_if b" "(if b then 5 else 0) = 5 * one_if b" for b
    by (simp_all add: one_if_def)
  have "0 \<le> deductions r" "deductions r \<le> 100"
    unfolding deductions_def
    using one_if_range [of "\<not> fresh r"] one_if_range [of "\<not> lag_within r"] one_if_range [of "\<not> shadows_good r"]
      one_if_range [of "\<not> clean_open r"] one_if_range [of "total_lag r \<noteq> 0"]
      one_if_range [of "pressure_of r = JStr ''warning''"] one_if_range [of "\<not> report_attested r"] by linarith+
  then have clamp: "max 0 (min 100 (100 - deductions r)) = 100 - deductions r" by simp
  show ?thesis
    using clamp unfolding score_of_def Let_def fails warns other assms(5-7) ifs crit deductions_def
    by (simp only: diff_diff_eq add.assoc add_0 diff_0_right)
qed

lemma score_range: "0 \<le> score_of i \<and> score_of i \<le> 100"
proof -
  have "0 \<le> max 0 (min 100 x) \<and> max 0 (min 100 x) \<le> (100 :: int)" for x by simp
  then show ?thesis unfolding score_of_def Let_def by blast
qed

lemma scorecard_document_valid:
  assumes "evaluate_scorecard sha256 now1 now2 written r = Inr c"
  shows "validate_scorecard (scorecard_as_dict c) = Inr []"
proof -
  obtain i where c: "sc_status c = score_status i" "sc_score c = score_of i"
    "sc_report_digest c = digest_json sha256 (JObj r)"
    using assms by (auto simp: evaluate_scorecard_def res_simps Let_def)
  have "score_status i \<in> set SCORECARD_STATUSES" by (simp add: score_status_def SCORECARD_STATUSES_def)
  then have st: "in_set (JStr (sc_status c)) SCORECARD_STATUSES = Inr True" by (simp add: c)
  have "missing_keys SCORECARD_KEYS (scorecard_as_dict c) = []"
    by (simp add: missing_keys_empty_iff SCORECARD_KEYS_def scorecard_as_dict_def)
  moreover have "starts_with ''sha256:'' (sc_report_digest c)"
    unfolding c(3) digest_json_def by (rule starts_with_append)
  ultimately show ?thesis
    using st score_range [of i]
    by (simp add: validate_scorecard_def scorecard_as_dict_def dimensions_def c(2) note_if_def)
qed

section \<open>Properties\<close>

lemma gates_valid:
  assumes "si_contract_errors i = []" and "si_criticals i = one_if (\<not> disk_safe r)" and "si_pressure i = pressure_of r"
    and "dg_status (si_diagnosis i) = fst (expected_verdict r)"
  shows "list_all gt_pass (score_gates i) \<longleftrightarrow> disk_safe r"
  using assms by (auto simp: score_gates_def expected_verdict_def one_if_def disk_safe_def)

lemma evaluate_scorecard_fields:
  "score_inputs_of now1 now2 r = Inr (component, i) \<Longrightarrow> \<exists>c. evaluate_scorecard sha256 now1 now2 written r = Inr c
     \<and> sc_status c = score_status i \<and> sc_score c = score_of i \<and> sc_inputs c = i"
  by (simp add: evaluate_scorecard_def Let_def)

text \<open>
  C30: the scorecard of a valid report is valid and explained by the report's facts.  It is blocked
  exactly when the disk is nearly full or its state unknown.  Otherwise the score is 100 less ten points
  each for a stale heartbeat, a lag above its limit, any lag at all and a tight disk, and five each for
  an unverified shadow, an unrecovered crash and a missing attestation; up to ten points less are
  \<open>ready\<close>, up to thirty \<open>watch\<close>.
\<close>

theorem scorecard_explained:
  assumes "report_ok r" and "comparable_stamps r" and "text_names r"
  shows "\<exists>c. evaluate_scorecard sha256 now1 now2 written r = Inr c
    \<and> validate_scorecard (scorecard_as_dict c) = Inr []
    \<and> sc_status c = (if \<not> disk_safe r then ''blocked'' else if deductions r \<le> 10 then ''ready''
        else if deductions r \<le> 30 then ''watch'' else ''degraded'')
    \<and> (disk_safe r \<longrightarrow> sc_score c = 100 - deductions r)"
proof -
  obtain component i where i: "score_inputs_of now1 now2 r = Inr (component, i)" "si_contract_errors i = []"
    "si_fails i = one_if (\<not> fresh r) + one_if (\<not> lag_within r) + one_if (\<not> disk_safe r)"
    "si_warns i = one_if (\<not> shadows_good r) + one_if (\<not> clean_open r)" "si_criticals i = one_if (\<not> disk_safe r)"
    "si_lag i = total_lag r" "si_pressure i = pressure_of r" "si_attested i = report_attested r"
    "dg_status (si_diagnosis i) = fst (expected_verdict r)"
    using score_inputs_valid [OF assms, of now1 now2] by blast
  obtain c where c: "evaluate_scorecard sha256 now1 now2 written r = Inr c" "sc_status c = score_status i" "sc_score c = score_of i"
    using evaluate_scorecard_fields [OF i(1)] by blast
  note gates = gates_valid [OF i(2,5,7,9)]
  have score: "score_of i = 100 - deductions r" if "disk_safe r"
    using score_safe [OF that] i by blast
  have "sc_status c = (if \<not> disk_safe r then ''blocked'' else if deductions r \<le> 10 then ''ready''
        else if deductions r \<le> 30 then ''watch'' else ''degraded'')"
    unfolding c(2) score_status_def gates using score by simp
  then show ?thesis using c score scorecard_document_valid [OF c(1)] by simp
qed

theorem scorecard_explained_witness:
  "\<exists>c. evaluate_scorecard example_digest example_now example_now ''t'' example_report = Inr c
    \<and> sc_status c = ''ready'' \<and> sc_score c = 95"
proof -
  have "disk_safe example_report" "deductions example_report = 5"
    unfolding disk_safe_def deductions_def by code_simp+
  then show ?thesis
    using scorecard_explained [OF example_report_ok, of example_digest example_now example_now "''t''"] by simp blast
qed

text \<open>
  A report that breaks the contract never gets a scorecard that is not blocked, and the score of any
  scorecard is between 0 and 100.
\<close>

theorem scorecard_blocks_invalid:
  assumes "evaluate_scorecard sha256 now1 now2 written r = Inr c"
  shows "0 \<le> sc_score c \<and> sc_score c \<le> 100 \<and> (\<not> report_ok r \<longrightarrow> sc_status c = ''blocked'')"
proof -
  obtain component i where i: "score_inputs_of now1 now2 r = Inr (component, i)"
    and c: "sc_status c = score_status i" "sc_score c = score_of i"
    using assms by (auto simp: evaluate_scorecard_def res_simps Let_def)
  have "validate_report r = Inr (si_contract_errors i)"
    using i by (auto simp: score_inputs_of_def ebind_Inr_iff split: prod.splits)
  then have "si_contract_errors i \<noteq> []" if "\<not> report_ok r"
    using that by (auto simp: validate_report_Nil)
  then show ?thesis using score_range [of i] by (auto simp: c score_status_def score_gates_def)
qed

theorem scorecard_blocks_invalid_witness:
  "\<exists>c. evaluate_scorecard example_digest example_now example_now ''t'' [] = Inr c \<and> sc_status c = ''blocked''"
proof -
  have bad: "\<not> report_ok []" by (simp add: report_ok_def has_keys_def REQUIRED_TOP_LEVEL_KEYS_def)
  have "case evaluate_scorecard example_digest example_now example_now ''t'' [] of Inr c \<Rightarrow> True | Inl e \<Rightarrow> False"
    by code_simp
  then obtain c where c: "evaluate_scorecard example_digest example_now example_now ''t'' [] = Inr c"
    by (cases "evaluate_scorecard example_digest example_now example_now ''t'' []") simp_all
  then show ?thesis using scorecard_blocks_invalid [OF c] bad by simp
qed

end
