(* ===== verification/Tooling.thy ===== *)
theory Tooling
  imports Reports Json_Reader
begin

text \<open>
  What the command line tools under \<open>tools/\<close> share: paths, the result of a command, the printing of the
  errors a JSON schema validator reports.  The validator itself (the package \<open>jsonschema\<close>) is a
  parameter of the tools' models: a function that gives, for a document, the errors in the order in which
  the package yields them.
\<close>

section \<open>Paths and texts\<close>

text \<open>An absolute path is the list of its components, by which \<open>pathlib\<close> orders paths.\<close>

type_synonym path = "string list"

definition path_str :: "path \<Rightarrow> string" where
  "path_str p = ''/'' @ join ''/'' p"

text \<open>\<open>str(p.relative_to(base))\<close>.\<close>

definition relative_to :: "path \<Rightarrow> path \<Rightarrow> string res" where
  "relative_to base p =
     (if take (length base) p = base
      then Inr (if p = base then ''.'' else join ''/'' (drop (length base) p))
      else Inl (ValueError (repr_str (path_str p) @ '' is not in the subpath of '' @ repr_str (path_str base)
             @ '' OR one path is relative and the other is absolute.'')))"

lemma relative_to_below [simp]: "relative_to base (base @ r # rs) = Inr (join ''/'' (r # rs))"
  by (simp add: relative_to_def)

section \<open>The result of a command\<close>

text \<open>The exit code with the lines written to standard output and to standard error.\<close>

record exit_result =
  ex_code :: int
  ex_out :: "string list"
  ex_err :: "string list"

definition exits :: "string list \<Rightarrow> exit_result" where
  "exits out = \<lparr>ex_code = 0, ex_out = out, ex_err = []\<rparr>"

definition fails :: "string list \<Rightarrow> exit_result" where
  "fails err = \<lparr>ex_code = 1, ex_out = [], ex_err = err\<rparr>"

lemma exit_simps [simp]:
  "ex_code (exits out) = 0" "ex_out (exits out) = out" "ex_err (exits out) = []"
  "ex_code (fails err) = 1" "ex_out (fails err) = []" "ex_err (fails err) = err"
  by (simp_all add: exits_def fails_def)

section \<open>The errors of a schema\<close>

text \<open>
  A step of the path to the value an error is about: the key of an object or the index of an array.
  Python compares the paths as lists; two paths that agree up to a position are in the same container
  there, so a key is never compared with an index, and the order between them is immaterial.
\<close>

datatype path_part = Index nat | Key string

instantiation path_part :: linorder
begin

fun less_eq_path_part :: "path_part \<Rightarrow> path_part \<Rightarrow> bool" where
  "less_eq_path_part (Index i) (Index j) = (i \<le> j)"
| "less_eq_path_part (Index i) (Key t) = True"
| "less_eq_path_part (Key s) (Index j) = False"
| "less_eq_path_part (Key s) (Key t) = (s \<le> t)"

definition less_path_part :: "path_part \<Rightarrow> path_part \<Rightarrow> bool" where
  "less_path_part x y = (x \<le> y \<and> \<not> y \<le> x)"

instance
proof
  fix x y z :: path_part
  show "(x < y) = (x \<le> y \<and> \<not> y \<le> x)" by (simp add: less_path_part_def)
  show "x \<le> x" by (cases x) simp_all
  show "x \<le> y \<Longrightarrow> y \<le> z \<Longrightarrow> x \<le> z" by (cases x; cases y; cases z) simp_all
  show "x \<le> y \<Longrightarrow> y \<le> x \<Longrightarrow> x = y" by (cases x; cases y) simp_all
  show "x \<le> y \<or> y \<le> x" by (cases x; cases y) auto
qed

end

record schema_error =
  se_path :: "path_part list"
  se_message :: string

fun part_str :: "path_part \<Rightarrow> string" where
  "part_str (Index i) = nat_str i"
| "part_str (Key s) = s"

definition error_location :: "path_part list \<Rightarrow> string" where
  "error_location p = (let location = join ''.'' (map part_str p)
     in if location = '''' then ''<root>'' else location)"

definition format_errors :: "schema_error list \<Rightarrow> string list" where
  "format_errors errors =
     map (\<lambda>e. error_location (se_path e) @ '': '' @ se_message e) (sort_key se_path errors)"

lemma format_errors_Nil [simp]: "format_errors es = [] \<longleftrightarrow> es = []"
  by (simp add: format_errors_def length_0_conv [symmetric] del: length_0_conv)

lemma length_format_errors [simp]: "length (format_errors es) = length es"
  by (simp add: format_errors_def)

section \<open>Sets of strings\<close>

text \<open>\<open>set(v or [])\<close>, and the elements two sets share.\<close>

definition set_or_empty :: "json \<Rightarrow> json list res" where
  "set_or_empty v = set_of (py_or v (JList []))"

definition set_inter :: "json list \<Rightarrow> json list \<Rightarrow> json list" where
  "set_inter xs ys = [x \<leftarrow> xs. list_ex (py_eq x) ys]"

definition set_mem :: "string \<Rightarrow> json list \<Rightarrow> bool" where
  "set_mem s xs \<longleftrightarrow> JStr s \<in> set xs"

text \<open>\<open>', '.join(sorted(xs))\<close>: only strings can be joined.\<close>

definition join_values :: "json list \<Rightarrow> string res" where
  "join_values xs = ebind (sorted_values xs) (\<lambda>ys.
     if list_all is_str ys then Inr (join '', '' (map str_value ys)) else Inl TypeError)"

text \<open>The value of a field that has to be an object: \<open>v or {}\<close>, on which \<open>get\<close> is called.\<close>

definition object_or_empty :: "json \<Rightarrow> jdict res" where
  "object_or_empty v = (case py_or v (JObj []) of JObj d \<Rightarrow> Inr d | _ \<Rightarrow> Inl AttributeError)"

lemma object_or_empty_simps [simp]:
  "object_or_empty (JObj d) = Inr d" "object_or_empty JNull = Inr []"
  by (cases d) (simp_all add: object_or_empty_def py_or_def)

lemma py_eq_text [simp]: "py_eq (JStr s) v \<longleftrightarrow> v = JStr s" "py_eq v (JStr s) \<longleftrightarrow> v = JStr s"
  by (auto simp: py_eq_def split: option.splits)

lemma dedup_texts: "dedup (map JStr xs) = map JStr (rev (remdups (rev xs)))"
proof (induction xs)
  case (Cons x xs)
  have "[y \<leftarrow> rev (remdups (rev xs)). y \<noteq> x] = rev (remdups [y \<leftarrow> rev xs. y \<noteq> x])"
    by (simp add: rev_filter remdups_filter)
  moreover have "rev (remdups (rev xs @ [x])) = x # rev (remdups [y \<leftarrow> rev xs. y \<noteq> x])"
  proof -
    have "remdups (ys @ [x]) = remdups [y \<leftarrow> ys. y \<noteq> x] @ [x]" for ys :: "string list"
      by (induction ys) auto
    then show ?thesis by simp
  qed
  ultimately show ?case using Cons by (simp add: filter_map o_def)
qed simp

lemma set_dedup_strs [simp]: "set (dedup (map JStr xs)) = JStr ` set xs"
  by (simp add: dedup_texts)

lemma set_or_empty_strs: "set_or_empty (strs xs) = Inr (dedup (map JStr xs))"
  by (cases xs) (simp_all add: set_or_empty_def py_or_def list_all_iff)

end
