(* ===== verification/Service_Graph.thy ===== *)
theory Service_Graph
  imports Tooling Scorecard
begin

text \<open>
  \<open>tools/sourceos_service_graph.py\<close>: the manifests of the services, their audit, the graph summary and the
  ten release gates.  \<open>base\<close> is the repository's root, \<open>glob\<close> the paths a pattern matches below it,
  \<open>tree_file\<close> the text of a regular file, \<open>schema\<close> the errors of the service schema.
\<close>

section \<open>Loading manifests\<close>

record service_tree =
  tree_base :: path
  tree_glob :: "string \<Rightarrow> path list"
  tree_file :: "path \<Rightarrow> string option"

definition service_paths :: "service_tree \<Rightarrow> string list \<Rightarrow> path list" where
  "service_paths tree patterns =
     sort (remdups [p \<leftarrow> concat (map (tree_glob tree) patterns). tree_file tree p \<noteq> None])"

definition load_json :: "service_tree \<Rightarrow> path \<Rightarrow> json res" where
  "load_json tree p =
     (case tree_file tree p of
        None \<Rightarrow> Inl (SystemExit (path_str p @ '': invalid JSON: [Errno 2] No such file or directory: ''
                  @ repr_str (path_str p)))
      | Some source \<Rightarrow>
          (case json_loads (universal_newlines source) of
             Inl msg \<Rightarrow> Inl (SystemExit (path_str p @ '': invalid JSON: '' @ msg))
           | Inr v \<Rightarrow> Inr v))"

type_synonym services = "(path \<times> jdict) list"

definition load_service ::
  "(jdict \<Rightarrow> schema_error list) \<Rightarrow> path \<Rightarrow> json \<Rightarrow> services \<times> string list \<Rightarrow> services \<times> string list" where
  "load_service schema p v loaded =
     (case (v, loaded) of
        (JObj service, (services, errors)) \<Rightarrow>
          (let validation_errors = format_errors (schema service) in
           if validation_errors \<noteq> []
           then (services, errors @ map (\<lambda>e. path_str p @ '': '' @ e) validation_errors)
           else (services @ [(p, service)], errors))
      | (_, (services, errors)) \<Rightarrow> (services, errors @ [path_str p @ '': expected top-level JSON object'']))"

definition load_services ::
  "(jdict \<Rightarrow> schema_error list) \<Rightarrow> service_tree \<Rightarrow> string list \<Rightarrow> (services \<times> string list) res" where
  "load_services schema tree patterns =
     (let paths = service_paths tree patterns in
      if paths = [] then Inr ([], [''no service manifests matched: '' @ join '', '' patterns])
      else efold (\<lambda>p loaded. ebind (load_json tree p) (\<lambda>v. Inr (load_service schema p v loaded))) paths ([], []))"

section \<open>The audit of a manifest\<close>

record capability_set =
  cs_required :: "json list"
  cs_optional :: "json list"
  cs_denied :: "json list"

definition capability_sets :: "jdict \<Rightarrow> capability_set res" where
  "capability_sets service =
     ebind (object_or_empty (dget0 service ''capabilities'')) (\<lambda>caps.
     ebind (set_or_empty (dget0 caps ''required'')) (\<lambda>required.
     ebind (set_or_empty (dget0 caps ''optional'')) (\<lambda>optional.
     ebind (set_or_empty (dget0 caps ''denied'')) (\<lambda>denied.
     Inr \<lparr>cs_required = required, cs_optional = optional, cs_denied = denied\<rparr>))))"

definition service_id_of :: "path \<Rightarrow> jdict \<Rightarrow> string" where
  "service_id_of p service = py_str (dget service ''service_id'' (JStr (path_str p)))"

definition audit_errors ::
  "string \<Rightarrow> capability_set \<Rightarrow> string \<Rightarrow> bool \<Rightarrow> jdict \<Rightarrow> jdict \<Rightarrow> jdict \<Rightarrow> string list" where
  "audit_errors sid caps overlap overlaps service observability owner =
     note_if overlaps (sid @ '': required capabilities also denied: '' @ overlap)
     @ note_if (cs_required caps = []) (sid @ '': must declare at least one required capability'')
     @ note_if (\<not> truthy (dget0 service ''data_classes'')) (sid @ '': data_classes must be non-empty'')
     @ note_if (\<not> truthy (dget0 service ''launch_triggers'')) (sid @ '': launch_triggers must be non-empty'')
     @ note_if (\<not> truthy (dget0 service ''resource_budget'')) (sid @ '': resource_budget must be non-empty'')
     @ note_if (dget0 observability ''emits_events'' \<noteq> JBool True)
         (sid @ '': observability.emits_events must be true'')
     @ note_if (dget0 observability ''incident_bundle'' \<noteq> JBool True)
         (sid @ '': observability.incident_bundle must be true'')
     @ note_if (dget0 service ''authority_domain'' = JStr ''app''
           \<and> \<not> set_mem ''identity.product.upstream_leak'' (cs_denied caps))
         (sid @ '': app services must deny identity.product.upstream_leak'')
     @ note_if (\<not> truthy (dget0 owner ''org'') \<or> \<not> truthy (dget0 owner ''repo''))
         (sid @ '': owner.org and owner.repo are required'')"

definition audit_warnings ::
  "string \<Rightarrow> capability_set \<Rightarrow> string \<Rightarrow> bool \<Rightarrow> jdict \<Rightarrow> jdict \<Rightarrow> string list" where
  "audit_warnings sid caps overlap overlaps service observability =
     note_if overlaps (sid @ '': optional capabilities also denied: '' @ overlap)
     @ note_if (cs_denied caps = [])
         (sid @ '': denied capability set is empty; release gate should be explicit'')
     @ note_if (\<not> truthy (dget0 observability ''health_endpoint''))
         (sid @ '': observability.health_endpoint is empty'')
     @ note_if (dget0 service ''authority_domain'' = JStr ''app''
           \<and> \<not> set_mem ''telemetry.emit.remote.default'' (cs_denied caps))
         (sid @ '': app services should explicitly deny telemetry.emit.remote.default'')"

text \<open>The errors and the warnings; the message of an empty overlap is not built.\<close>

definition audit_service :: "path \<Rightarrow> jdict \<Rightarrow> (string list \<times> string list) res" where
  "audit_service p service =
     ebind (capability_sets service) (\<lambda>caps.
     let sid = service_id_of p service;
         both = set_inter (cs_required caps) (cs_denied caps);
         odd = set_inter (cs_optional caps) (cs_denied caps) in
     ebind (sorted_values both) (\<lambda>_.
     ebind (sorted_values odd) (\<lambda>_.
     ebind (join_values both) (\<lambda>both_text.
     ebind (join_values odd) (\<lambda>odd_text.
     ebind (object_or_empty (dget0 service ''observability'')) (\<lambda>observability.
     ebind (object_or_empty (dget0 service ''owner'')) (\<lambda>owner.
     Inr (audit_errors sid caps both_text (both \<noteq> []) service observability owner,
          audit_warnings sid caps odd_text (odd \<noteq> []) service observability))))))))"

section \<open>The release gates\<close>

definition RELEASE_GATE_NAMES :: "string list" where
  "RELEASE_GATE_NAMES = [''service manifest'', ''emits canonical events or documents why not'',
     ''declares required, optional and denied capabilities'', ''hermetic launch manifest (if an app)'',
     ''incident bundle for the required fault classes'', ''no silent remote trust lookup'',
     ''no remote telemetry by default'', ''coalesces repeated expected denials'',
     ''preserves privacy while retaining causal structure'', ''DeliveryExcellence signal-quality metric'']"

definition REQUIRED_FAULT_CLASSES :: "string list" where
  "REQUIRED_FAULT_CLASSES = [''crashes'', ''denial-storms'', ''wake-anomalies'', ''identity-mismatches'',
     ''parser-faults'']"

text \<open>\<open>sorted\<close> of a set of strings, as a message shows it.\<close>

definition shown_set :: "string list \<Rightarrow> string" where
  "shown_set xs = py_repr (strs (sort xs))"

definition gate_failure :: "string \<Rightarrow> nat \<Rightarrow> bool \<Rightarrow> string \<Rightarrow> string list" where
  "gate_failure sid n ok detail = note_if (\<not> ok)
     (sid @ '': release-gate '' @ nat_str n @ '' ('' @ RELEASE_GATE_NAMES ! (n - 1) @ '') FAILED ''
      @ em_dash @ '' '' @ detail)"

definition missing_faults :: "json list \<Rightarrow> string list" where
  "missing_faults covered = [c \<leftarrow> REQUIRED_FAULT_CLASSES. \<not> set_mem c covered]"

definition gate_failures ::
  "string \<Rightarrow> jdict \<Rightarrow> jdict \<Rightarrow> capability_set \<Rightarrow> jdict \<Rightarrow> jdict \<Rightarrow> json list \<Rightarrow> string list" where
  "gate_failures sid service caps_dict caps obs rg covered =
     gate_failure sid 1 (truthy (dget0 service ''schema_version'')) ''no schema_version on the manifest''
     @ gate_failure sid 2 (dget0 obs ''emits_events'' = JBool True \<or> truthy (dget0 service ''events_exemption''))
         ''observability.emits_events must be true, or document events_exemption''
     @ gate_failure sid 3 (cs_required caps \<noteq> [] \<and> dhas caps_dict ''optional'' \<and> cs_denied caps \<noteq> [])
         ''must declare required, optional AND (non-empty) denied capabilities''
     @ gate_failure sid 4
         (dget0 service ''authority_domain'' \<noteq> JStr ''app'' \<or> truthy (dget0 rg ''hermetic_launch_manifest''))
         ''an app must declare release_gates.hermetic_launch_manifest''
     @ gate_failure sid 5 (dget0 obs ''incident_bundle'' = JBool True \<and> missing_faults covered = [])
         (''incident bundle must cover '' @ shown_set REQUIRED_FAULT_CLASSES @ ''; missing ''
          @ shown_set (missing_faults covered))
     @ gate_failure sid 6 (dget0 rg ''no_silent_remote_trust'' = JBool True)
         ''must declare release_gates.no_silent_remote_trust=true''
     @ gate_failure sid 7 (set_mem ''telemetry.emit.remote.default'' (cs_denied caps))
         ''must deny telemetry.emit.remote.default''
     @ gate_failure sid 8 (dget0 rg ''coalesces_expected_denials'' = JBool True)
         ''must declare release_gates.coalesces_expected_denials=true''
     @ gate_failure sid 9 (dget0 rg ''privacy_causal_structure'' = JBool True)
         ''must declare release_gates.privacy_causal_structure=true''
     @ gate_failure sid 10 (truthy (dget0 rg ''delivery_excellence_metric''))
         ''must declare release_gates.delivery_excellence_metric''"

definition release_gate_audit :: "path \<Rightarrow> jdict \<Rightarrow> string list res" where
  "release_gate_audit p service =
     ebind (capability_sets service) (\<lambda>caps.
     ebind (object_or_empty (dget0 service ''capabilities'')) (\<lambda>caps_dict.
     ebind (object_or_empty (dget0 service ''observability'')) (\<lambda>obs.
     ebind (object_or_empty (dget0 service ''release_gates'')) (\<lambda>rg.
     ebind (set_or_empty (dget0 rg ''incident_fault_classes'')) (\<lambda>covered.
     Inr (gate_failures (service_id_of p service) service caps_dict caps obs rg covered))))))"

section \<open>The graph\<close>

text \<open>
  The entries of a dictionary in the order of its keys.  The schema makes identifiers, domains and
  capabilities strings; the order of an identifier that is a list is not modelled.
\<close>

definition sorted_items :: "'v vdict \<Rightarrow> 'v vdict res" where
  "sorted_items d =
     ebind (sorted_values (map fst d)) (\<lambda>ks. Inr (concat (map (\<lambda>k. [kv \<leftarrow> d. fst kv = k]) ks)))"

definition vappend :: "json \<Rightarrow> json \<Rightarrow> json list vdict \<Rightarrow> json list vdict" where
  "vappend k x d = vset k (vget d k [] @ [x]) d"

record capability_use =
  cu_required_by :: "json list"
  cu_optional_for :: "json list"
  cu_denied_by :: "json list"

definition unused :: capability_use where
  "unused = \<lparr>cu_required_by = [], cu_optional_for = [], cu_denied_by = []\<rparr>"

type_synonym capability_index = "capability_use vdict"

definition index_capability ::
  "(capability_use \<Rightarrow> capability_use) \<Rightarrow> json \<Rightarrow> capability_index \<Rightarrow> capability_index" where
  "index_capability f cap ix = vset cap (f (vget ix cap unused)) ix"

definition index_service :: "json \<Rightarrow> capability_set \<Rightarrow> capability_index \<Rightarrow> capability_index" where
  "index_service sid caps ix =
     fold (index_capability (\<lambda>u. u\<lparr>cu_denied_by := cu_denied_by u @ [sid]\<rparr>)) (cs_denied caps)
       (fold (index_capability (\<lambda>u. u\<lparr>cu_optional_for := cu_optional_for u @ [sid]\<rparr>)) (cs_optional caps)
         (fold (index_capability (\<lambda>u. u\<lparr>cu_required_by := cu_required_by u @ [sid]\<rparr>)) (cs_required caps) ix))"

record graph_node =
  gn_service_id :: json
  gn_display_name :: json
  gn_manifest :: string
  gn_authority_domain :: json
  gn_owner :: string
  gn_required :: "json list"
  gn_optional :: "json list"
  gn_denied :: "json list"
  gn_emits_events :: bool
  gn_incident_bundle :: bool

record service_graph =
  sg_nodes :: "graph_node list"
  sg_domains :: "json list vdict"
  sg_owners :: "json list vdict"
  sg_index :: capability_index

definition graph_node_of :: "path \<Rightarrow> path \<times> jdict \<Rightarrow> (graph_node \<times> capability_set) res" where
  "graph_node_of base entry =
     (case entry of (p, service) \<Rightarrow>
      ebind (jsub (JObj service) ''service_id'') (\<lambda>sid.
      ebind (capability_sets service) (\<lambda>caps.
      ebind (jsub (JObj service) ''authority_domain'') (\<lambda>domain.
      ebind (need_hashable domain) (\<lambda>_.
      ebind (object_or_empty (dget0 service ''owner'')) (\<lambda>owner.
      ebind (jsub (JObj service) ''display_name'') (\<lambda>display.
      ebind (relative_to base p) (\<lambda>manifest.
      ebind (sorted_values (cs_required caps)) (\<lambda>required.
      ebind (sorted_values (cs_optional caps)) (\<lambda>optional.
      ebind (sorted_values (cs_denied caps)) (\<lambda>denied.
      ebind (object_or_empty (dget0 service ''observability'')) (\<lambda>observability.
      Inr (\<lparr>gn_service_id = sid, gn_display_name = display, gn_manifest = manifest,
            gn_authority_domain = domain,
            gn_owner = py_str (dget0 owner ''org'') @ ''/'' @ py_str (dget0 owner ''repo''),
            gn_required = required, gn_optional = optional, gn_denied = denied,
            gn_emits_events = truthy (dget0 observability ''emits_events''),
            gn_incident_bundle = truthy (dget0 observability ''incident_bundle'')\<rparr>, caps)))))))))))))"

definition add_service :: "graph_node \<times> capability_set \<Rightarrow> service_graph \<Rightarrow> service_graph" where
  "add_service entry g =
     (case entry of (n, caps) \<Rightarrow>
       \<lparr>sg_nodes = sg_nodes g @ [n],
        sg_domains = vappend (gn_authority_domain n) (gn_service_id n) (sg_domains g),
        sg_owners = vappend (JStr (gn_owner n)) (gn_service_id n) (sg_owners g),
        sg_index = index_service (gn_service_id n) caps (sg_index g)\<rparr>)"

definition empty_graph :: service_graph where
  "empty_graph = \<lparr>sg_nodes = [], sg_domains = [], sg_owners = [], sg_index = []\<rparr>"

text \<open>\<open>{key: sorted(value) for key, value in sorted(d.items())}\<close>.\<close>

definition sorted_lists :: "json list vdict \<Rightarrow> json list vdict res" where
  "sorted_lists d = ebind (sorted_items d)
     (emap (\<lambda>(k, vs). ebind (sorted_values vs) (\<lambda>ws. Inr (k, ws))))"

definition sorted_use :: "capability_use \<Rightarrow> capability_use res" where
  "sorted_use u =
     ebind (sorted_values (cu_required_by u)) (\<lambda>r.
     ebind (sorted_values (cu_optional_for u)) (\<lambda>q.
     ebind (sorted_values (cu_denied_by u)) (\<lambda>d.
     Inr \<lparr>cu_required_by = r, cu_optional_for = q, cu_denied_by = d\<rparr>)))"

definition graph_summary :: "path \<Rightarrow> services \<Rightarrow> service_graph res" where
  "graph_summary base services =
     ebind (efold (\<lambda>entry g. ebind (graph_node_of base entry) (\<lambda>n. Inr (add_service n g))) services empty_graph) (\<lambda>g.
     ebind (sorted_lists (sg_domains g)) (\<lambda>domains.
     ebind (sorted_lists (sg_owners g)) (\<lambda>owners.
     ebind (sorted_items (sg_index g)) (\<lambda>items.
     ebind (emap (\<lambda>(cap, u). ebind (sorted_use u) (\<lambda>u'. Inr (cap, u'))) items) (\<lambda>index.
     Inr \<lparr>sg_nodes = sg_nodes g, sg_domains = domains, sg_owners = owners, sg_index = index\<rparr>)))))"

definition node_json :: "graph_node \<Rightarrow> json" where
  "node_json n = JObj [
     (''service_id'', gn_service_id n), (''display_name'', gn_display_name n),
     (''manifest'', JStr (gn_manifest n)), (''authority_domain'', gn_authority_domain n),
     (''owner'', JStr (gn_owner n)), (''required_capabilities'', JList (gn_required n)),
     (''optional_capabilities'', JList (gn_optional n)), (''denied_capabilities'', JList (gn_denied n)),
     (''emits_events'', JBool (gn_emits_events n)), (''incident_bundle'', JBool (gn_incident_bundle n))]"

definition use_json :: "capability_use \<Rightarrow> json" where
  "use_json u = JObj [(''required_by'', JList (cu_required_by u)),
     (''optional_for'', JList (cu_optional_for u)), (''denied_by'', JList (cu_denied_by u))]"

definition graph_json :: "service_graph \<Rightarrow> json" where
  "graph_json g = JObj [
     (''schema_version'', JStr ''sourceos.service-graph.v0.1''),
     (''service_count'', JInt (int (length (sg_nodes g)))),
     (''services'', JList (map node_json (sg_nodes g))),
     (''authority_domains'', JObj (map (\<lambda>(k, vs). (key_text k, JList vs)) (sg_domains g))),
     (''owners'', JObj (map (\<lambda>(k, vs). (key_text k, JList vs)) (sg_owners g))),
     (''capability_index'', JObj (map (\<lambda>(k, u). (key_text k, use_json u)) (sg_index g)))]"

section \<open>The commands\<close>

text \<open>The errors of all services follow each other; every warning is printed as it is found.\<close>

definition cmd_validate ::
  "(jdict \<Rightarrow> schema_error list) \<Rightarrow> service_tree \<Rightarrow> string list \<Rightarrow> exit_result res" where
  "cmd_validate schema tree patterns =
     ebind (load_services schema tree patterns) (\<lambda>(services, errors).
     if errors \<noteq> [] then Inr (fails errors)
     else ebind (emap (\<lambda>(p, service). audit_service p service) services) (\<lambda>audits.
       let errors = concat (map fst audits); warnings = concat (map snd audits);
           warned = map (\<lambda>w. ''warning: '' @ w) warnings
       in Inr (if errors \<noteq> [] then fails (warned @ errors)
          else (exits [''validated '' @ nat_str (length services) @ '' SourceOS service manifest(s); warnings=''
                  @ nat_str (length warnings)]) \<lparr>ex_err := warned\<rparr>)))"

definition node_line :: "graph_node \<Rightarrow> string" where
  "node_line n = ''- '' @ py_str (gn_service_id n) @ '' ('' @ py_str (gn_authority_domain n) @ '') owner=''
     @ gn_owner n @ '' required='' @ nat_str (length (gn_required n))
     @ '' denied='' @ nat_str (length (gn_denied n))"

definition cmd_graph ::
  "(jdict \<Rightarrow> schema_error list) \<Rightarrow> service_tree \<Rightarrow> string list \<Rightarrow> bool \<Rightarrow> exit_result res" where
  "cmd_graph schema tree patterns as_json =
     ebind (load_services schema tree patterns) (\<lambda>(services, errors).
     if errors \<noteq> [] then Inr (fails errors)
     else ebind (graph_summary (tree_base tree) services) (\<lambda>g.
       Inr (exits (if as_json then [json_indented 0 (sort_keys (graph_json g))]
         else (''services: '' @ nat_str (length (sg_nodes g))) # map node_line (sg_nodes g)))))"

definition cmd_release_gates ::
  "(jdict \<Rightarrow> schema_error list) \<Rightarrow> service_tree \<Rightarrow> string list \<Rightarrow> exit_result res" where
  "cmd_release_gates schema tree patterns =
     ebind (load_services schema tree patterns) (\<lambda>(services, errors).
     if errors \<noteq> [] then Inr (fails errors)
     else ebind (emap (\<lambda>(p, service). release_gate_audit p service) services) (\<lambda>audits.
       let all_fails = concat audits
       in Inr (if all_fails \<noteq> []
          then fails (all_fails @ [''release-gate audit: '' @ nat_str (length all_fails)
                 @ '' gate failure(s) across '' @ nat_str (length services) @ '' service(s)''])
          else exits [''release-gate audit: all ten gates pass for '' @ nat_str (length services)
                 @ '' service manifest(s)''])))"

section \<open>What the gates ask\<close>

text \<open>The elements of a list-valued field.\<close>

definition elements :: "json \<Rightarrow> json set" where
  "elements v = (case py_iter v of Inl e \<Rightarrow> {} | Inr xs \<Rightarrow> set xs)"

lemma elements_simps [simp]: "elements (JList xs) = set xs" "elements JNull = {}"
  by (simp_all add: elements_def)

lemma dedup_Nil [simp]: "dedup xs = [] \<longleftrightarrow> xs = []"
  by (cases xs) simp_all

lemma JStr_in_dedup [simp]: "JStr s \<in> set (dedup xs) \<longleftrightarrow> JStr s \<in> set xs"
  by (induction xs) auto

lemma set_of_elements:
  assumes "set_of v = Inr xs"
  shows "xs = [] \<longleftrightarrow> elements v = {}" and "JStr s \<in> set xs \<longleftrightarrow> JStr s \<in> elements v"
  using assms by (cases v; auto simp: elements_def split: if_splits)+

lemma set_or_empty_elements:
  assumes "set_or_empty v = Inr xs"
  shows "xs = [] \<longleftrightarrow> elements v = {}" and "set_mem s xs \<longleftrightarrow> JStr s \<in> elements v"
proof -
  have falsy: "elements v = {}" if "\<not> truthy v"
    using that by (cases v) (auto simp: elements_def)
  show "xs = [] \<longleftrightarrow> elements v = {}"
    using assms falsy by (cases "truthy v") (auto simp: set_or_empty_def py_or_def dest: set_of_elements(1))
  show "set_mem s xs \<longleftrightarrow> JStr s \<in> elements v"
    using assms falsy by (cases "truthy v") (auto simp: set_or_empty_def py_or_def set_mem_def set_of_elements(2))
qed

lemma object_or_empty_Inr: "object_or_empty (dget0 s k) = Inr d \<Longrightarrow> d = sub_dict s k"
  by (auto simp: object_or_empty_def py_or_def sub_dict_def split: if_splits json.splits)
    (cases "dget0 s k"; auto)+

definition capabilities_of :: "jdict \<Rightarrow> string \<Rightarrow> json set" where
  "capabilities_of s k = elements (dget0 (sub_dict s ''capabilities'') k)"

text \<open>The ten gates, on the manifest.\<close>

definition gate_holds :: "jdict \<Rightarrow> nat \<Rightarrow> bool" where
  "gate_holds s n =
     (let obs = sub_dict s ''observability''; rg = sub_dict s ''release_gates'' in
      if n = 1 then truthy (dget0 s ''schema_version'')
      else if n = 2 then dget0 obs ''emits_events'' = JBool True \<or> truthy (dget0 s ''events_exemption'')
      else if n = 3 then capabilities_of s ''required'' \<noteq> {} \<and> dhas (sub_dict s ''capabilities'') ''optional''
             \<and> capabilities_of s ''denied'' \<noteq> {}
      else if n = 4 then dget0 s ''authority_domain'' = JStr ''app'' \<longrightarrow> truthy (dget0 rg ''hermetic_launch_manifest'')
      else if n = 5 then dget0 obs ''incident_bundle'' = JBool True
             \<and> JStr ` set REQUIRED_FAULT_CLASSES \<subseteq> elements (dget0 rg ''incident_fault_classes'')
      else if n = 6 then dget0 rg ''no_silent_remote_trust'' = JBool True
      else if n = 7 then JStr ''telemetry.emit.remote.default'' \<in> capabilities_of s ''denied''
      else if n = 8 then dget0 rg ''coalesces_expected_denials'' = JBool True
      else if n = 9 then dget0 rg ''privacy_causal_structure'' = JBool True
      else truthy (dget0 rg ''delivery_excellence_metric''))"

text \<open>The fields are of the types the audit can read.\<close>

definition object_like :: "json \<Rightarrow> bool" where
  "object_like v \<longleftrightarrow> is_dict v \<or> \<not> truthy v"

fun set_like :: "json \<Rightarrow> bool" where
  "set_like (JList xs) = list_all hashable xs"
| "set_like (JStr s) = True"
| "set_like (JObj d) = True"
| "set_like v = (\<not> truthy v)"

definition readable_service :: "jdict \<Rightarrow> bool" where
  "readable_service s \<longleftrightarrow>
     object_like (dget0 s ''capabilities'') \<and> object_like (dget0 s ''observability'')
     \<and> object_like (dget0 s ''release_gates'')
     \<and> list_all (\<lambda>k. set_like (dget0 (sub_dict s ''capabilities'') k)) [''required'', ''optional'', ''denied'']
     \<and> set_like (dget0 (sub_dict s ''release_gates'') ''incident_fault_classes'')"

lemma object_or_empty_iff: "(\<exists>d. object_or_empty v = Inr d) \<longleftrightarrow> object_like v"
  by (cases v) (auto simp: object_or_empty_def py_or_def object_like_def)

lemma set_or_empty_iff: "(\<exists>xs. set_or_empty v = Inr xs) \<longleftrightarrow> set_like v"
  by (cases v) (auto simp: set_or_empty_def py_or_def)

lemma object_like_Inr: "object_like (dget0 s k) \<Longrightarrow> object_or_empty (dget0 s k) = Inr (sub_dict s k)"
  using object_or_empty_iff object_or_empty_Inr by blast

lemma capability_sets_readable:
  assumes "readable_service s"
  shows "\<exists>caps. capability_sets s = Inr caps
    \<and> (cs_required caps = [] \<longleftrightarrow> capabilities_of s ''required'' = {})
    \<and> (cs_denied caps = [] \<longleftrightarrow> capabilities_of s ''denied'' = {})
    \<and> (\<forall>c. set_mem c (cs_denied caps) \<longleftrightarrow> JStr c \<in> capabilities_of s ''denied'')"
proof -
  let ?c = "sub_dict s ''capabilities''"
  have "set_like (dget0 ?c ''required'')" "set_like (dget0 ?c ''optional'')" "set_like (dget0 ?c ''denied'')"
    using assms by (simp_all add: readable_service_def)
  then obtain r q d where sets: "set_or_empty (dget0 ?c ''required'') = Inr r"
    "set_or_empty (dget0 ?c ''optional'') = Inr q" "set_or_empty (dget0 ?c ''denied'') = Inr d"
    by (auto simp: set_or_empty_iff [symmetric])
  have "object_or_empty (dget0 s ''capabilities'') = Inr ?c"
    using assms by (intro object_like_Inr) (simp add: readable_service_def)
  then show ?thesis
    using set_or_empty_elements [OF sets(1)] set_or_empty_elements [OF sets(3)]
    by (simp add: capability_sets_def sets capabilities_of_def)
qed

lemma missing_faults_Nil:
  assumes "set_or_empty v = Inr covered"
  shows "missing_faults covered = [] \<longleftrightarrow> JStr ` set REQUIRED_FAULT_CLASSES \<subseteq> elements v"
  using set_or_empty_elements(2) [OF assms] by (auto simp: missing_faults_def filter_empty_conv)

lemma unreadable_raises:
  assumes "\<not> readable_service s"
  shows "\<exists>e. release_gate_audit p s = Inl e"
proof (rule ccontr)
  assume "\<nexists>e. release_gate_audit p s = Inl e"
  then obtain fs where "release_gate_audit p s = Inr fs" by (cases "release_gate_audit p s") auto
  then obtain caps c o' r xs where steps: "capability_sets s = Inr caps"
    "object_or_empty (dget0 s ''capabilities'') = Inr c" "object_or_empty (dget0 s ''observability'') = Inr o'"
    "object_or_empty (dget0 s ''release_gates'') = Inr r"
    "set_or_empty (dget0 r ''incident_fault_classes'') = Inr xs"
    by (auto simp: release_gate_audit_def res_simps)
  then have "c = sub_dict s ''capabilities''" "r = sub_dict s ''release_gates''"
    by (auto dest: object_or_empty_Inr)
  moreover have "set_like (dget0 c k)" if "k \<in> set [''required'', ''optional'', ''denied'']" for k
    using steps(1,2) that by (auto simp: capability_sets_def res_simps set_or_empty_iff [symmetric])
  ultimately have "readable_service s"
    using steps unfolding readable_service_def
    by (auto simp: list_all_iff object_or_empty_iff [symmetric] set_or_empty_iff [symmetric])
  then show False using assms by simp
qed

text \<open>The failures of a list of gates.\<close>

definition gate_message :: "string \<Rightarrow> nat \<Rightarrow> string \<Rightarrow> string" where
  "gate_message sid n detail = sid @ '': release-gate '' @ nat_str n @ '' ('' @ RELEASE_GATE_NAMES ! (n - 1)
     @ '') FAILED '' @ em_dash @ '' '' @ detail"

lemma gate_failure_message: "gate_failure sid n ok detail = (if ok then [] else [gate_message sid n detail])"
  by (simp add: gate_failure_def gate_message_def note_if_def)

lemma release_gate_audit_readable:
  assumes "readable_service s"
  shows "\<exists>details. release_gate_audit p s =
    Inr (map (\<lambda>n. gate_message (service_id_of p s) n (details n)) [n \<leftarrow> [1..<11]. \<not> gate_holds s n])"
proof -
  obtain caps where caps: "capability_sets s = Inr caps"
    "cs_required caps = [] \<longleftrightarrow> capabilities_of s ''required'' = {}"
    "cs_denied caps = [] \<longleftrightarrow> capabilities_of s ''denied'' = {}"
    "\<And>c. set_mem c (cs_denied caps) \<longleftrightarrow> JStr c \<in> capabilities_of s ''denied''"
    using capability_sets_readable [OF assms] by blast
  have dicts: "object_or_empty (dget0 s k) = Inr (sub_dict s k)"
    if "k = ''capabilities'' \<or> k = ''observability'' \<or> k = ''release_gates''" for k
    using assms that by (intro object_like_Inr) (auto simp: readable_service_def)
  obtain covered where covered: "set_or_empty (dget0 (sub_dict s ''release_gates'') ''incident_fault_classes'') = Inr covered"
    using assms set_or_empty_iff by (auto simp: readable_service_def)
  define details where "details n =
    (if n = 1 then ''no schema_version on the manifest''
     else if n = 2 then ''observability.emits_events must be true, or document events_exemption''
     else if n = 3 then ''must declare required, optional AND (non-empty) denied capabilities''
     else if n = 4 then ''an app must declare release_gates.hermetic_launch_manifest''
     else if n = 5 then ''incident bundle must cover '' @ shown_set REQUIRED_FAULT_CLASSES @ ''; missing ''
          @ shown_set (missing_faults covered)
     else if n = 6 then ''must declare release_gates.no_silent_remote_trust=true''
     else if n = 7 then ''must deny telemetry.emit.remote.default''
     else if n = 8 then ''must declare release_gates.coalesces_expected_denials=true''
     else if n = 9 then ''must declare release_gates.privacy_causal_structure=true''
     else ''must declare release_gates.delivery_excellence_metric'')" for n :: nat
  define part where "part n = map (\<lambda>n. gate_message (service_id_of p s) n (details n)) [k \<leftarrow> [n]. \<not> gate_holds s k]" for n
  have part: "gate_failure (service_id_of p s) n ok d = part n" if "ok = gate_holds s n" and "d = details n" for n ok d
    using that by (simp add: part_def gate_failure_message)
  have "gate_failures (service_id_of p s) s (sub_dict s ''capabilities'') caps (sub_dict s ''observability'')
      (sub_dict s ''release_gates'') covered
    = part 1 @ part 2 @ part 3 @ part 4 @ part 5 @ part 6 @ part 7 @ part 8 @ part 9 @ part 10"
    unfolding gate_failures_def
    by (intro arg_cong2 [where f = append] part; simp only: gate_holds_def details_def Let_def caps(2-4)
        missing_faults_Nil [OF covered] simp_thms if_True if_False; simp)
  moreover have "[1..<11] = [1, 2, 3, 4, 5, 6, 7, 8, 9, 10 :: nat]" by code_simp
  ultimately have "release_gate_audit p s = Inr (map (\<lambda>n. gate_message (service_id_of p s) n (details n))
      [n \<leftarrow> [1..<11]. \<not> gate_holds s n])"
    by (simp only: release_gate_audit_def caps(1) dicts covered ebind_simps simp_thms part_def map_append [symmetric]
        filter_append [symmetric] append_Cons append_Nil)
  then show ?thesis by blast
qed

section \<open>Properties\<close>

definition release_ready :: "jdict \<Rightarrow> bool" where
  "release_ready s \<longleftrightarrow> readable_service s \<and> list_all (gate_holds s) [1..<11]"

interpretation release_gates: decision_gate "release_gate_audit p" "\<lambda>fs. fs = []" release_ready for p
proof unfold_locales
  fix s d assume audit: "release_gate_audit p s = Inr d" "d = []"
  then have ok: "readable_service s" using unreadable_raises [of s p] by auto
  then show "release_ready s"
    using release_gate_audit_readable [OF ok, of p] audit
    by (auto simp: release_ready_def filter_empty_conv list_all_iff)
next
  fix s assume s: "release_ready s"
  then have "[n \<leftarrow> [1..<11]. \<not> gate_holds s n] = []" by (auto simp: release_ready_def filter_empty_conv list_all_iff)
  then show "\<exists>d. release_gate_audit p s = Inr d \<and> d = []"
    using release_gate_audit_readable [of s p] s by (auto simp: release_ready_def)
qed

text \<open>
  The release gate audit of a manifest that can be read names exactly the gates that do not hold: one
  message per gate, in the order of their numbers, and none when all ten hold.  A manifest that cannot be read
  (a field of the wrong type) makes it raise; it never passes.
\<close>

theorem release_gates_decide:
  shows "if readable_service s
    then \<exists>fs. release_gate_audit p s = Inr fs \<and> (fs = [] \<longleftrightarrow> release_ready s)
      \<and> (\<exists>details. fs = map (\<lambda>n. gate_message (service_id_of p s) n (details n)) [n \<leftarrow> [1..<11]. \<not> gate_holds s n])
    else \<exists>e. release_gate_audit p s = Inl e"
proof (cases "readable_service s")
  case True
  then show ?thesis using release_gate_audit_readable [OF True, of p] by (auto simp: filter_empty_conv release_ready_def list_all_iff)
next
  case False
  then show ?thesis using unreadable_raises by simp
qed

theorem release_gates_decide_witness:
  "\<exists>fs. release_gate_audit [''m.json''] [(''authority_domain'', JStr ''app'')] = Inr fs \<and> length fs = 10"
proof -
  let ?s = "[(''authority_domain'', JStr ''app'')]"
  have "readable_service ?s" by code_simp
  moreover have "length [n \<leftarrow> [1..<11]. \<not> gate_holds ?s n] = 10" by code_simp
  ultimately show ?thesis using release_gates_decide [of ?s "[''m.json'']"] by auto
qed

lemma load_service_cases:
  "(\<exists>s. v = JObj s \<and> schema s = [] \<and> load_service schema p v (ss, es) = (ss @ [(p, s)], es))
    \<or> \<not> (\<exists>s. v = JObj s \<and> schema s = []) \<and> (\<exists>e. e \<noteq> [] \<and> load_service schema p v (ss, es) = (ss, es @ e))"
  by (cases v) (auto simp: load_service_def Let_def)

lemma load_services_clean:
  "load_services schema tree patterns = Inr (services, []) \<longleftrightarrow>
     service_paths tree patterns \<noteq> []
     \<and> list_all2 (\<lambda>p (q, s). q = p \<and> load_json tree p = Inr (JObj s) \<and> schema s = [])
         (service_paths tree patterns) services"
proof -
  have run: "efold (\<lambda>p loaded. ebind (load_json tree p) (\<lambda>v. Inr (load_service schema p v loaded))) ps (ss, es)
      = Inr (final, []) \<longleftrightarrow> es = [] \<and> (\<exists>new. final = ss @ new
        \<and> list_all2 (\<lambda>p (q, s). q = p \<and> load_json tree p = Inr (JObj s) \<and> schema s = []) ps new)" for ps ss es final
  proof (induction ps arbitrary: ss es final)
    case (Cons p ps)
    show ?case
    proof (cases "load_json tree p")
      case (Inr v)
      show ?thesis
        using load_service_cases [of v schema p ss es] by (auto simp: Inr Cons list_all2_Cons1)
    qed (auto simp: list_all2_Cons1)
  qed auto
  show ?thesis by (auto simp: load_services_def Let_def run)
qed

text \<open>
  C7: \<open>release-gates\<close> exits with 0 exactly when at least one manifest was found and every manifest found parses,
  is valid under the schema and passes all ten gates: an empty match, a broken file and a field of the
  wrong type all stop the release.
\<close>

theorem release_needs_every_manifest:
  "(\<exists>r. cmd_release_gates schema tree patterns = Inr r \<and> ex_code r = 0) \<longleftrightarrow>
     service_paths tree patterns \<noteq> []
     \<and> list_all (\<lambda>p. \<exists>s. load_json tree p = Inr (JObj s) \<and> schema s = [] \<and> release_ready s) (service_paths tree patterns)"
proof -
  have pass: "release_gate_audit p s = Inr [] \<longleftrightarrow> release_ready s" for p s
    using release_gates.granted_iff [of p s] by blast
  have clean: "(\<exists>audits. emap f (x # xs) = Inr audits \<and> concat audits = []) \<longleftrightarrow>
      f x = Inr [] \<and> (\<exists>audits. emap f xs = Inr audits \<and> concat audits = [])"
    for f :: "path \<times> jdict \<Rightarrow> string list res" and x xs
    by (cases "f x"; cases "emap f xs") auto
  have audits: "(\<exists>audits. emap (\<lambda>(p, s). release_gate_audit p s) ss = Inr audits \<and> concat audits = [])
      \<longleftrightarrow> list_all (\<lambda>(p, s). release_ready s) ss" for ss
    by (induction ss) (simp_all only: clean list.pred_inject split_paired_all case_prod_conv pass, simp_all)
  have run: "(\<exists>r. cmd_release_gates schema tree patterns = Inr r \<and> ex_code r = 0) \<longleftrightarrow>
      (\<exists>services. load_services schema tree patterns = Inr (services, [])
        \<and> (\<exists>audits. emap (\<lambda>(p, s). release_gate_audit p s) services = Inr audits \<and> concat audits = []))"
    by (auto simp: cmd_release_gates_def res_simps Let_def split: if_splits) (metis exit_simps(1))+
  have lists: "(\<exists>services. list_all2 (\<lambda>p (q, s). q = p \<and> load_json tree p = Inr (JObj s) \<and> schema s = []) ps services
        \<and> list_all (\<lambda>(p, s). release_ready s) services)
      \<longleftrightarrow> list_all (\<lambda>p. \<exists>s. load_json tree p = Inr (JObj s) \<and> schema s = [] \<and> release_ready s) ps" for ps
  proof (induction ps)
    case (Cons p ps)
    show ?case unfolding list.pred_inject(2) Cons [symmetric]
      by (fastforce simp: list_all2_Cons1)
  qed simp
  show ?thesis unfolding run load_services_clean audits using lists by blast
qed

section \<open>The graph of valid manifests\<close>

lemma vget_vset_str: "vget (vset k v d) (JStr c) w = (if k = JStr c then v else vget d (JStr c) w)"
proof (cases "k = JStr c")
  case True
  have same: "vget (map (\<lambda>(k', w'). (k', if k' = JStr c then v else w')) d) (JStr c) w = v" if "vhas d (JStr c)"
    using that by (induction d) (auto simp: vget_def vhas_def)
  have new: "vget (d @ [(JStr c, v)]) (JStr c) w = v" if "\<not> vhas d (JStr c)"
    using that by (induction d) (auto simp: vget_def vhas_def)
  show ?thesis using True same new by (simp add: vset_def)
next
  case False
  then have "vget (map (\<lambda>(k', w'). (k', if py_eq k' k then v else w')) d) (JStr c) w = vget d (JStr c) w"
    by (induction d) (auto simp: vget_def)
  moreover have "vget (d @ [(k, v)]) (JStr c) w = vget d (JStr c) w"
    using False by (induction d) (auto simp: vget_def)
  ultimately show ?thesis using False by (simp add: vset_def)
qed

definition str_keys :: "'v vdict \<Rightarrow> bool" where
  "str_keys d \<longleftrightarrow> list_all (\<lambda>(k, v). is_str k) d"

lemma str_keys_Nil [simp]: "str_keys []"
  by (simp add: str_keys_def)

lemma str_keys_vset [simp]: "str_keys d \<Longrightarrow> str_keys (vset (JStr c) v d)"
  by (auto simp: str_keys_def vset_def list_all_iff)

definition names_of :: "json \<Rightarrow> string list" where
  "names_of v = (case v of JList xs \<Rightarrow> map str_value xs | _ \<Rightarrow> [])"

definition is_strings :: "json \<Rightarrow> bool" where
  "is_strings v \<longleftrightarrow> is_list v \<and> (case v of JList xs \<Rightarrow> list_all is_str xs | _ \<Rightarrow> False)"

lemma map_str_value: "list_all is_str xs \<Longrightarrow> map (\<lambda>v. JStr (str_value v)) xs = xs"
  by (induction xs) (auto elim: is_strE)

lemma names_of_strs: "is_strings v \<Longrightarrow> v = strs (names_of v)"
  by (cases v) (auto simp: is_strings_def names_of_def map_str_value o_def)

lemma sorted_values_strs [simp]: "sorted_values (map JStr xs) = Inr (map JStr (sort xs))"
proof (cases "length xs \<le> 1")
  case True
  then show ?thesis by (cases xs) (auto simp: sorted_values_def)
next
  case False
  then show ?thesis by (simp add: sorted_values_def o_def list_all_iff)
qed

lemma sorted_values_all_str: "list_all is_str xs \<Longrightarrow> sorted_values xs = Inr (map JStr (sort (map str_value xs)))"
  by (metis (no_types, lifting) comp_def list.map_comp map_str_value map_eq_conv sorted_values_strs)

lemma find_in: "find P xs = Some x \<Longrightarrow> x \<in> set xs"
  by (metis find_Some_iff nth_mem)

lemma vget_in: "vget d k w = w \<or> (\<exists>k'. (k', vget d k w) \<in> set d)"
  unfolding vget_def by (auto split: option.split dest: find_in)

lemma vset_values: "list_all (\<lambda>(k, x). P x) d \<Longrightarrow> P v \<Longrightarrow> list_all (\<lambda>(k, x). P x) (vset k v d)"
  unfolding vset_def by (auto simp: list_all_iff split: if_splits)

text \<open>Sorting the entries keeps what a key is mapped to.\<close>

lemma vget_sorted_items:
  assumes "str_keys d"
  shows "\<exists>e. sorted_items d = Inr e \<and> set e = set d \<and> (\<forall>c w. vget e (JStr c) w = vget d (JStr c) w)"
proof -
  have keys: "list_all is_str (map fst d)" using assms by (auto simp: str_keys_def list_all_iff)
  define ks where "ks = map JStr (sort (map str_value (map fst d)))"
  define e where "e = concat (map (\<lambda>k. [kv \<leftarrow> d. fst kv = k]) ks)"
  have "JStr ` str_value ` fst ` set d = fst ` set d"
    using keys by (force simp: list_all_iff image_iff elim: is_strE)
  then have ks: "set ks = fst ` set d" by (simp add: ks_def image_image)
  have lookup: "find (\<lambda>(k', v). k' = JStr c) (concat (map (\<lambda>k. [kv \<leftarrow> d. fst kv = k]) ls))
      = (if JStr c \<in> set ls then find (\<lambda>(k', v). k' = JStr c) d else None)" for c ls
  proof (induction ls)
    case (Cons l ls)
    have "find (\<lambda>(k', v). k' = JStr c) ([kv \<leftarrow> d. fst kv = JStr c] @ rest)
        = (if find (\<lambda>(k', v). k' = JStr c) d = None then find (\<lambda>(k', v). k' = JStr c) rest
           else find (\<lambda>(k', v). k' = JStr c) d)" for rest
      by (induction d) auto
    moreover have "find (\<lambda>(k', v). k' = JStr c) ([kv \<leftarrow> d. fst kv = l] @ rest)
        = find (\<lambda>(k', v). k' = JStr c) rest" if "l \<noteq> JStr c" for rest
      using that by (induction d) auto
    ultimately show ?case using Cons by (cases "l = JStr c") simp_all
  qed simp
  have "find (\<lambda>(k', v). k' = JStr c) d = None" if "JStr c \<notin> set ks" for c
    using that unfolding ks by (force simp: find_None_iff)
  then have "vget e (JStr c) w = vget d (JStr c) w" for c w
    unfolding vget_def e_def by (simp add: lookup)
  moreover have "sorted_items d = Inr e"
    using sorted_values_all_str [OF keys] by (simp add: sorted_items_def e_def ks_def)
  moreover have "set e = set d" by (auto simp: e_def ks)
  ultimately show ?thesis by blast
qed

text \<open>What the schema requires of a manifest.\<close>

definition schema_shape :: "jdict \<Rightarrow> bool" where
  "schema_shape s \<longleftrightarrow>
     is_str (dget0 s ''service_id'') \<and> is_str (dget0 s ''authority_domain'') \<and> is_str (dget0 s ''display_name'')
     \<and> is_dict (dget0 s ''owner'') \<and> is_dict (dget0 s ''observability'') \<and> is_dict (dget0 s ''capabilities'')
     \<and> list_all (\<lambda>k. is_strings (dget0 (sub_dict s ''capabilities'') k)) [''required'', ''optional'', ''denied'']"

definition capability_names :: "jdict \<Rightarrow> string \<Rightarrow> string list" where
  "capability_names s k = names_of (dget0 (sub_dict s ''capabilities'') k)"

definition id_of :: "jdict \<Rightarrow> string" where
  "id_of s = str_value (dget0 s ''service_id'')"

definition set_values :: "string list \<Rightarrow> json list" where
  "set_values xs = dedup (map JStr xs)"

lemma set_values_simps: "distinct (set_values xs)" "JStr c \<in> set (set_values xs) \<longleftrightarrow> c \<in> set xs"
    "list_all is_str (set_values xs)"
  unfolding set_values_def dedup_texts by (auto simp: distinct_map list_all_iff inj_on_def)

lemma object_or_empty_dict: "is_dict (dget0 s k) \<Longrightarrow> object_or_empty (dget0 s k) = Inr (sub_dict s k)"
  by (cases "dget0 s k") (simp_all add: sub_dict_def)

lemma capability_sets_shape:
  assumes "schema_shape s"
  shows "capability_sets s = Inr \<lparr>cs_required = set_values (capability_names s ''required''),
    cs_optional = set_values (capability_names s ''optional''), cs_denied = set_values (capability_names s ''denied'')\<rparr>"
proof -
  have "is_dict (dget0 s ''capabilities'')" using assms by (simp add: schema_shape_def)
  note caps = object_or_empty_dict [OF this]
  have "set_or_empty (dget0 (sub_dict s ''capabilities'') k) = Inr (set_values (capability_names s k))"
    if "k = ''required'' \<or> k = ''optional'' \<or> k = ''denied''" for k
  proof -
    have "is_strings (dget0 (sub_dict s ''capabilities'') k)" using assms that by (auto simp: schema_shape_def)
    then show ?thesis
      unfolding capability_names_def set_values_def
      by (subst names_of_strs) (simp_all only: set_or_empty_strs)
  qed
  then show ?thesis by (simp add: capability_sets_def caps)
qed

definition use_of :: "capability_use \<Rightarrow> json \<Rightarrow> bool \<Rightarrow> bool \<Rightarrow> bool \<Rightarrow> capability_use" where
  "use_of u sid r q d = \<lparr>cu_required_by = cu_required_by u @ (if r then [sid] else []),
     cu_optional_for = cu_optional_for u @ (if q then [sid] else []),
     cu_denied_by = cu_denied_by u @ (if d then [sid] else [])\<rparr>"

lemma index_fold:
  assumes "distinct caps" and "list_all is_str caps" and "str_keys ix"
  shows "str_keys (fold (index_capability f) caps ix)"
    and "vget (fold (index_capability f) caps ix) (JStr c) unused =
      (if JStr c \<in> set caps then f (vget ix (JStr c) unused) else vget ix (JStr c) unused)"
  using assms
  by (induction caps arbitrary: ix) (auto simp: index_capability_def vget_vset_str elim!: is_strE split: if_splits)

lemma index_service_lookup:
  assumes "caps = \<lparr>cs_required = set_values r, cs_optional = set_values q, cs_denied = set_values d\<rparr>" and "str_keys ix"
  shows "str_keys (index_service sid caps ix)"
    and "vget (index_service sid caps ix) (JStr c) unused =
      use_of (vget ix (JStr c) unused) sid (c \<in> set r) (c \<in> set q) (c \<in> set d)"
  using assms by (simp_all add: index_service_def index_fold set_values_simps use_of_def)

text \<open>The services that use a capability, as a comprehension over the manifests.\<close>

definition users :: "string \<Rightarrow> string \<Rightarrow> services \<Rightarrow> string list" where
  "users k c services = map (\<lambda>(p, s). id_of s) [(p, s) \<leftarrow> services. c \<in> set (capability_names s k)]"

lemma users_simps [simp]:
  "users k c [] = []"
  "users k c ((p, s) # ss) = (if c \<in> set (capability_names s k) then id_of s # users k c ss else users k c ss)"
  by (simp_all add: users_def)

definition uses_of :: "string \<Rightarrow> services \<Rightarrow> capability_use" where
  "uses_of c services = \<lparr>cu_required_by = map JStr (users ''required'' c services),
     cu_optional_for = map JStr (users ''optional'' c services),
     cu_denied_by = map JStr (users ''denied'' c services)\<rparr>"

definition use_append :: "capability_use \<Rightarrow> capability_use \<Rightarrow> capability_use" where
  "use_append u v = \<lparr>cu_required_by = cu_required_by u @ cu_required_by v,
     cu_optional_for = cu_optional_for u @ cu_optional_for v, cu_denied_by = cu_denied_by u @ cu_denied_by v\<rparr>"

definition str_lists :: "json list vdict \<Rightarrow> bool" where
  "str_lists d \<longleftrightarrow> str_keys d \<and> list_all (\<lambda>(k, vs). list_all is_str vs) d"

lemma str_lists_vappend: "str_lists d \<Longrightarrow> str_lists (vappend (JStr k) (JStr x) d)"
proof -
  assume d: "str_lists d"
  have "list_all is_str (vget d (JStr k) [])"
    using d vget_in [of d "JStr k" "[]"] by (fastforce simp: str_lists_def list_all_iff)
  then have "list_all (\<lambda>(k, vs). list_all is_str vs) (vset (JStr k) (vget d (JStr k) [] @ [JStr x]) d)"
    using d by (intro vset_values) (simp_all add: str_lists_def)
  then show ?thesis using d by (simp add: str_lists_def vappend_def)
qed

definition str_index :: "capability_index \<Rightarrow> bool" where
  "str_index ix \<longleftrightarrow> str_keys ix \<and> list_all (\<lambda>(k, u). list_all is_str (cu_required_by u)
     \<and> list_all is_str (cu_optional_for u) \<and> list_all is_str (cu_denied_by u)) ix"

definition graph_ok :: "service_graph \<Rightarrow> bool" where
  "graph_ok g \<longleftrightarrow> str_lists (sg_domains g) \<and> str_lists (sg_owners g) \<and> str_index (sg_index g)"

lemma str_index_step:
  assumes "str_index ix" and "\<And>u. list_all is_str (cu_required_by u) \<and> list_all is_str (cu_optional_for u)
      \<and> list_all is_str (cu_denied_by u) \<Longrightarrow> list_all is_str (cu_required_by (f u))
      \<and> list_all is_str (cu_optional_for (f u)) \<and> list_all is_str (cu_denied_by (f u))"
    and "list_all is_str caps"
  shows "str_index (fold (index_capability f) caps ix)"
  using assms(1,3)
proof (induction caps arbitrary: ix)
  case (Cons k ks)
  let ?ok = "\<lambda>u. list_all is_str (cu_required_by u) \<and> list_all is_str (cu_optional_for u)
      \<and> list_all is_str (cu_denied_by u)"
  have "?ok (vget ix k unused)"
    using Cons.prems(1) vget_in [of ix k unused] by (fastforce simp: str_index_def list_all_iff unused_def)
  then have "?ok (f (vget ix k unused))" by (rule assms(2))
  moreover have "str_keys (vset k v ix)" for v
    using Cons.prems by (auto simp: str_index_def elim!: is_strE)
  ultimately have "str_index (index_capability f k ix)"
    using Cons.prems(1) unfolding index_capability_def str_index_def
    by (auto intro!: vset_values [where P = ?ok])
  then show ?case using Cons by simp
qed simp

lemma graph_node_of_shape:
  assumes "schema_shape s" and "p = base @ r # rs"
  shows "\<exists>n caps. graph_node_of base (p, s) = Inr (n, caps) \<and> gn_service_id n = JStr (id_of s)
    \<and> (\<exists>d. gn_authority_domain n = JStr d) \<and> caps = \<lparr>cs_required = set_values (capability_names s ''required''),
    cs_optional = set_values (capability_names s ''optional''), cs_denied = set_values (capability_names s ''denied'')\<rparr>"
proof -
  have sub: "jsub (JObj s) k = Inr (dget0 s k)" if "is_str (dget0 s k)" for k
    using that by (auto simp: dget_def split: option.splits)
  have strs: "is_str (dget0 s ''service_id'')" "is_str (dget0 s ''authority_domain'')" "is_str (dget0 s ''display_name'')"
    and dicts: "is_dict (dget0 s ''owner'')" "is_dict (dget0 s ''observability'')"
    using assms(1) by (simp_all add: schema_shape_def)
  obtain i d where fields: "dget0 s ''service_id'' = JStr i" "dget0 s ''authority_domain'' = JStr d"
    using strs by (auto elim!: is_strE)
  have sv: "\<exists>ys. sorted_values (set_values xs) = Inr ys" for xs
    using sorted_values_all_str [OF set_values_simps(3)] by blast
  obtain r' q' d' where sorted: "sorted_values (set_values (capability_names s ''required'')) = Inr r'"
    "sorted_values (set_values (capability_names s ''optional'')) = Inr q'"
    "sorted_values (set_values (capability_names s ''denied'')) = Inr d'"
    using sv by meson
  show ?thesis
    by (simp add: graph_node_of_def sub strs capability_sets_shape [OF assms(1)] assms(2) sorted
        object_or_empty_dict [OF dicts(1)] object_or_empty_dict [OF dicts(2)] fields need_hashable_def id_of_def
        del: jsub.simps)
qed

lemma graph_fold:
  assumes "list_all (\<lambda>(p, s). schema_shape s \<and> (\<exists>r rs. p = base @ r # rs)) services" and "graph_ok g"
  shows "\<exists>g'. efold (\<lambda>entry g. ebind (graph_node_of base entry) (\<lambda>n. Inr (add_service n g))) services g = Inr g'
    \<and> graph_ok g' \<and> length (sg_nodes g') = length (sg_nodes g) + length services
    \<and> (\<forall>c. vget (sg_index g') (JStr c) unused = use_append (vget (sg_index g) (JStr c) unused) (uses_of c services))"
  using assms
proof (induction services arbitrary: g)
  case (Cons entry services)
  obtain p s where entry: "entry = (p, s)" by fastforce
  obtain n caps d where n: "graph_node_of base (p, s) = Inr (n, caps)" "gn_service_id n = JStr (id_of s)"
    "gn_authority_domain n = JStr d" and caps: "caps = \<lparr>cs_required = set_values (capability_names s ''required''),
    cs_optional = set_values (capability_names s ''optional''), cs_denied = set_values (capability_names s ''denied'')\<rparr>"
    using Cons.prems(1) graph_node_of_shape [of s p base] by (auto simp: entry)
  have index: "str_keys (sg_index g)" using Cons.prems(2) by (simp add: graph_ok_def str_index_def)
  have "str_index (index_service (JStr (id_of s)) caps (sg_index g))"
    unfolding index_service_def caps using Cons.prems(2)
    by (intro str_index_step) (simp_all add: graph_ok_def set_values_simps)
  then have ok: "graph_ok (add_service (n, caps) g)"
    using Cons.prems(2) by (simp add: graph_ok_def add_service_def n str_lists_vappend)
  then obtain g' where g': "efold (\<lambda>entry g. ebind (graph_node_of base entry) (\<lambda>n. Inr (add_service n g))) services
      (add_service (n, caps) g) = Inr g'" "graph_ok g'"
    "length (sg_nodes g') = length (sg_nodes g) + Suc (length services)"
    "\<And>c. vget (sg_index g') (JStr c) unused
      = use_append (vget (index_service (JStr (id_of s)) caps (sg_index g)) (JStr c) unused) (uses_of c services)"
    using Cons.IH [OF _ ok] Cons.prems(1) by (auto simp: add_service_def n)
  have "vget (sg_index g') (JStr c) unused = use_append (vget (sg_index g) (JStr c) unused) (uses_of c ((p, s) # services))"
    for c
    unfolding g'(4) index_service_lookup(2) [OF caps index]
    by (simp add: use_append_def use_of_def uses_of_def)
  then show ?case using g'(1-3) by (simp add: entry n)
qed (simp_all add: use_append_def uses_of_def)

lemma emap_all: "list_all (\<lambda>x. \<exists>y. f x = Inr y) xs \<Longrightarrow> \<exists>ys. emap f xs = Inr ys"
  by (induction xs) auto

lemma sorted_lists_ok: "str_lists d \<Longrightarrow> \<exists>e. sorted_lists d = Inr e"
proof -
  assume d: "str_lists d"
  then obtain e where e: "sorted_items d = Inr e" "set e = set d"
    using vget_sorted_items [of d] by (auto simp: str_lists_def)
  have "\<exists>es. emap (\<lambda>(k, vs). ebind (sorted_values vs) (\<lambda>ws. Inr (k, ws))) e = Inr es"
    using d by (intro emap_all) (auto simp: list_all_iff e(2) str_lists_def sorted_values_all_str)
  then show ?thesis by (auto simp: sorted_lists_def e(1))
qed

definition sorted_uses :: "capability_use \<Rightarrow> capability_use" where
  "sorted_uses u = \<lparr>cu_required_by = map JStr (sort (map str_value (cu_required_by u))),
     cu_optional_for = map JStr (sort (map str_value (cu_optional_for u))),
     cu_denied_by = map JStr (sort (map str_value (cu_denied_by u)))\<rparr>"

lemma vget_map: "f unused = unused \<Longrightarrow> vget (map (\<lambda>(k, u). (k, f u)) d) (JStr c) unused = f (vget d (JStr c) unused)"
  by (induction d) (auto simp: vget_def)

lemma sorted_index:
  assumes "str_index ix"
  shows "\<exists>items index. sorted_items ix = Inr items
    \<and> emap (\<lambda>(cap, u). ebind (sorted_use u) (\<lambda>u'. Inr (cap, u'))) items = Inr index
    \<and> (\<forall>c. vget index (JStr c) unused = sorted_uses (vget ix (JStr c) unused))"
proof -
  obtain items where items: "sorted_items ix = Inr items" "set items = set ix"
    "\<And>c. vget items (JStr c) unused = vget ix (JStr c) unused"
    using vget_sorted_items [of ix] assms by (auto simp: str_index_def)
  have "emap (\<lambda>(cap, u). ebind (sorted_use u) (\<lambda>u'. Inr (cap, u'))) items
      = Inr (map (\<lambda>(cap, u). (cap, sorted_uses u)) items)"
    using assms items(2)
    by (intro emap_Inr_map) (auto simp: sorted_use_def sorted_uses_def str_index_def list_all_iff
        sorted_values_all_str split: prod.splits)
  moreover have "sorted_uses unused = unused" by (simp add: sorted_uses_def unused_def)
  ultimately show ?thesis using items(1,3) by (auto simp: vget_map)
qed

text \<open>
  The graph of manifests that are valid under the schema and lie below the repository's root exists, has a node for each,
  and its capability index is exact: for every capability it lists, in order, the services whose manifest
  requires it, wants it optionally, and denies it.
\<close>

theorem capability_index_exact:
  assumes "list_all (\<lambda>(p, s). schema_shape s \<and> (\<exists>r rs. p = base @ r # rs)) services"
  shows "\<exists>g. graph_summary base services = Inr g \<and> length (sg_nodes g) = length services
    \<and> (\<forall>c. vget (sg_index g) (JStr c) unused =
        \<lparr>cu_required_by = map JStr (sort (users ''required'' c services)),
         cu_optional_for = map JStr (sort (users ''optional'' c services)),
         cu_denied_by = map JStr (sort (users ''denied'' c services))\<rparr>)"
proof -
  have "graph_ok empty_graph" by (simp add: graph_ok_def empty_graph_def str_lists_def str_index_def)
  then obtain g where g: "efold (\<lambda>entry g. ebind (graph_node_of base entry) (\<lambda>n. Inr (add_service n g))) services
      empty_graph = Inr g" "graph_ok g" "length (sg_nodes g) = length services"
    "\<And>c. vget (sg_index g) (JStr c) unused = uses_of c services"
    using graph_fold [OF assms, of empty_graph]
    by (auto simp: empty_graph_def vget_def use_append_def unused_def uses_of_def)
  obtain domains owners where lists: "sorted_lists (sg_domains g) = Inr domains" "sorted_lists (sg_owners g) = Inr owners"
    using g(2) sorted_lists_ok by (meson graph_ok_def)
  obtain items index where index: "sorted_items (sg_index g) = Inr items"
    "emap (\<lambda>(cap, u). ebind (sorted_use u) (\<lambda>u'. Inr (cap, u'))) items = Inr index"
    "\<And>c. vget index (JStr c) unused = sorted_uses (vget (sg_index g) (JStr c) unused)"
    using sorted_index [of "sg_index g"] g(2) by (auto simp: graph_ok_def)
  have "graph_summary base services
      = Inr \<lparr>sg_nodes = sg_nodes g, sg_domains = domains, sg_owners = owners, sg_index = index\<rparr>"
    by (simp add: graph_summary_def g(1) lists index(1,2))
  then show ?thesis by (simp add: g(3,4) index(3) sorted_uses_def uses_of_def o_def)
qed

definition example_service :: jdict where
  "example_service = [(''service_id'', JStr ''dev.browser''), (''schema_version'', JStr ''sourceos.service.v0.1''),
     (''authority_domain'', JStr ''app''), (''display_name'', JStr ''B''),
     (''owner'', JObj [(''org'', JStr ''o''), (''repo'', JStr ''r'')]),
     (''observability'', JObj [(''emits_events'', JBool True), (''incident_bundle'', JBool True)]),
     (''capabilities'', JObj [(''required'', strs [''net'', ''net'']), (''optional'', strs []),
        (''denied'', strs [''telemetry.emit.remote.default''])])]"

theorem capability_index_exact_witness:
  "\<exists>g. graph_summary [] [([''a''], example_service), ([''b''], example_service)] = Inr g
    \<and> cu_required_by (vget (sg_index g) (JStr ''net'') unused) = [JStr ''dev.browser'', JStr ''dev.browser'']"
proof -
  have "schema_shape example_service" by code_simp
  then have "list_all (\<lambda>(p, s). schema_shape s \<and> (\<exists>r rs. p = [] @ r # rs))
      [([''a''], example_service), ([''b''], example_service)]" by simp
  moreover have "sort (users ''required'' ''net'' [([''a''], example_service), ([''b''], example_service)])
      = [''dev.browser'', ''dev.browser'']" by code_simp
  ultimately show ?thesis using capability_index_exact by fastforce
qed

end
