(* ===== verification/Policy_Normalizer.thy ===== *)
theory Policy_Normalizer
  imports Service_Graph
begin

text \<open>
  \<open>tools/sourceos_policy_normalizer.py\<close>: observations of policy decisions are checked against a registry of
  explanation codes and turned into canonical events.  The schemas' errors are parameters, and so are the random
  identifier of a span and the clock readings, in the order in which they are taken.
\<close>

section \<open>The registry\<close>

definition SEVERITY_ORDER :: "(string \<times> int) list" where
  "SEVERITY_ORDER = [(''trace'', 0), (''debug'', 1), (''info'', 2), (''notice'', 3), (''warning'', 4),
     (''error'', 5), (''critical'', 6)]"

definition EVENT_EVIDENCE_SOURCES :: "string list" where
  "EVENT_EVIDENCE_SOURCES = [''kernel'', ''policy-engine'', ''trust-engine'', ''package-db'', ''process-monitor'',
     ''sync-engine'', ''operator'', ''agent'', ''raw-log'', ''uploaded-macos-log'', ''uploaded-airport-log'',
     ''uploaded-console-log'', ''uploaded-crash-report'']"

text \<open>\<open>json.loads\<close> of a file's text; a \<open>JSONDecodeError\<close> is a \<open>ValueError\<close>.\<close>

definition load_json_text :: "string \<Rightarrow> json res" where
  "load_json_text source =
     (case json_loads (universal_newlines source) of Inl msg \<Rightarrow> Inl (ValueError msg) | Inr v \<Rightarrow> Inr v)"

record code_registry =
  rg_codes :: "json vdict"
  rg_errors :: "string list"

definition add_code :: "json \<Rightarrow> code_registry \<Rightarrow> code_registry res" where
  "add_code entry r =
     ebind (jsub entry ''code'') (\<lambda>code.
     ebind (need_hashable code) (\<lambda>_.
     Inr \<lparr>rg_codes = vset code entry (rg_codes r),
          rg_errors = rg_errors r
            @ note_if (vhas (rg_codes r) code) (''duplicate explanation code: '' @ py_str code)\<rparr>))"

definition load_registry :: "(jdict \<Rightarrow> schema_error list) \<Rightarrow> string \<Rightarrow> code_registry res" where
  "load_registry schema source =
     ebind (load_json_text source) (\<lambda>v.
     case v of
       JObj document \<Rightarrow>
         (let errors = format_errors (schema document) in
          if errors \<noteq> [] then Inr \<lparr>rg_codes = [], rg_errors = errors\<rparr>
          else ebind (jsub v ''codes'') (\<lambda>codes. ebind (py_iter codes) (\<lambda>entries.
            efold add_code entries \<lparr>rg_codes = [], rg_errors = []\<rparr>)))
     | _ \<Rightarrow> Inr \<lparr>rg_codes = [], rg_errors = [''registry must be a JSON object'']\<rparr>)"

section \<open>The semantics of an observation\<close>

text \<open>\<open>v in w\<close>.\<close>

fun py_in :: "json \<Rightarrow> json \<Rightarrow> bool res" where
  "py_in v (JList xs) = Inr (list_ex (py_eq v) xs)"
| "py_in (JStr s) (JStr t) = Inr (contains s t)"
| "py_in v (JObj d) = (if hashable v then Inr (list_ex (\<lambda>(k, x). v = JStr k) d) else Inl TypeError)"
| "py_in v w = Inl TypeError"

definition matches_allowed :: "json \<Rightarrow> json \<Rightarrow> bool res" where
  "matches_allowed v allowed =
     ebind (py_in (JStr ''*'') allowed) (\<lambda>any. if any then Inr True else py_in v allowed)"

definition severity_rank :: "json \<Rightarrow> int res" where
  "severity_rank v =
     (case v of JStr s \<Rightarrow> (case map_of SEVERITY_ORDER s of None \<Rightarrow> Inl KeyError | Some n \<Rightarrow> Inr n)
      | _ \<Rightarrow> if hashable v then Inl KeyError else Inl TypeError)"

definition stricter_or_equal :: "json \<Rightarrow> json \<Rightarrow> bool res" where
  "stricter_or_equal candidate baseline =
     ebind (severity_rank candidate) (\<lambda>c. ebind (severity_rank baseline) (\<lambda>b. Inr (b \<le> c)))"

text \<open>A field that must agree with the registry's; \<open>optional\<close> ones only when the observation has them.\<close>

definition contradiction :: "string \<Rightarrow> jdict \<Rightarrow> jdict \<Rightarrow> string list res" where
  "contradiction k obs entry =
     ebind (jsub (JObj obs) k) (\<lambda>v.
     ebind (jsub (JObj entry) k) (\<lambda>w.
     if py_eq v w then Inr []
     else ebind (jsub (JObj entry) ''code'') (\<lambda>code.
       Inr [k @ '' '' @ py_str v @ '' contradicts registry '' @ k @ '' '' @ py_str w @ '' for '' @ py_str code])))"

definition optional_contradiction :: "string \<Rightarrow> jdict \<Rightarrow> jdict \<Rightarrow> string list res" where
  "optional_contradiction k obs entry = (if dhas obs k then contradiction k obs entry else Inr [])"

definition severity_errors :: "jdict \<Rightarrow> jdict \<Rightarrow> string list res" where
  "severity_errors obs entry =
     (if \<not> dhas obs ''severity'' then Inr []
      else let v = dget0 obs ''severity'' in
        ebind (jsub (JObj entry) ''severity'') (\<lambda>w.
        let allow_stricter = truthy (dget entry ''allow_stricter_severity'' (JBool True)) in
        if py_eq v w then Inr []
        else if \<not> allow_stricter
          then ebind (jsub (JObj entry) ''code'') (\<lambda>code.
            Inr [''severity '' @ py_str v @ '' contradicts fixed registry severity '' @ py_str w @ '' for '' @ py_str code])
        else ebind (stricter_or_equal v w) (\<lambda>ok.
          if ok then Inr []
          else ebind (jsub (JObj entry) ''code'') (\<lambda>code.
            Inr [''severity '' @ py_str v @ '' is weaker than registry severity '' @ py_str w @ '' for '' @ py_str code]))))"

definition allowed_errors :: "string \<Rightarrow> string \<Rightarrow> jdict \<Rightarrow> jdict \<Rightarrow> string list res" where
  "allowed_errors k allowed_key obs entry =
     ebind (jsub (JObj obs) k) (\<lambda>v.
     ebind (jsub (JObj entry) allowed_key) (\<lambda>allowed.
     ebind (matches_allowed v allowed) (\<lambda>ok.
     if ok then Inr []
     else ebind (jsub (JObj entry) ''code'') (\<lambda>code.
       Inr [k @ '' '' @ py_str v @ '' is not allowed for '' @ py_str code]))))"

definition validate_observation_semantics :: "jdict \<Rightarrow> jdict \<Rightarrow> string list res" where
  "validate_observation_semantics obs entry = collect [
     contradiction ''result'' obs entry,
     optional_contradiction ''semantic_outcome'' obs entry,
     severity_errors obs entry,
     optional_contradiction ''risk'' obs entry,
     allowed_errors ''operation'' ''allowed_operation_classes'' obs entry,
     allowed_errors ''target_class'' ''allowed_target_classes'' obs entry]"

section \<open>The canonical event\<close>

definition normalized_evidence :: "json \<Rightarrow> json res" where
  "normalized_evidence item =
     ebind (jget item ''source'' (JStr ''raw-log'')) (\<lambda>source.
     ebind (in_set source EVENT_EVIDENCE_SOURCES) (\<lambda>known.
     ebind (jsub item ''evidence_id'') (\<lambda>evidence_id.
     ebind (jget item ''raw_ref'' JNull) (\<lambda>raw_ref.
     ebind (jsub item ''summary'') (\<lambda>summary.
     Inr (JObj [(''evidence_id'', evidence_id), (''source'', if known then source else JStr ''raw-log''),
       (''raw_ref'', raw_ref), (''summary'', summary)]))))))"

definition event_evidence :: "jdict \<Rightarrow> json list res" where
  "event_evidence obs =
     (let evidence = py_or (dget0 obs ''evidence'') (JList []) in
      if truthy evidence then ebind (py_iter evidence) (emap normalized_evidence)
      else ebind (jsub (JObj obs) ''observation_id'') (\<lambda>oid.
        Inr [JObj [(''evidence_id'', JStr (''ev_'' @ py_str oid)), (''source'', JStr ''policy-engine''),
          (''raw_ref'', oid),
          (''summary'', JStr ''Policy decision normalized from registry-backed SourceOS policy observation.'')]]))"

text \<open>\<open>v.startswith(p)\<close> and \<open>v.lower()\<close>: only strings have these methods.\<close>

definition str_of :: "json \<Rightarrow> string res" where
  "str_of v = (case v of JStr s \<Rightarrow> Inr s | _ \<Rightarrow> Inl AttributeError)"

definition event_id_for :: "string \<Rightarrow> string" where
  "event_id_for oid = (if starts_with ''evt_'' oid then oid else ''evt_'' @ oid)"

text \<open>\<open>d.get(k) or v\<close>, the second operand evaluated only when it is needed.\<close>

definition get_or :: "jdict \<Rightarrow> string \<Rightarrow> json res \<Rightarrow> json res" where
  "get_or d k v = (if truthy (dget0 d k) then Inr (dget0 d k) else v)"

definition event_actor :: "json \<Rightarrow> json res" where
  "event_actor actor =
     ebind (jsub actor ''actor_id'') (\<lambda>actor_id.
     ebind (jsub actor ''actor_type'') (\<lambda>actor_type.
     ebind (jsub actor ''display_name'') (\<lambda>display_name.
     ebind (jget actor ''uid'' JNull) (\<lambda>uid.
     ebind (jget actor ''session_id'' JNull) (\<lambda>session_id.
     ebind (jget actor ''authority_domain'' JNull) (\<lambda>authority_domain.
     Inr (JObj [(''actor_id'', actor_id), (''actor_type'', actor_type), (''display_name'', display_name),
       (''uid'', uid), (''session_id'', session_id), (''authority_domain'', authority_domain)])))))))"

definition decision_block :: "jdict \<Rightarrow> jdict \<Rightarrow> string \<Rightarrow> json \<Rightarrow> json res" where
  "decision_block obs entry oid outcome =
     ebind (jsub (JObj entry) ''code'') (\<lambda>code.
     ebind (str_of code) (\<lambda>code_text.
     ebind (jsub (JObj obs) ''operation'') (\<lambda>operation.
     ebind (jsub (JObj obs) ''target_class'') (\<lambda>target_class.
     ebind (jsub (JObj obs) ''result'') (\<lambda>result.
     Inr (JObj [(''decision_id'', JStr (''dec_'' @ oid)),
       (''policy_bundle'', dget obs ''policy_bundle'' (JStr ''sourceos.baseline'')),
       (''policy_rule'', dget obs ''policy_rule'' (JStr (''sourceos.policy.'' @ lower code_text))),
       (''operation'', operation), (''target_class'', target_class), (''result'', result),
       (''semantic_outcome'', outcome), (''explanation_code'', code)]))))))"

definition event_narrative :: "jdict \<Rightarrow> jdict \<Rightarrow> json \<Rightarrow> json res" where
  "event_narrative obs entry risk =
     ebind (get_or obs ''summary'' (jsub (JObj entry) ''default_summary'')) (\<lambda>summary.
     ebind (get_or obs ''why'' (jsub (JObj entry) ''default_why'')) (\<lambda>why.
     ebind (get_or obs ''next_action'' (jsub (JObj entry) ''default_next_action'')) (\<lambda>next_action.
     ebind (event_evidence obs) (\<lambda>items.
     ebind (emap (\<lambda>item. jsub item ''evidence_id'') items) (\<lambda>refs.
     Inr (JObj [(''summary'', summary), (''risk'', risk), (''why'', why), (''next_action'', next_action),
       (''drilldown_refs'', JList refs)]))))))"

definition event_trust :: json where
  "event_trust = JObj [(''mode'', JStr ''local_first''), (''signature_state'', JStr ''not_applicable''),
     (''package_origin'', JStr ''unknown''), (''content_hash'', JNull),
     (''attestation_state'', JStr ''not_applicable''), (''network_lookup'', JStr ''not_attempted''),
     (''degradation_reason'', JNull)]"

text \<open>\<open>created_at\<close> is empty when no time is given; then the clock is read three times.\<close>

definition normalize_observation ::
  "string \<Rightarrow> string \<times> string \<times> string \<Rightarrow> jdict \<Rightarrow> jdict \<Rightarrow> string \<Rightarrow> jdict res" where
  "normalize_observation span_hex clock obs entry created_at =
     (case clock of (now1, now2, now3) \<Rightarrow>
     ebind (jsub (JObj obs) ''observation_id'') (\<lambda>oid_value.
     ebind (str_of oid_value) (\<lambda>oid.
     let event_id = event_id_for oid in
     ebind (object_or_empty (dget0 obs ''causality'')) (\<lambda>causality.
     ebind (jsub (JObj entry) ''severity'') (\<lambda>entry_severity.
     ebind (jsub (JObj entry) ''semantic_outcome'') (\<lambda>entry_outcome.
     ebind (jsub (JObj entry) ''risk'') (\<lambda>entry_risk.
     let severity = dget obs ''severity'' entry_severity;
         outcome = dget obs ''semantic_outcome'' entry_outcome;
         risk = dget obs ''risk'' entry_risk;
         stamp = (\<lambda>now. JStr (if created_at \<noteq> '''' then created_at else now)) in
     ebind (object_or_empty (dget0 obs ''privacy'')) (\<lambda>privacy.
     ebind (jsub (JObj obs) ''actor'') (\<lambda>actor.
     ebind (event_actor actor) (\<lambda>event_actor.
     ebind (jsub (JObj obs) ''subject'') (\<lambda>subject.
     ebind (decision_block obs entry oid outcome) (\<lambda>decision.
     ebind (jsub (JObj entry) ''code'') (\<lambda>code.
     ebind (jsub (JObj obs) ''operation'') (\<lambda>operation.
     ebind (jsub (JObj obs) ''target_class'') (\<lambda>target_class.
     ebind (event_evidence obs) (\<lambda>evidence.
     ebind (event_narrative obs entry risk) (\<lambda>narrative.
     Inr [(''schema_version'', JStr ''sourceos.event.v0.1''), (''event_id'', JStr event_id),
       (''event_class'', JStr ''policy.decision''), (''lane'', JStr ''policy''), (''severity'', severity),
       (''outcome'', outcome), (''created_at'', stamp now1), (''observed_at_monotonic_ns'', JInt 0),
       (''host'', JObj [(''host_id'', JStr ''host_local_pseudonym''), (''platform'', JStr ''sourceos''),
          (''kernel'', JStr ''unknown''), (''privacy_zone'', dget privacy ''tier'' (JStr ''user_private''))]),
       (''actor'', event_actor),
       (''causality'', JObj [(''parent_event_id'', dget0 causality ''parent_event_id''),
          (''root_event_id'', py_or (dget0 causality ''root_event_id'') (JStr event_id)),
          (''span_id'', py_or (dget0 causality ''span_id'') (JStr (''span_'' @ span_hex))),
          (''trace_id'', py_or (dget0 causality ''trace_id'') (JStr (''trace_'' @ oid)))]),
       (''subject'', subject), (''decision'', decision), (''trust'', event_trust),
       (''noise_control'', JObj [
          (''event_fingerprint'', JStr (''fp_'' @ lower (py_str code) @ ''_'' @ py_str operation @ ''_'' @ py_str target_class)),
          (''first_seen'', stamp now2), (''last_seen'', stamp now3), (''count'', JInt 1),
          (''suppressed_count'', JInt 0), (''coalesce_window_ms'', JInt 1)]),
       (''privacy'', JObj [(''tier'', dget privacy ''tier'' (JStr ''user_private'')),
          (''redaction_policy'', dget privacy ''redaction_policy'' (JStr ''preserve_causality'')),
          (''secret_fields'', dget privacy ''secret_fields'' (JList []))]),
       (''evidence'', JList evidence), (''operator_narrative'', narrative),
       (''sync'', JObj [(''replication_policy'', JStr ''local_only''), (''retention_class'', JStr ''standard''),
          (''exportable'', JBool False)])])))))))))))))))))"

section \<open>The commands\<close>

definition fail :: "string \<Rightarrow> string list \<Rightarrow> exit_result" where
  "fail prefix errors = fails (map (\<lambda>e. prefix @ '': '' @ e) errors)"

definition load_valid_observation :: "(jdict \<Rightarrow> schema_error list) \<Rightarrow> string \<Rightarrow> (jdict option \<times> string list) res" where
  "load_valid_observation schema source =
     ebind (load_json_text source) (\<lambda>v.
     case v of JObj obs \<Rightarrow> Inr (Some obs, format_errors (schema obs))
     | _ \<Rightarrow> Inr (None, [''observation must be a JSON object'']))"

text \<open>\<open>codes.get(code)\<close>.\<close>

definition find_code :: "json vdict \<Rightarrow> json \<Rightarrow> json option res" where
  "find_code codes code = ebind (need_hashable code) (\<lambda>_. Inr (if vhas codes code then Some (vget codes code JNull) else None))"

definition cmd_validate_registry :: "(jdict \<Rightarrow> schema_error list) \<Rightarrow> string \<times> string \<Rightarrow> exit_result res" where
  "cmd_validate_registry schema registry_file =
     (case registry_file of (name, source) \<Rightarrow>
     ebind (load_registry schema source) (\<lambda>r.
     Inr (if rg_errors r \<noteq> [] then fail name (rg_errors r)
          else exits [name @ '': valid registry with '' @ nat_str (length (rg_codes r)) @ '' codes''])))"

text \<open>What \<open>validate-observation\<close> and \<open>normalize\<close> do first: the observation with its registry entry, or the failure.\<close>

definition check_entry :: "string \<Rightarrow> jdict \<Rightarrow> json \<Rightarrow> json option \<Rightarrow> (exit_result + jdict \<times> jdict) res" where
  "check_entry oname obs code entry =
     (case entry of
        None \<Rightarrow> Inr (Inl (fail oname [''unknown explanation_code '' @ py_str code]))
      | Some (JObj e) \<Rightarrow>
          ebind (validate_observation_semantics obs e) (\<lambda>semantic_errors.
          Inr (if semantic_errors \<noteq> [] then Inl (fail oname semantic_errors) else Inr (obs, e)))
      | Some v \<Rightarrow> Inl TypeError)"

definition check_observation ::
  "json vdict \<Rightarrow> string \<Rightarrow> jdict option \<times> string list \<Rightarrow> (exit_result + jdict \<times> jdict) res" where
  "check_observation codes oname loaded =
     (case loaded of
        (None, errors) \<Rightarrow> Inr (Inl (fail oname errors))
      | (Some obs, errors) \<Rightarrow>
          if errors \<noteq> [] then Inr (Inl (fail oname errors))
          else ebind (jsub (JObj obs) ''explanation_code'') (\<lambda>code.
            ebind (find_code codes code) (check_entry oname obs code)))"

definition checked_observation ::
  "(jdict \<Rightarrow> schema_error list) \<Rightarrow> (jdict \<Rightarrow> schema_error list) \<Rightarrow> string \<times> string \<Rightarrow> string \<times> string
   \<Rightarrow> (exit_result + jdict \<times> jdict) res" where
  "checked_observation registry_schema observation_schema registry_file observation_file =
     ebind (load_registry registry_schema (snd registry_file)) (\<lambda>r.
     if rg_errors r \<noteq> [] then Inr (Inl (fail (fst registry_file) (rg_errors r)))
     else ebind (load_valid_observation observation_schema (snd observation_file))
       (check_observation (rg_codes r) (fst observation_file)))"

definition cmd_validate_observation ::
  "(jdict \<Rightarrow> schema_error list) \<Rightarrow> (jdict \<Rightarrow> schema_error list) \<Rightarrow> string \<times> string \<Rightarrow> string \<times> string \<Rightarrow> exit_result res" where
  "cmd_validate_observation registry_schema observation_schema registry_file observation_file =
     ebind (checked_observation registry_schema observation_schema registry_file observation_file) (\<lambda>c.
     Inr (case c of Inl failure \<Rightarrow> failure
          | Inr (obs, entry) \<Rightarrow> exits [fst observation_file @ '': valid policy observation for ''
              @ py_str (dget0 obs ''explanation_code'')]))"

text \<open>The result of \<open>normalize\<close>, with the text written to the output file when one is named.\<close>

definition cmd_normalize ::
  "(jdict \<Rightarrow> schema_error list) \<Rightarrow> (jdict \<Rightarrow> schema_error list) \<Rightarrow> (jdict \<Rightarrow> schema_error list)
   \<Rightarrow> string \<Rightarrow> string \<times> string \<times> string \<Rightarrow> string \<times> string \<Rightarrow> string \<times> string \<Rightarrow> string \<Rightarrow> string option
   \<Rightarrow> (exit_result \<times> (string \<times> string) option) res" where
  "cmd_normalize registry_schema observation_schema event_schema span_hex clock registry_file observation_file
     created_at out =
     ebind (checked_observation registry_schema observation_schema registry_file observation_file) (\<lambda>c.
     case c of Inl failure \<Rightarrow> Inr (failure, None)
     | Inr (obs, entry) \<Rightarrow>
       ebind (normalize_observation span_hex clock obs entry created_at) (\<lambda>event.
       let event_errors = format_errors (event_schema event);
           output = json_indented 0 (sort_keys (JObj event)) in
       Inr (if event_errors \<noteq> [] then (fail ''generated policy.decision invalid'' event_errors, None)
            else case out of
              Some file \<Rightarrow> if file \<noteq> '''' then (exits [''wrote '' @ file], Some (file, output @ [newline]))
                           else (exits [output], None)
            | None \<Rightarrow> (exits [output], None))))"

section \<open>Events agree with the registry\<close>

lemma jsub_JObj: "jsub (JObj d) k = Inr v \<longleftrightarrow> map_of d k = Some v"
  by (auto split: option.splits)

lemma contradiction_Nil:
  assumes "contradiction k obs entry = Inr []" and "map_of entry k = Some (JStr s)"
  shows "map_of obs k = Some (JStr s)"
  using assms by (auto simp: contradiction_def res_simps split: option.splits if_splits)

lemma optional_contradiction_Nil:
  assumes "optional_contradiction k obs entry = Inr []" and "map_of entry k = Some (JStr s)"
  shows "dget obs k (JStr s) = JStr s"
  using assms contradiction_Nil [of k obs entry s]
  by (auto simp: optional_contradiction_def dget_def dhas_map_of split: if_splits)

definition rank :: "string \<Rightarrow> int" where
  "rank s = (case map_of SEVERITY_ORDER s of None \<Rightarrow> - 1 | Some n \<Rightarrow> n)"

lemma severity_rank_JStr: "severity_rank (JStr s) = Inr n \<Longrightarrow> n = rank s"
  by (auto simp: severity_rank_def rank_def split: option.splits)

lemma severity_errors_Nil:
  assumes "severity_errors obs entry = Inr []" and "map_of entry ''severity'' = Some (JStr s)"
  shows "\<exists>t. dget obs ''severity'' (JStr s) = JStr t \<and> rank s \<le> rank t
    \<and> (t \<noteq> s \<longrightarrow> truthy (dget entry ''allow_stricter_severity'' (JBool True)))"
proof (cases "dhas obs ''severity''")
  case True
  then obtain v where v: "map_of obs ''severity'' = Some v" by (auto simp: dhas_map_of)
  then have get: "dget0 obs ''severity'' = v" "dget obs ''severity'' (JStr s) = v" by (simp_all add: dget_def)
  show ?thesis
  proof (cases "v = JStr s")
    case False
    then have run: "truthy (dget entry ''allow_stricter_severity'' (JBool True))" "stricter_or_equal v (JStr s) = Inr True"
      using assms True by (auto simp: severity_errors_def get Let_def res_simps split: if_splits)
    then obtain a b where ranks: "severity_rank v = Inr a" "severity_rank (JStr s) = Inr b" "b \<le> a"
      by (auto simp: stricter_or_equal_def res_simps)
    then obtain t where "v = JStr t" by (cases v) (auto simp: severity_rank_def split: if_splits)
    then show ?thesis using ranks run get severity_rank_JStr by fastforce
  qed (use get in simp)
next
  case False
  then show ?thesis by (simp add: dget_absent)
qed

lemma semantics_parts:
  "validate_observation_semantics obs entry = Inr [] \<longleftrightarrow>
     contradiction ''result'' obs entry = Inr [] \<and> optional_contradiction ''semantic_outcome'' obs entry = Inr []
     \<and> severity_errors obs entry = Inr [] \<and> optional_contradiction ''risk'' obs entry = Inr []
     \<and> allowed_errors ''operation'' ''allowed_operation_classes'' obs entry = Inr []
     \<and> allowed_errors ''target_class'' ''allowed_target_classes'' obs entry = Inr []"
  by (simp add: validate_observation_semantics_def)

lemma event_evidence_sources:
  assumes "event_evidence obs = Inr items"
  shows "items \<noteq> []" and "\<forall>item \<in> set items. \<exists>s \<in> set EVENT_EVIDENCE_SOURCES. jget item ''source'' JNull = Inr (JStr s)"
proof -
  have one: "\<exists>s \<in> set EVENT_EVIDENCE_SOURCES. jget item ''source'' JNull = Inr (JStr s)"
    if item: "normalized_evidence e = Inr item" for e item
  proof -
    obtain source known where k: "in_set source EVENT_EVIDENCE_SOURCES = Inr known"
      "jget item ''source'' JNull = Inr (if known then source else JStr ''raw-log'')"
      using item by (auto simp: normalized_evidence_def ebind_Inr_iff)
    show ?thesis
    proof (cases known)
      case True
      then obtain s where "s \<in> set EVENT_EVIDENCE_SOURCES" "source = JStr s"
        using k(1) by (auto simp: in_set_Inr_True)
      then show ?thesis using k(2) True by (intro bexI [of _ s]) simp_all
    next
      case False
      then show ?thesis using k(2) by (intro bexI [of _ "''raw-log''"]) (simp_all add: EVENT_EVIDENCE_SOURCES_def)
    qed
  qed
  let ?e = "py_or (dget0 obs ''evidence'') (JList [])"
  have "items \<noteq> [] \<and> (\<forall>item \<in> set items. \<exists>s \<in> set EVENT_EVIDENCE_SOURCES. jget item ''source'' JNull = Inr (JStr s))"
  proof (cases "truthy ?e")
    case True
    then obtain xs where xs: "py_iter ?e = Inr xs" "emap normalized_evidence xs = Inr items"
      using assms by (auto simp: event_evidence_def Let_def res_simps)
    have "xs \<noteq> []" using True xs(1) by (cases ?e) (auto split: if_splits)
    then have "items \<noteq> []" using emap_Inr_length [OF xs(2)] by auto
    moreover have "\<exists>s \<in> set EVENT_EVIDENCE_SOURCES. jget item ''source'' JNull = Inr (JStr s)" if "item \<in> set items" for item
    proof -
      obtain i where "i < length items" "item = items ! i" using \<open>item \<in> set items\<close> by (auto simp: in_set_conv_nth)
      then show ?thesis using emap_Inr_nth [OF xs(2), of i] emap_Inr_length [OF xs(2)] one by simp
    qed
    ultimately show ?thesis by blast
  next
    case False
    then show ?thesis using assms
      by (auto simp: event_evidence_def Let_def res_simps EVENT_EVIDENCE_SOURCES_def)
  qed
  then show "items \<noteq> []" "\<forall>item \<in> set items. \<exists>s \<in> set EVENT_EVIDENCE_SOURCES. jget item ''source'' JNull = Inr (JStr s)"
    by blast+
qed

text \<open>What the normaliser puts into the event.\<close>

lemma normalize_observation_fields:
  assumes "normalize_observation span_hex clock obs entry created = Inr event"
    and "map_of entry ''semantic_outcome'' = Some u" and "map_of entry ''severity'' = Some s" and "map_of entry ''risk'' = Some k"
  shows "\<exists>oid items. dget0 event ''event_id'' = JStr (event_id_for oid)
    \<and> dget0 event ''severity'' = dget obs ''severity'' s
    \<and> dget0 event ''outcome'' = dget obs ''semantic_outcome'' u
    \<and> dget0 (sub_dict event ''decision'') ''result'' = dget0 obs ''result''
    \<and> dget0 (sub_dict event ''decision'') ''semantic_outcome'' = dget obs ''semantic_outcome'' u
    \<and> dget0 (sub_dict event ''decision'') ''explanation_code'' = dget0 entry ''code''
    \<and> dget0 (sub_dict event ''operator_narrative'') ''risk'' = dget obs ''risk'' k
    \<and> event_evidence obs = Inr items \<and> dget0 event ''evidence'' = JList items"
proof -
  obtain now1 now2 now3 where clock: "clock = (now1, now2, now3)" by (cases clock)
  show ?thesis
    using assms unfolding normalize_observation_def clock case_prod_conv Let_def
    by (auto simp: res_simps jsub_JObj sub_dict_def decision_block_def event_narrative_def dget_def [of _ _ JNull]
        simp del: jsub.simps)
qed

text \<open>What the schema of the registry requires of an entry, as far as the normaliser relies on it.\<close>

definition registry_entry :: "json \<Rightarrow> bool" where
  "registry_entry v \<longleftrightarrow> is_dict v
     \<and> list_all (\<lambda>k. is_str (dget0 (dict_or_empty v) k)) [''code'', ''result'', ''semantic_outcome'', ''risk'', ''severity'']"

definition agrees_with_registry :: "jdict \<Rightarrow> jdict \<Rightarrow> bool" where
  "agrees_with_registry event entry \<longleftrightarrow>
     (let decision = sub_dict event ''decision'' in
      dget0 event ''outcome'' = dget0 entry ''semantic_outcome''
      \<and> dget0 decision ''result'' = dget0 entry ''result''
      \<and> dget0 decision ''semantic_outcome'' = dget0 entry ''semantic_outcome''
      \<and> dget0 decision ''explanation_code'' = dget0 entry ''code''
      \<and> dget0 (sub_dict event ''operator_narrative'') ''risk'' = dget0 entry ''risk''
      \<and> rank (str_value (dget0 entry ''severity'')) \<le> rank (str_value (dget0 event ''severity''))
      \<and> (dget0 event ''severity'' = dget0 entry ''severity''
         \<or> truthy (dget entry ''allow_stricter_severity'' (JBool True))))"

definition supported_event :: "jdict \<Rightarrow> bool" where
  "supported_event event \<longleftrightarrow> (case dget0 event ''evidence'' of
     JList items \<Rightarrow> items \<noteq> [] \<and> list_all (\<lambda>item. dget0 (dict_or_empty item) ''source'' \<in> JStr ` set EVENT_EVIDENCE_SOURCES) items
   | _ \<Rightarrow> False)"

lemma normalized_event_agrees:
  assumes valid: "validate_observation_semantics obs entry = Inr []"
    and event: "normalize_observation span_hex clock obs entry created_at = Inr event"
    and entry: "registry_entry (JObj entry)"
  shows "agrees_with_registry event entry \<and> supported_event event"
proof -
  have field: "\<exists>s. map_of entry k = Some (JStr s)" if "is_str (dget0 entry k)" for k
    using that by (auto simp: dget_def split: option.splits elim: is_strE)
  obtain r u k s where fields: "map_of entry ''result'' = Some (JStr r)" "map_of entry ''semantic_outcome'' = Some (JStr u)"
    "map_of entry ''risk'' = Some (JStr k)" "map_of entry ''severity'' = Some (JStr s)"
    using entry field [of "''result''"] field [of "''semantic_outcome''"] field [of "''risk''"] field [of "''severity''"]
    by (auto simp: registry_entry_def)
  then have got: "dget0 entry ''result'' = JStr r" "dget0 entry ''semantic_outcome'' = JStr u"
    "dget0 entry ''risk'' = JStr k" "dget0 entry ''severity'' = JStr s"
    by (simp_all add: dget_def)
  note parts = valid [unfolded semantics_parts]
  have result: "dget0 obs ''result'' = JStr r"
    using contradiction_Nil [OF _ fields(1)] parts by (simp add: dget_def)
  have outcome: "dget obs ''semantic_outcome'' (JStr u) = JStr u" and risk: "dget obs ''risk'' (JStr k) = JStr k"
    using optional_contradiction_Nil [OF _ fields(2)] optional_contradiction_Nil [OF _ fields(3)] parts by blast+
  obtain t where t: "dget obs ''severity'' (JStr s) = JStr t" "rank s \<le> rank t"
    "t \<noteq> s \<Longrightarrow> truthy (dget entry ''allow_stricter_severity'' (JBool True))"
    using severity_errors_Nil [OF _ fields(4)] parts by blast
  obtain items where ev: "dget0 event ''severity'' = JStr t" "dget0 event ''outcome'' = JStr u"
    "dget0 (sub_dict event ''decision'') ''result'' = JStr r" "dget0 (sub_dict event ''decision'') ''semantic_outcome'' = JStr u"
    "dget0 (sub_dict event ''decision'') ''explanation_code'' = dget0 entry ''code''"
    "dget0 (sub_dict event ''operator_narrative'') ''risk'' = JStr k"
    "event_evidence obs = Inr items" "dget0 event ''evidence'' = JList items"
    using normalize_observation_fields [OF event fields(2,4,3)] result outcome risk t(1) by auto
  have "agrees_with_registry event entry"
    using ev t(2,3) by (auto simp: agrees_with_registry_def Let_def got)
  moreover have "dget0 (dict_or_empty item) ''source'' \<in> JStr ` set EVENT_EVIDENCE_SOURCES"
    if item: "item \<in> set items" for item
  proof -
    obtain src d where "src \<in> set EVENT_EVIDENCE_SOURCES" "item = JObj d" "JStr src = dget0 d ''source''"
      using event_evidence_sources(2) [OF ev(7)] item by (auto simp: jget_Inr_iff)
    then show ?thesis by (metis dict_or_empty.simps(1) image_eqI)
  qed
  then have "supported_event event"
    using event_evidence_sources(1) [OF ev(7)] by (simp add: supported_event_def ev(8) list_all_iff)
  ultimately show ?thesis by blast
qed

lemma load_registry_codes:
  assumes "load_registry schema source = Inr r" and "rg_errors r = []"
  shows "\<exists>document. json_loads (universal_newlines source) = Inr (JObj document) \<and> schema document = []
    \<and> (\<forall>(k, e) \<in> set (rg_codes r). e \<in> elements (dget0 document ''codes''))"
proof -
  obtain document where doc: "json_loads (universal_newlines source) = Inr (JObj document)" "schema document = []"
    using assms by (auto simp: load_registry_def load_json_text_def res_simps Let_def split: sum.splits json.splits if_splits)
  then obtain codes entries where codes: "map_of document ''codes'' = Some codes" "py_iter codes = Inr entries"
    and run: "efold add_code entries \<lparr>rg_codes = [], rg_errors = []\<rparr> = Inr r"
    using assms(1) by (auto simp: load_registry_def load_json_text_def res_simps Let_def split: option.splits)
  have elems: "elements (dget0 document ''codes'') = set entries"
    using codes by (simp add: elements_def dget_def)
  have "\<forall>(k, e) \<in> set (rg_codes r). e \<in> set entries"
  proof (rule efold_invariant [OF run, where P = "\<lambda>r. \<forall>(k, e) \<in> set (rg_codes r). e \<in> set entries"])
    fix x s t
    assume x: "x \<in> set entries" and s: "\<forall>(k, e) \<in> set (rg_codes s). e \<in> set entries" and step: "add_code x s = Inr t"
    then obtain code where "rg_codes t = vset code x (rg_codes s)" by (auto simp: add_code_def res_simps)
    then show "\<forall>(k, e) \<in> set (rg_codes t). e \<in> set entries"
      using x s vset_values [of "\<lambda>e. e \<in> set entries" "rg_codes s" x code] by (auto simp: list_all_iff)
  qed simp
  then show ?thesis using doc elems by auto
qed

lemma find_code_in: "find_code codes code = Inr (Some e) \<Longrightarrow> \<exists>k. (k, e) \<in> set codes"
proof -
  assume "find_code codes code = Inr (Some e)"
  then have "vhas codes code" "e = vget codes code JNull" by (auto simp: find_code_def res_simps split: if_splits)
  then show ?thesis by (induction codes) (auto simp: vhas_def vget_def)
qed

lemma check_entry_cases:
  "check_entry oname obs code entry = Inr (Inr (o', e)) \<longleftrightarrow>
     entry = Some (JObj e) \<and> o' = obs \<and> validate_observation_semantics obs e = Inr []"
  "check_entry oname obs code entry = Inr (Inl failure) \<Longrightarrow> ex_code failure = 1"
  by (auto simp: check_entry_def ebind_Inr_iff fail_def split: option.splits json.splits if_splits)

lemma check_observation_cases:
  "check_observation codes oname loaded = Inr (Inr (obs, e)) \<Longrightarrow>
     \<exists>code. find_code codes code = Inr (Some (JObj e)) \<and> validate_observation_semantics obs e = Inr []"
  "check_observation codes oname loaded = Inr (Inl failure) \<Longrightarrow> ex_code failure = 1"
  by (auto simp: check_observation_def ebind_Inr_iff fail_def check_entry_cases(1) simp del: jsub.simps
      dest: check_entry_cases(2) split: option.splits if_splits prod.splits)

lemma checked_observation_ok:
  assumes "checked_observation rs os registry_file observation_file = Inr (Inr (obs, entry))"
  shows "\<exists>r code. load_registry rs (snd registry_file) = Inr r \<and> rg_errors r = []
    \<and> find_code (rg_codes r) code = Inr (Some (JObj entry)) \<and> validate_observation_semantics obs entry = Inr []"
  using assms by (auto simp: checked_observation_def ebind_Inr_iff dest: check_observation_cases(1) split: if_splits)

lemma checked_failure: "checked_observation rs os registry_file observation_file = Inr (Inl failure) \<Longrightarrow> ex_code failure = 1"
  by (auto simp: checked_observation_def ebind_Inr_iff fail_def dest: check_observation_cases(2) split: if_splits)

lemma cmd_normalize_writes:
  assumes "checked_observation registry_schema observation_schema registry_file observation_file = Inr (Inr (obs, entry))"
    and "normalize_observation span_hex clock obs entry created_at = Inr event"
    and run: "cmd_normalize registry_schema observation_schema event_schema span_hex clock registry_file
      observation_file created_at out = Inr (result, written)" and ok: "ex_code result = 0"
  shows "event_schema event = [] \<and> (ex_out result = [json_indented 0 (sort_keys (JObj event))]
    \<or> (\<exists>file. written = Some (file, json_indented 0 (sort_keys (JObj event)) @ [newline])))"
proof -
  define shown where "shown = json_indented 0 (sort_keys (JObj event))"
  have "(result, written) = (if format_errors (event_schema event) \<noteq> []
      then (fail ''generated policy.decision invalid'' (format_errors (event_schema event)), None)
      else case out of
        Some file \<Rightarrow> if file \<noteq> '''' then (exits [''wrote '' @ file], Some (file, shown @ [newline])) else (exits [shown], None)
      | None \<Rightarrow> (exits [shown], None))"
    using run unfolding cmd_normalize_def assms(1,2) ebind_simps sum.case case_prod_conv Let_def shown_def by simp
  then show ?thesis
    unfolding shown_def [symmetric] using ok by (cases out) (simp_all add: fail_def split: if_splits)
qed

lemma cmd_normalize_checked:
  assumes run: "cmd_normalize registry_schema observation_schema event_schema span_hex clock registry_file
      observation_file created_at out = Inr (result, written)" and ok: "ex_code result = 0"
  shows "\<exists>obs entry event. checked_observation registry_schema observation_schema registry_file observation_file
      = Inr (Inr (obs, entry)) \<and> normalize_observation span_hex clock obs entry created_at = Inr event"
proof (cases "checked_observation registry_schema observation_schema registry_file observation_file")
  case (Inr c)
  show ?thesis
  proof (cases c)
    case (Inl failure)
    then have "ex_code failure = 1" using Inr checked_failure by simp
    then show ?thesis using run ok by (simp add: cmd_normalize_def Inr Inl)
  next
    case outer: (Inr checked)
    obtain obs entry where "checked = (obs, entry)" by fastforce
    then show ?thesis
      using run by (cases "normalize_observation span_hex clock obs entry created_at")
        (simp_all only: cmd_normalize_def Inr outer ebind_simps sum.case case_prod_conv sum.simps simp_thms, auto)
  qed
qed (use run in \<open>simp add: cmd_normalize_def\<close>)

text \<open>
  C14: an event the normaliser emits agrees with the registry.  When \<open>normalize\<close> exits with 0, the event it
  prints or writes is valid under the event schema, bears the result, outcome and risk of an entry of the registry, is at least
  as severe as that entry says (and just as severe where the entry fixes the severity), and names at
  least one piece of evidence, each from a known source.
\<close>

theorem normalize_agrees_with_registry:
  assumes run: "cmd_normalize registry_schema observation_schema event_schema span_hex clock (rname, rsource)
      (oname, osource) created_at out = Inr (result, written)"
    and ok: "ex_code result = 0"
    and schema: "\<And>d. registry_schema d = [] \<Longrightarrow> \<forall>e \<in> elements (dget0 d ''codes''). registry_entry e"
  shows "\<exists>document entry event. json_loads (universal_newlines rsource) = Inr (JObj document)
    \<and> JObj entry \<in> elements (dget0 document ''codes'') \<and> event_schema event = []
    \<and> agrees_with_registry event entry \<and> supported_event event
    \<and> (ex_out result = [json_indented 0 (sort_keys (JObj event))]
       \<or> (\<exists>file. written = Some (file, json_indented 0 (sort_keys (JObj event)) @ [newline])))"
proof -
  obtain obs entry event where checked: "checked_observation registry_schema observation_schema (rname, rsource) (oname, osource)
      = Inr (Inr (obs, entry))" and event: "normalize_observation span_hex clock obs entry created_at = Inr event"
    using cmd_normalize_checked [OF run ok] by blast
  have out: "event_schema event = []" "ex_out result = [json_indented 0 (sort_keys (JObj event))]
       \<or> (\<exists>file. written = Some (file, json_indented 0 (sort_keys (JObj event)) @ [newline]))"
    using cmd_normalize_writes [OF checked event run ok] by blast+
  obtain r code where r: "load_registry registry_schema rsource = Inr r" "rg_errors r = []"
    "find_code (rg_codes r) code = Inr (Some (JObj entry))" "validate_observation_semantics obs entry = Inr []"
    using checked_observation_ok [OF checked] by auto
  obtain document where doc: "json_loads (universal_newlines rsource) = Inr (JObj document)" "registry_schema document = []"
    "\<forall>(k, e) \<in> set (rg_codes r). e \<in> elements (dget0 document ''codes'')"
    using load_registry_codes [OF r(1,2)] by blast
  have entry: "JObj entry \<in> elements (dget0 document ''codes'')" using find_code_in [OF r(3)] doc(3) by auto
  then have "registry_entry (JObj entry)" using schema [OF doc(2)] by blast
  note agree = normalized_event_agrees [OF r(4) event this]
  show ?thesis
    by (rule exI [of _ document], rule exI [of _ entry], rule exI [of _ event], intro conjI)
      (rule doc(1), rule entry, rule out(1), rule conjunct1 [OF agree], rule conjunct2 [OF agree], rule out(2))
qed

definition example_registry :: json where
  "example_registry = JObj [(''codes'', JList [JObj [(''code'', JStr ''NET''), (''result'', JStr ''deny''),
     (''semantic_outcome'', JStr ''blocked''), (''risk'', JStr ''low''), (''severity'', JStr ''info''),
     (''allowed_operation_classes'', strs [''*'']), (''allowed_target_classes'', strs [''t'']),
     (''default_summary'', JStr ''s''), (''default_why'', JStr ''w''), (''default_next_action'', JStr ''n'')]])]"

definition example_observation :: json where
  "example_observation = JObj [(''observation_id'', JStr ''o1''), (''explanation_code'', JStr ''NET''),
     (''result'', JStr ''deny''), (''operation'', JStr ''read''), (''target_class'', JStr ''t''),
     (''severity'', JStr ''error''), (''subject'', JNull),
     (''actor'', JObj [(''actor_id'', JStr ''a''), (''actor_type'', JStr ''agent''), (''display_name'', JStr ''A'')])]"

definition example_registry_schema :: "jdict \<Rightarrow> schema_error list" where
  "example_registry_schema d = (case py_iter (dget0 d ''codes'') of
     Inr xs \<Rightarrow> if list_all registry_entry xs then [] else [\<lparr>se_path = [], se_message = ''''\<rparr>]
   | Inl e \<Rightarrow> [])"

lemma example_registry_schema_entries:
  assumes "example_registry_schema d = []"
  shows "\<forall>e \<in> elements (dget0 d ''codes''). registry_entry e"
proof (cases "py_iter (dget0 d ''codes'')")
  case (Inl e)
  then show ?thesis by (simp add: elements_def)
next
  case (Inr xs)
  then have "list_all registry_entry xs" using assms by (simp add: example_registry_schema_def split: if_split_asm)
  then show ?thesis using Inr by (simp add: elements_def list_all_iff)
qed

theorem normalize_agrees_with_registry_witness:
  "\<exists>result entry event. JObj entry \<in> elements (dget0 (dict_or_empty example_registry) ''codes'')
    \<and> agrees_with_registry event entry \<and> supported_event event
    \<and> cmd_normalize example_registry_schema (\<lambda>d. []) (\<lambda>d. []) ''ab'' (''t'', ''t'', ''t'')
        (''r'', json_dumps example_registry) (''o'', json_dumps example_observation) '''' None = Inr (result, None)"
proof -
  let ?run = "cmd_normalize example_registry_schema (\<lambda>d. []) (\<lambda>d. []) ''ab'' (''t'', ''t'', ''t'')
        (''r'', json_dumps example_registry) (''o'', json_dumps example_observation) '''' None"
  have "case ?run of Inr (r, w) \<Rightarrow> ex_code r = 0 \<and> w = None | Inl e \<Rightarrow> False" by code_simp
  then obtain result where run: "?run = Inr (result, None)" "ex_code result = 0"
    by (cases ?run) auto
  have schema: "\<And>d. example_registry_schema d = [] \<Longrightarrow> \<forall>e \<in> elements (dget0 d ''codes''). registry_entry e"
    by (rule example_registry_schema_entries)
  have doc: "json_loads (universal_newlines (json_dumps example_registry)) = Inr example_registry" by code_simp
  obtain document entry event where found: "json_loads (universal_newlines (json_dumps example_registry)) = Inr (JObj document)"
    "JObj entry \<in> elements (dget0 document ''codes'')" "agrees_with_registry event entry" "supported_event event"
    using normalize_agrees_with_registry [OF run schema] by blast
  have "example_registry = JObj document" using found(1) doc by simp
  then have "dict_or_empty example_registry = document" by (metis dict_or_empty.simps(1))
  then show ?thesis using found(2-4) run(1) by blast
qed

end
