(* ===== verification/Identity_Audit.thy ===== *)
theory Identity_Audit
  imports Policy_Normalizer
begin

text \<open>
  \<open>tools/sourceos_identity_audit.py\<close>: the audit that a product's service manifest and launch manifest
  show no trace of the upstream engine.
\<close>

section \<open>Terms and surfaces\<close>

definition UPSTREAM_LEAK_TERMS :: "string list" where
  "UPSTREAM_LEAK_TERMS = [''firefox'', ''mozilla'', ''gecko'', ''chromium'', ''chrome'', ''webkit'']"

definition SHELL_POLLUTION_VARS :: "string list" where
  "SHELL_POLLUTION_VARS = [''PYTHONPATH'', ''NODE_PATH'', ''GEM_HOME'', ''CARGO_HOME'', ''JAVA_HOME'', ''NIX_PATH'']"

text \<open>\<open>str(v or "")\<close>, and the same in lower case.\<close>

definition text_or_empty :: "json \<Rightarrow> string" where
  "text_or_empty v = py_str (py_or v (JStr ''''))"

definition lower_text :: "json \<Rightarrow> string" where
  "lower_text v = lower (text_or_empty v)"

definition has_upstream_leak :: "json \<Rightarrow> string list \<Rightarrow> string list" where
  "has_upstream_leak v allowed_terms =
     sort [t \<leftarrow> UPSTREAM_LEAK_TERMS. contains t (lower_text v) \<and> t \<notin> set allowed_terms]"

definition normalized :: "json \<Rightarrow> string" where
  "normalized v = [c \<leftarrow> lower_text v. c \<notin> set ''-_.'']"

definition identity_surfaces :: "jdict \<Rightarrow> jdict \<Rightarrow> string \<Rightarrow> jdict \<Rightarrow> (string \<times> json) list" where
  "identity_surfaces service launch expected_process invariants = [
     (''service.display_name'', dget0 service ''display_name''),
     (''launch.display_name'', dget0 launch ''display_name''),
     (''bundle.expected_process_name'', JStr expected_process),
     (''identity.dock_name'', dget0 invariants ''dock_name''),
     (''identity.menu_name'', dget0 invariants ''menu_name''),
     (''identity.crash_report_name'', dget0 invariants ''crash_report_name''),
     (''identity.helper_prefix'', dget0 invariants ''helper_prefix'')]"

definition leak_errors :: "(string \<times> json) list \<Rightarrow> string list" where
  "leak_errors surfaces = concat (map (\<lambda>(surface, v). let leaked = has_upstream_leak v [] in
     note_if (leaked \<noteq> []) (surface @ '' leaks upstream identity terms: '' @ join '', '' leaked)) surfaces)"

section \<open>The audit\<close>

definition product_name_of :: "jdict \<Rightarrow> jdict \<Rightarrow> string" where
  "product_name_of service launch =
     text_or_empty (py_or (dget0 launch ''display_name'') (dget0 service ''display_name''))"

text \<open>\<open>product_norm and product_norm not in s\<close>.\<close>

definition lacks_product :: "string \<Rightarrow> json \<Rightarrow> bool" where
  "lacks_product product_norm v \<longleftrightarrow> product_norm \<noteq> '''' \<and> \<not> contains product_norm (normalized v)"

definition product_errors ::
  "jdict \<Rightarrow> jdict \<Rightarrow> jdict \<Rightarrow> jdict \<Rightarrow> jdict \<Rightarrow> bool \<Rightarrow> json list \<Rightarrow> string list" where
  "product_errors service launch bundle invariants env duplicates denied_caps =
     (let product_name = product_name_of service launch; product_norm = normalized (JStr product_name);
          expected_process = text_or_empty (dget0 bundle ''expected_process_name'') in
      note_if (dget0 service ''schema_version'' \<noteq> JStr ''sourceos.service.v0.1'')
        ''service manifest must use schema_version sourceos.service.v0.1''
      @ note_if (dget0 launch ''schema_version'' \<noteq> JStr ''sourceos.launch_manifest.v0.1'')
        ''launch manifest must use schema_version sourceos.launch_manifest.v0.1''
      @ note_if (product_name = '''') ''product display_name is required''
      @ note_if (\<not> py_eq (dget0 service ''display_name'') (dget0 launch ''display_name''))
        ''service display_name must match launch display_name''
      @ note_if (lacks_product product_norm (dget0 service ''service_id''))
        ''service_id should contain normalized product identity''
      @ note_if (lacks_product product_norm (dget0 launch ''product_id''))
        ''launch product_id should contain normalized product identity''
      @ note_if (lacks_product product_norm (dget0 bundle ''bundle_id''))
        ''bundle_id should contain normalized product identity''
      @ note_if (expected_process \<noteq> product_name) ''expected_process_name must equal product display_name''
      @ concat (map (\<lambda>key. note_if (dget0 invariants key \<noteq> JStr product_name)
          (''identity_invariants.'' @ key @ '' must equal product display_name''))
          [''dock_name'', ''menu_name'', ''crash_report_name'', ''helper_prefix''])
      @ note_if (dget0 env ''inherit_user_shell'' \<noteq> JBool False)
        ''environment.inherit_user_shell must be false for packaged products''
      @ note_if duplicates ''environment.path must not contain duplicate entries''
      @ leak_errors (identity_surfaces service launch expected_process invariants)
      @ note_if (\<not> set_mem ''identity.product.upstream_leak'' denied_caps)
        ''service capabilities.denied must include identity.product.upstream_leak'')"

definition product_warnings :: "jdict \<Rightarrow> jdict \<Rightarrow> json list \<Rightarrow> json list \<Rightarrow> string list" where
  "product_warnings bundle invariants path_entries denied_vars =
     (let profile_policy = text_or_empty (dget0 invariants ''profile_path_policy'');
          missing_denied = sort [v \<leftarrow> SHELL_POLLUTION_VARS. \<not> set_mem v denied_vars];
          upstream_engine = text_or_empty (dget0 bundle ''upstream_engine'') in
      note_if (\<not> contains ''MUST NOT'' profile_policy \<and> \<not> contains ''must not'' profile_policy)
        ''profile_path_policy should explicitly forbid upstream product identity leakage''
      @ concat (map (\<lambda>entry. note_if (contains ''homebrew'' (lower_text entry) \<or> contains ''/nix'' (lower_text entry))
          (''environment.path contains developer/toolchain path: '' @ py_str entry)) path_entries)
      @ note_if (missing_denied \<noteq> [])
        (''environment.denied_variables should include: '' @ join '', '' missing_denied)
      @ note_if (upstream_engine \<noteq> '''' \<and> has_upstream_leak (JStr upstream_engine) UPSTREAM_LEAK_TERMS = [])
        ''bundle.upstream_engine should explicitly document upstream provenance when applicable'')"

definition identity_audit :: "jdict \<Rightarrow> jdict \<Rightarrow> (string list \<times> string list) res" where
  "identity_audit service launch =
     ebind (object_or_empty (dget0 launch ''bundle_identity'')) (\<lambda>bundle.
     ebind (object_or_empty (dget0 launch ''identity_invariants'')) (\<lambda>invariants.
     ebind (object_or_empty (dget0 launch ''environment'')) (\<lambda>env.
     let path_value = py_or (dget0 env ''path'') (JList []) in
     ebind (py_iter path_value) (\<lambda>path_entries.
     ebind (set_of path_value) (\<lambda>path_set.
     ebind (set_or_empty (dget0 env ''denied_variables'')) (\<lambda>denied_vars.
     ebind (object_or_empty (dget0 service ''capabilities'')) (\<lambda>caps.
     ebind (set_or_empty (dget0 caps ''denied'')) (\<lambda>denied_caps.
     Inr (product_errors service launch bundle invariants env (length path_entries \<noteq> length path_set) denied_caps,
          product_warnings bundle invariants path_entries denied_vars)))))))))"

text \<open>A manifest file that does not parse or holds no object ends the program.\<close>

definition load_manifest :: "string \<times> string \<Rightarrow> jdict res" where
  "load_manifest file =
     (case json_loads (universal_newlines (snd file)) of
        Inl msg \<Rightarrow> Inl (SystemExit (fst file @ '': invalid JSON: '' @ msg))
      | Inr (JObj d) \<Rightarrow> Inr d
      | Inr v \<Rightarrow> Inl (SystemExit (fst file @ '': expected top-level JSON object'')))"

definition audit_report :: "string \<Rightarrow> string \<Rightarrow> string list \<Rightarrow> string list \<Rightarrow> json" where
  "audit_report service_path launch_path errors warnings = JObj [
     (''service'', JStr service_path), (''launch'', JStr launch_path),
     (''status'', JStr (if errors \<noteq> [] then ''fail'' else ''pass'')), (''errors'', strs errors),
     (''warnings'', strs warnings)]"

definition identity_main :: "string \<times> string \<Rightarrow> string \<times> string \<Rightarrow> bool \<Rightarrow> exit_result res" where
  "identity_main service_file launch_file as_json =
     ebind (load_manifest service_file) (\<lambda>service.
     ebind (load_manifest launch_file) (\<lambda>launch.
     ebind (identity_audit service launch) (\<lambda>(errors, warnings).
     let code = (if errors \<noteq> [] then 1 else 0) in
     Inr (if as_json
       then \<lparr>ex_code = code, ex_out = [json_indented 0 (sort_keys (audit_report (fst service_file) (fst launch_file) errors warnings))],
             ex_err = []\<rparr>
       else \<lparr>ex_code = code,
             ex_out = (''Product identity audit: '' @ (if errors \<noteq> [] then ''fail'' else ''pass''))
               # map (\<lambda>w. ''warning: '' @ w) warnings,
             ex_err = map (\<lambda>e. ''error: '' @ e) errors\<rparr>))))"

section \<open>What a passing audit shows\<close>

lemma concat_notes_Nil: "concat (map (\<lambda>x. note_if (P x) (f x)) xs) = [] \<longleftrightarrow> list_all (\<lambda>x. \<not> P x) xs"
  by (induction xs) auto

lemma has_upstream_leak_Nil: "has_upstream_leak v [] = [] \<longleftrightarrow> (\<forall>t \<in> set UPSTREAM_LEAK_TERMS. \<not> contains t (lower_text v))"
proof -
  have "sort ts = [] \<longleftrightarrow> ts = []" for ts :: "string list"
    by (simp add: length_0_conv [symmetric] del: length_0_conv)
  then show ?thesis by (auto simp: has_upstream_leak_def filter_empty_conv)
qed

lemma leak_errors_Nil:
  "leak_errors surfaces = [] \<longleftrightarrow>
     (\<forall>(surface, v) \<in> set surfaces. \<forall>t \<in> set UPSTREAM_LEAK_TERMS. \<not> contains t (lower_text v))"
  by (induction surfaces) (auto simp: leak_errors_def Let_def has_upstream_leak_Nil)

text \<open>
  When the identity audit reports no error, the product has a name, and that name is shown on every surface: the process,
  the dock, the menu, the crash reports and the helpers, while the two display names agree.  No surface contains an upstream term in any
  letter case, the launch does not inherit the user's shell, and the service denies the leak.
\<close>

theorem clean_identity:
  assumes "identity_audit service launch = Inr ([], warnings)"
  shows "\<exists>name. name \<noteq> '''' \<and> name = product_name_of service launch
    \<and> py_eq (dget0 service ''display_name'') (dget0 launch ''display_name'')
    \<and> list_all (\<lambda>k. dget0 (sub_dict launch ''identity_invariants'') k = JStr name)
        [''dock_name'', ''menu_name'', ''crash_report_name'', ''helper_prefix'']
    \<and> text_or_empty (dget0 (sub_dict launch ''bundle_identity'') ''expected_process_name'') = name
    \<and> list_all (\<lambda>t. \<not> contains t (lower name) \<and> \<not> contains t (lower_text (dget0 service ''display_name''))
        \<and> \<not> contains t (lower_text (dget0 launch ''display_name''))) UPSTREAM_LEAK_TERMS
    \<and> dget0 (sub_dict launch ''environment'') ''inherit_user_shell'' = JBool False
    \<and> JStr ''identity.product.upstream_leak'' \<in> capabilities_of service ''denied''"
proof -
  obtain bid invariants env caps denied_caps duplicates where dicts:
    "object_or_empty (dget0 launch ''bundle_identity'') = Inr bid"
    "object_or_empty (dget0 launch ''identity_invariants'') = Inr invariants"
    "object_or_empty (dget0 launch ''environment'') = Inr env"
    "object_or_empty (dget0 service ''capabilities'') = Inr caps"
    "set_or_empty (dget0 caps ''denied'') = Inr denied_caps"
    and clean: "product_errors service launch bid invariants env duplicates denied_caps = []"
    using assms by (auto simp: identity_audit_def ebind_Inr_iff Let_def)
  have subs: "bid = sub_dict launch ''bundle_identity''" "invariants = sub_dict launch ''identity_invariants''"
    "env = sub_dict launch ''environment''" "caps = sub_dict service ''capabilities''"
    using dicts object_or_empty_Inr by blast+
  define name where "name = product_name_of service launch"
  have facts: "name \<noteq> ''''" "py_eq (dget0 service ''display_name'') (dget0 launch ''display_name'')"
    "list_all (\<lambda>k. dget0 invariants k = JStr name) [''dock_name'', ''menu_name'', ''crash_report_name'', ''helper_prefix'']"
    "text_or_empty (dget0 bid ''expected_process_name'') = name"
    "leak_errors (identity_surfaces service launch name invariants) = []"
    "dget0 env ''inherit_user_shell'' = JBool False"
    "set_mem ''identity.product.upstream_leak'' denied_caps"
    using clean by (auto simp: product_errors_def Let_def concat_notes_Nil name_def)
  have "text_or_empty (JStr name) = name" using facts(1) by (simp add: text_or_empty_def py_or_def)
  then have "list_all (\<lambda>t. \<not> contains t (lower name) \<and> \<not> contains t (lower_text (dget0 service ''display_name''))
        \<and> \<not> contains t (lower_text (dget0 launch ''display_name''))) UPSTREAM_LEAK_TERMS"
    using facts(5) by (auto simp: leak_errors_Nil identity_surfaces_def list_all_iff lower_text_def)
  moreover have "JStr ''identity.product.upstream_leak'' \<in> capabilities_of service ''denied''"
    using facts(7) set_or_empty_elements(2) [OF dicts(5)] by (simp add: capabilities_of_def subs(4))
  ultimately show ?thesis using facts unfolding subs name_def by blast
qed

definition example_launch :: jdict where
  "example_launch = [(''schema_version'', JStr ''sourceos.launch_manifest.v0.1''), (''display_name'', JStr ''Bear''),
     (''product_id'', JStr ''bear''),
     (''bundle_identity'', JObj [(''expected_process_name'', JStr ''Bear''), (''bundle_id'', JStr ''dev.bear''),
        (''upstream_engine'', JStr ''Gecko'')]),
     (''identity_invariants'', JObj [(''dock_name'', JStr ''Bear''), (''menu_name'', JStr ''Bear''),
        (''crash_report_name'', JStr ''Bear''), (''helper_prefix'', JStr ''Bear'')]),
     (''environment'', JObj [(''inherit_user_shell'', JBool False)])]"

definition example_product :: jdict where
  "example_product = [(''schema_version'', JStr ''sourceos.service.v0.1''), (''display_name'', JStr ''Bear''),
     (''service_id'', JStr ''dev.bear''), (''capabilities'', JObj [(''denied'', strs [''identity.product.upstream_leak''])])]"

theorem clean_identity_witness:
  "\<exists>warnings. identity_audit example_product example_launch = Inr ([], warnings)
    \<and> \<not> contains ''gecko'' (lower (product_name_of example_product example_launch))"
proof -
  have "case identity_audit example_product example_launch of Inr (errors, warnings) \<Rightarrow> errors = [] | Inl e \<Rightarrow> False"
    by code_simp
  then obtain warnings where run: "identity_audit example_product example_launch = Inr ([], warnings)"
    by (cases "identity_audit example_product example_launch") auto
  moreover have "\<not> contains ''gecko'' (lower (product_name_of example_product example_launch))"
    using clean_identity [OF run] by (auto simp: UPSTREAM_LEAK_TERMS_def)
  ultimately show ?thesis by blast
qed

text \<open>
  Every engine that is named draws the warning that it should be documented, also one that documents its provenance:
  the terms that would show the documentation are all allowed, so none of them is ever found.
\<close>

lemma every_engine_is_warned_about:
  assumes "identity_audit service launch = Inr (errors, warnings)"
    and "text_or_empty (dget0 (sub_dict launch ''bundle_identity'') ''upstream_engine'') \<noteq> ''''"
  shows "''bundle.upstream_engine should explicitly document upstream provenance when applicable'' \<in> set warnings"
proof -
  have "has_upstream_leak v UPSTREAM_LEAK_TERMS = []" for v
    by (simp add: has_upstream_leak_def filter_empty_conv)
  moreover obtain bid invariants path_entries denied_vars
    where "object_or_empty (dget0 launch ''bundle_identity'') = Inr bid"
      "warnings = product_warnings bid invariants path_entries denied_vars"
    using assms(1) by (auto simp: identity_audit_def ebind_Inr_iff Let_def)
  moreover from this(1) have "bid = sub_dict launch ''bundle_identity''" by (rule object_or_empty_Inr)
  ultimately show ?thesis using assms(2) by (simp add: product_warnings_def Let_def note_if_def)
qed

end
