(* ===== verification/Process_Provenance.thy ===== *)
theory Process_Provenance
  imports Policy_Normalizer
begin

text \<open>
  \<open>tools/sourceos_process_provenance.py\<close>: a process provenance tuple is turned into the canonical events of
  the process's start and of its observed end.
\<close>

section \<open>The events\<close>

definition pid_text :: "json \<Rightarrow> string" where
  "pid_text pid = (if pid \<noteq> JNull then py_str pid else ''unknown'')"

definition provenance_ref :: "string \<Rightarrow> string" where
  "provenance_ref event_class = ''ev_process_provenance_'' @ replace_char CHR ''.'' ''_'' event_class"

definition process_actor :: "json \<Rightarrow> json \<Rightarrow> json res" where
  "process_actor proc exe =
     ebind (jsub proc ''pid'') (\<lambda>pid.
     ebind (jsub exe ''display_path'') (\<lambda>display_path.
     ebind (jsub proc ''uid_class'') (\<lambda>uid_class.
     ebind (jsub proc ''environment_class'') (\<lambda>environment_class.
     Inr (JObj [(''actor_id'', JStr (''actor_process_'' @ pid_text pid)), (''actor_type'', JStr ''process''),
       (''display_name'', display_path), (''uid'', uid_class), (''session_id'', JNull),
       (''authority_domain'', environment_class)])))))"

definition process_causality :: "json \<Rightarrow> string \<Rightarrow> jdict res" where
  "process_causality causality event_class =
     ebind (jget causality ''parent_event_id'' JNull) (\<lambda>parent_event_id.
     ebind (jsub causality ''root_event_id'') (\<lambda>root_event_id.
     ebind (jsub causality ''span_id'') (\<lambda>span_id.
     ebind (jsub causality ''trace_id'') (\<lambda>trace_id.
     Inr [(''parent_event_id'', parent_event_id), (''root_event_id'', root_event_id),
       (''span_id'', if event_class = ''process.exec'' then span_id else JStr (py_str span_id @ ''_exit'')),
       (''trace_id'', trace_id)]))))"

definition process_trust :: "json \<Rightarrow> json res" where
  "process_trust exe =
     ebind (jsub exe ''trust_mode'') (\<lambda>trust_mode.
     ebind (jsub exe ''signature_state'') (\<lambda>signature_state.
     ebind (jsub exe ''package_origin'') (\<lambda>package_origin.
     ebind (jget exe ''content_hash'' JNull) (\<lambda>content_hash.
     ebind (jsub exe ''network_lookup'') (\<lambda>network_lookup.
     Inr (JObj [(''mode'', trust_mode), (''signature_state'', signature_state), (''package_origin'', package_origin),
       (''content_hash'', content_hash),
       (''attestation_state'', JStr (if signature_state = JStr ''valid'' then ''verified'' else ''missing'')),
       (''network_lookup'', network_lookup), (''degradation_reason'', JNull)]))))))"

definition process_evidence :: "string \<Rightarrow> json" where
  "process_evidence event_class = JObj [(''evidence_id'', JStr (provenance_ref event_class)),
     (''source'', JStr ''process-monitor''), (''raw_ref'', JStr ''process-provenance-tuple''),
     (''summary'', JStr ''Canonical process event generated from SourceOS process provenance tuple.'')]"

text \<open>The texts of the narrative: summary, explanation and next action.\<close>

record event_text =
  et_summary :: string
  et_why :: string
  et_next_action :: string

definition event_base :: "jdict \<Rightarrow> json \<Rightarrow> string \<Rightarrow> string \<Rightarrow> event_text \<Rightarrow> jdict res" where
  "event_base prov event_id event_class created_at t =
     ebind (jsub (JObj prov) ''process_identity'') (\<lambda>proc.
     ebind (jsub (JObj prov) ''executable_identity'') (\<lambda>exe.
     ebind (jsub (JObj prov) ''causality'') (\<lambda>causality.
     ebind (jsub (JObj prov) ''privacy'') (\<lambda>privacy.
     ebind (jsub privacy ''tier'') (\<lambda>tier.
     ebind (process_actor proc exe) (\<lambda>actor.
     ebind (process_causality causality event_class) (\<lambda>cause.
     ebind (jsub proc ''pid'') (\<lambda>pid.
     ebind (jsub exe ''display_path'') (\<lambda>display_path.
     ebind (process_trust exe) (\<lambda>trust.
     Inr [(''schema_version'', JStr ''sourceos.event.v0.1''), (''event_id'', event_id),
       (''event_class'', JStr event_class), (''lane'', JStr ''process_lifecycle''), (''severity'', JStr ''info''),
       (''outcome'', JStr ''allowed''), (''created_at'', JStr created_at), (''observed_at_monotonic_ns'', JInt 0),
       (''host'', JObj [(''host_id'', JStr ''host_local_pseudonym''), (''platform'', JStr ''sourceos''),
          (''kernel'', JStr ''unknown''), (''privacy_zone'', tier)]),
       (''actor'', actor), (''causality'', JObj cause),
       (''subject'', JObj [(''type'', JStr ''process''), (''id'', JStr (''proc_'' @ pid_text pid)),
          (''display'', display_path)]),
       (''trust'', trust), (''privacy'', privacy), (''evidence'', JList [process_evidence event_class]),
       (''operator_narrative'', JObj [(''summary'', JStr (et_summary t)), (''risk'', JStr ''low''),
          (''why'', JStr (et_why t)), (''next_action'', JStr (et_next_action t)),
          (''drilldown_refs'', strs [provenance_ref event_class])]),
       (''sync'', JObj [(''replication_policy'', JStr ''local_only''), (''retention_class'', JStr ''standard''),
          (''exportable'', JBool False)])]))))))))))"

definition exec_text :: "json \<Rightarrow> json \<Rightarrow> event_text res" where
  "exec_text proc exe =
     ebind (jsub exe ''display_path'') (\<lambda>display_path.
     ebind (jsub proc ''environment_class'') (\<lambda>environment_class.
     ebind (jsub exe ''package_origin'') (\<lambda>package_origin.
     ebind (jsub exe ''signature_state'') (\<lambda>signature_state.
     ebind (jsub exe ''network_lookup'') (\<lambda>network_lookup.
     Inr \<lparr>et_summary = py_str display_path @ '' launched under '' @ py_str environment_class @ '' context.'',
       et_why = ''The process was classified as '' @ py_str package_origin @ '' with '' @ py_str signature_state
         @ '' signature state and '' @ py_str network_lookup @ '' network trust lookup.'',
       et_next_action = ''No action required unless this launch was unexpected.''\<rparr>)))))"

definition exit_text :: "json \<Rightarrow> json \<Rightarrow> jdict \<Rightarrow> event_text res" where
  "exit_text exe trace_id exit_info =
     ebind (jsub exe ''display_path'') (\<lambda>display_path.
     Inr \<lparr>et_summary = py_str display_path @ '' exited with code '' @ py_str (dget0 exit_info ''exit_code'') @ ''.'',
       et_why = ''The exit record stayed attached to trace '' @ py_str trace_id
         @ '' and termination reason was '' @ py_str (dget0 exit_info ''termination_reason'') @ ''.'',
       et_next_action = ''No action required unless runtime, signal, or exit status violates policy.''\<rparr>)"

definition exit_evidence :: "jdict \<Rightarrow> json" where
  "exit_evidence exit_info = JObj [(''evidence_id'', JStr ''ev_process_exit_status''),
     (''source'', JStr ''process-monitor''), (''raw_ref'', JStr ''process-provenance-tuple.exit''),
     (''summary'', JStr (''observed='' @ py_str (dget0 exit_info ''observed'')
        @ '' exit_code='' @ py_str (dget0 exit_info ''exit_code'') @ '' signal='' @ py_str (dget0 exit_info ''signal'')
        @ '' runtime_ms='' @ py_str (dget0 exit_info ''runtime_ms'')
        @ '' termination_reason='' @ py_str (dget0 exit_info ''termination_reason'')))]"

text \<open>\<open>d[k][j] = v\<close> and \<open>append\<close>, on the event that was just built.\<close>

definition append_item :: "json \<Rightarrow> json \<Rightarrow> json" where
  "append_item x v = (case v of JList xs \<Rightarrow> JList (xs @ [x]) | _ \<Rightarrow> v)"

definition attach_exit :: "json \<Rightarrow> jdict \<Rightarrow> jdict \<Rightarrow> jdict" where
  "attach_exit root_event_id exit_info event =
     (let e1 = dset ''causality'' (JObj (dset ''parent_event_id'' root_event_id (sub_dict event ''causality''))) event;
          e2 = dset ''evidence'' (append_item (exit_evidence exit_info) (dget0 e1 ''evidence'')) e1;
          narrative = sub_dict e2 ''operator_narrative''
      in dset ''operator_narrative'' (JObj (dset ''drilldown_refs''
           (append_item (JStr ''ev_process_exit_status'') (dget0 narrative ''drilldown_refs'')) narrative)) e2)"

definition observed_exit :: "json \<Rightarrow> jdict option" where
  "observed_exit v = (case v of JObj d \<Rightarrow> if truthy (dget0 d ''observed'') then Some d else None | _ \<Rightarrow> None)"

definition emit_exec :: "jdict \<Rightarrow> string \<Rightarrow> json \<Rightarrow> jdict res" where
  "emit_exec prov created_at root_event_id =
     ebind (jsub (JObj prov) ''process_identity'') (\<lambda>proc.
     ebind (jsub (JObj prov) ''executable_identity'') (\<lambda>exe.
     ebind (exec_text proc exe) (\<lambda>t.
     event_base prov root_event_id ''process.exec'' created_at t)))"

definition emit_exit :: "jdict \<Rightarrow> string \<Rightarrow> json \<Rightarrow> jdict \<Rightarrow> jdict res" where
  "emit_exit prov created_at root_event_id exit_info =
     ebind (jsub (JObj prov) ''executable_identity'') (\<lambda>exe.
     ebind (jsub (JObj prov) ''causality'') (\<lambda>causality.
     ebind (jsub causality ''trace_id'') (\<lambda>trace_id.
     ebind (exit_text exe trace_id exit_info) (\<lambda>t.
     ebind (event_base prov (JStr (py_str root_event_id @ ''_exit'')) ''process.exit'' created_at t) (\<lambda>e.
     Inr (attach_exit root_event_id exit_info e))))))"

definition emit_events :: "jdict \<Rightarrow> string \<Rightarrow> jdict list res" where
  "emit_events prov created_at =
     ebind (jsub (JObj prov) ''process_identity'') (\<lambda>proc.
     ebind (jsub (JObj prov) ''executable_identity'') (\<lambda>exe.
     ebind (jsub (JObj prov) ''causality'') (\<lambda>causality.
     ebind (jsub causality ''root_event_id'') (\<lambda>root_event_id.
     ebind (emit_exec prov created_at root_event_id) (\<lambda>exec_event.
     ebind (jget proc ''exit'' JNull) (\<lambda>exit_info.
     case observed_exit exit_info of
       None \<Rightarrow> Inr [exec_event]
     | Some info \<Rightarrow> ebind (emit_exit prov created_at root_event_id info) (\<lambda>e. Inr [exec_event, e])))))))"

section \<open>The commands\<close>

text \<open>The tuple in a file, or the failure.\<close>

definition load_provenance :: "(jdict \<Rightarrow> schema_error list) \<Rightarrow> string \<times> string \<Rightarrow> (exit_result + jdict) res" where
  "load_provenance schema file =
     ebind (load_json_text (snd file)) (\<lambda>v.
     case v of
       JObj prov \<Rightarrow> (let errors = format_errors (schema prov)
          in Inr (if errors \<noteq> [] then Inl (fail (fst file) errors) else Inr prov))
     | _ \<Rightarrow> Inr (Inl (fail (fst file) [''expected top-level JSON object''])))"

definition cmd_validate_provenance :: "(jdict \<Rightarrow> schema_error list) \<Rightarrow> string \<times> string \<Rightarrow> exit_result res" where
  "cmd_validate_provenance schema file =
     ebind (load_provenance schema file) (\<lambda>c.
     Inr (case c of Inl failure \<Rightarrow> failure
          | Inr prov \<Rightarrow> exits [fst file @ '': valid SourceOS process provenance tuple'']))"

text \<open>The files written to the output directory; event identifiers contain no slash.\<close>

definition event_file :: "string \<Rightarrow> jdict \<Rightarrow> string \<times> string" where
  "event_file out_dir event = (out_dir @ ''/'' @ py_str (dget0 event ''event_id'') @ ''.json'',
     json_indented 0 (sort_keys (JObj event)) @ [newline])"

definition cmd_emit_events ::
  "(jdict \<Rightarrow> schema_error list) \<Rightarrow> (jdict \<Rightarrow> schema_error list) \<Rightarrow> string \<times> string \<Rightarrow> string \<Rightarrow> string option
   \<Rightarrow> (exit_result \<times> (string \<times> string) list) res" where
  "cmd_emit_events schema event_schema file created_at out_dir =
     ebind (load_provenance schema file) (\<lambda>c.
     case c of
       Inl failure \<Rightarrow> Inr (failure, [])
     | Inr prov \<Rightarrow>
         ebind (emit_events prov created_at) (\<lambda>events.
         let event_errors = concat (map (\<lambda>e. map (\<lambda>x. py_str (dget0 e ''event_id'') @ '': '' @ x)
               (format_errors (event_schema e))) events) in
         Inr (if event_errors \<noteq> [] then (fail ''generated event invalid'' event_errors, [])
              else case out_dir of
                Some d \<Rightarrow> if d \<noteq> '''' then (exits (map (\<lambda>e. ''wrote '' @ fst (event_file d e)) events), map (event_file d) events)
                         else (exits [json_indented 0 (sort_keys (JList (map JObj events)))], [])
              | None \<Rightarrow> (exits [json_indented 0 (sort_keys (JList (map JObj events)))], []))))"

section \<open>The events of a process belong together\<close>

lemma event_base_fields:
  assumes "event_base prov event_id event_class created_at t = Inr event"
  shows "\<exists>causality exe trust. jsub (JObj prov) ''causality'' = Inr causality \<and> jsub (JObj prov) ''executable_identity'' = Inr exe
    \<and> process_trust exe = Inr trust \<and> dget0 event ''trust'' = trust
    \<and> dget0 event ''event_id'' = event_id \<and> dget0 event ''event_class'' = JStr event_class
    \<and> process_causality causality event_class = Inr (sub_dict event ''causality'')
    \<and> dget0 event ''evidence'' = JList [process_evidence event_class]
    \<and> dget0 (sub_dict event ''operator_narrative'') ''drilldown_refs'' = strs [provenance_ref event_class]"
  using assms by (auto simp: event_base_def ebind_Inr_iff sub_dict_def simp del: jsub.simps)

definition trace_of :: "jdict \<Rightarrow> string \<Rightarrow> json" where
  "trace_of event k = dget0 (sub_dict event ''causality'') k"

lemma process_causality_fields:
  assumes "process_causality causality event_class = Inr d"
  shows "jsub causality ''root_event_id'' = Inr (dget0 d ''root_event_id'')"
    and "jsub causality ''trace_id'' = Inr (dget0 d ''trace_id'')"
  using assms by (auto simp: process_causality_def ebind_Inr_iff simp del: jsub.simps)

lemma attach_exit_fields:
  assumes "dget0 event ''evidence'' = JList xs"
  shows "dget0 (attach_exit r i event) ''event_id'' = dget0 event ''event_id''"
    and "trace_of (attach_exit r i event) k = (if k = ''parent_event_id'' then r else trace_of event k)"
    and "dget0 (attach_exit r i event) ''evidence'' = JList (xs @ [exit_evidence i])"
    and "dget0 (attach_exit r i event) ''trust'' = dget0 event ''trust''"
  using assms by (simp_all add: attach_exit_def Let_def trace_of_def sub_dict_def append_item_def)

lemma attestation_of_trust:
  assumes "process_trust exe = Inr trust"
  shows "dget0 (dict_or_empty trust) ''attestation_state'' = JStr ''verified'' \<longleftrightarrow> jsub exe ''signature_state'' = Inr (JStr ''valid'')"
  using assms by (auto simp: process_trust_def ebind_Inr_iff simp del: jsub.simps split: if_splits)

lemma jsub_sub_dict: "jsub (JObj d) k = Inr (JObj x) \<Longrightarrow> sub_dict d k = x"
  by (auto simp: sub_dict_def dget_def split: option.splits)

lemma jsub_dget: "jsub (JObj d) k = Inr v \<Longrightarrow> dget0 d k = v"
  by (auto simp: dget_def split: option.splits)

lemma jsub_dict: "jsub v k = Inr w \<Longrightarrow> \<exists>d. v = JObj d"
  by (cases v) auto

lemma event_base_links:
  assumes event: "event_base prov eid c created_at t = Inr e"
    and causality: "jsub (JObj prov) ''causality'' = Inr causality" "jsub causality ''root_event_id'' = Inr (JStr root_id)"
  shows "trace_of e ''root_event_id'' = JStr root_id" and "jsub causality ''trace_id'' = Inr (trace_of e ''trace_id'')"
    and "dget0 e ''event_id'' = eid" and "dget0 e ''evidence'' = JList [process_evidence c]"
    and "dget0 (sub_dict e ''trust'') ''attestation_state'' = JStr ''verified''
      \<longleftrightarrow> dget0 (sub_dict prov ''executable_identity'') ''signature_state'' = JStr ''valid''"
proof -
  obtain causality' exe trust where f: "jsub (JObj prov) ''causality'' = Inr causality'"
    "jsub (JObj prov) ''executable_identity'' = Inr exe" "process_trust exe = Inr trust" "dget0 e ''trust'' = trust"
    "dget0 e ''event_id'' = eid" "process_causality causality' c = Inr (sub_dict e ''causality'')"
    "dget0 e ''evidence'' = JList [process_evidence c]"
    using event_base_fields [OF event] by blast
  have same: "causality' = causality" using f(1) causality(1) by simp
  obtain xd where exe: "exe = JObj xd"
    using f(3) jsub_dict [of exe "''trust_mode''"] by (auto simp: process_trust_def ebind_Inr_iff simp del: jsub.simps)
  have sig: "\<exists>s. jsub exe ''signature_state'' = Inr s"
    using f(3) by (auto simp: process_trust_def ebind_Inr_iff simp del: jsub.simps)
  then have "jsub exe ''signature_state'' = Inr (JStr ''valid'')
      \<longleftrightarrow> dget0 (sub_dict prov ''executable_identity'') ''signature_state'' = JStr ''valid''"
    using jsub_dget [of xd "''signature_state''"] jsub_sub_dict [OF f(2) [unfolded exe]] by (auto simp: exe simp del: jsub.simps)
  moreover have "sub_dict e ''trust'' = dict_or_empty trust" by (simp add: sub_dict_def f(4))
  ultimately show "trace_of e ''root_event_id'' = JStr root_id" "jsub causality ''trace_id'' = Inr (trace_of e ''trace_id'')"
    "dget0 e ''event_id'' = eid" "dget0 e ''evidence'' = JList [process_evidence c]"
    "dget0 (sub_dict e ''trust'') ''attestation_state'' = JStr ''verified''
      \<longleftrightarrow> dget0 (sub_dict prov ''executable_identity'') ''signature_state'' = JStr ''valid''"
    using process_causality_fields [OF f(6)] causality(2) f(5,7) attestation_of_trust [OF f(3)]
    by (simp_all add: same trace_of_def)
qed

text \<open>
  The events of a process tell one story.  The first is the start, under the identifier the tuple gives to the root; a second event is
  emitted exactly when the end was observed, and it names the start as its parent, shares its root and its trace, has an identifier of its
  own, and adds the exit status to the evidence.  Both count as attested only when the signature is valid.
\<close>

theorem process_events_linked:
  assumes "emit_events prov created_at = Inr events" and "dget0 (sub_dict prov ''causality'') ''root_event_id'' = JStr root_id"
  shows "\<exists>start rest. events = start # rest
    \<and> dget0 start ''event_id'' = JStr root_id \<and> trace_of start ''root_event_id'' = JStr root_id
    \<and> (rest = [] \<longleftrightarrow> observed_exit (dget0 (sub_dict prov ''process_identity'') ''exit'') = None)
    \<and> list_all (\<lambda>e. dget0 e ''event_id'' = JStr (root_id @ ''_exit'') \<and> trace_of e ''parent_event_id'' = JStr root_id
        \<and> trace_of e ''root_event_id'' = JStr root_id \<and> trace_of e ''trace_id'' = trace_of start ''trace_id''
        \<and> (\<exists>i x. dget0 e ''evidence'' = JList [x, exit_evidence i])) rest
    \<and> length rest \<le> 1
    \<and> list_all (\<lambda>e. (dget0 (sub_dict e ''trust'') ''attestation_state'' = JStr ''verified'')
        \<longleftrightarrow> dget0 (sub_dict prov ''executable_identity'') ''signature_state'' = JStr ''valid'') events"
proof -
  obtain proc causality r start info where steps: "jsub (JObj prov) ''process_identity'' = Inr proc"
    "jsub (JObj prov) ''causality'' = Inr causality" "jsub causality ''root_event_id'' = Inr r"
    "emit_exec prov created_at r = Inr start" "jget proc ''exit'' JNull = Inr info"
    "case observed_exit info of None \<Rightarrow> events = [start]
       | Some i \<Rightarrow> \<exists>e. emit_exit prov created_at r i = Inr e \<and> events = [start, e]"
    using assms(1) by (auto simp: emit_events_def ebind_Inr_iff simp del: jsub.simps split: option.splits)
  obtain cd pd where dicts: "causality = JObj cd" "proc = JObj pd"
    using jsub_dict [OF steps(3)] steps(5) by (auto simp: jget_Inr_iff)
  have r: "r = JStr root_id"
    using jsub_dget [OF steps(3) [unfolded dicts]] jsub_sub_dict [OF steps(2) [unfolded dicts]] assms(2) by simp
  have info: "info = dget0 (sub_dict prov ''process_identity'') ''exit''"
    using steps(5) jsub_sub_dict [OF steps(1) [unfolded dicts]] by (simp add: dicts)
  note base = event_base_links [OF _ steps(2) steps(3) [unfolded r]]
  obtain t where "event_base prov r ''process.exec'' created_at t = Inr start"
    using steps(4) by (auto simp: emit_exec_def ebind_Inr_iff simp del: jsub.simps)
  note start = base [OF this]
  show ?thesis
  proof (cases "observed_exit info")
    case None
    then have "events = [start]" using steps(6) by simp
    then show ?thesis using start None r info by simp
  next
    case (Some i)
    then obtain e where e: "emit_exit prov created_at r i = Inr e" "events = [start, e]" using steps(6) by auto
    then obtain t' e' where "event_base prov (JStr (py_str r @ ''_exit'')) ''process.exit'' created_at t' = Inr e'"
      "e = attach_exit r i e'"
      by (auto simp: emit_exit_def ebind_Inr_iff simp del: jsub.simps)
    note exit = base [OF this(1)] and e' = this(2)
    then have fields: "dget0 e ''event_id'' = JStr (root_id @ ''_exit'')" "trace_of e ''parent_event_id'' = JStr root_id"
      "trace_of e ''root_event_id'' = JStr root_id" "trace_of e ''trace_id'' = trace_of e' ''trace_id''"
      "dget0 e ''evidence'' = JList [process_evidence ''process.exit'', exit_evidence i]" "sub_dict e ''trust'' = sub_dict e' ''trust''"
      using r by (simp_all add: attach_exit_fields sub_dict_def)
    have "trace_of e ''trace_id'' = trace_of start ''trace_id''" using exit start fields(4) by simp
    then have "list_all (\<lambda>e. dget0 e ''event_id'' = JStr (root_id @ ''_exit'') \<and> trace_of e ''parent_event_id'' = JStr root_id
        \<and> trace_of e ''root_event_id'' = JStr root_id \<and> trace_of e ''trace_id'' = trace_of start ''trace_id''
        \<and> (\<exists>i x. dget0 e ''evidence'' = JList [x, exit_evidence i])) [e]"
      using fields by auto
    moreover have "observed_exit (dget0 (sub_dict prov ''process_identity'') ''exit'') \<noteq> None" using Some info by simp
    ultimately show ?thesis
      using start exit r fields(6)
      by (intro exI [of _ start] exI [of _ "[e]"]) (simp add: e(2))
  qed
qed

definition example_provenance :: jdict where
  "example_provenance = [
     (''process_identity'', JObj [(''pid'', JInt 7), (''uid_class'', JStr ''user''),
        (''environment_class'', JStr ''container''), (''exit'', JObj [(''observed'', JBool True), (''exit_code'', JInt 1)])]),
     (''executable_identity'', JObj [(''display_path'', JStr ''/bin/x''), (''package_origin'', JStr ''system''),
        (''signature_state'', JStr ''unsigned''), (''trust_mode'', JStr ''local_first''),
        (''network_lookup'', JStr ''not_attempted'')]),
     (''causality'', JObj [(''root_event_id'', JStr ''evt_1''), (''span_id'', JStr ''s''), (''trace_id'', JStr ''t'')]),
     (''privacy'', JObj [(''tier'', JStr ''user_private'')])]"

theorem process_events_linked_witness:
  "\<exists>start e. emit_events example_provenance ''now'' = Inr [start, e] \<and> trace_of e ''parent_event_id'' = JStr ''evt_1''
    \<and> dget0 (sub_dict e ''trust'') ''attestation_state'' \<noteq> JStr ''verified''"
proof -
  have "case emit_events example_provenance ''now'' of Inr events \<Rightarrow> True | Inl e \<Rightarrow> False" by code_simp
  then obtain events where run: "emit_events example_provenance ''now'' = Inr events"
    by (cases "emit_events example_provenance ''now''") auto
  have facts: "dget0 (sub_dict example_provenance ''causality'') ''root_event_id'' = JStr ''evt_1''"
    "observed_exit (dget0 (sub_dict example_provenance ''process_identity'') ''exit'') \<noteq> None"
    "dget0 (sub_dict example_provenance ''executable_identity'') ''signature_state'' \<noteq> JStr ''valid''"
    by code_simp+
  obtain start rest where r: "events = start # rest" "rest \<noteq> []" "length rest \<le> 1"
    "list_all (\<lambda>e. trace_of e ''parent_event_id'' = JStr ''evt_1'') rest"
    "list_all (\<lambda>e. dget0 (sub_dict e ''trust'') ''attestation_state'' \<noteq> JStr ''verified'') events"
    using process_events_linked [OF run facts(1)] facts(2,3) by (auto simp: list_all_iff)
  then obtain e where "rest = [e]" by (cases rest) auto
  then show ?thesis using run r by simp
qed

end
