(* ===== verification/Event_Control.thy ===== *)
theory Event_Control
  imports Policy_Normalizer
begin

text \<open>
  \<open>tools/sourceos_eventctl.py\<close>: the control tool of the append-only store of canonical events, a file with one JSON
  text per line.  The store is the text of the file, \<open>None\<close> when there is no file.  \<open>validator\<close> gives the errors of the event schema,
  and is \<open>None\<close> when the package \<open>jsonschema\<close> is not installed; the digest, the clock and the random
  identifiers are parameters.
\<close>

section \<open>The store\<close>

type_synonym event_store = "string option"

type_synonym validator = "(jdict \<Rightarrow> schema_error list) option"

definition compact_json :: "jdict \<Rightarrow> string" where
  "compact_json obj = json_compact (sort_keys (JObj obj))"

definition event_summary :: "jdict \<Rightarrow> string res" where
  "event_summary event =
     ebind (jget (dget event ''operator_narrative'' (JObj [])) ''summary'' JNull) (\<lambda>s.
     Inr (py_str (py_or s (JStr ''''))))"

definition validate_event_obj :: "validator \<Rightarrow> jdict \<Rightarrow> string list" where
  "validate_event_obj validator event =
     (case validator of
        None \<Rightarrow> [''jsonschema is not installed; run `python3 -m pip install -r requirements-dev.txt`'']
      | Some schema \<Rightarrow> format_errors (schema event))"

definition load_valid_event :: "validator \<Rightarrow> string \<Rightarrow> (jdict option \<times> string list) res" where
  "load_valid_event validator source =
     ebind (load_json_text source) (\<lambda>v.
     case v of JObj event \<Rightarrow> Inr (Some event, validate_event_obj validator event)
     | _ \<Rightarrow> Inr (None, [''expected top-level JSON object'']))"

text \<open>What a line that is not blank holds: an event, or what is wrong with it.\<close>

datatype store_item = Stored nat jdict | Unreadable nat string

definition store_item_of :: "nat \<Rightarrow> string \<Rightarrow> store_item list" where
  "store_item_of line_no line =
     (let raw = strip line in
      if raw = '''' then []
      else case json_loads raw of
          Inl msg \<Rightarrow> [Unreadable line_no (''invalid JSONL record: '' @ msg)]
        | Inr (JObj event) \<Rightarrow> [Stored line_no event]
        | Inr v \<Rightarrow> [Unreadable line_no ''JSONL record is not an object''])"

fun store_items :: "nat \<Rightarrow> string list \<Rightarrow> store_item list" where
  "store_items line_no [] = []"
| "store_items line_no (l # ls) = store_item_of line_no l @ store_items (Suc line_no) ls"

definition iter_store :: "event_store \<Rightarrow> store_item list" where
  "iter_store store = (case store of None \<Rightarrow> []
     | Some source \<Rightarrow> store_items 1 (text_lines (universal_newlines source)))"

definition store_digest :: "(string \<Rightarrow> string) \<Rightarrow> event_store \<Rightarrow> string" where
  "store_digest sha256 store = ''sha256:'' @ sha256 (case store of None \<Rightarrow> '''' | Some source \<Rightarrow> source)"

definition append_stored :: "jdict \<Rightarrow> event_store \<Rightarrow> event_store" where
  "append_stored event store =
     Some (append_line (compact_json event) (case store of None \<Rightarrow> '''' | Some source \<Rightarrow> source))"

fun find_stored :: "string \<Rightarrow> store_item list \<Rightarrow> jdict option" where
  "find_stored event_id [] = None"
| "find_stored event_id (Unreadable n e # items) = find_stored event_id items"
| "find_stored event_id (Stored n event # items) =
     (if dget0 event ''event_id'' = JStr event_id then Some event else find_stored event_id items)"

definition find_event :: "event_store \<Rightarrow> string \<Rightarrow> jdict option" where
  "find_event store event_id = find_stored event_id (iter_store store)"

section \<open>The commands on one event\<close>

definition cmd_validate_event :: "validator \<Rightarrow> string \<times> string \<Rightarrow> exit_result res" where
  "cmd_validate_event validator file =
     ebind (load_valid_event validator (snd file)) (\<lambda>(event, errors).
     Inr (if errors \<noteq> [] then fail (fst file) errors
          else exits [fst file @ '': valid SourceOS canonical event'']))"

definition cmd_explain :: "string \<Rightarrow> exit_result res" where
  "cmd_explain source =
     ebind (load_json_text source) (\<lambda>event.
     ebind (jget event ''operator_narrative'' (JObj [])) (\<lambda>narrative.
     ebind (jget narrative ''summary'' (JStr ''No summary provided.'')) (\<lambda>summary.
     ebind (jget narrative ''risk'' (JStr ''unknown'')) (\<lambda>risk.
     ebind (jget narrative ''why'' (JStr ''No explanation provided.'')) (\<lambda>why.
     ebind (jget narrative ''next_action'' (JStr ''No next action provided.'')) (\<lambda>next_action.
     Inr (exits [py_str summary, '''', ''Risk: '' @ py_str risk, ''Why: '' @ py_str why,
       ''Next action: '' @ py_str next_action])))))))"

text \<open>\<open>write\<close>: \<open>name\<close> is the path of the store; the store is changed only when the event is valid and new.\<close>

definition cmd_write ::
  "validator \<Rightarrow> bool \<Rightarrow> string \<Rightarrow> string \<times> string \<Rightarrow> event_store \<Rightarrow> (exit_result \<times> event_store) res" where
  "cmd_write validator reject_duplicate name file store =
     ebind (load_valid_event validator (snd file)) (\<lambda>(found, errors).
     case found of
       None \<Rightarrow> Inr (fail (fst file) errors, store)
     | Some event \<Rightarrow>
         if errors \<noteq> [] then Inr (fail (fst file) errors, store)
         else ebind (jsub (JObj event) ''event_id'') (\<lambda>event_id.
           Inr (if reject_duplicate \<and> find_event store (py_str event_id) \<noteq> None
                then (fails [name @ '': duplicate event_id '' @ py_str event_id], store)
                else (exits [''wrote '' @ py_str event_id @ '' to '' @ name], append_stored event store))))"

section \<open>The commands on the store\<close>

definition listed_fields :: "jdict \<Rightarrow> string \<Rightarrow> string list" where
  "listed_fields event summary =
     map (\<lambda>k. py_str (dget event k (JStr ''<missing>'')))
       [''event_id'', ''created_at'', ''event_class'', ''severity'', ''outcome''] @ [summary]"

text \<open>The lines printed before the first line that cannot be read, and what is said of that line.\<close>

fun list_items :: "string \<Rightarrow> store_item list \<Rightarrow> (string list \<times> string option) res" where
  "list_items name [] = Inr ([], None)"
| "list_items name (Unreadable n e # items) = Inr ([], Some (name @ '':'' @ nat_str n @ '': '' @ e))"
| "list_items name (Stored n event # items) =
     ebind (event_summary event) (\<lambda>summary.
     ebind (list_items name items) (\<lambda>(out, err).
     Inr (join [CHR 0x09] (listed_fields event summary) # out, err)))"

definition cmd_list :: "string \<Rightarrow> bool \<Rightarrow> event_store \<Rightarrow> exit_result res" where
  "cmd_list name fail_empty store =
     ebind (list_items name (iter_store store)) (\<lambda>(out, err).
     Inr (case err of
       Some e \<Rightarrow> \<lparr>ex_code = 1, ex_out = out, ex_err = [e]\<rparr>
     | None \<Rightarrow> if out = [] \<and> fail_empty then fails [name @ '': no events''] else exits out))"

definition cmd_show :: "string \<Rightarrow> string \<Rightarrow> event_store \<Rightarrow> exit_result" where
  "cmd_show name event_id store =
     (case find_event store event_id of
        None \<Rightarrow> fails [name @ '': event not found: '' @ event_id]
      | Some event \<Rightarrow> exits [json_indented 0 (sort_keys (JObj event))])"

record store_audit =
  sa_seen :: "string list"
  sa_errors :: "string list"
  sa_count :: nat

definition audit_stored_item :: "validator \<Rightarrow> string \<Rightarrow> store_item \<Rightarrow> store_audit \<Rightarrow> store_audit" where
  "audit_stored_item validator name item a =
     (case item of
        Unreadable n e \<Rightarrow> a\<lparr>sa_errors := sa_errors a @ [name @ '':'' @ nat_str n @ '': '' @ e]\<rparr>
      | Stored n event \<Rightarrow>
          (let event_id = py_str (dget event ''event_id'' (JStr ''''));
               at_line = (\<lambda>e. name @ '':'' @ nat_str n @ '': '' @ e);
               duplicate = event_id \<in> set (sa_seen a) in
           \<lparr>sa_seen = (if duplicate then sa_seen a else sa_seen a @ [event_id]),
            sa_errors = sa_errors a @ note_if duplicate (at_line (''duplicate event_id '' @ event_id))
              @ map at_line (validate_event_obj validator event),
            sa_count = Suc (sa_count a)\<rparr>))"

definition audit_store :: "validator \<Rightarrow> string \<Rightarrow> event_store \<Rightarrow> store_audit" where
  "audit_store validator name store =
     fold (audit_stored_item validator name) (iter_store store) \<lparr>sa_seen = [], sa_errors = [], sa_count = 0\<rparr>"

definition cmd_verify_store ::
  "(string \<Rightarrow> string) \<Rightarrow> validator \<Rightarrow> string \<Rightarrow> bool \<Rightarrow> event_store \<Rightarrow> exit_result" where
  "cmd_verify_store sha256 validator name fail_empty store =
     (let a = audit_store validator name store;
          errors = sa_errors a @ note_if (sa_count a = 0 \<and> fail_empty) (name @ '': no events'') in
      if errors \<noteq> [] then fails errors
      else exits [name @ '': verified '' @ nat_str (sa_count a) @ '' events ('' @ store_digest sha256 store @ '')''])"

section \<open>Emitting a policy decision\<close>

text \<open>The arguments of \<open>emit-policy-decision\<close>.\<close>

record policy_args =
  pa_severity :: string
  pa_outcome :: string
  pa_host_id :: string
  pa_actor_id :: string
  pa_actor_type :: string
  pa_actor :: string
  pa_session_id :: "string option"
  pa_authority_domain :: string
  pa_parent_event_id :: "string option"
  pa_root_event_id :: "string option"
  pa_trace_id :: "string option"
  pa_subject_type :: string
  pa_subject_id :: string
  pa_subject :: string
  pa_policy_bundle :: string
  pa_policy_rule :: string
  pa_operation :: string
  pa_target_class :: string
  pa_result :: string
  pa_explanation_code :: string
  pa_fingerprint :: string
  pa_summary :: string
  pa_risk :: string
  pa_why :: string
  pa_next_action :: string

text \<open>The random identifiers, in hexadecimal: of the event, the span, the trace and the decision.\<close>

record event_uuids =
  eu_event :: string
  eu_span :: string
  eu_trace :: string
  eu_decision :: string

definition policy_event :: "event_uuids \<Rightarrow> string \<Rightarrow> policy_args \<Rightarrow> jdict" where
  "policy_event uuids now args =
     (let event_id = ''evt_'' @ eu_event uuids in [
       (''schema_version'', JStr ''sourceos.event.v0.1''), (''event_id'', JStr event_id),
       (''event_class'', JStr ''policy.decision''), (''lane'', JStr ''policy''),
       (''severity'', JStr (pa_severity args)), (''outcome'', JStr (pa_outcome args)), (''created_at'', JStr now),
       (''observed_at_monotonic_ns'', JInt 0),
       (''host'', JObj [(''host_id'', JStr (pa_host_id args)), (''platform'', JStr ''sourceos''),
          (''kernel'', JStr ''unknown''), (''privacy_zone'', JStr ''user_private'')]),
       (''actor'', JObj [(''actor_id'', JStr (pa_actor_id args)), (''actor_type'', JStr (pa_actor_type args)),
          (''display_name'', JStr (pa_actor args)), (''uid'', JNull), (''session_id'', opt_str (pa_session_id args)),
          (''authority_domain'', JStr (pa_authority_domain args))]),
       (''causality'', JObj [(''parent_event_id'', opt_str (pa_parent_event_id args)),
          (''root_event_id'', JStr (case pa_root_event_id args of None \<Rightarrow> event_id | Some r \<Rightarrow> r)),
          (''span_id'', JStr (''span_'' @ take 12 (eu_span uuids))),
          (''trace_id'', JStr (case pa_trace_id args of
             Some t \<Rightarrow> if t \<noteq> '''' then t else ''trace_'' @ eu_trace uuids
           | None \<Rightarrow> ''trace_'' @ eu_trace uuids))]),
       (''subject'', JObj [(''type'', JStr (pa_subject_type args)), (''id'', JStr (pa_subject_id args)),
          (''display'', JStr (pa_subject args))]),
       (''decision'', JObj [(''decision_id'', JStr (''dec_'' @ eu_decision uuids)),
          (''policy_bundle'', JStr (pa_policy_bundle args)), (''policy_rule'', JStr (pa_policy_rule args)),
          (''operation'', JStr (pa_operation args)), (''target_class'', JStr (pa_target_class args)),
          (''result'', JStr (pa_result args)), (''semantic_outcome'', JStr (pa_outcome args)),
          (''explanation_code'', JStr (pa_explanation_code args))]),
       (''trust'', JObj [(''mode'', JStr ''local_first''), (''signature_state'', JStr ''not_applicable''),
          (''package_origin'', JStr ''unknown''), (''content_hash'', JNull),
          (''attestation_state'', JStr ''not_applicable''), (''network_lookup'', JStr ''not_attempted'')]),
       (''noise_control'', JObj [(''event_fingerprint'', JStr (pa_fingerprint args)), (''first_seen'', JStr now),
          (''last_seen'', JStr now), (''count'', JInt 1), (''suppressed_count'', JInt 0),
          (''coalesce_window_ms'', JInt 1)]),
       (''privacy'', JObj [(''tier'', JStr ''user_private''), (''redaction_policy'', JStr ''preserve_causality''),
          (''secret_fields'', JList [])]),
       (''evidence'', JList []),
       (''operator_narrative'', JObj [(''summary'', JStr (pa_summary args)), (''risk'', JStr (pa_risk args)),
          (''why'', JStr (pa_why args)), (''next_action'', JStr (pa_next_action args))]),
       (''sync'', JObj [(''replication_policy'', JStr ''local_only''), (''retention_class'', JStr ''standard''),
          (''exportable'', JBool False)])])"

text \<open>\<open>to_store\<close> is the path given with \<open>--store\<close>, empty or absent when the event is printed.\<close>

definition cmd_emit_policy_decision ::
  "validator \<Rightarrow> event_uuids \<Rightarrow> string \<Rightarrow> policy_args \<Rightarrow> string option \<Rightarrow> event_store \<Rightarrow> exit_result \<times> event_store" where
  "cmd_emit_policy_decision validator uuids now args to_store store =
     (let event = policy_event uuids now args; errors = validate_event_obj validator event in
      if errors \<noteq> [] then (fail ''generated event invalid'' errors, store)
      else case to_store of
          Some name \<Rightarrow>
            if name \<noteq> ''''
            then (exits [''wrote evt_'' @ eu_event uuids @ '' to '' @ name], append_stored event store)
            else (exits [json_indented 0 (sort_keys (JObj event))], store)
        | None \<Rightarrow> (exits [json_indented 0 (sort_keys (JObj event))], store))"

section \<open>Appending\<close>

lemma store_items_append: "store_items n (ls @ ms) = store_items n ls @ store_items (n + length ls) ms"
  by (induction ls arbitrary: n) auto

lemma ascii_json_compact: "ascii_text (json_compact v)"
proof (induction v)
  case (JList xs)
  then show ?case by (auto intro!: ascii_join)
next
  case (JObj d)
  have "ascii_text s" if "s \<in> set (map (\<lambda>(k, v). json_string k @ '':'' @ json_compact v) d)" for s
    using JObj that by (fastforce simp: ascii_json_string snds.simps)
  then have "ascii_text (join '','' (map (\<lambda>(k, v). json_string k @ '':'' @ json_compact v) d))"
    by (intro ascii_join) simp
  then show ?case by simp
next
  case (JInt i)
  then show ?case using ascii_json_dumps [of "JInt i"] by simp
next
  case (JFloat x)
  then show ?case using ascii_json_dumps [of "JFloat x"] by simp
next
  case (JStr s)
  then show ?case using ascii_json_dumps [of "JStr s"] by simp
qed simp_all

lemma strip_compact_object: "strip (json_compact (JObj d)) = json_compact (JObj d)"
  by (rule strip_trimmed) (simp add: trimmed_def is_space_def)

text \<open>A store that ends with a whole line.\<close>

definition whole_store :: "event_store \<Rightarrow> bool" where
  "whole_store store = (case store of None \<Rightarrow> True | Some source \<Rightarrow> whole_lines source)"

definition sorted_event :: "jdict \<Rightarrow> jdict" where
  "sorted_event event = sort_key fst (map (\<lambda>(k, v). (k, sort_keys v)) event)"

lemma compact_json_sorted: "compact_json event = json_compact (JObj (sorted_event event))"
  by (simp add: compact_json_def sorted_event_def)

lemma python_value_sort_keys: "python_value v \<Longrightarrow> python_value (sort_keys v)"
proof (induction v)
  case (JList xs)
  then show ?case by (auto simp: list_all_iff)
next
  case (JObj d)
  have "list_all (\<lambda>(k, v). python_value v) (map (\<lambda>(k, v). (k, sort_keys v)) d)"
    using JObj by (fastforce simp: list_all_iff snds.simps)
  moreover have "map fst (map (\<lambda>(k, v). (k, sort_keys v)) d) = map fst d" by auto
  then have "distinct (map fst (map (\<lambda>(k, v). (k, sort_keys v)) d))" using JObj.prems by (simp only: python_value.simps)
  then have "distinct (map fst (sort_key fst (map (\<lambda>(k, v). (k, sort_keys v)) d)))"
    by (simp only: distinct_map distinct_sort set_sort)
  ultimately show ?case by (simp add: list_all_iff)
qed simp_all

lemma whole_append_stored [simp]: "whole_store (append_stored event store)"
  by (simp add: whole_store_def append_stored_def)

definition line_count :: "event_store \<Rightarrow> nat" where
  "line_count store = (case store of None \<Rightarrow> 0 | Some source \<Rightarrow> length (text_lines (universal_newlines source)))"

lemma iter_append_stored:
  assumes "whole_store store" and "python_value (JObj event)"
  shows "iter_store (append_stored event store)
    = iter_store store @ [Stored (Suc (line_count store)) (sorted_event event)]"
proof -
  define source where "source = (case store of None \<Rightarrow> '''' | Some source \<Rightarrow> source)"
  define l where "l = compact_json event"
  have whole: "whole_lines source" using assms(1) by (auto simp: source_def whole_store_def whole_lines_def split: option.splits)
  have l: "ascii_text l" unfolding l_def compact_json_sorted by (rule ascii_json_compact)
  then have clean: "CHR 0x0D \<notin> set (l @ [newline])" "newline \<notin> set l" using ascii_no_break [OF l] ascii_no_break [OF l, of newline] by auto
  have "universal_newlines (append_line l source) = append_line l (universal_newlines source)"
    using universal_newlines_append [OF whole] universal_newlines_id [OF clean(1)] by (simp add: append_line_def)
  then have lines: "text_lines (universal_newlines (append_line l source)) = text_lines (universal_newlines source) @ [l]"
    using text_lines_append [OF universal_newlines_whole [OF whole] clean(2)] by simp
  have "python_value (JObj (sorted_event event))" using python_value_sort_keys [OF assms(2)] by (simp add: sorted_event_def)
  then have "json_loads l = Inr (JObj (sorted_event event))"
    unfolding l_def compact_json_sorted by (rule loads_compact)
  moreover have "strip l = l" unfolding l_def compact_json_sorted by (rule strip_compact_object)
  moreover have "l \<noteq> []" by (simp add: l_def compact_json_sorted)
  ultimately have item: "store_item_of n l = [Stored n (sorted_event event)]" for n
    by (simp add: store_item_of_def Let_def)
  have old: "iter_store store = store_items 1 (text_lines (universal_newlines source))"
    "line_count store = length (text_lines (universal_newlines source))"
    by (auto simp: iter_store_def line_count_def source_def text_lines_def split: option.splits)
  show ?thesis
    unfolding old by (simp add: append_stored_def iter_store_def source_def [symmetric] l_def [symmetric] lines
        store_items_append item)
qed

section \<open>The events of a store\<close>

fun item_event :: "store_item \<Rightarrow> jdict list" where
  "item_event (Stored n event) = [event]"
| "item_event (Unreadable n e) = []"

definition stored_events :: "event_store \<Rightarrow> jdict list" where
  "stored_events store = concat (map item_event (iter_store store))"

lemma stored_events_append:
  "whole_store store \<Longrightarrow> python_value (JObj event) \<Longrightarrow>
     stored_events (append_stored event store) = stored_events store @ [sorted_event event]"
  by (simp add: stored_events_def iter_append_stored)

interpretation event_log: append_log stored_events append_stored whole_store
    "\<lambda>event. python_value (JObj event) \<and> sorted_event event = event"
  by unfold_locales (simp_all add: stored_events_append)

lemma find_stored_find:
  "find_stored event_id items = find (\<lambda>e. dget0 e ''event_id'' = JStr event_id) (concat (map item_event items))"
  by (induction event_id items rule: find_stored.induct) auto

lemma find_event_find: "find_event store i = find (\<lambda>e. dget0 e ''event_id'' = JStr i) (stored_events store)"
  by (simp add: find_event_def stored_events_def find_stored_find)

lemma find_append: "find P (xs @ ys) = (case find P xs of None \<Rightarrow> find P ys | Some x \<Rightarrow> Some x)"
  by (induction xs) auto

lemma dget_sorted_event:
  assumes "distinct (map fst event)"
  shows "map_of (sorted_event event) k = map_option sort_keys (map_of event k)"
proof -
  let ?d = "map (\<lambda>(k, v). (k, sort_keys v)) event"
  have "map fst ?d = map fst event" by auto
  then have d: "distinct (map fst ?d)" using assms by (simp only:)
  then have "distinct (map fst (sort_key fst ?d))" by (simp only: distinct_map distinct_sort set_sort)
  then have "map_of (sort_key fst ?d) = map_of ?d" using d by (intro map_of_inject_set [THEN iffD2]) simp_all
  then show ?thesis by (simp add: sorted_event_def map_of_map)
qed

lemma event_id_sorted:
  assumes "python_value (JObj event)" and "map_of event ''event_id'' = Some (JStr i)"
  shows "dget0 (sorted_event event) ''event_id'' = JStr i"
  using dget_sorted_event [of event "''event_id''"] assms by (simp add: dget_def)

text \<open>What \<open>write\<close> does with a file that holds an event with a string identifier.\<close>

lemma cmd_write_event:
  assumes "json_loads (universal_newlines (snd file)) = Inr (JObj event)" and "map_of event ''event_id'' = Some (JStr i)"
  shows "cmd_write validator dup name file store = Inr
    (if validate_event_obj validator event \<noteq> [] then (fail (fst file) (validate_event_obj validator event), store)
     else if dup \<and> find_event store i \<noteq> None then (fails [name @ '': duplicate event_id '' @ i], store)
     else (exits [''wrote '' @ i @ '' to '' @ name], append_stored event store))"
  using assms by (cases "find_event store i") (simp_all add: cmd_write_def load_valid_event_def load_json_text_def)

text \<open>
  An event that \<open>write\<close> accepts can be found under its identifier, which was unused before.  Every other event is found as
  before, and the events of the store are the old ones followed by the new one, with its keys in order.  An event that is
  refused leaves the store unchanged.
\<close>

theorem written_event_found:
  assumes "json_loads (universal_newlines (snd file)) = Inr (JObj event)" and "python_value (JObj event)"
    and "map_of event ''event_id'' = Some (JStr i)" and "whole_store store"
  shows "\<exists>r store'. cmd_write validator True name file store = Inr (r, store')
    \<and> (ex_code r = 0 \<longleftrightarrow> validate_event_obj validator event = [] \<and> find_event store i = None)
    \<and> (if ex_code r = 0
       then find_event store' i = Some (sorted_event event) \<and> whole_store store'
         \<and> (\<forall>j. j \<noteq> i \<longrightarrow> find_event store' j = find_event store j)
         \<and> stored_events store' = stored_events store @ [sorted_event event]
       else store' = store)"
proof -
  have new: "find_event (append_stored event store) j
      = (case find_event store j of None \<Rightarrow> if j = i then Some (sorted_event event) else None | Some e \<Rightarrow> Some e)" for j
    using event_id_sorted [OF assms(2,3)]
    by (auto simp: find_event_find stored_events_append [OF assms(4,2)] find_append split: option.split)
  let ?es = "validate_event_obj validator event"
  consider (invalid) "?es \<noteq> []" | (duplicate) "?es = []" "find_event store i \<noteq> None" | (fresh) "?es = []" "find_event store i = None"
    by blast
  then show ?thesis
  proof cases
    case fresh
    then show ?thesis
      using new stored_events_append [OF assms(4,2)]
      by (auto simp: cmd_write_event [OF assms(1,3)] split: option.split)
  qed (auto simp: cmd_write_event [OF assms(1,3)] fail_def)
qed

theorem written_event_found_witness:
  "\<exists>r store'. cmd_write (Some (\<lambda>e. [])) True ''s'' (''f'', json_dumps (JObj [(''event_id'', JStr ''e1'')])) None = Inr (r, store')
    \<and> ex_code r = 0 \<and> find_event store' ''e1'' = Some [(''event_id'', JStr ''e1'')]"
proof -
  let ?e = "[(''event_id'', JStr ''e1'')]"
  have "json_loads (universal_newlines (snd (''f'', json_dumps (JObj ?e)))) = Inr (JObj ?e)" by code_simp
  moreover have "sorted_event ?e = ?e" "python_value (JObj ?e)" "find_event None ''e1'' = None" by code_simp+
  ultimately show ?thesis
    using written_event_found [of "(''f'', json_dumps (JObj ?e))" ?e "''e1''" None "Some (\<lambda>e. [])" "''s''"]
    by (auto simp: whole_store_def validate_event_obj_def format_errors_def)
qed

section \<open>A store that is only written by the tool\<close>

text \<open>
  What is relied on of the schema: a valid event has a string as its identifier, and the order of the keys does not matter.
\<close>

definition event_schema_laws :: "(jdict \<Rightarrow> schema_error list) \<Rightarrow> bool" where
  "event_schema_laws schema \<longleftrightarrow> (\<forall>e. schema e = [] \<longrightarrow>
     (\<exists>i. map_of e ''event_id'' = Some (JStr i)) \<and> (python_value (JObj e) \<longrightarrow> schema (sorted_event e) = []))"

text \<open>
  A step is one run of \<open>write\<close> without \<open>--allow-duplicate\<close> on a file that holds an event, or of \<open>emit-policy-decision\<close> with an
  identifier that is not in use.
\<close>

inductive store_write :: "(jdict \<Rightarrow> schema_error list) \<Rightarrow> event_store \<Rightarrow> event_store \<Rightarrow> bool" for schema where
  by_write: "json_loads (universal_newlines (snd file)) = Inr (JObj event) \<Longrightarrow> python_value (JObj event)
    \<Longrightarrow> cmd_write (Some schema) True name file store = Inr (r, store') \<Longrightarrow> store_write schema store store'"
| by_emit: "find_event store (''evt_'' @ eu_event uuids) = None
    \<Longrightarrow> cmd_emit_policy_decision (Some schema) uuids now args (Some name) store = (r, store')
    \<Longrightarrow> store_write schema store store'"

definition event_ids :: "event_store \<Rightarrow> json list" where
  "event_ids store = map (\<lambda>e. dget0 e ''event_id'') (stored_events store)"

definition sound_store :: "(jdict \<Rightarrow> schema_error list) \<Rightarrow> event_store \<Rightarrow> bool" where
  "sound_store schema store \<longleftrightarrow> whole_store store
     \<and> list_all (\<lambda>item. case item of Stored n e \<Rightarrow> schema e = [] \<and> is_str (dget0 e ''event_id'') | Unreadable n e \<Rightarrow> False)
         (iter_store store)
     \<and> distinct (event_ids store)"

lemma find_event_None: "find_event store i = None \<longleftrightarrow> JStr i \<notin> set (event_ids store)"
  proof -
  have "find_event store i = None \<longleftrightarrow> (\<forall>e \<in> set (stored_events store). dget0 e ''event_id'' \<noteq> JStr i)"
    by (auto simp: find_event_find find_None_iff)
  then show ?thesis by (auto simp: event_ids_def image_iff)
qed

lemma sound_append:
  assumes "event_schema_laws schema" and "sound_store schema store" and "python_value (JObj event)" and "schema event = []"
    and "map_of event ''event_id'' = Some (JStr i)" and "find_event store i = None"
  shows "sound_store schema (append_stored event store)"
proof -
  have whole: "whole_store store" using assms(2) by (simp add: sound_store_def)
  have "schema (sorted_event event) = []" using assms(1,3,4) by (simp add: event_schema_laws_def)
  moreover have i: "dget0 (sorted_event event) ''event_id'' = JStr i" by (rule event_id_sorted [OF assms(3,5)])
  moreover have "event_ids (append_stored event store) = event_ids store @ [JStr i]"
    using i by (simp add: event_ids_def stored_events_append [OF whole assms(3)])
  ultimately show ?thesis
    using assms(2,6) by (simp add: sound_store_def iter_append_stored [OF whole assms(3)] find_event_None)
qed

lemma policy_event_facts: "python_value (JObj (policy_event uuids now args))"
  "map_of (policy_event uuids now args) ''event_id'' = Some (JStr (''evt_'' @ eu_event uuids))"
proof -
  have o: "python_value (opt_str x)" for x by (cases x) simp_all
  show "python_value (JObj (policy_event uuids now args))" by (simp add: policy_event_def Let_def o)
  show "map_of (policy_event uuids now args) ''event_id'' = Some (JStr (''evt_'' @ eu_event uuids))"
    by (simp add: policy_event_def Let_def)
qed

interpretation written_stores: invariant_machine "store_write schema" "\<lambda>store. event_schema_laws schema \<longrightarrow> sound_store schema store"
  for schema
proof
  fix store store'
  assume step: "store_write schema store store'" and inv: "event_schema_laws schema \<longrightarrow> sound_store schema store"
  show "event_schema_laws schema \<longrightarrow> sound_store schema store'"
  proof
    assume laws: "event_schema_laws schema"
    then have sound: "sound_store schema store" using inv by blast
    from step show "sound_store schema store'"
    proof cases
      case (by_write src event name r)
      show ?thesis
      proof (cases "schema event = []")
        case True
        then obtain i where i: "map_of event ''event_id'' = Some (JStr i)" using laws by (auto simp: event_schema_laws_def)
        have "store' = store \<or> store' = append_stored event store \<and> find_event store i = None"
          using by_write(3) by (auto simp: cmd_write_event [OF by_write(1) i] split: if_splits)
        then show ?thesis using sound sound_append [OF laws sound by_write(2) True i] by blast
      next
        case False
        then have "store' = store"
          using by_write(1,3) by (simp add: cmd_write_def load_valid_event_def load_json_text_def validate_event_obj_def)
        then show ?thesis using sound by simp
      qed
    next
      case (by_emit uuids now args name r)
      let ?e = "policy_event uuids now args"
      have "store' = store \<or> store' = append_stored ?e store \<and> schema ?e = []"
        using by_emit(2) by (auto simp: cmd_emit_policy_decision_def Let_def validate_event_obj_def split: if_splits)
      then show ?thesis using sound sound_append [OF laws sound policy_event_facts(1) _ policy_event_facts(2) by_emit(1)] by blast
    qed
  qed
qed

lemma audit_clean:
  assumes "list_all (\<lambda>item. case item of Stored n e \<Rightarrow> schema e = [] \<and> is_str (dget0 e ''event_id'') | Unreadable n e \<Rightarrow> False) items"
    and "distinct (map JStr (sa_seen a) @ map (\<lambda>e. dget0 e ''event_id'') (concat (map item_event items)))"
  shows "sa_errors (fold (audit_stored_item (Some schema) name) items a) = sa_errors a
    \<and> sa_count (fold (audit_stored_item (Some schema) name) items a) = sa_count a + length (concat (map item_event items))"
  using assms
proof (induction items arbitrary: a)
  case (Cons item items)
  then have "case item of Stored n e \<Rightarrow> schema e = [] \<and> is_str (dget0 e ''event_id'') | Unreadable n e \<Rightarrow> False" by simp
  then obtain n e where e: "item = Stored n e" "schema e = []" "is_str (dget0 e ''event_id'')" by (cases item) simp_all
  from e(3) obtain i where "dget0 e ''event_id'' = JStr i" by (rule is_strE)
  then have item: "item = Stored n e" "schema e = []" "dget0 e ''event_id'' = JStr i" using e by simp_all
  then have i: "dget e ''event_id'' (JStr '''') = JStr i" using dget_value [OF item(3)] by simp
  have new: "i \<notin> set (sa_seen a)" using Cons.prems(2) item by auto
  have step: "audit_stored_item (Some schema) name item a
      = \<lparr>sa_seen = sa_seen a @ [i], sa_errors = sa_errors a, sa_count = Suc (sa_count a)\<rparr>"
    using new by (simp add: audit_stored_item_def item i Let_def validate_event_obj_def note_if_def)
  show ?case
    using Cons.IH [of "audit_stored_item (Some schema) name item a"] Cons.prems item(1,3) by (simp add: step [unfolded item(1)])
qed simp



end
