(* ===== verification/Narrative.thy ===== *)
theory Narrative
  imports Store_Reports
begin

text \<open>
  \<open>narrative.py\<close>: the cards shown to the operator, made from single events and from the violations and repairs of a report.  The
  clock is a parameter: its readings in the order in which they are taken.
\<close>

section \<open>Cards\<close>

definition CARD_KIND_MAP :: "string dict" where
  "CARD_KIND_MAP = [
     (''state-integrity-violation'', ''operator-alert''),
     (''policy-violation'', ''operator-alert''),
     (''repair-required'', ''operator-action''),
     (''conflict-detected'', ''operator-review''),
     (''repair-completed'', ''operator-info''),
     (''sync-ok'', ''operator-status''),
     (''identity-confirmed'', ''operator-status''),
     (''org-policy-loaded'', ''operator-status'')]"

record operator_card =
  oc_card_id :: string
  oc_kind :: string
  oc_severity :: string
  oc_title :: string
  oc_summary :: json
  oc_subject_ref :: json
  oc_evidence_ref :: json
  oc_policy_decision_ref :: json
  oc_action_required :: bool
  oc_action_label :: "string option"
  oc_generated_at :: string
  oc_source_event_ref :: json
  oc_note :: string

definition card_to_dict :: "operator_card \<Rightarrow> json" where
  "card_to_dict c = JObj [
     (''cardId'', JStr (oc_card_id c)), (''kind'', JStr (oc_kind c)), (''severity'', JStr (oc_severity c)),
     (''title'', JStr (oc_title c)), (''summary'', oc_summary c), (''subjectRef'', oc_subject_ref c),
     (''evidenceRef'', oc_evidence_ref c), (''policyDecisionRef'', oc_policy_decision_ref c),
     (''actionRequired'', JBool (oc_action_required c)), (''actionLabel'', opt_str (oc_action_label c)),
     (''generatedAt'', JStr (oc_generated_at c)), (''sourceEventRef'', oc_source_event_ref c),
     (''note'', JStr (oc_note c))]"

definition card_id :: "string \<Rightarrow> string \<Rightarrow> string" where
  "card_id prefix now = ''urn:srcos:operator-card:'' @ prefix @ '':'' @ filter (\<lambda>c. c \<notin> set '':-TZ'') now"

text \<open>\<open>str.title\<close>: a letter after another letter becomes lower case, every other letter upper case.\<close>

definition upper_char :: "char \<Rightarrow> char" where
  "upper_char c = (if CHR ''a'' \<le> c \<and> c \<le> CHR ''z'' then char_of ((of_char c :: nat) - 32) else c)"

definition is_letter :: "char \<Rightarrow> bool" where
  "is_letter c \<longleftrightarrow> CHR ''a'' \<le> c \<and> c \<le> CHR ''z'' \<or> CHR ''A'' \<le> c \<and> c \<le> CHR ''Z''"

fun titled :: "bool \<Rightarrow> string \<Rightarrow> string" where
  "titled in_word [] = []"
| "titled in_word (c # cs) = (if in_word then lower_char c else upper_char c) # titled (is_letter c) cs"

text \<open>\<open>CARD_KIND_MAP.get(kind)\<close>, with the text that was found.\<close>

definition card_kind :: "json \<Rightarrow> (string \<times> string) option res" where
  "card_kind kind =
     (if \<not> hashable kind then Inl TypeError
      else Inr (case kind of JStr s \<Rightarrow> map_option (Pair s) (map_of CARD_KIND_MAP s) | _ \<Rightarrow> None))"

definition card_severity :: "string \<Rightarrow> string" where
  "card_severity kind =
     (if kind \<in> {''state-integrity-violation'', ''policy-violation''} then ''critical''
      else if kind \<in> {''repair-required'', ''conflict-detected''} then ''warning''
      else ''info'')"

definition card_action :: "string \<Rightarrow> bool" where
  "card_action kind \<longleftrightarrow> kind \<in> {''repair-required'', ''conflict-detected'', ''policy-violation''}"

definition card_of :: "string \<Rightarrow> string \<Rightarrow> string \<Rightarrow> string \<Rightarrow> jdict \<Rightarrow> operator_card" where
  "card_of id_now now kind shown event =
     \<lparr>oc_card_id = card_id kind id_now,
      oc_kind = shown,
      oc_severity = card_severity kind,
      oc_title = titled False (replace_char (CHR ''-'') '' '' kind),
      oc_summary = dget event ''body'' (dget event ''summary'' (JStr kind)),
      oc_subject_ref = dget event ''subjectRef'' (dget event ''subject_ref'' (JStr ''unknown'')),
      oc_evidence_ref = dget event ''evidenceRef'' (dget0 event ''evidence_ref''),
      oc_policy_decision_ref = dget event ''policyDecisionRef'' (dget0 event ''policy_decision_ref''),
      oc_action_required = card_action kind,
      oc_action_label = (if card_action kind then Some ''Review and approve repair'' else None),
      oc_generated_at = now,
      oc_source_event_ref = dget0 event ''id'',
      oc_note = ''''\<rparr>"

definition card_from_event :: "string \<Rightarrow> string \<Rightarrow> jdict \<Rightarrow> operator_card option res" where
  "card_from_event id_now now event =
     ebind (card_kind (dget event ''kind'' (JStr ''''))) (\<lambda>found.
     Inr (case found of None \<Rightarrow> None | Some (kind, shown) \<Rightarrow> Some (card_of id_now now kind shown event)))"

section \<open>The narrative of a report\<close>

record narrative_summary =
  ns_device_ref :: json
  ns_profile_ref :: json
  ns_workspace_ref :: json
  ns_overall_status :: json
  ns_cards :: "operator_card list"
  ns_generated_at :: string

definition NARRATIVE_NOTE :: string where
  "NARRATIVE_NOTE = ''Stub '' @ em_dash
     @ '' live sourceos-syncd daemon required for full narrative per sourceos-syncd#9.''"

definition narrative_to_dict :: "narrative_summary \<Rightarrow> json" where
  "narrative_to_dict n = JObj [
     (''deviceRef'', ns_device_ref n), (''profileRef'', ns_profile_ref n), (''workspaceRef'', ns_workspace_ref n),
     (''overallStatus'', ns_overall_status n), (''cards'', JList (map card_to_dict (ns_cards n))),
     (''generatedAt'', JStr (ns_generated_at n)), (''note'', JStr NARRATIVE_NOTE)]"

definition violation_event :: "json \<Rightarrow> jdict res" where
  "violation_event item =
     ebind (jget item ''description'' (JStr ''State integrity violation'')) (\<lambda>body.
     ebind (jget item ''subjectRef'' (JStr ''unknown'')) (\<lambda>subject.
     ebind (jget item ''evidenceRef'' JNull) (\<lambda>evidence.
     ebind (jget item ''policyDecisionRef'' JNull) (\<lambda>policy_decision.
     Inr [(''kind'', JStr ''state-integrity-violation''), (''body'', body), (''subjectRef'', subject),
          (''evidenceRef'', evidence), (''policyDecisionRef'', policy_decision)]))))"

definition repair_event :: "json \<Rightarrow> jdict res" where
  "repair_event item =
     ebind (jget item ''description'' (JStr ''Repair required'')) (\<lambda>body.
     ebind (jget item ''subjectRef'' (JStr ''unknown'')) (\<lambda>subject.
     Inr [(''kind'', JStr ''repair-required''), (''body'', body), (''subjectRef'', subject)]))"

text \<open>The cards of a list of items, from the \<open>n\<close>-th reading of the clock on.\<close>

fun cards_of :: "(json \<Rightarrow> jdict res) \<Rightarrow> (nat \<Rightarrow> string) \<Rightarrow> nat \<Rightarrow> json list \<Rightarrow> operator_card list res" where
  "cards_of event_of clock n [] = Inr []"
| "cards_of event_of clock n (item # items) =
     ebind (event_of item) (\<lambda>event.
     ebind (card_from_event (clock n) (clock (Suc n)) event) (\<lambda>card.
     case card of
       None \<Rightarrow> cards_of event_of clock n items
     | Some c \<Rightarrow> ebind (cards_of event_of clock (Suc (Suc n)) items) (\<lambda>cs. Inr (c # cs))))"

definition narrative_from_report :: "(nat \<Rightarrow> string) \<Rightarrow> jdict \<Rightarrow> narrative_summary res" where
  "narrative_from_report clock report =
     ebind (py_iter (dget report ''violations'' (JList []))) (\<lambda>violations.
     ebind (cards_of violation_event clock 0 violations) (\<lambda>alerts.
     ebind (py_iter (dget report ''repairs'' (JList []))) (\<lambda>repairs.
     ebind (cards_of repair_event clock (2 * length alerts) repairs) (\<lambda>actions.
     Inr \<lparr>ns_device_ref = dget report ''deviceRef'' (JStr ''unknown''),
          ns_profile_ref = dget0 report ''profileRef'',
          ns_workspace_ref = dget0 report ''workspaceRef'',
          ns_overall_status = dget report ''status'' (JStr ''unknown''),
          ns_cards = alerts @ actions,
          ns_generated_at = clock (2 * length (alerts @ actions))\<rparr>))))"

definition stub_narrative :: "string \<Rightarrow> string \<Rightarrow> narrative_summary" where
  "stub_narrative now device_ref =
     \<lparr>ns_device_ref = JStr device_ref, ns_profile_ref = JNull, ns_workspace_ref = JNull,
      ns_overall_status = JStr ''unavailable'', ns_cards = [], ns_generated_at = now\<rparr>"

section \<open>Which cards a report has\<close>

lemma card_violation:
  "card_from_event a b [(''kind'', JStr ''state-integrity-violation''), (''body'', x), (''subjectRef'', y),
     (''evidenceRef'', z), (''policyDecisionRef'', w)]
   = Inr (Some \<lparr>oc_card_id = card_id ''state-integrity-violation'' a, oc_kind = ''operator-alert'',
       oc_severity = ''critical'', oc_title = ''State Integrity Violation'', oc_summary = x, oc_subject_ref = y,
       oc_evidence_ref = z, oc_policy_decision_ref = w, oc_action_required = False, oc_action_label = None,
       oc_generated_at = b, oc_source_event_ref = JNull, oc_note = ''''\<rparr>)"
proof -
  have "titled False (replace_char (CHR ''-'') '' '' ''state-integrity-violation'') = ''State Integrity Violation''" by code_simp
  then show ?thesis
    by (simp add: card_from_event_def card_kind_def card_of_def CARD_KIND_MAP_def card_severity_def card_action_def dget_def)
qed

lemma card_repair:
  "card_from_event a b [(''kind'', JStr ''repair-required''), (''body'', x), (''subjectRef'', y)]
   = Inr (Some \<lparr>oc_card_id = card_id ''repair-required'' a, oc_kind = ''operator-action'',
       oc_severity = ''warning'', oc_title = ''Repair Required'', oc_summary = x, oc_subject_ref = y,
       oc_evidence_ref = JNull, oc_policy_decision_ref = JNull, oc_action_required = True,
       oc_action_label = Some ''Review and approve repair'', oc_generated_at = b, oc_source_event_ref = JNull, oc_note = ''''\<rparr>)"
proof -
  have "titled False (replace_char (CHR ''-'') '' '' ''repair-required'') = ''Repair Required''" by code_simp
  then show ?thesis
    by (simp add: card_from_event_def card_kind_def card_of_def CARD_KIND_MAP_def card_severity_def card_action_def dget_def)
qed

definition alert_for :: "jdict \<Rightarrow> operator_card \<Rightarrow> bool" where
  "alert_for item c \<longleftrightarrow> oc_kind c = ''operator-alert'' \<and> oc_severity c = ''critical''
     \<and> \<not> oc_action_required c \<and> oc_action_label c = None
     \<and> oc_summary c = dget item ''description'' (JStr ''State integrity violation'')
     \<and> oc_subject_ref c = dget item ''subjectRef'' (JStr ''unknown'') \<and> oc_evidence_ref c = dget0 item ''evidenceRef''
     \<and> oc_policy_decision_ref c = dget0 item ''policyDecisionRef''"

definition action_for :: "jdict \<Rightarrow> operator_card \<Rightarrow> bool" where
  "action_for item c \<longleftrightarrow> oc_kind c = ''operator-action'' \<and> oc_severity c = ''warning''
     \<and> oc_action_required c \<and> oc_action_label c = Some ''Review and approve repair''
     \<and> oc_summary c = dget item ''description'' (JStr ''Repair required'')
     \<and> oc_subject_ref c = dget item ''subjectRef'' (JStr ''unknown'') \<and> oc_evidence_ref c = JNull"

lemma alert_cards: "\<exists>cs. cards_of violation_event clock n (map JObj items) = Inr cs \<and> list_all2 alert_for items cs"
proof (induction items arbitrary: n)
  case (Cons item items)
  then obtain cs where cs: "cards_of violation_event clock (Suc (Suc n)) (map JObj items) = Inr cs" "list_all2 alert_for items cs"
    by blast
  moreover have "violation_event (JObj item) = Inr [(''kind'', JStr ''state-integrity-violation''),
      (''body'', dget item ''description'' (JStr ''State integrity violation'')),
      (''subjectRef'', dget item ''subjectRef'' (JStr ''unknown'')), (''evidenceRef'', dget0 item ''evidenceRef''),
      (''policyDecisionRef'', dget0 item ''policyDecisionRef'')]"
    by (simp add: violation_event_def)
  ultimately show ?case by (auto simp: card_violation) (simp add: alert_for_def)
qed simp

lemma action_cards: "\<exists>cs. cards_of repair_event clock n (map JObj items) = Inr cs \<and> list_all2 action_for items cs"
proof (induction items arbitrary: n)
  case (Cons item items)
  then obtain cs where cs: "cards_of repair_event clock (Suc (Suc n)) (map JObj items) = Inr cs" "list_all2 action_for items cs"
    by blast
  moreover have "repair_event (JObj item) = Inr [(''kind'', JStr ''repair-required''),
      (''body'', dget item ''description'' (JStr ''Repair required'')),
      (''subjectRef'', dget item ''subjectRef'' (JStr ''unknown''))]"
    by (simp add: repair_event_def)
  ultimately show ?case by (auto simp: card_repair) (simp add: action_for_def)
qed simp

text \<open>
  The narrative of a report shows every violation and every repair, in order: a violation as a critical alert that asks for no
  action, a repair as a warning whose action the operator reviews.  There is no other card.
\<close>

theorem narrative_shows_all:
  assumes "dget report ''violations'' (JList []) = JList (map JObj violations)"
    and "dget report ''repairs'' (JList []) = JList (map JObj repairs)"
  shows "\<exists>n alerts actions. narrative_from_report clock report = Inr n \<and> ns_cards n = alerts @ actions
    \<and> list_all2 alert_for violations alerts \<and> list_all2 action_for repairs actions"
proof -
  obtain alerts where a: "cards_of violation_event clock 0 (map JObj violations) = Inr alerts" "list_all2 alert_for violations alerts"
    using alert_cards by blast
  obtain actions where "cards_of repair_event clock (2 * length alerts) (map JObj repairs) = Inr actions"
    "list_all2 action_for repairs actions"
    using action_cards by blast
  then show ?thesis using a by (auto simp: narrative_from_report_def assms)
qed

theorem narrative_shows_all_witness:
  "\<exists>n a b. narrative_from_report (\<lambda>i. ''t'') [(''violations'', JList [JObj [(''description'', JStr ''d'')]]), (''repairs'', JList [JObj []])]
      = Inr n \<and> ns_cards n = [a, b] \<and> oc_summary a = JStr ''d'' \<and> oc_summary b = JStr ''Repair required''"
  using narrative_shows_all [of "[(''violations'', JList [JObj [(''description'', JStr ''d'')]]), (''repairs'', JList [JObj []])]"
      "[[(''description'', JStr ''d'')]]" "[[]]" "\<lambda>i. ''t''"]
  by (auto simp: dget_def list_all2_Cons1 alert_for_def action_for_def)

section \<open>The narrative of the reports this program makes\<close>

text \<open>The keys of a report that is made by \<open>snapshot\<close> or \<open>snapshot_from_store\<close>.\<close>

definition REPORT_KEYS :: "string list" where
  "REPORT_KEYS = [''schema'', ''generated_at'', ''identity'', ''collection'', ''runtime'', ''stores'', ''lanes'', ''pipeline'',
     ''resources'', ''policy'', ''invariants'', ''diagnosis'', ''controls'', ''attestation'', ''local_state'']"

lemma snapshot_other_key:
  assumes "snapshot sha256 h clock t1 t2 t3 = Inr r" and "k \<notin> set REPORT_KEYS"
  shows "dget r k v = v"
proof -
  obtain invs d cs where
    r: "r = dset ''controls'' cs (dset ''diagnosis'' d (dset ''invariants'' invs (base_snapshot sha256 h clock)))"
    using assms(1) by (auto simp: snapshot_def refresh_def Let_def res_simps)
  have "map_of (base_snapshot sha256 h clock) k = None"
    using assms(2) by (simp add: base_snapshot_def Let_def REPORT_KEYS_def)
  then have "dget (base_snapshot sha256 h clock) k v = v" by (simp add: dget_def)
  then show ?thesis using assms(2) by (auto simp: r REPORT_KEYS_def)
qed

lemma store_snapshot_other_key:
  assumes "snapshot_from_store W h t st = Inr r" and "k \<notin> set REPORT_KEYS"
  shows "dget r k v = v"
proof -
  obtain su r0 counts d invs cs where r0: "snapshot (pw_sha256 W) h (rt_snapshot t) (rt_verified t) (rt_diagnosed t) (rt_controlled t) = Inr r0"
    and r: "r = dset ''controls'' cs (dset ''invariants'' invs (dset ''diagnosis'' d
      (with_policy counts (with_summary su (ls_root st) r0))))"
    using assms(1) by (auto simp: snapshot_from_store_def Let_def res_simps)
  have "dget r k v = dget r0 k v"
    using assms(2) by (auto simp: r with_policy_def with_summary_def section_update_def Let_def REPORT_KEYS_def)
  then show ?thesis using snapshot_other_key [OF r0 assms(2)] by simp
qed

text \<open>
  C38: the operator narrative of a report that this program made says nothing: its status is \<open>unknown\<close>, its device is \<open>unknown\<close> and it has no cards,
  whatever the report found.  The narrative reads the keys \<open>status\<close>, \<open>violations\<close>, \<open>repairs\<close> and \<open>deviceRef\<close>, which
  no report has.
\<close>

theorem narrative_of_own_reports:
  assumes "snapshot sha256 h sc t1 t2 t3 = Inr report \<or> snapshot_from_store W h t st = Inr report"
  shows "narrative_from_report clock report = Inr \<lparr>ns_device_ref = JStr ''unknown'', ns_profile_ref = JNull,
    ns_workspace_ref = JNull, ns_overall_status = JStr ''unknown'', ns_cards = [], ns_generated_at = clock 0\<rparr>"
proof -
  have "dget report k v = v" if "k \<notin> set REPORT_KEYS" for k v
    using assms snapshot_other_key [OF _ that] store_snapshot_other_key [OF _ that] by metis
  then show ?thesis by (simp add: narrative_from_report_def REPORT_KEYS_def)
qed

text \<open>A report of a full disk: the diagnosis is \<open>unsafe\<close>, the narrative is empty.\<close>

theorem narrative_of_own_reports_witness:
  "\<exists>r d n. snapshot example_digest (example_host\<lparr>h_disk_free := 3\<rparr>) example_clock example_now example_now example_now = Inr r
    \<and> diagnose example_now r = Inr d \<and> dg_status d = ''unsafe''
    \<and> narrative_from_report (\<lambda>i. ''t'') r = Inr n \<and> ns_cards n = [] \<and> ns_overall_status n = JStr ''unknown''"
proof -
  let ?h = "example_host\<lparr>h_disk_free := 3\<rparr>" and ?s = example_digest
  have h: "host_ok ?h" and full: "float_le (free_ratio_of ?h) (Dec 5 (- 2))" by code_simp+
  note base = base_snapshot_ok [OF h example_ok(2), of ?s] base_snapshot_facts [OF h example_ok(2), of ?s]
  obtain r d where r: "snapshot ?s ?h example_clock example_now example_now example_now = Inr r" "report_ok r"
      "same_facts (base_snapshot ?s ?h example_clock) r" "diagnose example_now (base_snapshot ?s ?h example_clock) = Inr d"
    unfolding snapshot_def by (rule refresh_ok [OF base(1-3), of example_now example_now example_now])
  have "agrees (base_snapshot ?s ?h example_clock) d" using diagnose_agrees [OF base(1-3), of example_now] r(4) by auto
  then have "(dg_status d, dg_severity d) = expected_verdict (base_snapshot ?s ?h example_clock)" unfolding agrees_def by blast
  then have unsafe: "dg_status d = ''unsafe''" using base(8) full by (simp add: expected_verdict_def)
  have "diagnose example_now r = Inr d"
    using r(4) by (simp only: diagnose_same(1) [OF r(3) base(1) r(2), of example_now example_now])
  then show ?thesis
    using r(1) unsafe narrative_of_own_reports [OF disjI1 [OF r(1)], of "\<lambda>i. ''t''"]
    by (intro exI [of _ r] exI [of _ d] exI conjI) (assumption | simp)+
qed

end
