(* ===== verification/Metadata_Planes.thy ===== *)
theory Metadata_Planes
  imports Py_Value
begin

text \<open>
  \<open>coherence.py\<close> and \<open>authority.py\<close>: the state of the metadata planes and of the authorities a device depends on.  No probe is
  implemented yet, so every domain is \<open>unavailable\<close> and every authority unreachable.  The time is a parameter.
\<close>

section \<open>Coherence\<close>

definition COHERENCE_DOMAINS :: "string list" where
  "COHERENCE_DOMAINS = [''filesystem'', ''registry'', ''extension'', ''container'', ''persona'', ''cache'',
     ''privacy'', ''process'', ''index'']"

record coherence_state =
  cs_domain :: string
  cs_status :: string
  cs_last_checked :: string
  cs_conflict_count :: int
  cs_repair_eligible :: int
  cs_human_review_required :: int
  cs_note :: string

definition coherence_state_to_dict :: "coherence_state \<Rightarrow> json" where
  "coherence_state_to_dict s = JObj [
     (''domain'', JStr (cs_domain s)), (''status'', JStr (cs_status s)),
     (''lastChecked'', JStr (cs_last_checked s)), (''conflictCount'', JInt (cs_conflict_count s)),
     (''repairEligible'', JInt (cs_repair_eligible s)),
     (''humanReviewRequired'', JInt (cs_human_review_required s)), (''note'', JStr (cs_note s))]"

record coherence_snapshot =
  cp_device_ref :: string
  cp_domains :: "coherence_state list"
  cp_overall_status :: string
  cp_generated_at :: string
  cp_note :: string

definition coherence_snapshot_to_dict :: "coherence_snapshot \<Rightarrow> json" where
  "coherence_snapshot_to_dict s = JObj [
     (''deviceRef'', JStr (cp_device_ref s)), (''overallStatus'', JStr (cp_overall_status s)),
     (''domains'', JList (map coherence_state_to_dict (cp_domains s))),
     (''generatedAt'', JStr (cp_generated_at s)), (''note'', JStr (cp_note s))]"

record coherence_conflict =
  cc_conflict_ref :: string
  cc_domain :: string
  cc_object_ref :: string
  cc_staleness_class :: string
  cc_auto_repair_eligible :: bool
  cc_human_review_required :: bool
  cc_local_value_redacted :: bool
  cc_remote_source_ref :: string
  cc_observed_at :: string

definition coherence_conflict_to_dict :: "coherence_conflict \<Rightarrow> json" where
  "coherence_conflict_to_dict c = JObj [
     (''conflictRef'', JStr (cc_conflict_ref c)), (''domain'', JStr (cc_domain c)),
     (''objectRef'', JStr (cc_object_ref c)), (''stalenessClass'', JStr (cc_staleness_class c)),
     (''autoRepairEligible'', JBool (cc_auto_repair_eligible c)),
     (''humanReviewRequired'', JBool (cc_human_review_required c)),
     (''localValueRedacted'', JBool (cc_local_value_redacted c)),
     (''remoteSourceRef'', JStr (cc_remote_source_ref c)), (''observedAt'', JStr (cc_observed_at c))]"

definition unavailable_domain :: "string \<Rightarrow> string \<Rightarrow> string \<Rightarrow> coherence_state" where
  "unavailable_domain now note_text domain =
     \<lparr>cs_domain = domain, cs_status = ''unavailable'', cs_last_checked = now, cs_conflict_count = 0,
      cs_repair_eligible = 0, cs_human_review_required = 0, cs_note = note_text\<rparr>"

text \<open>The clock is read once for each domain and once for the snapshot.\<close>

definition stub_snapshot :: "(nat \<Rightarrow> string) \<Rightarrow> string \<Rightarrow> coherence_snapshot" where
  "stub_snapshot clock device_ref =
     \<lparr>cp_device_ref = device_ref,
      cp_domains = map (\<lambda>(i, d). unavailable_domain (clock i) '''' d) (enumerate 0 COHERENCE_DOMAINS),
      cp_overall_status = ''unavailable'',
      cp_generated_at = clock (length COHERENCE_DOMAINS),
      cp_note = ''Stub '' @ em_dash
        @ '' sourceos-syncd daemon not yet running; coherence scan deferred per sourceos-syncd#23.''\<rparr>"

definition scan_domain :: "string \<Rightarrow> string \<Rightarrow> coherence_state res" where
  "scan_domain now domain =
     (if domain \<notin> set COHERENCE_DOMAINS
      then Inl (ValueError (''Unknown coherence domain: '' @ domain @ ''. Valid: '' @ py_str (strs COHERENCE_DOMAINS)))
      else Inr (unavailable_domain now
        (''Stub '' @ em_dash @ '' live scan deferred to sourceos-syncd daemon per sourceos-syncd#23.'') domain))"

section \<open>Authorities\<close>

definition AUTHORITY_KINDS :: "string list" where
  "AUTHORITY_KINDS = [''identity-authority'', ''policy-authority'', ''capability-authority'', ''memory-authority'',
     ''evidence-authority'', ''source-channel-authority'']"

record authority_dependency =
  ad_authority_ref :: string
  ad_authority_kind :: string
  ad_lane_ref :: string
  ad_required :: bool
  ad_reachable :: bool
  ad_last_confirmed :: "string option"
  ad_note :: string

definition authority_to_dict :: "authority_dependency \<Rightarrow> json" where
  "authority_to_dict a = JObj [
     (''authorityRef'', JStr (ad_authority_ref a)), (''authorityKind'', JStr (ad_authority_kind a)),
     (''laneRef'', JStr (ad_lane_ref a)), (''required'', JBool (ad_required a)),
     (''reachable'', JBool (ad_reachable a)), (''lastConfirmed'', opt_str (ad_last_confirmed a)),
     (''note'', JStr (ad_note a))]"

record authority_report =
  ar_device_ref :: string
  ar_dependencies :: "authority_dependency list"
  ar_all_required_reachable :: bool
  ar_generated_at :: string
  ar_note :: string

definition authority_report_to_dict :: "authority_report \<Rightarrow> json" where
  "authority_report_to_dict r = JObj [
     (''deviceRef'', JStr (ar_device_ref r)), (''allRequiredReachable'', JBool (ar_all_required_reachable r)),
     (''dependencies'', JList (map authority_to_dict (ar_dependencies r))),
     (''generatedAt'', JStr (ar_generated_at r)), (''note'', JStr (ar_note r))]"

definition KNOWN_AUTHORITIES :: "string dict" where
  "KNOWN_AUTHORITIES = [
     (''identity-authority'', ''urn:srcos:authority:sovereign-identity:default''),
     (''policy-authority'', ''urn:srcos:authority:policy-fabric:default''),
     (''capability-authority'', ''urn:srcos:authority:capability-broker:default''),
     (''memory-authority'', ''urn:srcos:authority:memory-mesh:default''),
     (''evidence-authority'', ''urn:srcos:authority:agentplane:default''),
     (''source-channel-authority'', ''urn:srcos:authority:source-channel:default'')]"

definition unprobed_authority :: "string \<times> string \<Rightarrow> authority_dependency" where
  "unprobed_authority = (\<lambda>(kind, ref).
     \<lparr>ad_authority_ref = ref, ad_authority_kind = kind, ad_lane_ref = ''urn:srcos:lane:state-integrity:default'',
      ad_required = kind \<in> {''identity-authority'', ''policy-authority''}, ad_reachable = False,
      ad_last_confirmed = None,
      ad_note = ''Stub '' @ em_dash @ '' live authority probe deferred per sourceos-syncd#27.''\<rparr>)"

definition authority_stub_report :: "string \<Rightarrow> string \<Rightarrow> authority_report" where
  "authority_stub_report now device_ref =
     \<lparr>ar_device_ref = device_ref,
      ar_dependencies = map unprobed_authority KNOWN_AUTHORITIES,
      ar_all_required_reachable = False,
      ar_generated_at = now,
      ar_note = ''Stub '' @ em_dash
        @ '' live authority checks deferred to sourceos-syncd daemon per sourceos-syncd#27.''\<rparr>"

definition check_authority :: "string \<Rightarrow> authority_dependency res" where
  "check_authority kind =
     (if kind \<notin> set AUTHORITY_KINDS then Inl (ValueError (''Unknown authority kind: '' @ kind))
      else Inr (unprobed_authority (kind,
        dget KNOWN_AUTHORITIES kind (''urn:srcos:authority:'' @ kind @ '':default''))))"

text \<open>
  The report and the probe of one authority agree: the dependencies of the report are exactly the results of probing the known
  kinds, and the flag of the report is that every required one was reached.
\<close>

lemma probes_agree_with_report:
  "emap check_authority AUTHORITY_KINDS = Inr (ar_dependencies (authority_stub_report now device_ref))
    \<and> ar_all_required_reachable (authority_stub_report now device_ref)
      = list_all (\<lambda>a. ad_required a \<longrightarrow> ad_reachable a) (ar_dependencies (authority_stub_report now device_ref))"
  by (simp add: check_authority_def authority_stub_report_def AUTHORITY_KINDS_def KNOWN_AUTHORITIES_def
      unprobed_authority_def dget_def)

end
