(* ===== verification/Harvest.thy ===== *)
theory Harvest
  imports Json_Text
begin

text \<open>
  \<open>harvest.py\<close>: the envelope around an imported event, with the hash of the event without its sensitive fields.  The time and the
  digest are parameters.
\<close>

section \<open>Envelopes\<close>

definition HARVEST_CONSENT_BASES :: "string list" where
  "HARVEST_CONSENT_BASES = [''explicit-consent'', ''legitimate-interest'', ''legal-obligation'', ''vital-interest'',
     ''public-task'', ''contract'']"

definition HARVEST_SCOPES :: "string list" where
  "HARVEST_SCOPES = [''metadata-only'', ''structural-only'', ''content-summary'', ''full-record'']"

definition SENSITIVE_FIELDS :: "string list" where
  "SENSITIVE_FIELDS = [''raw_content'', ''credentials'', ''private_key'', ''session_token'', ''password'', ''secret'',
     ''raw_prompt'', ''kv_cache'']"

record harvest_envelope =
  he_envelope_ref :: string
  he_source_event_ref :: json
  he_harvest_basis :: string
  he_scope :: string
  he_subject_ref :: json
  he_collector_ref :: string
  he_retention_policy_ref :: string
  he_suppressed_fields :: "string list"
  he_sensitive_data_excluded :: bool
  he_harvested_at :: string
  he_payload_hash :: string
  he_note :: string

definition harvest_to_dict :: "harvest_envelope \<Rightarrow> json" where
  "harvest_to_dict e = JObj [
     (''envelopeRef'', JStr (he_envelope_ref e)), (''sourceEventRef'', he_source_event_ref e),
     (''harvestBasis'', JStr (he_harvest_basis e)), (''scope'', JStr (he_scope e)),
     (''subjectRef'', he_subject_ref e), (''collectorRef'', JStr (he_collector_ref e)),
     (''retentionPolicyRef'', JStr (he_retention_policy_ref e)),
     (''suppressedFields'', strs (he_suppressed_fields e)),
     (''sensitiveDataExcluded'', JBool (he_sensitive_data_excluded e)),
     (''harvestedAt'', JStr (he_harvested_at e)), (''payloadHash'', JStr (he_payload_hash e)),
     (''note'', JStr (he_note e))]"

record harvest_journal =
  hj_device_ref :: string
  hj_envelopes :: "harvest_envelope list"
  hj_total :: int
  hj_suppressed_count :: int
  hj_note :: string

definition harvest_journal_to_dict :: "harvest_journal \<Rightarrow> json" where
  "harvest_journal_to_dict j = JObj [
     (''deviceRef'', JStr (hj_device_ref j)), (''total'', JInt (hj_total j)),
     (''suppressedCount'', JInt (hj_suppressed_count j)),
     (''envelopes'', JList (map harvest_to_dict (hj_envelopes j))), (''note'', JStr (hj_note j))]"

definition payload_hash :: "(string \<Rightarrow> string) \<Rightarrow> jdict \<Rightarrow> string" where
  "payload_hash sha256 payload = ''sha256:'' @ sha256 (json_dumps_sorted (JObj payload))"

definition redacted :: "jdict \<Rightarrow> jdict" where
  "redacted event = [(k, v) \<leftarrow> event. k \<notin> set SENSITIVE_FIELDS]"

definition suppressed :: "jdict \<Rightarrow> string list" where
  "suppressed event = [k \<leftarrow> map fst event. k \<in> set SENSITIVE_FIELDS]"

definition harvest_envelope_ref :: "string \<Rightarrow> string \<Rightarrow> string" where
  "harvest_envelope_ref digest now =
     ''urn:srcos:harvest-envelope:'' @ take 12 digest @ '':'' @ take 15 (filter (\<lambda>c. c \<notin> set '':-'') now)"

definition wrap_import_event ::
  "(string \<Rightarrow> string) \<Rightarrow> string \<Rightarrow> json \<Rightarrow> string \<Rightarrow> string \<Rightarrow> string \<Rightarrow> string \<Rightarrow> harvest_envelope res" where
  "wrap_import_event sha256 now source basis scope collector retention =
     (if basis \<notin> set HARVEST_CONSENT_BASES then Inl (ValueError (''Unknown harvest basis: '' @ basis))
      else if scope \<notin> set HARVEST_SCOPES then Inl (ValueError (''Unknown harvest scope: '' @ scope))
      else case source of
        JObj event \<Rightarrow>
          (let digest = payload_hash sha256 (redacted event) in
           Inr \<lparr>he_envelope_ref = harvest_envelope_ref digest now,
                he_source_event_ref = dget event ''id'' (JStr ''unknown''),
                he_harvest_basis = basis,
                he_scope = scope,
                he_subject_ref = dget event ''subjectRef'' (dget event ''subject_ref'' (JStr ''unknown'')),
                he_collector_ref = collector,
                he_retention_policy_ref = retention,
                he_suppressed_fields = suppressed event,
                he_sensitive_data_excluded = True,
                he_harvested_at = now,
                he_payload_hash = digest,
                he_note = ''''\<rparr>)
      | _ \<Rightarrow> Inl AttributeError)"

definition stub_journal :: "string \<Rightarrow> harvest_journal" where
  "stub_journal device_ref =
     \<lparr>hj_device_ref = device_ref, hj_envelopes = [], hj_total = 0, hj_suppressed_count = 0,
      hj_note = ''Stub '' @ em_dash
        @ '' live harvest bridge deferred to sourceos-syncd daemon per sourceos-syncd#28.''\<rparr>"

section \<open>What an envelope reveals\<close>

text \<open>The fields whose values must not show, spelled out without the code's own set.\<close>

definition secret_key :: "string \<Rightarrow> bool" where
  "secret_key k \<longleftrightarrow> k = ''raw_content'' \<or> k = ''credentials'' \<or> k = ''private_key'' \<or> k = ''session_token''
     \<or> k = ''password'' \<or> k = ''secret'' \<or> k = ''raw_prompt'' \<or> k = ''kv_cache''"

lemma secret_key_iff: "k \<in> set SENSITIVE_FIELDS \<longleftrightarrow> secret_key k"
  by (simp add: SENSITIVE_FIELDS_def secret_key_def)

lemma redacted_secret: "redacted event = [(k, v) \<leftarrow> event. \<not> secret_key k]"
  by (simp add: redacted_def secret_key_iff)

lemma suppressed_secret: "suppressed event = [k \<leftarrow> map fst event. secret_key k]"
  by (simp add: suppressed_def secret_key_iff)

lemma map_of_filter_keys: "map_of [(k, v) \<leftarrow> d. P k] k = (if P k then map_of d k else None)"
  by (induction d) auto

lemma dget_public: "\<not> secret_key k \<Longrightarrow> dget [(k, v) \<leftarrow> d. \<not> secret_key k] k v = dget d k v"
  by (simp add: dget_def map_of_filter_keys)

text \<open>
  C35: the values of sensitive fields have no influence on an envelope.  Two events that agree in all other fields and name the same sensitive
  fields have the same envelope, for every digest function and every time.  The sensitive fields are the eight names of \<open>secret_key\<close>.  An envelope is made exactly for
  a known basis, a known scope and an event that is an object; it lists exactly the sensitive fields the event has, in their order, and its hash is that of the event without
  them.  Only fields at the top of the event are sensitive.
\<close>

theorem envelope_hides_sensitive_values:
  assumes "[(k, v) \<leftarrow> event. \<not> secret_key k] = [(k, v) \<leftarrow> event'. \<not> secret_key k]"
    and "[k \<leftarrow> map fst event. secret_key k] = [k \<leftarrow> map fst event'. secret_key k]"
  shows "wrap_import_event sha256 now (JObj event) basis scope collector retention
      = wrap_import_event sha256 now (JObj event') basis scope collector retention
    \<and> ((\<exists>e. wrap_import_event sha256 now source basis scope collector retention = Inr e)
        \<longleftrightarrow> basis \<in> set HARVEST_CONSENT_BASES \<and> scope \<in> set HARVEST_SCOPES \<and> is_dict source)
    \<and> (\<forall>e. wrap_import_event sha256 now (JObj event) basis scope collector retention = Inr e \<longrightarrow>
        he_suppressed_fields e = [k \<leftarrow> map fst event. secret_key k]
        \<and> he_payload_hash e = ''sha256:'' @ sha256 (json_dumps_sorted (JObj [(k, v) \<leftarrow> event. \<not> secret_key k])))"
proof (intro conjI allI impI)
  have keys: "dget event k v = dget event' k v" if "\<not> secret_key k" for k v
    using dget_public [OF that, of event v] dget_public [OF that, of event' v] assms(1) by simp
  have "dget event ''id'' v = dget event' ''id'' v" "dget event ''subjectRef'' v = dget event' ''subjectRef'' v"
    "dget event ''subject_ref'' v = dget event' ''subject_ref'' v" for v
    by (rule keys, simp add: secret_key_def)+
  then show "wrap_import_event sha256 now (JObj event) basis scope collector retention
      = wrap_import_event sha256 now (JObj event') basis scope collector retention"
    using assms by (simp add: wrap_import_event_def redacted_secret suppressed_secret)
next
  show "(\<exists>e. wrap_import_event sha256 now source basis scope collector retention = Inr e)
      \<longleftrightarrow> basis \<in> set HARVEST_CONSENT_BASES \<and> scope \<in> set HARVEST_SCOPES \<and> is_dict source"
    by (cases source) (auto simp: wrap_import_event_def Let_def)
next
  fix e
  assume "wrap_import_event sha256 now (JObj event) basis scope collector retention = Inr e"
  then have e: "he_suppressed_fields e = suppressed event" "he_payload_hash e = payload_hash sha256 (redacted event)"
    by (auto simp: wrap_import_event_def Let_def split: if_splits)
  show "he_suppressed_fields e = [k \<leftarrow> map fst event. secret_key k]" by (simp only: e suppressed_secret)
  show "he_payload_hash e = ''sha256:'' @ sha256 (json_dumps_sorted (JObj [(k, v) \<leftarrow> event. \<not> secret_key k]))"
    by (simp only: e payload_hash_def redacted_secret)
qed

theorem envelope_hides_sensitive_values_witness:
  "wrap_import_event id ''t'' (JObj [(''id'', JStr ''i''), (''password'', JStr ''a'')]) ''contract'' ''metadata-only'' ''c'' ''r''
   = wrap_import_event id ''t'' (JObj [(''id'', JStr ''i''), (''password'', JStr ''b'')]) ''contract'' ''metadata-only'' ''c'' ''r''
   \<and> (\<exists>e. wrap_import_event id ''t'' (JObj [(''id'', JStr ''i'')]) ''contract'' ''metadata-only'' ''c'' ''r'' = Inr e)"
  using envelope_hides_sensitive_values [of "[(''id'', JStr ''i''), (''password'', JStr ''a'')]"
      "[(''id'', JStr ''i''), (''password'', JStr ''b'')]" id "''t''" "''contract''" "''metadata-only''" "''c''" "''r''"
      "JObj [(''id'', JStr ''i'')]"]
  by (simp add: secret_key_def HARVEST_CONSENT_BASES_def HARVEST_SCOPES_def)

text \<open>Only the fields of the event itself are taken out: a password one level deeper stays in the hashed text.\<close>

lemma nested_secrets_are_hashed:
  "wrap_import_event id ''t'' (JObj [(''login'', JObj [(''password'', JStr x)])]) ''contract'' ''metadata-only'' ''c'' ''r'' = Inr e
   \<Longrightarrow> he_sensitive_data_excluded e \<and> he_suppressed_fields e = []
     \<and> he_payload_hash e = ''sha256:'' @ json_dumps (JObj [(''login'', JObj [(''password'', JStr x)])])"
  by (auto simp: wrap_import_event_def Let_def payload_hash_def suppressed_def redacted_def SENSITIVE_FIELDS_def
      json_dumps_sorted_def HARVEST_CONSENT_BASES_def HARVEST_SCOPES_def)

end
