(* ===== verification/Service.thy ===== *)
theory Service
  imports Narrative Metadata_Planes Noise_Budget
begin

text \<open>
  \<open>service.py\<close>: the HTTP service that shows the state of the host and of a local store.  A request is the path and the query as
  \<open>urlparse\<close> and \<open>parse_qs\<close> deliver them; an answer is its status, its content type and its body.  Handlers only read.
\<close>

section \<open>Readiness and metrics\<close>

definition LOCAL_BIND_HOSTS :: "string list" where
  "LOCAL_BIND_HOSTS = [''127.0.0.1'', ''localhost'', ''::1'']"

definition json_bytes :: "json \<Rightarrow> string" where
  "json_bytes payload = json_indented 0 payload @ [newline]"

definition report_diagnosis :: "jdict \<Rightarrow> jdict" where
  "report_diagnosis report = dict_or_empty (dget report ''diagnosis'' (JObj []))"

definition report_local_state :: "jdict \<Rightarrow> json" where
  "report_local_state report =
     py_or (py_or (dget0 report ''local_state'') (dget0 (report_diagnosis report) ''local_state'')) (JObj [])"

definition readiness_from_report :: "string \<Rightarrow> jdict \<Rightarrow> (int \<times> json) res" where
  "readiness_from_report now report =
     (let diagnosis = report_diagnosis report in
      ebind (jget (report_local_state report) ''initialized'' JNull) (\<lambda>initialized.
      let status = dget diagnosis ''status'' (JStr ''unknown'');
          severity = dget diagnosis ''severity'' (JStr ''unknown'') in
      Inr (if initialized = JBool False then
             (503, JObj [(''ready'', JBool False), (''status'', JStr ''uninitialized''), (''severity'', JStr ''warning''),
                (''summary'', JStr ''Local state store is not initialized.''), (''generated_at'', JStr now)])
           else
             (let ready = status \<in> {JStr ''healthy'', JStr ''degraded''} in
              (if ready then 200 else 503,
               JObj [(''ready'', JBool ready), (''status'', status), (''severity'', severity),
                (''summary'', dget diagnosis ''summary'' (JStr ''State Integrity readiness is unknown.'')),
                (''generated_at'', JStr now)])))))"

definition liveness :: "string \<Rightarrow> json" where
  "liveness now = JObj [(''live'', JBool True), (''component'', JStr ''sourceos-syncd''),
     (''version'', JStr package_version), (''generated_at'', JStr now)]"

definition lane_corrupted :: "jdict \<Rightarrow> int res" where
  "lane_corrupted lane = ebind (lane_value ''objects'' ''corrupted'' lane) int_or_zero"

definition metrics_text :: "string \<Rightarrow> jdict \<Rightarrow> string res" where
  "metrics_text now report =
     (let status = dget (report_diagnosis report) ''status'' (JStr ''unknown'') in
      ebind (jget (report_local_state report) ''initialized'' (JBool True)) (\<lambda>flag.
      ebind (report_lanes report) (\<lambda>lanes.
      ebind (emap lane_corrupted lanes) (\<lambda>corrupted.
      ebind (emap lane_lag lanes) (\<lambda>replay_lag.
      ebind (readiness_from_report now report) (\<lambda>(ready_code, ready).
      Inr (join [newline] [
        ''# HELP sourceos_syncd_ready SourceOS syncd readiness, 1 when ready.'',
        ''# TYPE sourceos_syncd_ready gauge'',
        ''sourceos_syncd_ready{status='' @ CHR 0x22 # py_str status @ CHR 0x22 # ''} ''
          @ (if truthy (dget0 (dict_or_empty ready) ''ready'') then ''1'' else ''0''),
        ''# HELP sourceos_syncd_initialized Local state initialization status.'',
        ''# TYPE sourceos_syncd_initialized gauge'',
        ''sourceos_syncd_initialized '' @ (if flag = JBool False then ''0'' else ''1''),
        ''# HELP sourceos_syncd_replay_lag_events Total replay lag events across lanes.'',
        ''# TYPE sourceos_syncd_replay_lag_events gauge'',
        ''sourceos_syncd_replay_lag_events '' @ int_str (sum_list replay_lag),
        ''# HELP sourceos_syncd_corrupted_objects Corrupted object count across lanes.'',
        ''# TYPE sourceos_syncd_corrupted_objects gauge'',
        ''sourceos_syncd_corrupted_objects '' @ int_str (sum_list corrupted),
        ''# HELP sourceos_syncd_ready_http_code HTTP code selected by readiness computation.'',
        ''# TYPE sourceos_syncd_ready_http_code gauge'',
        ''sourceos_syncd_ready_http_code '' @ int_str ready_code,
        ''''])))))))"

section \<open>What the handlers read\<close>

text \<open>The host, the stores by their root, the engine of the noise budget, and the readings of the clock.  \<open>sw_describe\<close> gives the class name and the text of an
  exception.\<close>

record service_world =
  sw_policy :: policy_world
  sw_host :: snapshot_host
  sw_times :: report_times
  sw_now :: string
  sw_clock :: "nat \<Rightarrow> string"
  sw_plan_now :: instant
  sw_plan_clock :: utc_clock
  sw_stores :: "string \<Rightarrow> local_store"
  sw_noise :: noise_engine
  sw_describe :: "pyerr \<Rightarrow> string \<times> string"

definition build_state_report :: "service_world \<Rightarrow> string option \<Rightarrow> jdict res" where
  "build_state_report W store_root =
     (let t = sw_times W; h = sw_host W in
      case store_root of
        Some dir \<Rightarrow>
          if dir \<noteq> '''' then snapshot_from_store (sw_policy W) h t (sw_stores W dir)
          else snapshot (pw_sha256 (sw_policy W)) h (rt_snapshot t) (rt_verified t) (rt_diagnosed t) (rt_controlled t)
      | None \<Rightarrow> snapshot (pw_sha256 (sw_policy W)) h (rt_snapshot t) (rt_verified t) (rt_diagnosed t) (rt_controlled t))"

definition events_from_store :: "service_world \<Rightarrow> string option \<Rightarrow> json list" where
  "events_from_store W store_root =
     (case store_root of None \<Rightarrow> []
      | Some dir \<Rightarrow> if dir = '''' then [] else iter_events (sw_now W) (sw_stores W dir))"

fun first_event :: "string \<Rightarrow> json list \<Rightarrow> jdict option res" where
  "first_event event_id [] = Inr None"
| "first_event event_id (v # vs) =
     (case v of
        JObj event \<Rightarrow> if dget0 event ''event_id'' = JStr event_id then Inr (Some event) else first_event event_id vs
      | _ \<Rightarrow> Inl AttributeError)"

definition find_store_event :: "service_world \<Rightarrow> string \<Rightarrow> string option \<Rightarrow> jdict option res" where
  "find_store_event W event_id store_root = first_event event_id (events_from_store W store_root)"

definition explain_event :: "jdict \<Rightarrow> json" where
  "explain_event event = JObj [
     (''event_id'', dget0 event ''event_id''),
     (''event_type'', dget0 event ''event_type''),
     (''summary'', JStr (''Event '' @ py_str (dget0 event ''event_id'') @ '' recorded ''
        @ py_str (dget0 event ''event_type'') @ '' on lane '' @ py_str (dget event ''lane'' (JStr ''unknown'')) @ ''.'')),
     (''actor_or_producer'', py_or (dget0 event ''producer'') (dget0 event ''actor_id'')),
     (''object_id'', dget0 event ''object_id''),
     (''created_at'', py_or (dget0 event ''created_at'') (dget0 event ''occurred_at''))]"

definition planning_preview :: "service_world \<Rightarrow> string option \<Rightarrow> jdict res" where
  "planning_preview W store_root =
     ebind (build_state_report W store_root) (\<lambda>report.
     ebind (repair_plan (pw_sha256 (sw_policy W)) (sw_plan_now W) (sw_plan_clock W) report) (\<lambda>p.
     let p1 = dsetdefault ''service'' (JObj []) p in
     case dget0 p1 ''service'' of
       JObj d \<Rightarrow> Inr (dset ''service'' (JObj (dset ''preview_only'' (JBool True) d)) p1)
     | _ \<Rightarrow> Inl TypeError))"

section \<open>Requests\<close>

record service_config =
  sc_host :: string
  sc_port :: int
  sc_store_root :: "string option"

definition validate_service_config :: "service_config \<Rightarrow> unit res" where
  "validate_service_config config =
     eguard (sc_host config \<in> set LOCAL_BIND_HOSTS)
       (ValueError (''sourceos-syncd service is local-only; refusing bind host '' @ repr_str (sc_host config)))"

record request =
  rq_path :: string
  rq_query :: "string list dict"

record answer =
  an_status :: int
  an_type :: string
  an_body :: string

definition json_answer :: "int \<Rightarrow> json \<Rightarrow> answer" where
  "json_answer status payload =
     \<lparr>an_status = status, an_type = ''application/json; charset=utf-8'', an_body = json_bytes payload\<rparr>"

definition text_answer :: "int \<Rightarrow> string \<Rightarrow> string \<Rightarrow> answer" where
  "text_answer status payload content_type = \<lparr>an_status = status, an_type = content_type, an_body = payload\<rparr>"

definition not_found :: "string \<Rightarrow> string \<Rightarrow> answer" where
  "not_found key what = json_answer 404 (JObj [(''error'', JStr ''not_found''), (key, JStr what)])"

definition handle_event_path :: "service_world \<Rightarrow> string \<Rightarrow> string option \<Rightarrow> answer res" where
  "handle_event_path W path store_root =
     (let parts = split_on (CHR ''/'') (strip_char (CHR ''/'') path);
          event_id = (if length parts \<ge> 2 then parts ! 1 else '''') in
      ebind (find_store_event W event_id store_root) (\<lambda>found.
      Inr (case found of
             None \<Rightarrow> not_found ''event_id'' event_id
           | Some event \<Rightarrow>
               if length parts = 3 \<and> parts ! 2 = ''explain'' then json_answer 200 (explain_event event)
               else if length parts = 2 then json_answer 200 (JObj event)
               else not_found ''path'' path)))"

definition request_path :: "request \<Rightarrow> string" where
  "request_path rq = (let p = rstrip_char (CHR ''/'') (rq_path rq) in if p = '''' then ''/'' else p)"

definition requested_root :: "service_config \<Rightarrow> request \<Rightarrow> string option" where
  "requested_root config rq =
     (case map_of (rq_query rq) ''store_root'' of Some (dir # dirs) \<Rightarrow> Some dir | _ \<Rightarrow> sc_store_root config)"

definition route :: "service_world \<Rightarrow> string \<Rightarrow> string option \<Rightarrow> answer res" where
  "route W path store_root =
     (if path = ''/healthz'' then Inr (json_answer 200 (liveness (sw_now W)))
      else if path = ''/readyz'' then
        ebind (build_state_report W store_root) (\<lambda>report.
        ebind (readiness_from_report (sw_now W) report) (\<lambda>(code, payload). Inr (json_answer code payload)))
      else if path = ''/statez'' then
        ebind (build_state_report W store_root) (\<lambda>report. Inr (json_answer 200 (JObj report)))
      else if path = ''/events'' then
        Inr (json_answer 200 (JObj [(''events'', JList (events_from_store W store_root))]))
      else if starts_with ''/events/'' path then handle_event_path W path store_root
      else if path = ''/metrics'' then
        ebind (build_state_report W store_root) (\<lambda>report.
        ebind (metrics_text (sw_now W) report) (\<lambda>s. Inr (text_answer 200 s ''text/plain; charset=utf-8'')))
      else if path = ''/repairz'' then
        ebind (planning_preview W store_root) (\<lambda>p. Inr (json_answer 200 (JObj p)))
      else if path = ''/noisez'' then Inr (json_answer 200 (budget_to_dict (budget_report (sw_noise W))))
      else if path = ''/narrativez'' then
        ebind (build_state_report W store_root) (\<lambda>report.
        ebind (narrative_from_report (sw_clock W) report) (\<lambda>n. Inr (json_answer 200 (narrative_to_dict n))))
      else if path = ''/coherencez'' then
        Inr (json_answer 200 (coherence_snapshot_to_dict (stub_snapshot (sw_clock W) ''unknown'')))
      else if path = ''/authorityz'' then
        Inr (json_answer 200 (authority_report_to_dict (authority_stub_report (sw_now W) ''unknown'')))
      else Inr (not_found ''path'' path))"

definition do_GET :: "service_world \<Rightarrow> service_config \<Rightarrow> request \<Rightarrow> answer" where
  "do_GET W config rq =
     (case route W (request_path rq) (requested_root config rq) of
        Inr a \<Rightarrow> a
      | Inl e \<Rightarrow> json_answer 500
          (JObj [(''error'', JStr (fst (sw_describe W e))), (''message'', JStr (snd (sw_describe W e)))]))"

text \<open>\<open>parse_qs\<close> never gives an empty list.  \<open>make_handler\<close> checks the configuration; the handler it returns answers every request.\<close>

definition make_handler :: "service_world \<Rightarrow> service_config \<Rightarrow> (request \<Rightarrow> answer) res" where
  "make_handler W config = ebind (validate_service_config config) (\<lambda>_. Inr (do_GET W config))"

section \<open>Readiness of a store\<close>

lemma summarize_local_state:
  "summarize now st = Inr su \<Longrightarrow> dget0 (su_local_state su) ''initialized'' = JBool (is_initialized st)
    \<and> su_local_state su \<noteq> []"
  by (auto simp: summarize_def Let_def res_simps local_state_json_def dget_def)

lemma readiness_of_store:
  assumes "dget0 report ''local_state'' = JObj state" and "state \<noteq> []"
    and "dget0 state ''initialized'' = JBool initialized" and "dget0 report ''diagnosis'' = store_diagnosis su summary d"
  shows "\<exists>payload. readiness_from_report now report
      = Inr (if initialized \<and> dg_status d \<in> {''healthy'', ''degraded''} then 200 else 503, JObj payload)
    \<and> dget0 payload ''ready'' = JBool (initialized \<and> dg_status d \<in> {''healthy'', ''degraded''})
    \<and> dget0 payload ''status'' = JStr (if initialized then dg_status d else ''uninitialized'')"
proof -
  obtain diag where diag: "store_diagnosis su summary d = JObj diag" by (simp add: store_diagnosis_def)
  have "dget report ''diagnosis'' (JObj []) = JObj diag" using dget_value [OF assms(4)] by (simp add: diag)
  then have rd: "report_diagnosis report = diag" by (simp add: report_diagnosis_def)
  have st: "dget diag ''status'' v = JStr (dg_status d)" for v
    using diag by (auto simp: store_diagnosis_def diagnosis_to_dict_def dget_def)
  have ls: "report_local_state report = JObj state"
    using assms(1,2) by (simp add: report_local_state_def py_or_def)
  show ?thesis
    using assms(3) by (cases initialized) (simp_all add: readiness_from_report_def Let_def ls rd st dget_def [of "[(_, _)]"] dget_def [of "_ # _"])
qed

text \<open>
  C23: \<open>/readyz\<close> tells the state of the store.  On a host with a disk of positive size and for a store that was never initialised or was used only through its
  operations, the service answers 200 exactly when the store is initialised and the disk is not nearly full, and 503 otherwise; the
  body carries the same verdict, and says \<open>uninitialized\<close> when there is no store.
\<close>

theorem readyz_tells_the_store:
  assumes "host_ok (sw_host W)" and "utc_clock_ok (rt_snapshot (sw_times W))" and "store_usable (sw_stores W dir)"
    and "request_path rq = ''/readyz''" and "requested_root config rq = Some dir" and "dir \<noteq> ''''"
  shows "\<exists>payload. let ready = is_initialized (sw_stores W dir) \<and> \<not> float_le (free_ratio_of (sw_host W)) (Dec 5 (- 2)) in
    do_GET W config rq = json_answer (if ready then 200 else 503) (JObj payload)
    \<and> dget0 payload ''ready'' = JBool ready
    \<and> dget0 payload ''status'' = JStr (if \<not> is_initialized (sw_stores W dir) then ''uninitialized''
        else if ready then ''healthy'' else ''unsafe'')"
proof -
  obtain su r d summary where r: "summarize (rt_journal (sw_times W)) (sw_stores W dir) = Inr su"
      "snapshot_from_store (sw_policy W) (sw_host W) (sw_times W) (sw_stores W dir) = Inr r"
      "dget0 r ''local_state'' = JObj (su_local_state su)" "dget0 r ''diagnosis'' = store_diagnosis su summary d"
    and d: "dg_status d = (if float_le (free_ratio_of (sw_host W)) (Dec 5 (- 2)) then ''unsafe'' else ''healthy'')"
    using store_report_total [OF assms(1-3), of "sw_policy W"] by blast
  have state: "su_local_state su \<noteq> []" "dget0 (su_local_state su) ''initialized'' = JBool (is_initialized (sw_stores W dir))"
    using summarize_local_state [OF r(1)] by simp_all
  have report: "build_state_report W (Some dir) = Inr r" using assms(6) r(2) by (simp add: build_state_report_def Let_def)
  obtain payload where p: "readiness_from_report (sw_now W) r
      = Inr (if is_initialized (sw_stores W dir) \<and> dg_status d \<in> {''healthy'', ''degraded''} then 200 else 503, JObj payload)"
    "dget0 payload ''ready'' = JBool (is_initialized (sw_stores W dir) \<and> dg_status d \<in> {''healthy'', ''degraded''})"
    "dget0 payload ''status'' = JStr (if is_initialized (sw_stores W dir) then dg_status d else ''uninitialized'')"
    using readiness_of_store [OF r(3) state r(4), of "sw_now W"] by blast
  have "do_GET W config rq = json_answer (if is_initialized (sw_stores W dir) \<and> dg_status d \<in> {''healthy'', ''degraded''} then 200 else 503) (JObj payload)"
    by (simp add: do_GET_def route_def assms(4,5) report p(1))
  then show ?thesis using p(2,3) d by (intro exI [of _ payload]) (simp add: Let_def)
qed

section \<open>Events under their paths\<close>

lemma first_event_find:
  "first_event i (map JObj es) = Inr (find (\<lambda>e. dget0 e ''event_id'' = JStr i) es)"
  by (induction es) auto

lemma event_path_parts:
  assumes "CHR ''/'' \<notin> set i" and "i \<noteq> ''''"
  shows "rstrip_char (CHR ''/'') (''/events/'' @ i) = ''/events/'' @ i"
    and "split_on (CHR ''/'') (strip_char (CHR ''/'') (''/events/'' @ i)) = [''events'', i]"
    and "rstrip_char (CHR ''/'') (''/events/'' @ i @ ''/explain'') = ''/events/'' @ i @ ''/explain''"
    and "split_on (CHR ''/'') (strip_char (CHR ''/'') (''/events/'' @ i @ ''/explain'')) = [''events'', i, ''explain'']"
proof -
  obtain j c where i: "i = j @ [c]" "c \<noteq> CHR ''/''" using assms by (cases i rule: rev_cases) auto
  have keep: "rstrip_char (CHR ''/'') (s @ [c]) = s @ [c]" if "c \<noteq> CHR ''/''" for s c
    using that by (simp add: rstrip_char_def)
  show "rstrip_char (CHR ''/'') (''/events/'' @ i) = ''/events/'' @ i"
    using keep [OF i(2), of "''/events/'' @ j"] by (simp add: i(1))
  have "rstrip_char (CHR ''/'') (''events/'' @ i) = ''events/'' @ i"
    using keep [OF i(2), of "''events/'' @ j"] by (simp add: i(1))
  then show "split_on (CHR ''/'') (strip_char (CHR ''/'') (''/events/'' @ i)) = [''events'', i]"
    using split_on_no_sep [OF assms(1)] by (simp add: strip_char_def)
  show "rstrip_char (CHR ''/'') (''/events/'' @ i @ ''/explain'') = ''/events/'' @ i @ ''/explain''"
    using keep [of "CHR ''n''" "''/events/'' @ i @ ''/explai''"] by simp
  have "rstrip_char (CHR ''/'') (''events/'' @ i @ ''/explain'') = ''events/'' @ i @ ''/explain''"
    using keep [of "CHR ''n''" "''events/'' @ i @ ''/explai''"] by simp
  then show "split_on (CHR ''/'') (strip_char (CHR ''/'') (''/events/'' @ i @ ''/explain'')) = [''events'', i, ''explain'']"
    using split_on_append [OF assms(1), of "''explain''"] by (simp add: strip_char_def)
qed

lemma event_id_path: "CHR ''/'' \<notin> set (event_id_of n)" "event_id_of n \<noteq> ''''"
proof -
  have "c \<noteq> CHR ''/''" if "c \<in> set (nat_str n)" for c
    using nat_str_digits [of n] that by (auto simp: list_all_iff ascii_digit_def)
  then show "CHR ''/'' \<notin> set (event_id_of n)" by (auto simp: event_id_of_def pad_zeros_def)
qed (simp add: event_id_of_def)

lemma get_event:
  assumes "holds_events (sw_stores W dir) es" and "dir \<noteq> ''''" and "requested_root config rq = Some dir"
    and "rq_path rq = ''/events/'' @ i @ (if explained then ''/explain'' else '''')" and "CHR ''/'' \<notin> set i" and "i \<noteq> ''''"
  shows "do_GET W config rq = (case find (\<lambda>e. dget0 e ''event_id'' = JStr i) es of
      None \<Rightarrow> not_found ''event_id'' i
    | Some e \<Rightarrow> json_answer 200 (if explained then explain_event e else JObj e))"
proof -
  have path: "request_path rq = rq_path rq"
    using event_path_parts(1,3) [OF assms(5,6)] by (cases explained) (simp_all add: request_path_def assms(4))
  have found: "find_store_event W i (Some dir) = Inr (find (\<lambda>e. dget0 e ''event_id'' = JStr i) es)"
    using assms(2) by (simp add: find_store_event_def events_from_store_def holds_iter [OF assms(1)] first_event_find)
  have "handle_event_path W (rq_path rq) (Some dir) = Inr (case find (\<lambda>e. dget0 e ''event_id'' = JStr i) es of
      None \<Rightarrow> not_found ''event_id'' i
    | Some e \<Rightarrow> json_answer 200 (if explained then explain_event e else JObj e))"
    using event_path_parts(2,4) [OF assms(5,6)] found
    by (cases explained) (simp_all add: handle_event_path_def assms(4) split: option.split)
  moreover have "route W (rq_path rq) (Some dir) = handle_event_path W (rq_path rq) (Some dir)"
    by (simp add: route_def assms(4) starts_with_def)
  ultimately show ?thesis by (simp add: do_GET_def path assms(3))
qed

lemma find_snoc: "find P (xs @ ys) = (case find P xs of None \<Rightarrow> find P ys | Some x \<Rightarrow> Some x)"
  by (induction xs) auto

lemma held_event_id:
  assumes "holds_events st es" and "n < length es"
  shows "dget0 (es ! n) ''event_id'' = JStr (event_id_of (Suc n))"
proof -
  have ids: "event_ids es = map (\<lambda>i. JStr (event_id_of i)) [1..<Suc (length es)]"
    using assms(1) unfolding holds_events_def by auto
  have "event_ids es ! n = dget0 (es ! n) ''event_id''"
    unfolding event_ids_def using assms(2) by (intro nth_map) simp
  then show ?thesis using assms(2) unfolding ids by (simp del: upt_Suc)
qed

lemma find_held:
  assumes "holds_events st es" and "n < length es"
  shows "find (\<lambda>e. dget0 e ''event_id'' = JStr (event_id_of (Suc n))) es = Some (es ! n)"
  using held_event_id [OF assms(1)] assms(2) by (auto simp: find_Some_iff event_id_inj intro!: exI [of _ n])

lemma find_held_None:
  assumes "holds_events st es" and "\<forall>n. i \<noteq> event_id_of n"
  shows "find (\<lambda>e. dget0 e ''event_id'' = JStr i) es = None"
  unfolding find_None_iff
proof
  assume "\<exists>x. x \<in> set es \<and> dget0 x ''event_id'' = JStr i"
  then obtain n where "n < length es" "dget0 (es ! n) ''event_id'' = JStr i" unfolding in_set_conv_nth by blast
  then have "JStr (event_id_of (Suc n)) = JStr i" using held_event_id [OF assms(1)] by metis
  then show False using assms(2) by (simp only: json.inject) metis
qed

text \<open>
  C24: an event that was just appended to a store is served under its identifier, as it was returned to the producer, and explained under \<open>/explain\<close>.
  Every older event is served as before, and an identifier that was never given is answered with 404.
\<close>

theorem appended_event_is_served:
  assumes "holds_events st es" and "case payload of None \<Rightarrow> True | Some p \<Rightarrow> python_value (JObj p)"
    and "append_event now event_type lane object_id producer payload st = (sw_stores W dir, Inr e)"
    and "dir \<noteq> ''''" and "requested_root config rq = Some dir"
    and "rq_path rq = ''/events/'' @ i @ (if explained then ''/explain'' else '''')" and "CHR ''/'' \<notin> set i" and "i \<noteq> ''''"
  shows "do_GET W config rq =
      (if i = event_id_of (Suc (length es)) then json_answer 200 (if explained then explain_event e else JObj e)
       else case find (\<lambda>e. dget0 e ''event_id'' = JStr i) es of
         None \<Rightarrow> not_found ''event_id'' i
       | Some old \<Rightarrow> json_answer 200 (if explained then explain_event old else JObj old))
    \<and> (\<forall>n < length es. i = event_id_of (Suc n) \<longrightarrow> do_GET W config rq = json_answer 200 (if explained then explain_event (es ! n) else JObj (es ! n)))
    \<and> ((\<forall>n. i \<noteq> event_id_of n) \<longrightarrow> do_GET W config rq = not_found ''event_id'' i)"
proof -
  have known: "event_type \<in> set EVENT_TYPES" "lane \<in> set DEFAULT_LANES"
    using assms(3) by (auto simp: append_event_def append_checks_holds [OF assms(1)] split: if_splits)
  have holds: "holds_events (sw_stores W dir) (es @ [e])"
    using append_event_holds [OF assms(1) known assms(2) refl, of now object_id producer] by (simp add: assms(3))
  note answer = get_event [OF holds assms(4-8)]
  have new: "find (\<lambda>e. dget0 e ''event_id'' = JStr i) (es @ [e])
      = (if i = event_id_of (Suc (length es)) then Some e else find (\<lambda>e. dget0 e ''event_id'' = JStr i) es)"
  proof (cases "i = event_id_of (Suc (length es))")
    case True
    then show ?thesis using find_held [OF holds, of "length es"] by simp
  next
    case False
    then show ?thesis using held_event_id [OF holds, of "length es"] by (simp add: find_snoc split: option.split)
  qed
  have old: "find (\<lambda>e. dget0 e ''event_id'' = JStr i) (es @ [e]) = Some (es ! n)"
    if "n < length es" "i = event_id_of (Suc n)" for n
    using find_held [OF holds, of n] that by (simp add: nth_append)
  show ?thesis
    using find_held_None [OF holds, of i] old
    by (intro conjI allI impI) (simp_all add: answer new split: option.split)
qed

definition example_service :: service_world where
  "example_service = \<lparr>sw_policy = example_world, sw_host = example_host, sw_times = example_times, sw_now = ''t2'',
     sw_clock = (\<lambda>i. ''t2''), sw_plan_now = example_now, sw_plan_clock = example_clock,
     sw_stores = (\<lambda>dir. if dir = ''/state'' then example_store else no_store dir),
     sw_noise = new_engine default_noise_config, sw_describe = (\<lambda>e. (''Exception'', ''''))\<rparr>"

definition example_config :: service_config where
  "example_config = \<lparr>sc_host = ''localhost'', sc_port = 8765, sc_store_root = Some ''/state''\<rparr>"

theorem readyz_tells_the_store_witness:
  "an_status (do_GET example_service example_config \<lparr>rq_path = ''/readyz/'', rq_query = []\<rparr>) = 200
    \<and> an_status (do_GET example_service example_config \<lparr>rq_path = ''/readyz/'', rq_query = [(''store_root'', [''/new''])]\<rparr>) = 503"
proof -
  have host: "host_ok (sw_host example_service)" "utc_clock_ok (rt_snapshot (sw_times example_service))"
    "\<not> float_le (free_ratio_of (sw_host example_service)) (Dec 5 (- 2))" by code_simp+
  have path: "request_path \<lparr>rq_path = ''/readyz/'', rq_query = q\<rparr> = ''/readyz''" for q
    by (simp add: request_path_def rstrip_char_def)
  have dirs: "requested_root example_config \<lparr>rq_path = ''/readyz/'', rq_query = []\<rparr> = Some ''/state''"
    "requested_root example_config \<lparr>rq_path = ''/readyz/'', rq_query = [(''store_root'', [''/new''])]\<rparr> = Some ''/new''"
    by (simp_all add: requested_root_def example_config_def)
  have stores: "sw_stores example_service ''/state'' = example_store" "sw_stores example_service ''/new'' = no_store ''/new''"
    by (simp_all add: example_service_def)
  have inv: "store_inv example_store" using reachable_inv [OF r_into_rtranclp [of store_step, OF example_store_step]] .
  then have usable: "store_usable (sw_stores example_service ''/state'')" "store_usable (sw_stores example_service ''/new'')"
    by (simp_all add: stores store_usable_def no_store_def)
  have ini: "is_initialized (sw_stores example_service ''/state'')" "\<not> is_initialized (sw_stores example_service ''/new'')"
    using inv unfolding stores store_inv_def holds_events_def by (auto simp: is_initialized_def no_store_def)
  show ?thesis
    using readyz_tells_the_store [OF host(1,2) usable(1) path dirs(1)] readyz_tells_the_store [OF host(1,2) usable(2) path dirs(2)]
    by (auto simp: ini host(3) Let_def json_answer_def)
qed

theorem appended_event_is_served_witness:
  "do_GET example_service example_config \<lparr>rq_path = ''/events/evt-00000001/explain'', rq_query = []\<rparr>
     = json_answer 200 (explain_event (new_event ''t1'' ''evt-00000001'' ''add'' ''normal'' (Some ''a'') ''cli'' None))"
proof -
  let ?st = "fst (init ''t0'' (no_store ''/state''))" and ?e = "new_event ''t1'' (event_id_of 1) ''add'' ''normal'' (Some ''a'') ''cli'' None"
  have known: "''add'' \<in> set EVENT_TYPES" "''normal'' \<in> set DEFAULT_LANES" by (simp_all add: EVENT_TYPES_def DEFAULT_LANES_def)
  have "snd (append_event ''t1'' ''add'' ''normal'' (Some ''a'') ''cli'' None ?st) = Inr ?e"
    using append_event_holds(1) [OF init_fresh known, of None ?e "''t1''" "Some ''a''" "''cli''"] by simp
  then have run: "append_event ''t1'' ''add'' ''normal'' (Some ''a'') ''cli'' None ?st = (sw_stores example_service ''/state'', Inr ?e)"
    by (simp add: example_service_def example_store_def prod_eq_iff)
  have dir: "requested_root example_config \<lparr>rq_path = ''/events/evt-00000001/explain'', rq_query = []\<rparr> = Some ''/state''"
    by (simp add: requested_root_def example_config_def)
  have id: "event_id_of 1 = ''evt-00000001''" "event_id_of (Suc 0) = ''evt-00000001''" by code_simp+
  show ?thesis
    using appended_event_is_served [OF init_fresh _ run _ dir, of "''evt-00000001''" True] by (simp add: id)
qed

end
