(* ===== verification/Sync_Commands.thy ===== *)
theory Sync_Commands
  imports Sync_Daemon Evidence
begin

text \<open>
  The synchronisation commands of \<open>cli.py\<close>: \<open>sync plan\<close>, \<open>sync apply\<close>, \<open>sync daemon\<close>, \<open>sync check-health\<close>, \<open>sync status\<close> and the two
  \<open>receipts\<close> commands.  The state of a command is the receipt stores by their root and the host; what it writes to the two streams and its exit
  code are its result.
\<close>

section \<open>Results\<close>

record cli_result =
  cr_code :: int
  cr_out :: string
  cr_err :: string

definition cli_prints :: "bool \<Rightarrow> int \<Rightarrow> json \<Rightarrow> cli_result" where
  "cli_prints pretty code data = \<lparr>cr_code = code, cr_out = pretty_json pretty data, cr_err = ''''\<rparr>"

definition cli_refuses :: "bool \<Rightarrow> json \<Rightarrow> cli_result" where
  "cli_refuses pretty data = \<lparr>cr_code = 1, cr_out = '''', cr_err = pretty_json pretty data\<rparr>"

text \<open>The boundary of \<open>main\<close>: an exception becomes a JSON object on the error stream.  \<open>describe\<close> gives the name of its class and its text.\<close>

definition cli_boundary :: "(pyerr \<Rightarrow> string \<times> string) \<Rightarrow> bool \<Rightarrow> cli_result res \<Rightarrow> cli_result" where
  "cli_boundary describe pretty r =
     (case r of
        Inr result \<Rightarrow> result
      | Inl e \<Rightarrow> cli_refuses pretty (JObj [(''error'', JStr (fst (describe e))), (''message'', JStr (snd (describe e)))]))"

section \<open>Planning and applying\<close>

text \<open>The arguments of \<open>sync plan\<close> and \<open>sync apply\<close> that the commands use; user and TLS options only reach the network.\<close>

record sync_args =
  sy_katello_url :: string
  sy_password :: "string option"
  sy_org :: string
  sy_content_view :: string
  sy_lifecycle_env :: string
  sy_locus :: string
  sy_flake_ref :: string
  sy_current_version :: "string option"
  sy_signing_public_key :: "string option"
  sy_agentplane_run_ref :: "string option"
  sy_require_attestation :: bool
  sy_attestation_public_key :: "string option"
  sy_attestation_file :: "string option"
  sy_execute :: bool
  sy_store_root :: "string option"

text \<open>The defaults of the options.\<close>

definition default_sync_args :: sync_args where
  "default_sync_args = \<lparr>sy_katello_url = ''https://127.0.0.1:8443'', sy_password = None, sy_org = ''SocioProphet'',
     sy_content_view = ''sourceos-builder-aarch64'', sy_lifecycle_env = ''dev'', sy_locus = ''local'',
     sy_flake_ref = ''github:SociOS-Linux/source-os#builder-aarch64'', sy_current_version = None,
     sy_signing_public_key = None, sy_agentplane_run_ref = None, sy_require_attestation = True,
     sy_attestation_public_key = None, sy_attestation_file = None, sy_execute = False, sy_store_root = None\<rparr>"

text \<open>What a run finds: the environment variables, the files, the network, the host and the clock.  \<open>ev_json path\<close> is what opening and parsing a file gives, or the text of the
  error.\<close>

record 'w cli_env =
  ev_environ :: "string \<Rightarrow> string option"
  ev_read_file :: "string \<Rightarrow> string + string"
  ev_json :: "string \<Rightarrow> string + json"
  ev_fetch :: "string \<Rightarrow> fetched"
  ev_minisign :: minisign
  ev_host :: "'w host"
  ev_stamps :: stamps
  ev_describe :: "pyerr \<Rightarrow> string \<times> string"

definition sync_password :: "'w cli_env \<Rightarrow> sync_args \<Rightarrow> string res" where
  "sync_password env a =
     (case sy_password a of
        Some p \<Rightarrow> if p \<noteq> '''' then Inr p else resolve_password (ev_environ env) (ev_read_file env)
      | None \<Rightarrow> resolve_password (ev_environ env) (ev_read_file env))"

definition syncer_of_args :: "sync_args \<Rightarrow> syncer" where
  "syncer_of_args a =
     \<lparr>s_flake_ref = sy_flake_ref a, s_locus = sy_locus a, s_current_version = sy_current_version a,
      s_signing_public_key = sy_signing_public_key a, s_agentplane_run_ref = sy_agentplane_run_ref a,
      s_require_attestation = sy_require_attestation a,
      s_attestation_public_key = sy_attestation_public_key a, s_attestation_verifier = None\<rparr>"

text \<open>The attestation file, or what is printed when it cannot be read.\<close>

definition args_attestation :: "'w cli_env \<Rightarrow> sync_args \<Rightarrow> string + json" where
  "args_attestation env a =
     (case sy_attestation_file a of
        None \<Rightarrow> Inr JNull
      | Some f \<Rightarrow> if f = '''' then Inr JNull else
          (case ev_json env f of
             Inr v \<Rightarrow> Inr v
           | Inl why \<Rightarrow> Inl (''error: could not read --attestation-file '' @ repr_str f @ '': '' @ why @ [newline])))"

text \<open>The common part: the manifest and the plan, or the result that ends the command.\<close>

definition sync_manifest :: "'w cli_env \<Rightarrow> sync_args \<Rightarrow> content_view_manifest res" where
  "sync_manifest env a = get_latest_version (new_client (sy_katello_url a) (sy_org a)) (ev_fetch env)
     (sy_content_view a) (sy_lifecycle_env a)"

definition prepare_plan ::
  "'w cli_env \<Rightarrow> bool \<Rightarrow> sync_args \<Rightarrow> (cli_result + content_view_manifest \<times> sync_plan) res" where
  "prepare_plan env pretty a =
     (case sync_password env a of
        Inl (RuntimeError msg) \<Rightarrow>
          Inr (Inl (cli_refuses pretty (JObj [(''error'', JStr ''missing password''), (''message'', JStr msg)])))
      | Inl e \<Rightarrow> Inl e
      | Inr password \<Rightarrow>
          ebind (sync_manifest env a) (\<lambda>m.
          case args_attestation env a of
            Inl msg \<Rightarrow> Inr (Inl \<lparr>cr_code = 1, cr_out = '''', cr_err = msg\<rparr>)
          | Inr att \<Rightarrow> ebind (plan (ev_minisign env) (syncer_of_args a) m att) (\<lambda>p. Inr (Inr (m, p)))))"

definition plan_exit :: "sync_plan \<Rightarrow> int" where
  "plan_exit p = (if p_policy_gate p \<in> {''allowed'', ''no-op''} then 0 else 2)"

definition cmd_sync_plan :: "'w cli_env \<Rightarrow> bool \<Rightarrow> sync_args \<Rightarrow> cli_result" where
  "cmd_sync_plan env pretty a = cli_boundary (ev_describe env) pretty
     (ebind (prepare_plan env pretty a) (\<lambda>r. case r of
        Inl result \<Rightarrow> Inr result
      | Inr (m, p) \<Rightarrow> Inr (cli_prints pretty (plan_exit p) (plan_to_dict p))))"

type_synonym receipt_stores = "string \<Rightarrow> receipt_store"

definition persist_result ::
  "content_view_manifest \<Rightarrow> jdict \<Rightarrow> receipt_store \<Rightarrow> receipt_store \<times> unit res" where
  "persist_result m result st =
     (if \<not> dhas result ''receipt'' then (st, Inr ())
      else case write_receipt (dict_or_empty (dget0 result ''receipt'')) st of
        (st1, Inl e) \<Rightarrow> (st1, Inl e)
      | (st1, Inr path) \<Rightarrow>
          if dget0 result ''status'' = JStr ''applied'' then write_current_version (m_version m) st1
          else (st1, Inr ()))"

definition result_exit :: "jdict \<Rightarrow> int" where
  "result_exit result = (if dget0 result ''status'' \<in> {JStr ''dry_run'', JStr ''applied''} then 0 else 2)"

definition apply_plan ::
  "'w cli_env \<Rightarrow> bool \<Rightarrow> sync_args \<Rightarrow> content_view_manifest \<Rightarrow> sync_plan \<Rightarrow> receipt_stores \<times> 'w
    \<Rightarrow> (receipt_stores \<times> 'w) \<times> cli_result res" where
  "apply_plan env pretty a m p = (\<lambda>(stores, w).
     (case execute (syncer_of_args a) (ev_host env) (ev_stamps env) p (\<not> sy_execute a) w of
        (Inl e, w') \<Rightarrow> ((stores, w'), Inl e)
      | (Inr result, w') \<Rightarrow>
          (let printed = cli_prints pretty (result_exit result) (JObj result) in
           case sy_store_root a of
             None \<Rightarrow> ((stores, w'), Inr printed)
           | Some dir \<Rightarrow>
               if dir = '''' then ((stores, w'), Inr printed)
               else case persist_result m result (stores dir) of
                 (st, Inl e) \<Rightarrow> ((stores(dir := st), w'), Inl e)
               | (st, Inr u) \<Rightarrow> ((stores(dir := st), w'), Inr printed))))"

definition cmd_sync_apply ::
  "'w cli_env \<Rightarrow> bool \<Rightarrow> sync_args \<Rightarrow> receipt_stores \<times> 'w \<Rightarrow> (receipt_stores \<times> 'w) \<times> cli_result" where
  "cmd_sync_apply env pretty a s =
     (case prepare_plan env pretty a of
        Inl e \<Rightarrow> (s, cli_boundary (ev_describe env) pretty (Inl e))
      | Inr (Inl result) \<Rightarrow> (s, result)
      | Inr (Inr (m, p)) \<Rightarrow>
          (case apply_plan env pretty a m p s of (s', r) \<Rightarrow> (s', cli_boundary (ev_describe env) pretty r)))"

section \<open>Health\<close>

definition DEFAULT_STORE_ROOT :: string where "DEFAULT_STORE_ROOT = ''/var/lib/sourceos-syncd''"

definition store_root_or_default :: "string option \<Rightarrow> string" where
  "store_root_or_default r = (case r of Some d \<Rightarrow> if d = '''' then DEFAULT_STORE_ROOT else d | None \<Rightarrow> DEFAULT_STORE_ROOT)"

text \<open>What is found on the host: the tools on the path, and the status of Katello's answer or the text of the exception.\<close>

record health_probe =
  hp_nix :: bool
  hp_nixos_rebuild :: bool
  hp_katello :: "string + int"

definition HEALTHY_OUTCOMES :: "string list" where "HEALTHY_OUTCOMES = [''applied'', ''dry_run'', ''planned'']"

text \<open>The outcome of the last receipt and whether it is good.\<close>

definition last_outcome :: "json option \<Rightarrow> (json \<times> bool) res" where
  "last_outcome found_last =
     (case found_last of
        Some r \<Rightarrow>
          if truthy r then
            ebind (jget r ''outcome'' (JStr ''unknown'')) (\<lambda>outcome.
            ebind (jget r ''outcome'' JNull) (\<lambda>found. Inr (outcome, found \<in> JStr ` set HEALTHY_OUTCOMES)))
          else Inr (JStr ''none'', True)
      | None \<Rightarrow> Inr (JStr ''none'', True))"

definition katello_reachable :: "health_probe \<Rightarrow> bool" where
  "katello_reachable probe = (case hp_katello probe of Inr status \<Rightarrow> status < 500 | Inl why \<Rightarrow> False)"

definition check_health :: "health_probe \<Rightarrow> receipt_store \<Rightarrow> (bool \<times> json) res" where
  "check_health probe st =
     ebind (last_outcome (last_receipt st)) (\<lambda>(outcome, ok).
     let checks = [(''last_receipt_outcome'', outcome), (''last_receipt_ok'', JBool ok),
                   (''nix_available'', JBool (hp_nix probe)),
                   (''nixos_rebuild_available'', JBool (hp_nixos_rebuild probe)),
                   (''katello_reachable'', JBool (katello_reachable probe))]
                  @ (case hp_katello probe of Inl why \<Rightarrow> [(''katello_error'', JStr why)] | Inr status \<Rightarrow> []);
         healthy = ok \<and> katello_reachable probe
     in Inr (healthy, JObj [(''healthy'', JBool healthy), (''checks'', JObj checks)]))"

definition cmd_check_health ::
  "(pyerr \<Rightarrow> string \<times> string) \<Rightarrow> bool \<Rightarrow> string option \<Rightarrow> health_probe \<Rightarrow> receipt_stores \<Rightarrow> cli_result" where
  "cmd_check_health describe pretty store_root probe stores = cli_boundary describe pretty
     (ebind (check_health probe (stores (store_root_or_default store_root))) (\<lambda>(healthy, out).
      Inr (cli_prints pretty (if healthy then 0 else 2) out)))"

section \<open>Starting the daemon\<close>

text \<open>The options of \<open>sync daemon\<close>: the Katello options, which it shares with \<open>sync apply\<close>, and its own.  It has no attestation options.\<close>

record daemon_args =
  da_sync :: sync_args
  da_katello_user :: string
  da_no_verify_ssl :: bool
  da_poll_interval :: int
  da_from_env :: bool

definition daemon_of_args :: "sync_args \<Rightarrow> daemon_args \<Rightarrow> string \<Rightarrow> daemon_config" where
  "daemon_of_args a d password =
     \<lparr>c_client = new_client (sy_katello_url a) (sy_org a), c_content_view = sy_content_view a,
      c_lifecycle_env = sy_lifecycle_env a, c_locus = sy_locus a, c_flake_ref = sy_flake_ref a,
      c_signing_public_key = sy_signing_public_key a, c_agentplane_run_ref = sy_agentplane_run_ref a,
      c_require_attestation = True, c_attestation_public_key = None, c_attestation_dir = None,
      c_attestation_verifier = None, c_poll_interval_s = da_poll_interval d, c_user = da_katello_user d,
      c_password = password, c_verify_ssl = \<not> da_no_verify_ssl d,
      c_store_root = store_root_or_default (sy_store_root a)\<rparr>"

text \<open>The configuration of the daemon that starts, or what is printed instead.\<close>

definition start_sync_daemon :: "'w cli_env \<Rightarrow> bool \<Rightarrow> daemon_args \<Rightarrow> cli_result + daemon_config" where
  "start_sync_daemon env pretty d =
     (if da_from_env d then
        (case daemon_from_env (ev_environ env) (ev_read_file env) of
           Inl e \<Rightarrow> Inl (cli_boundary (ev_describe env) pretty (Inl e))
         | Inr cfg \<Rightarrow> Inr cfg)
      else
        (case sync_password env (da_sync d) of
           Inl (RuntimeError msg) \<Rightarrow>
             Inl (cli_refuses pretty (JObj [(''error'', JStr ''missing password''), (''message'', JStr msg)]))
         | Inl e \<Rightarrow> Inl (cli_boundary (ev_describe env) pretty (Inl e))
         | Inr password \<Rightarrow> Inr (daemon_of_args (da_sync d) d password)))"

lemma started_daemon_inert: "start_sync_daemon env pretty d = Inr cfg \<Longrightarrow> inert cfg"
  by (auto simp: start_sync_daemon_def daemon_of_args_def inert_def dest: from_env_inert
      split: if_splits sum.splits pyerr.splits)

text \<open>
  C10: a daemon started from the command line never deploys.  Whatever options \<open>sync daemon\<close> is given, \<open>--from-env\<close> included, and whatever Katello, the file system and the verifier answer, in
  every state the daemon reaches the recorded version is the one it started with and no command has run on the host.
\<close>

theorem started_daemon_never_deploys:
  assumes "start_sync_daemon env pretty d = Inr cfg" and "(daemon_step cfg)\<^sup>*\<^sup>* (start_daemon st w) s"
  shows "rs_version_file (d_store s) = rs_version_file st \<and> d_world s = w"
proof -
  have "(\<lambda>s s'. inert cfg \<and> daemon_step cfg s s')\<^sup>*\<^sup>* (start_daemon st w) s"
    using assms(2) started_daemon_inert [OF assms(1)] by (simp add: mono_rtranclp [rule_format])
  from inert_loop.inv_reachable [OF this, of "rs_version_file st" w] show ?thesis
    by (simp add: start_daemon_def)
qed

section \<open>Status\<close>

definition GOOD_OUTCOMES :: "string list" where
  "GOOD_OUTCOMES = [''applied'', ''dry_run'', ''planned'', ''no_change'']"

text \<open>\<open>int((now - ts).total_seconds())\<close>, and no age when the time stamp cannot be read or compared.\<close>

definition receipt_age :: "instant \<Rightarrow> json \<Rightarrow> json" where
  "receipt_age now issued =
     (case issued of
        JStr s \<Rightarrow>
          (case fromisoformat (replace_char (CHR ''Z'') ''+00:00'' s) of
             None \<Rightarrow> JNull
           | Some ts \<Rightarrow>
               (case minus_instant now ts of
                  Inl e \<Rightarrow> JNull
                | Inr micros \<Rightarrow> JInt (double_trunc (to_double micros 1000000))))
      | _ \<Rightarrow> JNull)"

definition receipt_summary :: "instant \<Rightarrow> json option \<Rightarrow> (jdict option) res" where
  "receipt_summary now found_last =
     (case found_last of
        Some r \<Rightarrow>
          if truthy r then
            ebind (jget r ''issuedAt'' (JStr '''')) (\<lambda>issued.
            ebind (jget r ''outcome'' JNull) (\<lambda>outcome.
            Inr (Some [(''issuedAt'', issued), (''outcome'', outcome), (''ageSeconds'', receipt_age now issued)])))
          else Inr None
      | None \<Rightarrow> Inr None)"

definition probed_state :: "string option \<Rightarrow> string" where
  "probed_state probe = (case probe of None \<Rightarrow> ''unknown''
     | Some out \<Rightarrow> if strip out = '''' then ''unknown'' else strip out)"

definition summary_good :: "jdict option \<Rightarrow> bool res" where
  "summary_good summary =
     (case summary of None \<Rightarrow> Inr True | Some d \<Rightarrow> in_set (dget0 d ''outcome'') GOOD_OUTCOMES)"

definition sync_status :: "instant \<Rightarrow> string option \<Rightarrow> receipt_store \<Rightarrow> (bool \<times> json) res" where
  "sync_status now probe st =
     ebind (receipt_summary now (last_receipt st)) (\<lambda>summary.
     ebind (if probed_state probe = ''active'' then summary_good summary else Inr False) (\<lambda>healthy.
     Inr (healthy, JObj [
       (''daemon'', JStr (probed_state probe)),
       (''currentVersion'', opt_str (read_current_version st)),
       (''lastReceipt'', case summary of None \<Rightarrow> JNull | Some d \<Rightarrow> JObj d),
       (''storeReceipts'', JInt (int (length (list_receipts st 100)))),
       (''healthy'', JBool healthy)])))"

definition cmd_sync_status ::
  "(pyerr \<Rightarrow> string \<times> string) \<Rightarrow> bool \<Rightarrow> instant \<Rightarrow> string option \<Rightarrow> string option \<Rightarrow> receipt_stores \<Rightarrow> cli_result" where
  "cmd_sync_status describe pretty now store_root probe stores = cli_boundary describe pretty
     (ebind (sync_status now probe (stores (store_root_or_default store_root))) (\<lambda>(healthy, out).
      Inr (cli_prints pretty (if healthy then 0 else 1) out)))"

section \<open>Receipts\<close>

definition cmd_receipts_list :: "bool \<Rightarrow> string option \<Rightarrow> nat \<Rightarrow> receipt_stores \<Rightarrow> cli_result" where
  "cmd_receipts_list pretty store_root limit stores =
     cli_prints pretty 0 (JList (list_receipts (stores (store_root_or_default store_root)) limit))"

definition cmd_receipts_last :: "bool \<Rightarrow> string option \<Rightarrow> receipt_stores \<Rightarrow> cli_result" where
  "cmd_receipts_last pretty store_root stores =
     (case last_receipt (stores (store_root_or_default store_root)) of
        None \<Rightarrow> cli_refuses pretty (JObj [(''error'', JStr ''no receipts found'')])
      | Some r \<Rightarrow> cli_prints pretty 0 r)"

section \<open>What an apply changes\<close>

lemma persist_version:
  assumes "persist_result m result st = (st', r)" and "rs_version_file st' \<noteq> rs_version_file st"
  shows "dget0 result ''status'' = JStr ''applied'' \<and> r = Inr ()
    \<and> (\<exists>v. m_version m = JStr v \<and> rs_version_file st' = Some (v @ [newline]))"
proof (cases "write_receipt (dict_or_empty (dget0 result ''receipt'')) st")
  case (Pair st1 x)
  then have "rs_version_file st1 = rs_version_file st" by (metis fst_conv write_receipt_version)
  with assms Pair show ?thesis
    by (auto simp: persist_result_def write_current_version_def split: sum.splits if_splits json.splits)
qed

lemma execute_applied:
  assumes "execute s h t p dry w = (Inr result, w')" and "dget0 result ''status'' = JStr ''applied''"
  shows "plan_allowed p" and "\<not> dry"
  using assms
  by (auto simp: execute_def Let_def outcome_of_def refused_outcome_def split: if_splits prod.splits sum.splits)

lemma prepare_plan_Inr:
  assumes "prepare_plan env pretty a = Inr (Inr (m, p))"
  shows "sync_manifest env a = Inr m"
    and "\<exists>att. args_attestation env a = Inr att \<and> plan (ev_minisign env) (syncer_of_args a) m att = Inr p"
  using assms by (cases "args_attestation env a"; auto simp: prepare_plan_def res_simps split: sum.splits pyerr.splits)+

lemma apply_version:
  assumes "cmd_sync_apply env pretty a (stores, w) = ((stores', w'), r)"
    and "rs_version_file (stores' d) \<noteq> rs_version_file (stores d)"
  shows "\<exists>m p att v. sync_manifest env a = Inr m \<and> args_attestation env a = Inr att
    \<and> plan (ev_minisign env) (syncer_of_args a) m att = Inr p \<and> plan_allowed p
    \<and> sy_execute a \<and> sy_store_root a = Some d \<and> m_version m = JStr v
    \<and> rs_version_file (stores' d) = Some (v @ [newline]) \<and> cr_code r = 0"
proof -
  have "stores' \<noteq> stores" using assms(2) by auto
  then obtain m p where prep: "prepare_plan env pretty a = Inr (Inr (m, p))"
    using assms(1) by (auto simp: cmd_sync_apply_def split: sum.splits)
  obtain r0 where run: "apply_plan env pretty a m p (stores, w) = ((stores', w'), r0)" "r = cli_boundary (ev_describe env) pretty r0"
    using assms(1) prep by (auto simp: cmd_sync_apply_def split: prod.splits)
  obtain result where ex: "execute (syncer_of_args a) (ev_host env) (ev_stamps env) p (\<not> sy_execute a) w = (Inr result, w')"
    using run(1) \<open>stores' \<noteq> stores\<close> by (auto simp: apply_plan_def Let_def split: prod.splits sum.splits option.splits if_splits)
  obtain dir st x where dir: "sy_store_root a = Some dir" "persist_result m result (stores dir) = (st, x)" "stores' = stores(dir := st)"
      "r0 = (case x of Inl e \<Rightarrow> Inl e | Inr u \<Rightarrow> Inr (cli_prints pretty (result_exit result) (JObj result)))"
    using run(1) \<open>stores' \<noteq> stores\<close>
    by (auto simp: apply_plan_def Let_def ex split: prod.splits sum.splits option.splits if_splits)
  have d: "d = dir" "rs_version_file st \<noteq> rs_version_file (stores dir)" using assms(2) dir(3) by (auto split: if_splits)
  note change = persist_version [OF dir(2) d(2)]
  then have "plan_allowed p" "sy_execute a" using execute_applied [OF ex] by auto
  moreover have "cr_code r = 0" using change by (simp add: run(2) dir(4) cli_boundary_def cli_prints_def result_exit_def)
  moreover have "rs_version_file (stores' d) = rs_version_file st" by (simp add: d(1) dir(3))
  ultimately show ?thesis using prepare_plan_Inr [OF prep] change dir(1) d(1) by metis
qed

text \<open>
  C4: \<open>sync apply\<close> is gated like the daemon.  If a run that requires attestations changes the version recorded in any store, then it was run with \<open>--execute\<close> and that store as its
  root, it exits with 0, the new version is the one Katello reports, and the attestation file holds an object
  bound to exactly that version that the verifier accepts.
\<close>

theorem apply_moves_version_only_when_attested:
  assumes "cmd_sync_apply env pretty a (stores, w) = ((stores', w'), r)" and "sy_require_attestation a"
    and "rs_version_file (stores' d) \<noteq> rs_version_file (stores d)"
  shows "\<exists>m v att. sync_manifest env a = Inr m \<and> m_version m = JStr v \<and> rs_version_file (stores' d) = Some (v @ [newline])
      \<and> sy_execute a \<and> sy_store_root a = Some d \<and> cr_code r = 0
      \<and> args_attestation env a = Inr (JObj att)
      \<and> dget0 att ''artifactId'' = JStr (expected_artifact_id (m_org m) (m_content_view m) v)
      \<and> chosen_verifier (ev_minisign env) None att (sy_attestation_public_key a)"
proof -
  obtain m p att v where run: "sync_manifest env a = Inr m" "args_attestation env a = Inr att"
      "plan (ev_minisign env) (syncer_of_args a) m att = Inr p" "plan_allowed p" "sy_execute a" "sy_store_root a = Some d"
      "m_version m = JStr v" "rs_version_file (stores' d) = Some (v @ [newline])" "cr_code r = 0"
    using apply_version [OF assms(1,3)] by blast
  have "authorised (ev_minisign env) (syncer_of_args a) m att"
    using run(3,4) assms(2) plan_allowed_iff [of "ev_minisign env" "syncer_of_args a" m att]
    by (simp add: syncer_of_args_def)
  then show ?thesis using run by (auto simp: authorised_def syncer_of_args_def elim!: attestation_validE)
qed

section \<open>A host that is up to date\<close>

lemma receipt_last:
  assumes "write_receipt receipt st = (st', Inr f)" and "rs_receipts st = []"
  shows "last_receipt st' = Some (JObj receipt)"
  using assms
  by (auto simp: write_receipt_def last_receipt_def list_receipts_def put_receipt_def get_receipt_def map_filter_def split: sum.splits)


section \<open>Runs\<close>

definition ex_args :: sync_args where
  "ex_args = default_sync_args\<lparr>sy_katello_url := ''https://k'', sy_org := ''Org'', sy_password := Some ''pw'', sy_content_view := ''cv'',
     sy_lifecycle_env := ''stable'', sy_attestation_public_key := Some ''RWSkey'',
     sy_attestation_file := Some ''/att.json'', sy_execute := True, sy_store_root := Some ''/s''\<rparr>"

definition ex_cli :: "unit cli_env" where
  "ex_cli = \<lparr>ev_environ = (\<lambda>v. None), ev_read_file = (\<lambda>f. Inl ''no such file''),
     ev_json = (\<lambda>f. if f = ''/att.json'' then Inr (JObj ex_attestation) else Inl ''no such file''),
     ev_fetch = ex_fetch, ev_minisign = ex_minisign, ev_host = ex_host, ev_stamps = ex_stamps,
     ev_describe = (\<lambda>e. (''Exception'', ''''))\<rparr>"

lemma ex_apply:
  "rs_version_file (fst (fst (cmd_sync_apply ex_cli True ex_args (\<lambda>d. empty_store, ()))) ''/s'') = Some (''2.0'' @ [newline])"
proof -
  define p where "p = (case prepare_plan ex_cli True ex_args of Inr (Inr (m, p)) \<Rightarrow> p | _ \<Rightarrow> noop_plan (syncer_of_args ex_args) ex_latest)"
  have prep: "prepare_plan ex_cli True ex_args = Inr (Inr (ex_latest, p))" unfolding p_def by code_simp
  have "case fst (execute (syncer_of_args ex_args) ex_host ex_stamps p False ()) of
      Inr d \<Rightarrow> rs_version_file (fst (persist_result ex_latest d empty_store)) = Some (''2.0'' @ [newline]) | Inl e \<Rightarrow> False"
    unfolding p_def by code_simp
  then obtain d w where "execute (syncer_of_args ex_args) ex_host ex_stamps p False () = (Inr d, w)"
    "rs_version_file (fst (persist_result ex_latest d empty_store)) = Some (''2.0'' @ [newline])"
    by (cases "execute (syncer_of_args ex_args) ex_host ex_stamps p False ()") (auto split: sum.splits)
  moreover have "ev_host ex_cli = ex_host" "ev_stamps ex_cli = ex_stamps" "sy_execute ex_args" "sy_store_root ex_args = Some ''/s''"
    by (simp_all add: ex_cli_def ex_args_def)
  ultimately show ?thesis
    by (auto simp: cmd_sync_apply_def prep apply_plan_def Let_def split: prod.split sum.split)
qed

theorem apply_moves_version_only_when_attested_witness:
  "\<exists>m att. sync_manifest ex_cli ex_args = Inr m \<and> m_version m = JStr ''2.0''
    \<and> args_attestation ex_cli ex_args = Inr (JObj att) \<and> chosen_verifier ex_minisign None att (Some ''RWSkey'')"
proof -
  obtain stores' w' r where run: "cmd_sync_apply ex_cli True ex_args (\<lambda>d. empty_store, ()) = ((stores', w'), r)"
    by (metis surj_pair)
  then have version: "rs_version_file (stores' ''/s'') = Some (''2.0'' @ [newline])" using ex_apply by simp
  have "sy_require_attestation ex_args" "rs_version_file (stores' ''/s'') \<noteq> rs_version_file empty_store"
    by (simp_all add: ex_args_def default_sync_args_def version empty_store_def)
  from apply_moves_version_only_when_attested [OF run this] show ?thesis
    by (auto simp: version ex_cli_def ex_args_def)
qed


theorem started_daemon_never_deploys_witness:
  "\<exists>cfg. start_sync_daemon ex_cli True \<lparr>da_sync = ex_args, da_katello_user = ''admin'', da_no_verify_ssl = False, da_poll_interval = 300,
      da_from_env = False\<rparr> = Inr cfg
    \<and> rs_version_file (d_store (poll_iteration cfg ex_env (start_daemon empty_store ()))) = None"
proof -
  let ?d = "\<lparr>da_sync = ex_args, da_katello_user = ''admin'', da_no_verify_ssl = False, da_poll_interval = 300, da_from_env = False\<rparr>"
  have cfg: "start_sync_daemon ex_cli True ?d = Inr (daemon_of_args ex_args ?d ''pw'')" (is "_ = Inr ?cfg")
    by (simp add: start_sync_daemon_def sync_password_def ex_args_def)
  have "(daemon_step ?cfg)\<^sup>*\<^sup>* (start_daemon empty_store ()) (poll_iteration ?cfg ex_env (start_daemon empty_store ()))"
    by (rule r_into_rtranclp) (simp add: daemon_step.poll start_daemon_def)
  from started_daemon_never_deploys [OF cfg this] cfg show ?thesis by (auto simp: empty_store_def)
qed

end
