(* ===== verification/Command_Line.thy ===== *)
theory Command_Line
  imports Sync_Commands Service Trust Scorecard Event_Queue Systema Harvest
begin

text \<open>
  \<open>cli.py\<close>: the commands of \<open>main\<close> and the exceptions it turns into an exit code.  A command is what the argument parser delivers.  \<open>sync daemon\<close> does not end by itself: how it is configured and started is in theory
  \<open>Sync_Commands\<close>, its loop in \<open>Sync_Daemon\<close>; here its polls are steps of the host.
\<close>

section \<open>Commands\<close>

datatype cli_command =
    Health_Snapshot "string option"
  | Health_Explain string
  | Health_Verify string
  | Repair_Plan string
  | Store_Init string
  | Store_Record string string string "string option" string string
  | Evidence_Wrap string string string
  | Evidence_Write string string string string
  | Evidence_Validate string
  | Trust_Evaluate string trust_request
  | Trust_Validate string
  | Orchestration_Init string
  | Orchestration_Enqueue string string
  | Orchestration_List string "string option"
  | Orchestration_Replay string string
  | Orchestration_Summary string
  | Scorecard_Evaluate string
  | Scorecard_Validate string
  | Sync_Plan sync_args
  | Sync_Apply sync_args
  | Sync_Check_Health "string option"
  | Sync_Status "string option"
  | Receipts_List "string option" nat
  | Receipts_Last "string option"
  | Noise_Status
  | Noise_Flush
  | Narrative_Status string
  | Systema_Confidence pyfloat
  | Systema_Membrane string string string string pyfloat "string option"
  | Coherence_Status string
  | Coherence_Scan string
  | Authority_Report string
  | Authority_Check string
  | Harvest_Wrap string string string string string

text \<open>
  What the commands find: that of the synchronisation commands and of the service, and the files.  \<open>me_load path\<close> is what opening and parsing a
  file gives, \<open>me_stdin\<close> what parsing the standard input gives, \<open>me_expanduser\<close> is \<open>Path.expanduser\<close>, \<open>me_path\<close> joins a directory and a name, \<open>me_elsewhere\<close> is what the file system does with a name that
  leaves its directory.
\<close>

record 'w main_env =
  me_sync :: "'w cli_env"
  me_world :: service_world
  me_load :: "string \<Rightarrow> json res"
  me_stdin :: "json res"
  me_expanduser :: "string \<Rightarrow> string"
  me_path :: "string \<Rightarrow> string \<Rightarrow> string"
  me_elsewhere :: "string \<Rightarrow> string \<Rightarrow> evidence_dir \<Rightarrow> evidence_dir \<times> string res"
  me_probe :: health_probe
  me_daemon_state :: "string option"

record 'w main_state =
  ms_stores :: "string \<Rightarrow> local_store"
  ms_queues :: "string \<Rightarrow> event_queue"
  ms_receipts :: receipt_stores
  ms_evidence :: "string \<Rightarrow> evidence_dir"
  ms_noise :: noise_engine
  ms_host :: 'w

definition me_digest :: "'w main_env \<Rightarrow> string \<Rightarrow> string" where
  "me_digest env = pw_sha256 (sw_policy (me_world env))"

text \<open>A report is used as a dict; the first thing done with any other value is \<open>set(report)\<close>, then \<open>report.get\<close>.\<close>

definition with_report :: "json res \<Rightarrow> (jdict \<Rightarrow> 'a res) \<Rightarrow> 'a res" where
  "with_report loaded f = ebind loaded (\<lambda>v.
     case v of JObj report \<Rightarrow> f report | _ \<Rightarrow> ebind (set_of v) (\<lambda>_. Inl AttributeError))"

definition load_report :: "'w main_env \<Rightarrow> string \<Rightarrow> json res" where
  "load_report env path = (if path = '''' \<or> path = ''-'' then me_stdin env else me_load env path)"

definition load_json_file :: "'w main_env \<Rightarrow> string \<Rightarrow> jdict res" where
  "load_json_file env path = ebind (me_load env (me_expanduser env path)) (\<lambda>v.
     case v of JObj d \<Rightarrow> Inr d | _ \<Rightarrow> Inl (ValueError ''evidence artifacts must be JSON objects''))"

definition valid_or_errors :: "bool \<Rightarrow> string list \<Rightarrow> cli_result" where
  "valid_or_errors pretty errors = cli_prints pretty (if errors = [] then 0 else 2)
     (JObj [(''valid'', JBool (errors = [])), (''errors'', strs errors)])"

section \<open>Commands that only read\<close>

definition health_explain :: "'w main_env \<Rightarrow> bool \<Rightarrow> string \<Rightarrow> cli_result res" where
  "health_explain env pretty path =
     with_report (load_report env path) (\<lambda>report. let t = sw_times (me_world env) in
       ebind (with_fresh_diagnosis (rt_verified t) (rt_diagnosed t) (rt_controlled t) report) (\<lambda>r.
       ebind (jsub (JObj r) ''diagnosis'') (\<lambda>d.
       ebind (jsub d ''status'') (\<lambda>status.
       Inr (cli_prints pretty (if status = JStr ''healthy'' then 0 else 2) d)))))"

definition health_verify :: "'w main_env \<Rightarrow> bool \<Rightarrow> string \<Rightarrow> cli_result res" where
  "health_verify env pretty path =
     with_report (load_report env path) (\<lambda>report.
       ebind (validate_report report) (\<lambda>errors.
       ebind (verify (rt_verified (sw_times (me_world env))) report) (\<lambda>(status, checks).
       Inr (cli_prints pretty (if status = Pass then 0 else 2) (JObj [
         (''contract_errors'', strs errors), (''status'', JStr (status_text status)),
         (''invariants'', JList (map check_to_dict checks))])))))"

definition print_repair_plan :: "'w main_env \<Rightarrow> bool \<Rightarrow> string \<Rightarrow> cli_result res" where
  "print_repair_plan env pretty path =
     with_report (load_report env path) (\<lambda>report. let W = me_world env in
       ebind (repair_plan (me_digest env) (sw_plan_now W) (sw_plan_clock W) report) (\<lambda>p.
       Inr (cli_prints pretty 0 (JObj p))))"

definition trust_evaluate :: "'w main_env \<Rightarrow> bool \<Rightarrow> string \<Rightarrow> trust_request \<Rightarrow> cli_result res" where
  "trust_evaluate env pretty path req =
     ebind (load_json_file env path) (\<lambda>report.
     ebind (evaluate_trust (me_digest env) (rt_verified (sw_times (me_world env))) (sw_now (me_world env)) report req) (\<lambda>d.
     Inr (cli_prints pretty (if td_status d \<in> {''allowed'', ''degraded_allowed''} then 0 else 2) (JObj (trust_to_dict d)))))"

definition scorecard_evaluate :: "'w main_env \<Rightarrow> bool \<Rightarrow> string \<Rightarrow> cli_result res" where
  "scorecard_evaluate env pretty path =
     ebind (load_json_file env path) (\<lambda>report. let t = sw_times (me_world env) in
     ebind (evaluate_scorecard (me_digest env) (rt_verified t) (rt_diagnosed t) (sw_now (me_world env)) report) (\<lambda>c.
     Inr (cli_prints pretty (if sc_status c \<in> {''ready'', ''watch''} then 0 else 2) (JObj (scorecard_as_dict c)))))"

definition wrap_artifact :: "'w main_env \<Rightarrow> string \<Rightarrow> string \<Rightarrow> string \<Rightarrow> jdict res" where
  "wrap_artifact env path evidence_type subject =
     ebind (load_json_file env path) (\<lambda>artifact.
     Inr (make_evidence (me_digest env) (sw_now (me_world env)) artifact evidence_type subject DEFAULT_WRITER))"

fun read_command :: "'w main_env \<Rightarrow> bool \<Rightarrow> 'w main_state \<Rightarrow> cli_command \<Rightarrow> cli_result res" where
  "read_command env pretty st (Health_Snapshot dir) =
     ebind (build_state_report ((me_world env)\<lparr>sw_stores := ms_stores st\<rparr>) dir) (\<lambda>r. Inr (cli_prints pretty 0 (JObj r)))"
| "read_command env pretty st (Health_Explain path) = health_explain env pretty path"
| "read_command env pretty st (Health_Verify path) = health_verify env pretty path"
| "read_command env pretty st (Repair_Plan path) = print_repair_plan env pretty path"
| "read_command env pretty st (Evidence_Wrap path evidence_type subject) =
     ebind (wrap_artifact env path evidence_type subject) (\<lambda>e. Inr (cli_prints pretty 0 (JObj e)))"
| "read_command env pretty st (Evidence_Validate path) =
     ebind (load_json_file env path) (\<lambda>e. Inr (valid_or_errors pretty (validate_evidence (me_digest env) e)))"
| "read_command env pretty st (Trust_Evaluate path req) = trust_evaluate env pretty path req"
| "read_command env pretty st (Trust_Validate path) =
     ebind (load_json_file env path) (\<lambda>d. ebind (validate_trust_decision d) (\<lambda>es. Inr (valid_or_errors pretty es)))"
| "read_command env pretty st (Scorecard_Evaluate path) = scorecard_evaluate env pretty path"
| "read_command env pretty st (Scorecard_Validate path) =
     ebind (load_json_file env path) (\<lambda>d. ebind (validate_scorecard d) (\<lambda>es. Inr (valid_or_errors pretty es)))"
| "read_command env pretty st (Sync_Plan a) = Inr (cmd_sync_plan (me_sync env) pretty a)"
| "read_command env pretty st (Sync_Check_Health dir) =
     Inr (cmd_check_health (ev_describe (me_sync env)) pretty dir (me_probe env) (ms_receipts st))"
| "read_command env pretty st (Sync_Status dir) =
     Inr (cmd_sync_status (ev_describe (me_sync env)) pretty (sw_plan_now (me_world env)) dir (me_daemon_state env) (ms_receipts st))"
| "read_command env pretty st (Receipts_List dir limit) = Inr (cmd_receipts_list pretty dir limit (ms_receipts st))"
| "read_command env pretty st (Receipts_Last dir) = Inr (cmd_receipts_last pretty dir (ms_receipts st))"
| "read_command env pretty st Noise_Status = Inr (cli_prints pretty 0 (budget_to_dict (budget_report (ms_noise st))))"
| "read_command env pretty st (Narrative_Status device) =
     Inr (cli_prints pretty 0 (narrative_to_dict (stub_narrative (sw_now (me_world env)) device)))"
| "read_command env pretty st (Systema_Confidence score) =
     Inr (cli_prints pretty 0 (confidence_to_dict (map_confidence score)))"
| "read_command env pretty st (Systema_Membrane kind decision subject actor confidence policy_ref) =
     ebind (map_membrane_event (sw_now (me_world env)) kind decision subject actor confidence policy_ref) (\<lambda>e.
     Inr (cli_prints pretty 0 (membrane_to_dict e)))"
| "read_command env pretty st (Coherence_Status device) =
     Inr (cli_prints pretty 0 (coherence_snapshot_to_dict (stub_snapshot (sw_clock (me_world env)) device)))"
| "read_command env pretty st (Coherence_Scan domain) =
     ebind (scan_domain (sw_now (me_world env)) domain) (\<lambda>s. Inr (cli_prints pretty 0 (coherence_state_to_dict s)))"
| "read_command env pretty st (Authority_Report device) =
     Inr (cli_prints pretty 0 (authority_report_to_dict (authority_stub_report (sw_now (me_world env)) device)))"
| "read_command env pretty st (Authority_Check kind) =
     ebind (check_authority kind) (\<lambda>a. Inr (cli_prints pretty 0 (authority_to_dict a)))"
| "read_command env pretty st (Harvest_Wrap path basis scope collector retention) =
     ebind (me_load env path) (\<lambda>v.
     ebind (wrap_import_event (me_digest env) (sw_now (me_world env)) v basis scope collector retention) (\<lambda>e.
     Inr (cli_prints pretty 0 (harvest_to_dict e))))"
| "read_command env pretty st _ = Inl (SystemExit ''unsupported command'')"

section \<open>Commands that change something\<close>

definition printed :: "bool \<Rightarrow> json res \<Rightarrow> cli_result res" where
  "printed pretty r = ebind r (\<lambda>v. Inr (cli_prints pretty 0 v))"

definition store_record ::
  "'w main_env \<Rightarrow> string \<Rightarrow> string \<Rightarrow> string option \<Rightarrow> string \<Rightarrow> string \<Rightarrow> local_store \<Rightarrow> local_store \<times> jdict res" where
  "store_record env event_type lane object_id producer payload_json st =
     (case json_loads payload_json of
        Inl msg \<Rightarrow> (st, Inl (ValueError msg))
      | Inr (JObj payload) \<Rightarrow>
          append_store_event (sw_now (me_world env)) event_type lane object_id producer (Some payload) st
      | Inr v \<Rightarrow> (st, Inl (ValueError ''--payload-json must decode to a JSON object'')))"

definition write_evidence ::
  "'w main_env \<Rightarrow> string \<Rightarrow> string \<Rightarrow> string \<Rightarrow> string \<Rightarrow> evidence_dir \<Rightarrow> evidence_dir \<times> json res" where
  "write_evidence env path evidence_type subject dir d =
     (case wrap_artifact env path evidence_type subject of
        Inl e \<Rightarrow> (d, Inl e)
      | Inr doc \<Rightarrow>
          (case write_evidence_file (me_digest env) (me_elsewhere env) doc d of
             (d', Inl e) \<Rightarrow> (d', Inl e)
           | (d', Inr target) \<Rightarrow>
               (d', Inr (JObj [(''path'', JStr (me_path env dir target)), (''evidence'', JObj doc)]))))"

definition listed_queue :: "string \<Rightarrow> json list \<Rightarrow> json" where
  "listed_queue dir records = JObj [(''schema'', JStr QUEUE_SCHEMA), (''root'', JStr dir),
     (''records'', JList records), (''count'', JInt (int (length records)))]"

fun run_command :: "'w main_env \<Rightarrow> bool \<Rightarrow> cli_command \<Rightarrow> 'w main_state \<Rightarrow> 'w main_state \<times> cli_result res" where
  "run_command env pretty (Store_Init dir) st =
     (case init_store (sw_now (me_world env)) (ms_stores st dir) of
        (s, r) \<Rightarrow> (st\<lparr>ms_stores := (ms_stores st)(dir := s)\<rparr>, printed pretty r))"
| "run_command env pretty (Store_Record dir event_type lane object_id producer payload_json) st =
     (case store_record env event_type lane object_id producer payload_json (ms_stores st dir) of
        (s, r) \<Rightarrow> (st\<lparr>ms_stores := (ms_stores st)(dir := s)\<rparr>, printed pretty (ebind r (\<lambda>e. Inr (JObj e)))))"
| "run_command env pretty (Evidence_Write path evidence_type subject dir) st =
     (case write_evidence env path evidence_type subject dir (ms_evidence st dir) of
        (d, r) \<Rightarrow> (st\<lparr>ms_evidence := (ms_evidence st)(dir := d)\<rparr>, printed pretty r))"
| "run_command env pretty (Orchestration_Init dir) st =
     (case init_event_queue (sw_now (me_world env)) (ms_queues st dir) of
        (q, r) \<Rightarrow> (st\<lparr>ms_queues := (ms_queues st)(dir := q)\<rparr>, printed pretty r))"
| "run_command env pretty (Orchestration_Enqueue dir path) st =
     (case enqueue_event_file dir (sw_now (me_world env)) (me_load env path) (ms_queues st dir) of
        (q, r) \<Rightarrow> (st\<lparr>ms_queues := (ms_queues st)(dir := q)\<rparr>, printed pretty (ebind r (\<lambda>d. Inr (JObj d)))))"
| "run_command env pretty (Orchestration_List dir state) st =
     (case list_event_queue dir (sw_now (me_world env)) state (ms_queues st dir) of
        (q, r) \<Rightarrow> (st\<lparr>ms_queues := (ms_queues st)(dir := q)\<rparr>, printed pretty (ebind r (\<lambda>rs. Inr (listed_queue dir rs)))))"
| "run_command env pretty (Orchestration_Replay dir state) st =
     (case replay_event_queue dir (sw_now (me_world env)) state (ms_queues st dir) of
        (q, r) \<Rightarrow> (st\<lparr>ms_queues := (ms_queues st)(dir := q)\<rparr>, printed pretty r))"
| "run_command env pretty (Orchestration_Summary dir) st =
     (case summarize_event_queue dir (sw_now (me_world env)) (ms_queues st dir) of
        (q, r) \<Rightarrow> (st\<lparr>ms_queues := (ms_queues st)(dir := q)\<rparr>, printed pretty (ebind r (\<lambda>d. Inr (JObj d)))))"
| "run_command env pretty (Sync_Apply a) st =
     (case cmd_sync_apply (me_sync env) pretty a (ms_receipts st, ms_host st) of
        ((stores, w), r) \<Rightarrow> (st\<lparr>ms_receipts := stores, ms_host := w\<rparr>, Inr r))"
| "run_command env pretty Noise_Flush st =
     (st\<lparr>ms_noise := flush (ms_noise st)\<rparr>, Inr (cli_prints pretty 0 (JObj [(''flushed'', JBool True)])))"
| "run_command env pretty command st = (st, read_command env pretty st command)"

definition main_cli :: "'w main_env \<Rightarrow> bool \<Rightarrow> cli_command \<Rightarrow> 'w main_state \<Rightarrow> 'w main_state \<times> cli_result" where
  "main_cli env pretty command st =
     (case run_command env pretty command st of
        (st', r) \<Rightarrow> (st', cli_boundary (ev_describe (me_sync env)) pretty r))"

section \<open>The versions a host records\<close>

text \<open>Under the verifier \<open>ms\<close> and the public key \<open>key\<close> somebody signed a release of this version.\<close>

definition attested_version :: "minisign \<Rightarrow> string option \<Rightarrow> string \<Rightarrow> bool" where
  "attested_version ms key v \<longleftrightarrow> (\<exists>att org cv. dget0 att ''artifactId'' = JStr (expected_artifact_id org cv v)
     \<and> chosen_verifier ms None att key)"

text \<open>No command opts out of attestations, and \<open>sync apply\<close> uses this key.\<close>

definition gated_command :: "string option \<Rightarrow> cli_command \<Rightarrow> bool" where
  "gated_command key c = (case c of Sync_Apply a \<Rightarrow> sy_require_attestation a \<and> sy_attestation_public_key a = key | _ \<Rightarrow> True)"

text \<open>A step of the host is a command of the operator or a poll of a daemon, on any store.\<close>

inductive host_step :: "minisign \<Rightarrow> string option \<Rightarrow> 'w main_state \<Rightarrow> 'w main_state \<Rightarrow> bool" for ms key where
  by_command: "main_cli env pretty c st = (st', r) \<Longrightarrow> ev_minisign (me_sync env) = ms \<Longrightarrow> gated_command key c
    \<Longrightarrow> host_step ms key st st'"
| by_poll: "poll_once cfg env (ms_receipts st dir) (ms_host st) = ((rs, w), r) \<Longrightarrow> c_require_attestation cfg
    \<Longrightarrow> c_attestation_verifier cfg = None \<Longrightarrow> c_attestation_public_key cfg = key \<Longrightarrow> e_minisign env = ms
    \<Longrightarrow> host_step ms key st (st\<lparr>ms_receipts := (ms_receipts st)(dir := rs), ms_host := w\<rparr>)"

inductive_cases host_stepE: "host_step ms key st st'"

definition versions_attested :: "minisign \<Rightarrow> string option \<Rightarrow> 'w main_state \<Rightarrow> bool" where
  "versions_attested ms key st \<longleftrightarrow> (\<forall>d. case rs_version_file (ms_receipts st d) of
     None \<Rightarrow> True | Some t \<Rightarrow> \<exists>v. t = v @ [newline] \<and> attested_version ms key v)"

lemma run_command_receipts:
  assumes "run_command env pretty c st = (st', r)" and "\<And>a. c \<noteq> Sync_Apply a"
  shows "ms_receipts st' = ms_receipts st"
  using assms by (cases c) (auto split: prod.splits)

lemma authorised_version:
  assumes "plan ms s m att = Inr p" and "plan_allowed p" and "s_require_attestation s" and "s_attestation_verifier s = None"
    and "m_version m = JStr v"
  shows "attested_version ms (s_attestation_public_key s) v"
proof -
  have "authorised ms s m att" using assms(1-3) plan_allowed_iff [of ms s m att] by auto
  then obtain a where "dget0 a ''artifactId'' = JStr (expected_artifact_id (m_org m) (m_content_view m) v)"
      "chosen_verifier ms None a (s_attestation_public_key s)"
    using assms(4,5) by (auto simp: authorised_def elim!: attestation_validE)
  then show ?thesis unfolding attested_version_def by blast
qed

lemma version_step:
  assumes "host_step ms key st st'" and "rs_version_file (ms_receipts st' d) \<noteq> rs_version_file (ms_receipts st d)"
  shows "\<exists>v. rs_version_file (ms_receipts st' d) = Some (v @ [newline]) \<and> attested_version ms key v"
  using assms(1)
proof cases
  case (by_command env pretty c r)
  obtain r' where run: "run_command env pretty c st = (st', r')"
    using by_command(1) by (auto simp: main_cli_def split: prod.splits)
  have "ms_receipts st' \<noteq> ms_receipts st" using assms(2) by auto
  then obtain a where a: "c = Sync_Apply a" using run_command_receipts [OF run] by blast
  obtain stores w x where ap: "cmd_sync_apply (me_sync env) pretty a (ms_receipts st, ms_host st) = ((stores, w), x)"
      "ms_receipts st' = stores"
    using run a by (auto split: prod.splits)
  obtain m p att v where v: "plan (ev_minisign (me_sync env)) (syncer_of_args a) m att = Inr p" "plan_allowed p"
      "m_version m = JStr v" "rs_version_file (stores d) = Some (v @ [newline])"
    using apply_version [OF ap(1)] assms(2) ap(2) by blast
  have "attested_version ms key v"
    using authorised_version [OF v(1,2) _ _ v(3)] by_command(2,3) a by (simp add: syncer_of_args_def gated_command_def)
  then show ?thesis using v(4) ap(2) by blast
next
  case (by_poll cfg env dir rs w r)
  have d: "d = dir" "rs_version_file rs \<noteq> rs_version_file (ms_receipts st dir)"
    using assms(2) by_poll(1) by (auto split: if_splits)
  obtain m p v where v: "plan (e_minisign env) (syncer_for cfg (read_current_version (ms_receipts st dir))) m
      (load_attestation cfg (e_files env) m) = Inr p" "plan_allowed p" "m_version m = JStr v" "rs_version_file rs = Some (v @ [newline])"
    using version_change [OF by_poll(2) d(2)] by blast
  have "attested_version ms key v"
    using authorised_version [OF v(1,2) _ _ v(3)] by_poll(3-6) by (simp add: syncer_for_def)
  then show ?thesis using v(4) by_poll(1) d(1) by simp
qed

interpretation host_versions: invariant_machine "host_step ms key" "versions_attested ms key" for ms key
proof
  fix st st' :: "'a main_state"
  assume step: "host_step ms key st st'" and inv: "versions_attested ms key st"
  show "versions_attested ms key st'"
    unfolding versions_attested_def
  proof
    fix d
    show "case rs_version_file (ms_receipts st' d) of None \<Rightarrow> True | Some t \<Rightarrow> \<exists>v. t = v @ [newline] \<and> attested_version ms key v"
    proof (cases "rs_version_file (ms_receipts st' d) = rs_version_file (ms_receipts st d)")
      case True
      then show ?thesis using inv by (simp add: versions_attested_def)
    next
      case False
      show ?thesis using version_step [OF step False] by auto
    qed
  qed
qed

text \<open>
  C5: whatever the operator and the daemons do, only attested versions are recorded.  From a host whose stores record no version, after any interleaving of commands of
  the command line and polls of daemons on any stores, of which none opts out of the gate, every version file holds one line, and an attestation of exactly that
  version was accepted under the key.
\<close>

theorem recorded_versions_attested:
  assumes "(host_step ms key)\<^sup>*\<^sup>* st st'" and "\<And>d. rs_version_file (ms_receipts st d) = None"
    and "rs_version_file (ms_receipts st' d) = Some t"
  shows "\<exists>v. t = v @ [newline] \<and> attested_version ms key v"
proof -
  have "versions_attested ms key st" using assms(2) by (simp add: versions_attested_def)
  then have "versions_attested ms key st'" using host_versions.inv_reachable [OF assms(1)] by blast
  then show ?thesis using assms(3) by (auto simp: versions_attested_def dest: spec [of _ d])
qed

definition ex_state :: "unit main_state" where
  "ex_state = \<lparr>ms_stores = no_store, ms_queues = (\<lambda>d. no_queue), ms_receipts = (\<lambda>d. empty_store), ms_evidence = (\<lambda>d. []),
     ms_noise = new_engine default_noise_config, ms_host = ()\<rparr>"

definition ex_main :: "unit main_env" where
  "ex_main = \<lparr>me_sync = ex_cli, me_world = example_service, me_load = (\<lambda>p. Inl (FileNotFound p)), me_stdin = Inl (ValueError ''''), me_expanduser = (\<lambda>p. p), me_path = path_join,
     me_elsewhere = (\<lambda>f t d. (d, Inl (FileNotFound f))),
     me_probe = \<lparr>hp_nix = True, hp_nixos_rebuild = True, hp_katello = Inr 200\<rparr>, me_daemon_state = Some ''active''\<rparr>"

theorem recorded_versions_attested_witness:
  "\<exists>st'. host_step ex_minisign (Some ''RWSkey'') ex_state st' \<and> rs_version_file (ms_receipts st' ''/s'') = Some (''2.0'' @ [newline])
    \<and> attested_version ex_minisign (Some ''RWSkey'') ''2.0''"
proof -
  obtain stores w r where run: "cmd_sync_apply ex_cli True ex_args (\<lambda>d. empty_store, ()) = ((stores, w), r)"
    by (metis surj_pair)
  then have version: "rs_version_file (stores ''/s'') = Some (''2.0'' @ [newline])" using ex_apply by simp
  define st' where "st' = ex_state\<lparr>ms_receipts := stores, ms_host := w\<rparr>"
  have "main_cli ex_main True (Sync_Apply ex_args) ex_state = (st', r)"
    using run by (simp add: main_cli_def st'_def cli_boundary_def) (simp add: ex_main_def ex_state_def)
  moreover have "ev_minisign (me_sync ex_main) = ex_minisign" "gated_command (Some ''RWSkey'') (Sync_Apply ex_args)"
    by (simp_all add: ex_main_def ex_cli_def gated_command_def ex_args_def default_sync_args_def)
  ultimately have step: "host_step ex_minisign (Some ''RWSkey'') ex_state st'" by (rule by_command)
  have "\<And>d. rs_version_file (ms_receipts ex_state d) = None" by (simp add: ex_state_def empty_store_def)
  moreover have "rs_version_file (ms_receipts st' ''/s'') = Some (''2.0'' @ [newline])" by (simp add: st'_def version)
  ultimately show ?thesis
    using recorded_versions_attested [OF r_into_rtranclp [of "host_step ex_minisign (Some ''RWSkey'')", OF step], of "''/s''" "''2.0'' @ [newline]"] step
    by (intro exI [of _ st']) auto
qed

end
