(* ===== verification/Example_Validators.thy ===== *)
theory Example_Validators
  imports Event_Queue Tooling
begin

text \<open>
  The validators that run over the example files of the repository: \<open>validate_orchestration_examples.py\<close> and
  \<open>validate_control_plane_examples.py\<close>.  A file is its path and what reading and parsing it gives, or
  the text of the exception.
\<close>

section \<open>Reading\<close>

definition load_example :: "string \<Rightarrow> string + json \<Rightarrow> json res" where
  "load_example path loaded = (case loaded of
     Inl why \<Rightarrow> Inl (SystemExit (path @ '': invalid JSON: '' @ why)) | Inr v \<Rightarrow> Inr v)"

definition load_example_object :: "string \<Rightarrow> string + json \<Rightarrow> jdict res" where
  "load_example_object path loaded = ebind (load_example path loaded) (\<lambda>v. case v of
     JObj d \<Rightarrow> Inr d | _ \<Rightarrow> Inl (SystemExit (path @ '': expected top-level JSON object'')))"

text \<open>\<open>v.get\<close> needs a dict.\<close>

definition as_dict :: "json \<Rightarrow> jdict res" where
  "as_dict v = (case v of JObj d \<Rightarrow> Inr d | _ \<Rightarrow> Inl AttributeError)"

lemma as_dict_Inr_iff [simp, res_simps]: "as_dict v = Inr d \<longleftrightarrow> v = JObj d"
  by (cases v) (auto simp: as_dict_def)

text \<open>The message when \<open>v\<close> is not in the set.\<close>

definition note_unknown :: "json \<Rightarrow> string list \<Rightarrow> string \<Rightarrow> string list res" where
  "note_unknown v S msg = ebind (in_set v S) (\<lambda>b. Inr (note_if (\<not> b) msg))"

lemma note_unknown_Nil [simp]: "note_unknown v S msg = Inr [] \<longleftrightarrow> v \<in> JStr ` set S"
  by (auto simp: note_unknown_def in_set_def)

text \<open>The messages for the keys whose value is false.\<close>

definition note_falsy :: "jdict \<Rightarrow> string list \<Rightarrow> string \<Rightarrow> string list" where
  "note_falsy d keys prefix = concat (map (\<lambda>k. note_if (\<not> truthy (dget0 d k)) (prefix @ k)) keys)"

lemma note_falsy_Nil [simp]: "note_falsy d keys prefix = [] \<longleftrightarrow> list_all (\<lambda>k. truthy (dget0 d k)) keys"
  by (auto simp: note_falsy_def list_all_iff)

section \<open>Orchestration bundles\<close>

definition REQUIRED_TOP_LEVEL :: "string list" where
  "REQUIRED_TOP_LEVEL = [''schema_version'', ''contract_version'', ''bundle_id'', ''data_mode'', ''adapters'', ''device_nodes'',
     ''events'', ''receipts'']"

definition OUTCOMES :: "string list" where
  "OUTCOMES = [''allowed'', ''denied'', ''requires_approval'', ''requires_local_only'', ''redacted'', ''degraded'']"

fun collect_ids :: "string \<Rightarrow> string \<Rightarrow> string list \<Rightarrow> json list \<Rightarrow> (string list \<times> string list) res" where
  "collect_ids path field ids [] = Inr (ids, [])"
| "collect_ids path field ids (item # items) =
     ebind (jget item field JNull) (\<lambda>v.
     case v of
       JStr s \<Rightarrow>
         if s = '''' then ebind (collect_ids path field ids items) (\<lambda>(all_ids, es).
           Inr (all_ids, (path @ '': item missing '' @ field) # es))
         else ebind (collect_ids path field (if s \<in> set ids then ids else ids @ [s]) items) (\<lambda>(all_ids, es).
           Inr (all_ids, note_if (s \<in> set ids) (path @ '': duplicate '' @ field @ '' '' @ s) @ es))
     | _ \<Rightarrow> ebind (collect_ids path field ids items) (\<lambda>(all_ids, es).
           Inr (all_ids, (path @ '': item missing '' @ field) # es)))"

definition node_errors :: "string \<Rightarrow> string list \<Rightarrow> json \<Rightarrow> string list res" where
  "node_errors path adapter_ids v =
     ebind (as_dict v) (\<lambda>node. let here = path @ '': node '' @ py_str (dget0 node ''node_id'') in
     ebind (note_unknown (dget0 node ''ecosystem_adapter'') adapter_ids
       (here @ '' references unknown adapter '' @ py_str (dget0 node ''ecosystem_adapter''))) (\<lambda>es.
     Inr (es @ note_falsy node [''trust_state'', ''revocation_status''] (here @ '' missing ''))))"

definition note_unknown_actor :: "json \<Rightarrow> string list \<Rightarrow> string list \<Rightarrow> string \<Rightarrow> string list res" where
  "note_unknown_actor actor node_ids adapter_ids msg =
     ebind (in_set actor node_ids) (\<lambda>b. if b then Inr [] else note_unknown actor adapter_ids msg)"

definition bundle_event_errors :: "string \<Rightarrow> string list \<Rightarrow> string list \<Rightarrow> json \<Rightarrow> string list res" where
  "bundle_event_errors path adapter_ids node_ids v =
     ebind (as_dict v) (\<lambda>event. let here = path @ '': event '' @ py_str (dget0 event ''event_id'') in
     collect [
       note_unknown (dget0 event ''subject_node_id'') node_ids (here @ '' references unknown subject node''),
       note_unknown_actor (dget0 event ''actor_id'') node_ids adapter_ids (here @ '' references unknown actor''),
       note_unknown (dget0 event ''adapter_id'') adapter_ids (here @ '' references unknown adapter''),
       ebind (object_or_empty (dget0 event ''privacy'')) (\<lambda>privacy.
         Inr (note_falsy privacy [''retention_class'', ''redaction_class'', ''location_scope''] (here @ '' missing privacy.'')))])"

definition parent_errors :: "string \<Rightarrow> string list \<Rightarrow> jdict \<Rightarrow> string list res" where
  "parent_errors here receipt_ids receipt =
     ebind (py_iter (dget receipt ''lineage_parent_receipt_ids'' (JList []))) (\<lambda>parents.
     collect (map (\<lambda>parent. note_unknown parent receipt_ids (here @ '' references unknown parent '' @ py_str parent)) parents))"

definition bundle_receipt_errors ::
  "string \<Rightarrow> string list \<Rightarrow> string list \<Rightarrow> string list \<Rightarrow> string list \<Rightarrow> json \<Rightarrow> string list res" where
  "bundle_receipt_errors path adapter_ids node_ids event_ids receipt_ids v =
     ebind (as_dict v) (\<lambda>receipt. let here = path @ '': receipt '' @ py_str (dget0 receipt ''receipt_id'') in
     collect [
       note_unknown (dget0 receipt ''event_id'') event_ids (here @ '' references unknown event''),
       note_unknown (dget0 receipt ''subject_node_id'') node_ids (here @ '' references unknown subject node''),
       note_unknown_actor (dget0 receipt ''actor_id'') node_ids adapter_ids (here @ '' references unknown actor''),
       note_unknown (dget0 receipt ''source_adapter_id'') adapter_ids (here @ '' references unknown source adapter''),
       note_unknown (dget0 receipt ''policy_outcome'') OUTCOMES (here @ '' has invalid policy_outcome''),
       parent_errors here receipt_ids receipt,
       Inr (note_falsy receipt [''retention_class'', ''redaction_class''] (here @ '' missing ''))])"

definition header_errors :: "string \<Rightarrow> jdict \<Rightarrow> string list" where
  "header_errors path d =
     map (\<lambda>k. path @ '': missing required key '' @ repr_str k) (sorted_set (missing_keys REQUIRED_TOP_LEVEL d))
   @ note_if (dget0 d ''schema_version'' \<noteq> JStr ''sourceos.orchestration.bundle.v0.1'')
       (path @ '': schema_version must be sourceos.orchestration.bundle.v0.1'')
   @ note_if (dget0 d ''contract_version'' \<noteq> JStr ''sdo.v0.1'') (path @ '': contract_version must be sdo.v0.1'')
   @ note_if (dget0 d ''data_mode'' \<noteq> JStr ''fixture'') (path @ '': bootstrap examples must use data_mode=fixture'')"

definition group_of :: "jdict \<Rightarrow> string \<Rightarrow> json" where
  "group_of d k = py_or (dget0 d k) (JList [])"

definition GROUPS :: "string list" where
  "GROUPS = [''adapters'', ''device_nodes'', ''events'', ''receipts'']"

fun group_items :: "json \<Rightarrow> json list" where
  "group_items (JList xs) = xs" | "group_items _ = []"

definition members :: "jdict \<Rightarrow> string \<Rightarrow> json list" where
  "members d k = group_items (group_of d k)"

definition reference_errors ::
  "string \<Rightarrow> jdict \<Rightarrow> string list res" where
  "reference_errors path d =
     ebind (collect_ids path ''adapter_id'' [] (members d ''adapters'')) (\<lambda>(adapter_ids, es1).
     ebind (collect_ids path ''node_id'' [] (members d ''device_nodes'')) (\<lambda>(node_ids, es2).
     ebind (collect_ids path ''event_id'' [] (members d ''events'')) (\<lambda>(event_ids, es3).
     ebind (collect_ids path ''receipt_id'' [] (members d ''receipts'')) (\<lambda>(receipt_ids, es4).
     collect ([Inr es1, Inr es2, Inr es3, Inr es4]
       @ map (node_errors path adapter_ids) (members d ''device_nodes'')
       @ map (bundle_event_errors path adapter_ids node_ids) (members d ''events'')
       @ map (bundle_receipt_errors path adapter_ids node_ids event_ids receipt_ids) (members d ''receipts''))))))"

definition validate_bundle :: "string \<Rightarrow> string + json \<Rightarrow> string list res" where
  "validate_bundle path loaded =
     ebind (load_example_object path loaded) (\<lambda>d.
     if \<not> list_all (\<lambda>k. is_list (group_of d k)) GROUPS
     then Inr (header_errors path d @ [path @ '': adapters, device_nodes, events, and receipts must be lists''])
     else collect [Inr (header_errors path d), reference_errors path d])"

section \<open>Event-capability records\<close>

text \<open>\<open>v == w\<close> for JSON values.  Elements of lists and dicts are equal also when they are one object, as the \<open>NaN\<close> of the
  parser is.\<close>

function same :: "json \<Rightarrow> json \<Rightarrow> bool" where
  "same (JList xs) w = (case w of JList ys \<Rightarrow> length xs = length ys \<and> (\<forall>i < length xs. same (xs ! i) (ys ! i)) | _ \<Rightarrow> False)"
| "same (JObj d) w = (case w of
     JObj e \<Rightarrow> length d = length e \<and> list_all (\<lambda>(k, x). case map_of e k of None \<Rightarrow> False | Some y \<Rightarrow> same x y) d
   | _ \<Rightarrow> False)"
| "same JNull w = (w = JNull)"
| "same (JBool b) w = py_eq (JBool b) w"
| "same (JInt i) w = py_eq (JInt i) w"
| "same (JFloat x) w = py_eq (JFloat x) w"
| "same (JStr s) w = (w = JStr s)"
  by pat_completeness auto
termination
  by (relation "measure (size \<circ> fst)")
    (auto simp: less_Suc_eq_le elim!: size_list_estimation' [OF nth_mem] intro: size_list_estimation')

definition json_equal :: "json \<Rightarrow> json \<Rightarrow> bool" where
  "json_equal v w \<longleftrightarrow> same v w \<and> v \<noteq> JFloat NaN"

definition record_id_errors :: "string \<Rightarrow> nat \<Rightarrow> string list \<Rightarrow> json \<Rightarrow> string list" where
  "record_id_errors path i ids rid =
     (case rid of
        JStr s \<Rightarrow> if s = '''' then [path @ '': record '' @ nat_str i @ '' missing record_id'']
                  else note_if (s \<in> set ids) (path @ '': duplicate record_id '' @ s)
      | _ \<Rightarrow> [path @ '': record '' @ nat_str i @ '' missing record_id''])"

definition seen_ids :: "string list \<Rightarrow> json \<Rightarrow> string list" where
  "seen_ids ids rid = (case rid of JStr s \<Rightarrow> if s = '''' \<or> s \<in> set ids then ids else ids @ [s] | _ \<Rightarrow> ids)"

definition nonempty_list :: "json \<Rightarrow> bool" where
  "nonempty_list v \<longleftrightarrow> is_list v \<and> truthy v"

definition part_errors :: "string \<Rightarrow> jdict \<Rightarrow> jdict \<Rightarrow> jdict \<Rightarrow> jdict \<Rightarrow> string list res" where
  "part_errors here r event capability reaction =
     collect [
       Inr (note_falsy event [''event_id'', ''event_type'', ''target_node_id''] (here @ '' event missing '')),
       ebind (object_or_empty (dget0 event ''causality'')) (\<lambda>causality.
         Inr (note_falsy causality [''idempotency_key'', ''policy_epoch''] (here @ '' event.causality missing ''))),
       Inr (note_falsy capability [''capability_id'', ''display_name'', ''effect_class'', ''required_policy_outcome'', ''approval_mode'']
         (here @ '' capability missing '')),
       note_unknown (dget0 capability ''required_policy_outcome'') OUTCOMES
         (here @ '' capability has invalid required_policy_outcome''),
       Inr (note_falsy reaction [''reaction_id'', ''event_id'', ''capability_id'', ''policy_outcome'', ''status''] (here @ '' reaction missing '')
         @ note_if (\<not> json_equal (dget0 reaction ''event_id'') (dget0 event ''event_id''))
             (here @ '' reaction event_id must match event.event_id'')
         @ note_if (\<not> json_equal (dget0 reaction ''capability_id'') (dget0 capability ''capability_id''))
             (here @ '' reaction capability_id must match capability.capability_id'')),
       note_unknown (dget0 reaction ''policy_outcome'') OUTCOMES (here @ '' reaction has invalid policy_outcome''),
       Inr (note_if (\<not> nonempty_list (dget0 reaction ''receipt_refs'')) (here @ '' reaction must include receipt_refs'')
         @ note_if (\<not> is_bool (dget0 reaction ''dead_letter_on_failure''))
             (here @ '' reaction.dead_letter_on_failure must be boolean'')
         @ note_if (\<not> nonempty_list (dget0 r ''evidence_refs'')) (here @ '' must include evidence_refs''))]"

definition record_errors :: "string \<Rightarrow> nat \<Rightarrow> string list \<Rightarrow> jdict \<Rightarrow> string list res" where
  "record_errors path i ids r =
     (let rid = dget0 r ''record_id'';
          here = path @ '': record '' @ py_str rid;
          first = record_id_errors path i ids rid
            @ note_if (dget0 r ''mode'' \<noteq> JStr ''event-capability-evidence-v0'')
                (here @ '' mode must be event-capability-evidence-v0'')
      in case (dget0 r ''event'', dget0 r ''capability'', dget0 r ''reaction'') of
           (JObj event, JObj capability, JObj reaction) \<Rightarrow>
             collect [Inr first, part_errors here r event capability reaction]
         | (JObj event, JObj capability, _) \<Rightarrow> Inr (first @ [here @ '' missing reaction object''])
         | (JObj event, _, _) \<Rightarrow> Inr (first @ [here @ '' missing capability object''])
         | _ \<Rightarrow> Inr (first @ [here @ '' missing event object'']))"

fun record_list_errors :: "string \<Rightarrow> nat \<Rightarrow> string list \<Rightarrow> json list \<Rightarrow> string list res" where
  "record_list_errors path i ids [] = Inr []"
| "record_list_errors path i ids (JObj r # rest) =
     ebind (record_errors path i ids r) (\<lambda>es.
     ebind (record_list_errors path (Suc i) (seen_ids ids (dget0 r ''record_id'')) rest) (\<lambda>es'. Inr (es @ es')))"
| "record_list_errors path i ids (v # rest) =
     ebind (record_list_errors path (Suc i) ids rest) (\<lambda>es.
     Inr ((path @ '': record '' @ nat_str i @ '' must be an object'') # es))"

definition validate_event_capability_records :: "string \<Rightarrow> string + json \<Rightarrow> string list res" where
  "validate_event_capability_records path loaded =
     ebind (load_example path loaded) (\<lambda>v. case v of
        JList [] \<Rightarrow> Inr [path @ '': record set must not be empty'']
      | JList rs \<Rightarrow> record_list_errors path 0 [] rs
      | _ \<Rightarrow> Inr [path @ '': expected top-level JSON array for *.records.json''])"

text \<open>\<open>main\<close>: the files of the directory in order.  \<open>SystemExit\<close> with a text ends the program with 1 and the text on the error stream.\<close>

definition ends_in :: "pyerr \<Rightarrow> exit_result res" where
  "ends_in e = (case e of SystemExit msg \<Rightarrow> Inr (fails [msg]) | _ \<Rightarrow> Inl e)"

definition validation_result :: "string \<Rightarrow> string list res \<Rightarrow> exit_result res" where
  "validation_result good r =
     (case r of Inl e \<Rightarrow> ends_in e | Inr [] \<Rightarrow> Inr (exits [good]) | Inr errors \<Rightarrow> Inr (fails errors))"

definition validate_orchestration_file :: "string \<times> (string + json) \<Rightarrow> string list res" where
  "validate_orchestration_file f =
     (if ends_with ''.records.json'' (fst f) then validate_event_capability_records (fst f) (snd f)
      else validate_bundle (fst f) (snd f))"

definition validate_orchestration_examples :: "(string \<times> (string + json)) list \<Rightarrow> exit_result res" where
  "validate_orchestration_examples files =
     validation_result ''SourceOS orchestration examples validated.'' (collect (map validate_orchestration_file files))"

section \<open>Control plane examples\<close>

definition EXAMPLE_SEVERITIES :: "string list" where
  "EXAMPLE_SEVERITIES = [''trace'', ''debug'', ''info'', ''notice'', ''warning'', ''error'', ''critical'']"
definition EVENT_OUTCOMES :: "string list" where
  "EVENT_OUTCOMES = [''allowed'', ''blocked_expected'', ''blocked_unexpected'', ''blocked_attack_like'', ''degraded'', ''failed'',
     ''repaired'', ''observed'']"
definition PRIVACY_TIERS :: "string list" where
  "PRIVACY_TIERS = [''public_summary'', ''user_private'', ''admin_forensic'', ''sealed_secret'']"
definition QUIET_SEVERITIES :: "string list" where
  "QUIET_SEVERITIES = [''trace'', ''debug'', ''info'', ''notice'']"
definition REQUIRED_EVENT_KEYS :: "string list" where
  "REQUIRED_EVENT_KEYS = [''schema_version'', ''event_id'', ''event_class'', ''lane'', ''severity'', ''outcome'', ''created_at'',
     ''host'', ''actor'', ''causality'', ''subject'', ''privacy'', ''operator_narrative'', ''sync'']"
definition REQUIRED_SERVICE_KEYS :: "string list" where
  "REQUIRED_SERVICE_KEYS = [''schema_version'', ''service_id'', ''display_name'', ''owner'', ''authority_domain'', ''lifecycle'',
     ''capabilities'', ''data_classes'', ''launch_triggers'', ''resource_budget'', ''observability'']"

definition require_keys :: "string \<Rightarrow> jdict \<Rightarrow> string list \<Rightarrow> string list" where
  "require_keys path d keys = map (\<lambda>k. path @ '': missing required key '' @ repr_str k) (sorted_set (missing_keys keys d))"

definition loud_block :: "jdict \<Rightarrow> bool res" where
  "loud_block d =
     (if dget0 d ''outcome'' = JStr ''blocked_expected''
      then ebind (in_set (dget0 d ''severity'') QUIET_SEVERITIES) (\<lambda>b. Inr (\<not> b))
      else Inr False)"

definition validate_example_event :: "string \<Rightarrow> string + json \<Rightarrow> string list res" where
  "validate_example_event path loaded =
     ebind (load_example_object path loaded) (\<lambda>d.
     collect [
       Inr (require_keys path d REQUIRED_EVENT_KEYS
         @ note_if (dget0 d ''schema_version'' \<noteq> JStr ''sourceos.event.v0.1'') (path @ '': schema_version must be sourceos.event.v0.1'')),
       note_unknown (dget0 d ''severity'') EXAMPLE_SEVERITIES (path @ '': invalid severity '' @ py_repr (dget0 d ''severity'')),
       note_unknown (dget0 d ''outcome'') EVENT_OUTCOMES (path @ '': invalid outcome '' @ py_repr (dget0 d ''outcome'')),
       ebind (object_or_empty (dget0 d ''privacy'')) (\<lambda>privacy.
         note_unknown (dget0 privacy ''tier'') PRIVACY_TIERS (path @ '': invalid privacy.tier '' @ py_repr (dget0 privacy ''tier''))),
       ebind (object_or_empty (dget0 d ''causality'')) (\<lambda>causality.
         Inr (note_if (\<not> truthy (dget0 causality ''root_event_id'') \<or> \<not> truthy (dget0 causality ''trace_id''))
           (path @ '': causality.root_event_id and trace_id are required''))),
       ebind (object_or_empty (dget0 d ''operator_narrative'')) (\<lambda>narrative.
         Inr (concat (map (\<lambda>k. note_if (\<not> truthy (dget0 narrative k)) (path @ '': operator_narrative.'' @ k @ '' is required''))
           [''summary'', ''risk'', ''why'', ''next_action'']))),
       ebind (loud_block d) (\<lambda>b. Inr (note_if b (path @ '': blocked_expected should not be warning/error by default'')))])"

definition validate_example_service :: "string \<Rightarrow> string + json \<Rightarrow> string list res" where
  "validate_example_service path loaded =
     ebind (load_example_object path loaded) (\<lambda>d.
     ebind (object_or_empty (dget0 d ''capabilities'')) (\<lambda>caps.
     Inr (require_keys path d REQUIRED_SERVICE_KEYS
       @ note_if (dget0 d ''schema_version'' \<noteq> JStr ''sourceos.service.v0.1'') (path @ '': schema_version must be sourceos.service.v0.1'')
       @ concat (map (\<lambda>k. note_if (\<not> is_list (dget0 caps k)) (path @ '': capabilities.'' @ k @ '' must be a list''))
           [''required'', ''optional'', ''denied'']))))"

definition validate_prefix :: "string \<Rightarrow> string \<times> (string + json) \<Rightarrow> string list res" where
  "validate_prefix version f =
     ebind (load_example_object (fst f) (snd f)) (\<lambda>d.
     Inr (note_if (dget0 d ''schema_version'' \<noteq> JStr version) (fst f @ '': schema_version must be '' @ version)))"

text \<open>The files of the five directories.\<close>

record control_plane_files =
  cp_events :: "(string \<times> (string + json)) list"
  cp_services :: "(string \<times> (string + json)) list"
  cp_capabilities :: "(string \<times> (string + json)) list"
  cp_launch :: "(string \<times> (string + json)) list"
  cp_incidents :: "(string \<times> (string + json)) list"

definition validate_control_plane_examples :: "control_plane_files \<Rightarrow> exit_result res" where
  "validate_control_plane_examples files =
     validation_result ''SourceOS control-plane examples validated.''
       (collect (map (\<lambda>(p, v). validate_example_event p v) (cp_events files)
         @ map (\<lambda>(p, v). validate_example_service p v) (cp_services files)
         @ map (validate_prefix ''sourceos.capability.v0.1'') (cp_capabilities files)
         @ map (validate_prefix ''sourceos.launch_manifest.v0.1'') (cp_launch files)
         @ map (validate_prefix ''sourceos.incident.v0.1'') (cp_incidents files)))"

section \<open>What a valid record has\<close>

lemma str_nonempty: "truthy v \<Longrightarrow> py_str v \<noteq> ''''"
proof (cases v)
  case (JInt i)
  then show ?thesis by (simp add: int_str_def)
next
  case (JFloat x)
  then show ?thesis by (cases x) (auto simp: dec_repr_def Let_def)
qed auto

text \<open>The identifiers of a group, and the condition on them: every member is an object with a string that is not empty, and no
  identifier occurs twice.\<close>

definition ids_of :: "json list \<Rightarrow> string \<Rightarrow> string list" where
  "ids_of items field = map (\<lambda>v. str_value (dget0 (dict_or_empty v) field)) items"

definition identified :: "json list \<Rightarrow> string \<Rightarrow> bool" where
  "identified items field \<longleftrightarrow>
     (\<forall>v \<in> set items. \<exists>d s. v = JObj d \<and> dget0 d field = JStr s \<and> s \<noteq> '''') \<and> distinct (ids_of items field)"

lemma collect_ids_Nil:
  "collect_ids path field ids items = Inr (all_ids, []) \<longleftrightarrow>
     identified items field \<and> set (ids_of items field) \<inter> set ids = {} \<and> all_ids = ids @ ids_of items field"
proof (induction items arbitrary: ids)
  case Nil
  then show ?case by (auto simp: identified_def ids_of_def)
next
  case (Cons item items)
  show ?case
  proof (cases "\<exists>d s. item = JObj d \<and> dget0 d field = JStr s \<and> s \<noteq> ''''")
    case True
    then obtain d s where v: "item = JObj d" "dget0 d field = JStr s" "s \<noteq> ''''" by blast
    show ?thesis using Cons.IH [of "ids @ [s]"]
      by (auto simp: v res_simps identified_def ids_of_def)
  next
    case False
    then show ?thesis
      by (cases item) (auto simp: res_simps identified_def split: json.splits if_splits)
  qed
qed

text \<open>What the validator promises of a bundle: every reference names a member of the right group.\<close>

abbreviation among :: "json \<Rightarrow> string list \<Rightarrow> bool" where
  "among v S \<equiv> v \<in> JStr ` set S"

definition header_ok :: "jdict \<Rightarrow> bool" where
  "header_ok d \<longleftrightarrow> (\<forall>k \<in> set REQUIRED_TOP_LEVEL. dhas d k)
     \<and> dget0 d ''schema_version'' = JStr ''sourceos.orchestration.bundle.v0.1''
     \<and> dget0 d ''contract_version'' = JStr ''sdo.v0.1'' \<and> dget0 d ''data_mode'' = JStr ''fixture''"

definition node_ok :: "string list \<Rightarrow> jdict \<Rightarrow> bool" where
  "node_ok adapter_ids node \<longleftrightarrow> among (dget0 node ''ecosystem_adapter'') adapter_ids
     \<and> truthy (dget0 node ''trust_state'') \<and> truthy (dget0 node ''revocation_status'')"

definition bundle_event_ok :: "string list \<Rightarrow> string list \<Rightarrow> jdict \<Rightarrow> bool" where
  "bundle_event_ok adapter_ids node_ids event \<longleftrightarrow> among (dget0 event ''subject_node_id'') node_ids
     \<and> among (dget0 event ''actor_id'') (node_ids @ adapter_ids) \<and> among (dget0 event ''adapter_id'') adapter_ids
     \<and> (\<exists>privacy. dget0 event ''privacy'' = JObj privacy
          \<and> (\<forall>k \<in> {''retention_class'', ''redaction_class'', ''location_scope''}. truthy (dget0 privacy k)))"

definition bundle_receipt_ok :: "string list \<Rightarrow> string list \<Rightarrow> string list \<Rightarrow> string list \<Rightarrow> jdict \<Rightarrow> bool" where
  "bundle_receipt_ok adapter_ids node_ids event_ids receipt_ids receipt \<longleftrightarrow>
     among (dget0 receipt ''event_id'') event_ids \<and> among (dget0 receipt ''subject_node_id'') node_ids
     \<and> among (dget0 receipt ''actor_id'') (node_ids @ adapter_ids) \<and> among (dget0 receipt ''source_adapter_id'') adapter_ids
     \<and> among (dget0 receipt ''policy_outcome'') OUTCOMES
     \<and> (\<exists>parents. py_iter (dget receipt ''lineage_parent_receipt_ids'' (JList [])) = Inr parents
          \<and> (\<forall>parent \<in> set parents. among parent receipt_ids))
     \<and> truthy (dget0 receipt ''retention_class'') \<and> truthy (dget0 receipt ''redaction_class'')"

definition references_ok :: "json list \<Rightarrow> json list \<Rightarrow> json list \<Rightarrow> json list \<Rightarrow> bool" where
  "references_ok adapters nodes events receipts \<longleftrightarrow>
     (let adapter_ids = ids_of adapters ''adapter_id''; node_ids = ids_of nodes ''node_id'';
          event_ids = ids_of events ''event_id''; receipt_ids = ids_of receipts ''receipt_id''
      in (\<forall>v \<in> set nodes. node_ok adapter_ids (dict_or_empty v))
       \<and> (\<forall>v \<in> set events. bundle_event_ok adapter_ids node_ids (dict_or_empty v))
       \<and> (\<forall>v \<in> set receipts. bundle_receipt_ok adapter_ids node_ids event_ids receipt_ids (dict_or_empty v)))"

definition bundle_ok :: "jdict \<Rightarrow> bool" where
  "bundle_ok d \<longleftrightarrow> header_ok d \<and> (\<forall>k \<in> set GROUPS. is_list (group_of d k))
     \<and> identified (members d ''adapters'') ''adapter_id'' \<and> identified (members d ''device_nodes'') ''node_id''
     \<and> identified (members d ''events'') ''event_id'' \<and> identified (members d ''receipts'') ''receipt_id''
     \<and> references_ok (members d ''adapters'') (members d ''device_nodes'') (members d ''events'') (members d ''receipts'')"

lemma header_errors_Nil: "header_errors path d = [] \<longleftrightarrow> header_ok d"
  by (auto simp: header_errors_def header_ok_def missing_keys_empty_iff list_all_iff)

lemma object_or_empty_result: "object_or_empty v = Inr d \<longleftrightarrow> (v = JObj d \<or> \<not> truthy v \<and> d = [])"
  by (cases v) (auto simp: object_or_empty_def py_or_def)

lemma node_errors_Nil: "node_errors path adapter_ids (JObj node) = Inr [] \<longleftrightarrow> node_ok adapter_ids node"
  by (simp add: node_errors_def Let_def res_simps node_ok_def as_dict_def)

lemma note_unknown_actor_Nil [simp]:
  "note_unknown_actor v node_ids adapter_ids msg = Inr [] \<longleftrightarrow> among v (node_ids @ adapter_ids)"
  by (auto simp: note_unknown_actor_def res_simps in_set_def)

lemma privacy_Nil:
  "ebind (object_or_empty v) (\<lambda>p. Inr (note_falsy p (k # keys) msg)) = Inr []
     \<longleftrightarrow> (\<exists>p. v = JObj p \<and> (\<forall>x \<in> set (k # keys). truthy (dget0 p x)))"
  by (auto simp: res_simps object_or_empty_result list_all_iff)

lemma bundle_event_errors_Nil:
  "bundle_event_errors path adapter_ids node_ids (JObj event) = Inr [] \<longleftrightarrow> bundle_event_ok adapter_ids node_ids event"
  by (simp add: bundle_event_errors_def Let_def as_dict_def bundle_event_ok_def privacy_Nil)

lemma parent_errors_Nil:
  "parent_errors here receipt_ids receipt = Inr [] \<longleftrightarrow>
     (\<exists>parents. py_iter (dget receipt ''lineage_parent_receipt_ids'' (JList [])) = Inr parents
        \<and> (\<forall>parent \<in> set parents. among parent receipt_ids))"
  by (auto simp: parent_errors_def res_simps list_all_iff)

lemma bundle_receipt_errors_Nil:
  "bundle_receipt_errors path adapter_ids node_ids event_ids receipt_ids (JObj receipt) = Inr []
     \<longleftrightarrow> bundle_receipt_ok adapter_ids node_ids event_ids receipt_ids receipt"
  by (simp add: bundle_receipt_errors_def Let_def as_dict_def bundle_receipt_ok_def parent_errors_Nil)

lemma list_all_members:
  assumes "identified items field" and "\<And>d. F (JObj d) = Inr [] \<longleftrightarrow> P d"
  shows "list_all (\<lambda>p. p = Inr []) (map F items) \<longleftrightarrow> (\<forall>v \<in> set items. P (dict_or_empty v))"
proof -
  have "F v = Inr [] \<longleftrightarrow> P (dict_or_empty v)" if "v \<in> set items" for v
    using assms that by (auto simp: identified_def dest: bspec)
  then show ?thesis by (auto simp: list_all_iff)
qed

lemmas members_ok =
  list_all_members [where F = "node_errors path ids" and P = "node_ok ids" for path ids, OF _ node_errors_Nil]
  list_all_members [where F = "bundle_event_errors path ids ns" and P = "bundle_event_ok ids ns" for path ids ns, OF _ bundle_event_errors_Nil]
  list_all_members [where F = "bundle_receipt_errors path ids ns es rs" and P = "bundle_receipt_ok ids ns es rs" for path ids ns es rs,
    OF _ bundle_receipt_errors_Nil]

lemma reference_errors_Nil:
  "reference_errors path d = Inr [] \<longleftrightarrow>
     (identified (members d ''adapters'') ''adapter_id'' \<and> identified (members d ''device_nodes'') ''node_id''
     \<and> identified (members d ''events'') ''event_id'' \<and> identified (members d ''receipts'') ''receipt_id'')
     \<and> references_ok (members d ''adapters'') (members d ''device_nodes'') (members d ''events'') (members d ''receipts'')"
  (is "?lhs \<longleftrightarrow> ?ids \<and> ?refs")
proof
  assume ?lhs
  then obtain a n e r where c: "collect_ids path ''adapter_id'' [] (members d ''adapters'') = Inr (a, [])"
      "collect_ids path ''node_id'' [] (members d ''device_nodes'') = Inr (n, [])"
      "collect_ids path ''event_id'' [] (members d ''events'') = Inr (e, [])"
      "collect_ids path ''receipt_id'' [] (members d ''receipts'') = Inr (r, [])"
    by (auto simp: reference_errors_def res_simps)
  then have ids: ?ids by (simp add: collect_ids_Nil)
  note m = members_ok(1) [OF conjunct1 [OF conjunct2 [OF ids]]] members_ok(2) [OF conjunct1 [OF conjunct2 [OF conjunct2 [OF ids]]]]
    members_ok(3) [OF conjunct2 [OF conjunct2 [OF conjunct2 [OF ids]]]]
  have ?refs
    using \<open>?lhs\<close> c by (simp add: reference_errors_def collect_ids_Nil references_ok_def m Let_def)
  with ids show "?ids \<and> ?refs" by blast
next
  assume both: "?ids \<and> ?refs"
  then have ids: ?ids by blast
  note m = members_ok(1) [OF conjunct1 [OF conjunct2 [OF ids]]] members_ok(2) [OF conjunct1 [OF conjunct2 [OF conjunct2 [OF ids]]]]
    members_ok(3) [OF conjunct2 [OF conjunct2 [OF conjunct2 [OF ids]]]]
  from ids have "collect_ids path ''adapter_id'' [] (members d ''adapters'') = Inr (ids_of (members d ''adapters'') ''adapter_id'', [])"
      "collect_ids path ''node_id'' [] (members d ''device_nodes'') = Inr (ids_of (members d ''device_nodes'') ''node_id'', [])"
      "collect_ids path ''event_id'' [] (members d ''events'') = Inr (ids_of (members d ''events'') ''event_id'', [])"
      "collect_ids path ''receipt_id'' [] (members d ''receipts'') = Inr (ids_of (members d ''receipts'') ''receipt_id'', [])"
    by (simp_all add: collect_ids_Nil)
  with both show ?lhs
    by (simp add: reference_errors_def references_ok_def m Let_def)
qed

text \<open>
  The validator of orchestration bundles accepts exactly the bundles with referential integrity: the header is right, the four groups are lists of objects
  with distinct identifiers, and every adapter, node, actor, event and parent receipt that is named is a member of its group.
\<close>

theorem bundle_accepted_iff:
  "validate_bundle path (Inr (JObj d)) = Inr [] \<longleftrightarrow> bundle_ok d"
  by (auto simp: validate_bundle_def load_example_object_def load_example_def header_errors_Nil reference_errors_Nil bundle_ok_def
      list_all_iff)

section \<open>Valid records and the queue\<close>

lemma str_field_nonempty: "truthy (dget0 d k) \<Longrightarrow> str_field d k \<noteq> ''''"
  using dget_value [of d k "dget0 d k" "JStr ''''"] str_nonempty by (cases "dget0 d k = JNull") (auto simp: str_field_def)

definition complete_record :: "jdict \<Rightarrow> bool" where
  "complete_record r \<longleftrightarrow> (\<exists>event capability reaction causality.
     dget0 r ''event'' = JObj event \<and> dget0 r ''capability'' = JObj capability \<and> dget0 r ''reaction'' = JObj reaction
     \<and> dget0 event ''causality'' = JObj causality \<and> truthy (dget0 event ''event_id'') \<and> truthy (dget0 capability ''capability_id'')
     \<and> truthy (dget0 causality ''idempotency_key'') \<and> truthy (dget0 r ''evidence_refs'')
     \<and> among (dget0 reaction ''policy_outcome'') OUTCOMES \<and> is_bool (dget0 reaction ''dead_letter_on_failure''))"

lemma record_errors_Nil:
  assumes "record_errors path i ids r = Inr []"
  shows "complete_record r" and "\<exists>s. dget0 r ''record_id'' = JStr s \<and> s \<noteq> '''' \<and> s \<notin> set ids"
proof -
  obtain event capability reaction where parts: "dget0 r ''event'' = JObj event" "dget0 r ''capability'' = JObj capability"
      "dget0 r ''reaction'' = JObj reaction"
    using assms by (auto simp: record_errors_def Let_def split: json.splits)
  obtain here where errors: "part_errors here r event capability reaction = Inr []"
    and first: "record_id_errors path i ids (dget0 r ''record_id'') = []"
    using assms by (auto simp: record_errors_def Let_def parts)
  from errors obtain causality where "dget0 event ''causality'' = JObj causality" "truthy (dget0 causality ''idempotency_key'')"
    by (auto simp: part_errors_def privacy_Nil)
  with errors parts show "complete_record r"
    by (auto simp: complete_record_def part_errors_def nonempty_list_def)
  show "\<exists>s. dget0 r ''record_id'' = JStr s \<and> s \<noteq> '''' \<and> s \<notin> set ids"
    using first by (auto simp: record_id_errors_def split: json.splits if_splits)
qed

lemma record_list_Nil:
  assumes "record_list_errors path i ids rs = Inr []"
  shows "(\<forall>v \<in> set rs. \<exists>r. v = JObj r \<and> complete_record r)
    \<and> distinct (ids_of rs ''record_id'') \<and> set (ids_of rs ''record_id'') \<inter> set ids = {}"
  using assms
proof (induction rs arbitrary: i ids)
  case Nil
  then show ?case by (simp add: ids_of_def)
next
  case (Cons v rs)
  obtain r where v: "v = JObj r" "record_errors path i ids r = Inr []"
      "record_list_errors path (Suc i) (seen_ids ids (dget0 r ''record_id'')) rs = Inr []"
    using Cons.prems by (cases v) (auto simp: res_simps)
  obtain s where s: "dget0 r ''record_id'' = JStr s" "s \<noteq> ''''" "s \<notin> set ids"
    using record_errors_Nil(2) [OF v(2)] by blast
  show ?case
    using Cons.IH [OF v(3)] record_errors_Nil(1) [OF v(2)] s by (auto simp: v(1) ids_of_def seen_ids_def)
qed

definition SEMANTIC_ERRORS :: "string list" where
  "SEMANTIC_ERRORS = [''dead_letter_on_failure must be true'', ''policy outcome does not match capability required_policy_outcome'',
     ''high-risk event capability cannot be directly allowed'', ''high-risk approval outcome lacks strict approval mode'']"

lemma complete_record_errors:
  assumes "complete_record r"
  shows "set (ev_errors (validate_event_record r)) \<subseteq> set SEMANTIC_ERRORS"
proof -
  obtain event capability reaction causality where r: "dget0 r ''event'' = JObj event" "dget0 r ''capability'' = JObj capability"
      "dget0 r ''reaction'' = JObj reaction" "dget0 event ''causality'' = JObj causality"
    and full: "truthy (dget0 event ''event_id'')" "truthy (dget0 capability ''capability_id'')"
      "truthy (dget0 causality ''idempotency_key'')" "truthy (dget0 r ''evidence_refs'')"
    using assms unfolding complete_record_def by blast
  note texts = full(1-3) [THEN str_field_nonempty]
  show ?thesis
    using texts full(4) by (auto simp: validate_event_record_def Let_def r event_errors_def py_or_def SEMANTIC_ERRORS_def note_if_def)
qed

lemma queue_state_valid:
  assumes "outcome \<in> set OUTCOMES" and "queue_state outcome errors = ''dead-letter''"
  shows "errors \<noteq> []"
  using assms
  by (auto simp: queue_state_def OUTCOMES_def EXECUTABLE_OUTCOMES_def WAITING_OUTCOMES_def BLOCKING_OUTCOMES_def split: if_splits)

lemma dicts_in_objects: "dicts_in (map JObj rs) = rs"
  by (induction rs) (simp_all add: dicts_in_def)

text \<open>
  C33: a record file that the validator of the examples accepts is fit for the event queue.  It is a list of objects with distinct identifiers; of each record the queue finds the
  event, the capability, the idempotency key and the evidence, so that it can only object to the four semantic rules; and a record that ends in the dead-letter directory breaks one of them.
\<close>

theorem accepted_records_fit_the_queue:
  assumes "validate_event_capability_records path (Inr v) = Inr []"
  shows "\<exists>rs. v = JList (map JObj rs) \<and> rs \<noteq> [] \<and> distinct (map (\<lambda>r. dget0 r ''record_id'') rs)
    \<and> extract_records v = Inr rs
    \<and> (\<forall>r \<in> set rs. set (ev_errors (validate_event_record r)) \<subseteq> set SEMANTIC_ERRORS
        \<and> (ev_state (validate_event_record r) = ''dead-letter'' \<longrightarrow> ev_errors (validate_event_record r) \<noteq> []))"
proof -
  obtain vs where vs: "v = JList vs" "vs \<noteq> []" "record_list_errors path 0 [] vs = Inr []"
    using assms by (auto simp: validate_event_capability_records_def load_example_def split: json.splits list.splits)
  note ok = record_list_Nil [OF vs(3)]
  define rs where "rs = map dict_or_empty vs"
  have v: "vs = map JObj rs" using ok by (auto simp: rs_def intro!: map_idI [symmetric])
  have complete: "complete_record r" if "r \<in> set rs" for r using ok that by (auto simp: v)
  have "distinct (map (\<lambda>r. dget0 r ''record_id'') rs)"
    using ok by (auto simp: v ids_of_def distinct_map o_def inj_on_def)
  moreover have "extract_records v = Inr rs" by (simp add: vs(1) v dicts_in_objects)
  moreover have "ev_errors (validate_event_record r) \<noteq> []"
    if r: "r \<in> set rs" and dead: "ev_state (validate_event_record r) = ''dead-letter''" for r
  proof -
    obtain reaction s where "dget0 r ''reaction'' = JObj reaction" "dget0 reaction ''policy_outcome'' = JStr s" "s \<in> set OUTCOMES"
      using complete [OF r] by (auto simp: complete_record_def)
    then show ?thesis
      using dead queue_state_valid [of s] dget_value [of reaction "''policy_outcome''" "JStr s" "JStr ''''"]
      by (simp add: validate_event_record_def Let_def str_field_def)
  qed
  ultimately show ?thesis using vs(1,2) v complete_record_errors [OF complete] by blast
qed

section \<open>An event and its severity\<close>

text \<open>
  On the examples of the control plane, an expected block is quiet: an accepted event with the outcome \<open>blocked_expected\<close> has a severity below
  \<open>warning\<close>, and every accepted event has its keys, a known severity and a known outcome.
\<close>

lemma accepted_example_event:
  assumes "validate_example_event path (Inr (JObj d)) = Inr []"
  shows "(\<forall>k \<in> set REQUIRED_EVENT_KEYS. dhas d k)"
    and "dget0 d ''outcome'' = JStr ''blocked_expected'' \<Longrightarrow> among (dget0 d ''severity'') QUIET_SEVERITIES"
    and "among (dget0 d ''severity'') EXAMPLE_SEVERITIES" and "among (dget0 d ''outcome'') EVENT_OUTCOMES"
proof -
  note ok = assms [unfolded validate_example_event_def load_example_object_def load_example_def, simplified]
  show "\<forall>k \<in> set REQUIRED_EVENT_KEYS. dhas d k" using ok by (simp add: require_keys_def missing_keys_empty_iff list_all_iff)
  show "among (dget0 d ''severity'') QUIET_SEVERITIES" if "dget0 d ''outcome'' = JStr ''blocked_expected''"
    using ok that by (auto simp: loud_block_def res_simps in_set_def split: if_splits)
  show "among (dget0 d ''severity'') EXAMPLE_SEVERITIES" "among (dget0 d ''outcome'') EVENT_OUTCOMES" using ok by simp_all
qed

definition ex_example_record :: "string \<Rightarrow> json" where
  "ex_example_record outcome = JObj [
     (''record_id'', JStr ''record:1''), (''mode'', JStr ''event-capability-evidence-v0''),
     (''event'', JObj [(''event_id'', JStr ''event:1''), (''event_type'', JStr ''note''), (''target_node_id'', JStr ''node:1''),
        (''causality'', JObj [(''idempotency_key'', JStr ''k1''), (''policy_epoch'', JStr ''1'')])]),
     (''capability'', JObj [(''capability_id'', JStr ''cap:1''), (''display_name'', JStr ''Read''),
        (''effect_class'', JStr ''local_read''), (''required_policy_outcome'', JStr ''allowed''), (''approval_mode'', JStr ''none'')]),
     (''reaction'', JObj [(''reaction_id'', JStr ''reaction:1''), (''event_id'', JStr ''event:1''), (''capability_id'', JStr ''cap:1''),
        (''policy_outcome'', JStr outcome), (''status'', JStr ''planned''), (''receipt_refs'', strs [''receipt:1'']),
        (''dead_letter_on_failure'', JBool True)]),
     (''evidence_refs'', strs [''receipt:1''])]"

theorem accepted_records_fit_the_queue_witness:
  "\<exists>r. extract_records (JList [ex_example_record ''denied'']) = Inr [r]
    \<and> ev_errors (validate_event_record r) = [''policy outcome does not match capability required_policy_outcome'']"
proof -
  have accepted: "validate_event_capability_records ''x.records.json'' (Inr (JList [ex_example_record ''denied''])) = Inr []"
    by code_simp
  have "ev_errors (validate_event_record (dict_or_empty (ex_example_record ''denied'')))
      = [''policy outcome does not match capability required_policy_outcome'']" by code_simp
  with accepted_records_fit_the_queue [OF accepted] show ?thesis
    by (auto simp: ex_example_record_def Cons_eq_map_conv)
qed

end
