(* ===== verification/Repository_Checks.thy ===== *)
theory Repository_Checks
  imports Example_Validators Service_Graph
begin

text \<open>
  The checks of the continuous integration that hold the repository's declarations: the ratchet of \<open>validate_manifest_declarations.py\<close>, the schema
  interpreter of \<open>validate_orggov_state_integrity_binding.py\<close> and the mapping check of
  \<open>validate_semantic_enterprise_state_integrity.py\<close>.
\<close>

section \<open>Declarations of the manifest\<close>

definition KNOWN_UNIMPLEMENTED :: "string list" where
  "KNOWN_UNIMPLEMENTED = [''sync.cycle.planned'', ''sync.cycle.applied'', ''sync.cycle.denied'', ''sync.cycle.failed'',
     ''content_sync.locus_gate_bypass'', ''content_sync.katello_credential_exposure'']"

definition CHECKED_KEYS :: "string list" where
  "CHECKED_KEYS = [''auditEvents'', ''dangerousSurfaces'']"

definition EXCLUDED :: "string list" where
  "EXCLUDED = [''.sourceos/manifest.json'', ''tools/validate_manifest_declarations.py'']"

text \<open>\<open>s.split()\<close>.\<close>

function words :: "string \<Rightarrow> string list" where
  "words s = (let t = dropWhile is_space s in
     if t = [] then [] else takeWhile (\<lambda>c. \<not> is_space c) t # words (dropWhile (\<lambda>c. \<not> is_space c) t))"
  by pat_completeness auto
termination
proof (relation "measure length")
  fix s t :: string
  assume t: "t = dropWhile is_space s" "t \<noteq> []"
  have "\<not> is_space (hd t)" using t hd_dropWhile by blast
  then have "length (dropWhile (\<lambda>c. \<not> is_space c) t) < length t"
    using t(2) by (cases t) (auto simp: less_Suc_eq_le length_dropWhile_le)
  also have "\<dots> \<le> length s" by (simp add: t(1) length_dropWhile_le)
  finally show "(dropWhile (\<lambda>c. \<not> is_space c) t, s) \<in> measure length" by simp
qed simp

declare words.simps [simp del]

text \<open>What \<open>git ls-files\<close> prints, and the text of a file, \<open>None\<close> for an \<open>OSError\<close>.\<close>

definition source_blob :: "string \<Rightarrow> (string \<Rightarrow> string option) \<Rightarrow> string" where
  "source_blob listing text_of =
     join [newline] (List.map_filter text_of [rel \<leftarrow> words listing. rel \<notin> set EXCLUDED])"

datatype item_verdict = Implemented string | Debt string | Missing string

definition classify_item :: "string \<Rightarrow> string \<Rightarrow> json \<Rightarrow> item_verdict res" where
  "classify_item blob key item =
     (case item of
        JStr s \<Rightarrow> Inr ((if contains s blob then Implemented
                        else if s \<in> set KNOWN_UNIMPLEMENTED then Debt else Missing) (key @ '':'' @ s))
      | _ \<Rightarrow> Inl TypeError)"

definition declared_items :: "json \<Rightarrow> string \<Rightarrow> json list res" where
  "declared_items manifest key = ebind (jget manifest key (JList [])) py_iter"

definition classify_key :: "string \<Rightarrow> json \<Rightarrow> string \<Rightarrow> item_verdict list res" where
  "classify_key blob manifest key = ebind (declared_items manifest key) (emap (classify_item blob key))"

definition missing_items :: "item_verdict list \<Rightarrow> string list" where
  "missing_items ds = List.map_filter (\<lambda>d. case d of Missing s \<Rightarrow> Some s | _ \<Rightarrow> None) ds"
definition debt_items :: "item_verdict list \<Rightarrow> string list" where
  "debt_items ds = List.map_filter (\<lambda>d. case d of Debt s \<Rightarrow> Some s | _ \<Rightarrow> None) ds"
definition found_items :: "item_verdict list \<Rightarrow> string list" where
  "found_items ds = List.map_filter (\<lambda>d. case d of Implemented s \<Rightarrow> Some s | _ \<Rightarrow> None) ds"

definition stale_entries :: "string \<Rightarrow> json list \<Rightarrow> string list" where
  "stale_entries blob declared =
     map (\<lambda>s. ''KNOWN_UNIMPLEMENTED lists '' @ repr_str s @ '', which the manifest no longer declares'')
       (sort [s \<leftarrow> KNOWN_UNIMPLEMENTED. JStr s \<notin> set declared])
   @ map (\<lambda>s. ''KNOWN_UNIMPLEMENTED lists '' @ repr_str s @ '', which IS now implemented '' @ em_dash
         @ '' remove it, or it will keep excusing a future regression'')
       (sort [s \<leftarrow> KNOWN_UNIMPLEMENTED. contains s blob])"

definition report_declarations :: "item_verdict list \<Rightarrow> string list \<Rightarrow> exit_result" where
  "report_declarations ds missing =
     (let found = found_items ds; debt = debt_items ds;
          listing = map (\<lambda>i. ''  IMPLEMENTED  '' @ i) (sort found)
            @ map (\<lambda>i. ''  DEBT         '' @ i @ ''  (declared, emitted by nothing)'') (sort debt)
      in if missing \<noteq> [] then
           \<lparr>ex_code = 1, ex_out = listing,
            ex_err = [[newline] @ nat_str (length missing) @ '' declaration(s) with no implementation and no dated exemption:'' @ [newline]]
              @ map (\<lambda>i. ''  '' @ i) missing
              @ [[newline] @ ''A manifest declaration must correspond to something in the source. Implement it, or - only if it is genuinely deferred - add it to KNOWN_UNIMPLEMENTED with a dated reason.'']\<rparr>
         else if debt \<noteq> [] then
           exits (listing @ [[newline] @ ''OK ratchet holds '' @ em_dash @ '' '' @ nat_str (length found) @ '' implemented, ''
             @ nat_str (length debt) @ '' known debt, 0 new''])
         else exits (listing @ [[newline] @ ''OK every manifest declaration corresponds to source ('' @ nat_str (length found) @ '' checked)'']))"

text \<open>The manifest is absent, or its text parses or not.\<close>

definition validate_manifest_declarations :: "string \<Rightarrow> (string + json) option \<Rightarrow> string \<Rightarrow> exit_result res" where
  "validate_manifest_declarations where_manifest loaded blob =
     (case loaded of
        None \<Rightarrow> Inr (exits [''no manifest at '' @ where_manifest @ ''; nothing to check''])
      | Some (Inl why) \<Rightarrow> Inl (ValueError why)
      | Some (Inr manifest) \<Rightarrow>
          ebind (emap (classify_key blob manifest) CHECKED_KEYS) (\<lambda>dss.
          ebind (emap (declared_items manifest) CHECKED_KEYS) (\<lambda>declared.
          Inr (report_declarations (concat dss) (missing_items (concat dss) @ stale_entries blob (concat declared))))))"

definition string_lists :: "jdict \<Rightarrow> string list \<Rightarrow> string list \<Rightarrow> bool" where
  "string_lists m audits surfaces \<longleftrightarrow>
     dget m ''auditEvents'' (JList []) = strs audits \<and> dget m ''dangerousSurfaces'' (JList []) = strs surfaces"

definition item_state :: "string \<Rightarrow> string \<Rightarrow> string \<Rightarrow> item_verdict" where
  "item_state blob key s = (if contains s blob then Implemented
     else if s \<in> set KNOWN_UNIMPLEMENTED then Debt else Missing) (key @ '':'' @ s)"

lemma classify_strings: "emap (classify_item blob key) (map JStr xs) = Inr (map (item_state blob key) xs)"
  by (induction xs) (simp_all add: classify_item_def item_state_def)

lemma missing_states: "missing_items (map (item_state blob key) xs)
    = map (\<lambda>s. key @ '':'' @ s) [s \<leftarrow> xs. \<not> contains s blob \<and> s \<notin> set KNOWN_UNIMPLEMENTED]"
  by (induction xs) (simp_all add: missing_items_def item_state_def map_filter_def)

lemma debt_states: "debt_items (map (item_state blob key) xs)
    = map (\<lambda>s. key @ '':'' @ s) [s \<leftarrow> xs. \<not> contains s blob \<and> s \<in> set KNOWN_UNIMPLEMENTED]"
  by (induction xs) (simp_all add: debt_items_def item_state_def map_filter_def)

lemma items_append:
  "missing_items (xs @ ys) = missing_items xs @ missing_items ys" "debt_items (xs @ ys) = debt_items xs @ debt_items ys"
  by (simp_all add: missing_items_def debt_items_def map_filter_def)

lemma report_code: "ex_code (report_declarations ds missing) = (if missing = [] then 0 else 1)"
  by (simp add: report_declarations_def Let_def)

lemma sort_Nil: "sort xs = [] \<longleftrightarrow> xs = []"
  by (metis length_0_conv length_sort)

lemma stale_Nil: "stale_entries blob declared = [] \<longleftrightarrow>
    (\<forall>s \<in> set KNOWN_UNIMPLEMENTED. JStr s \<in> set declared \<and> \<not> contains s blob)"
  by (auto simp: stale_entries_def filter_empty_conv sort_Nil)

lemma checked_strings:
  assumes "string_lists m audits surfaces"
  shows "validate_manifest_declarations w (Some (Inr (JObj m))) blob = Inr (report_declarations
      (map (item_state blob ''auditEvents'') audits @ map (item_state blob ''dangerousSurfaces'') surfaces)
      (missing_items (map (item_state blob ''auditEvents'') audits @ map (item_state blob ''dangerousSurfaces'') surfaces)
        @ stale_entries blob (map JStr audits @ map JStr surfaces)))"
  using assms
  by (simp add: validate_manifest_declarations_def CHECKED_KEYS_def classify_key_def declared_items_def string_lists_def classify_strings)

text \<open>
  The ratchet holds exactly when every declaration is accounted for: each declared event or surface occurs in the source or is one of the known debts, each known debt is still declared, and
  none occurs in the source.
\<close>

theorem ratchet_holds_iff:
  assumes "string_lists m audits surfaces"
  shows "\<exists>r. validate_manifest_declarations w (Some (Inr (JObj m))) blob = Inr r
    \<and> (ex_code r = 0 \<longleftrightarrow>
        (\<forall>s \<in> set audits \<union> set surfaces. contains s blob \<or> s \<in> set KNOWN_UNIMPLEMENTED)
        \<and> set KNOWN_UNIMPLEMENTED \<subseteq> set audits \<union> set surfaces
        \<and> (\<forall>s \<in> set KNOWN_UNIMPLEMENTED. \<not> contains s blob))"
  using checked_strings [OF assms, of w blob]
  by (auto simp: report_code items_append missing_states stale_Nil filter_empty_conv image_iff)

theorem ratchet_holds_iff_witness:
  "\<exists>r. validate_manifest_declarations ''m'' (Some (Inr (JObj [(''auditEvents'', strs KNOWN_UNIMPLEMENTED)]))) ''x'' = Inr r \<and> ex_code r = 0"
proof -
  have "string_lists [(''auditEvents'', strs KNOWN_UNIMPLEMENTED)] KNOWN_UNIMPLEMENTED []" by (simp add: string_lists_def)
  moreover have "\<forall>s \<in> set KNOWN_UNIMPLEMENTED. \<not> contains s ''x''" by code_simp
  ultimately show ?thesis using ratchet_holds_iff [of _ KNOWN_UNIMPLEMENTED "[]" "''m''" "''x''"] by auto
qed

section \<open>The schema interpreter of the OrgGov binding\<close>

fun json_type_name :: "json \<Rightarrow> string" where
  "json_type_name JNull = ''null''"
| "json_type_name (JBool b) = ''boolean''"
| "json_type_name (JInt i) = ''integer''"
| "json_type_name (JFloat x) = ''number''"
| "json_type_name (JStr s) = ''string''"
| "json_type_name (JList xs) = ''array''"
| "json_type_name (JObj d) = ''object''"

definition type_matches :: "json \<Rightarrow> json \<Rightarrow> bool" where
  "type_matches v expected =
     (if expected = JStr ''number'' then json_type_name v \<in> {''integer'', ''number''} else expected = JStr (json_type_name v))"

definition orggov_fail :: "string \<Rightarrow> 'a res" where
  "orggov_fail msg = Inl (ValidationError msg)"

definition fail_if :: "bool \<Rightarrow> string \<Rightarrow> unit res" where
  "fail_if b msg = (if b then orggov_fail msg else Inr ())"

lemma fail_if_Inr [simp]: "fail_if b msg = Inr u \<longleftrightarrow> \<not> b"
  by (simp add: fail_if_def orggov_fail_def)

text \<open>\<open>v in w\<close>.\<close>

fun in_value :: "json \<Rightarrow> json \<Rightarrow> bool res" where
  "in_value v (JList xs) = Inr (\<exists>x \<in> set xs. same x v)"
| "in_value v (JObj d) = (if hashable v then Inr (\<exists>k \<in> set (map fst d). v = JStr k) else Inl TypeError)"
| "in_value v (JStr t) = (case v of JStr s \<Rightarrow> Inr (contains s t) | _ \<Rightarrow> Inl TypeError)"
| "in_value v _ = Inl TypeError"

text \<open>What a value that is no dict raises when it is used as a schema.\<close>

fun bad_schema :: "json \<Rightarrow> pyerr" where
  "bad_schema (JList xs) = (if JStr ''const'' \<in> set xs \<or> JStr ''enum'' \<in> set xs then TypeError else AttributeError)"
| "bad_schema (JStr s) = (if contains ''const'' s \<or> contains ''enum'' s then TypeError else AttributeError)"
| "bad_schema _ = TypeError"

definition check_const :: "jdict \<Rightarrow> json \<Rightarrow> string \<Rightarrow> unit res" where
  "check_const sch v path = fail_if (dhas sch ''const'' \<and> \<not> json_equal v (dget0 sch ''const''))
     (path @ '': expected const '' @ py_repr (dget0 sch ''const'') @ '', got '' @ py_repr v)"

definition check_enum :: "jdict \<Rightarrow> json \<Rightarrow> string \<Rightarrow> unit res" where
  "check_enum sch v path =
     (if dhas sch ''enum'' then
        ebind (in_value v (dget0 sch ''enum'')) (\<lambda>b.
        fail_if (\<not> b) (path @ '': '' @ py_repr v @ '' not in enum '' @ py_repr (dget0 sch ''enum'')))
      else Inr ())"

definition expected_types :: "json \<Rightarrow> json list" where
  "expected_types t = (case t of JList ts \<Rightarrow> ts | _ \<Rightarrow> [t])"

definition check_type :: "jdict \<Rightarrow> json \<Rightarrow> string \<Rightarrow> unit res" where
  "check_type sch v path = (let t = dget0 sch ''type'' in
     fail_if (t \<noteq> JNull \<and> \<not> list_ex (type_matches v) (expected_types t))
       (path @ '': expected type '' @ py_repr (JList (expected_types t)) @ '', got '' @ repr_str (json_type_name v)))"

definition check_required :: "jdict \<Rightarrow> jdict \<Rightarrow> string \<Rightarrow> unit res" where
  "check_required sch d path =
     ebind (py_iter (dget sch ''required'' (JList []))) (\<lambda>keys.
     ebind (emap (\<lambda>key. ebind (in_value key (JObj d)) (\<lambda>b.
        fail_if (\<not> b) (path @ '': missing required property '' @ py_repr key))) keys) (\<lambda>_. Inr ()))"

definition check_extra :: "jdict \<Rightarrow> jdict \<Rightarrow> string \<Rightarrow> unit res" where
  "check_extra sch d path =
     (if dget0 sch ''additionalProperties'' = JBool False then
        ebind (set_of (dget sch ''properties'' (JObj []))) (\<lambda>properties.
        let extra = sorted_set [k \<leftarrow> map fst d. JStr k \<notin> set properties] in
        fail_if (extra \<noteq> []) (path @ '': unexpected properties '' @ py_repr (strs extra)))
      else Inr ())"

definition check_local :: "jdict \<Rightarrow> json \<Rightarrow> string \<Rightarrow> unit res" where
  "check_local sch v path =
     ebind (check_const sch v path) (\<lambda>_. ebind (check_enum sch v path) (\<lambda>_. ebind (check_type sch v path) (\<lambda>_.
     case v of
       JObj d \<Rightarrow> ebind (check_required sch d path) (\<lambda>_. check_extra sch d path)
     | _ \<Rightarrow> Inr ())))"

text \<open>The schema of a property: its own, or that of additional properties; \<open>None\<close> when there is none.\<close>

definition child_schema :: "jdict \<Rightarrow> string \<Rightarrow> json res" where
  "child_schema sch key =
     ebind (jget (dget sch ''properties'' (JObj [])) key JNull) (\<lambda>child.
     Inr (if child = JNull \<and> is_dict (dget0 sch ''additionalProperties'') then dget0 sch ''additionalProperties'' else child))"

lemma emap_cong [fundef_cong]: "xs = ys \<Longrightarrow> (\<And>x. x \<in> set ys \<Longrightarrow> f x = g x) \<Longrightarrow> emap f xs = emap g ys"
  by (induction ys arbitrary: xs) auto

lemma emap_unit_iff: "(\<exists>us. emap f xs = Inr us) \<longleftrightarrow> (\<forall>x \<in> set xs. \<exists>u. f x = Inr u)"
  by (induction xs) (auto simp: res_simps)

text \<open>A value is smaller than the object or list that holds it.\<close>

lemma child_smaller:
  "(k, x) \<in> set d \<Longrightarrow> size x < size (JObj d)"
  "(i, x) \<in> set (enumerate n xs) \<Longrightarrow> size x < size (JList xs)"
proof -
  show "(k, x) \<in> set d \<Longrightarrow> size x < size (JObj d)" by (induction d) auto
  show "size x < size (JList xs)" if "(i, x) \<in> set (enumerate n xs)"
  proof -
    have "x \<in> set xs" using that by (metis enumerate_eq_zip in_set_zipE)
    then show ?thesis by (induction xs) auto
  qed
qed

function validate_schema :: "json \<Rightarrow> json \<Rightarrow> string \<Rightarrow> unit res" where
  "validate_schema schema v path =
     (case schema of
        JObj sch \<Rightarrow>
          ebind (check_local sch v path) (\<lambda>_.
          ebind (case v of
             JObj d \<Rightarrow> emap (\<lambda>(key, item). ebind (child_schema sch key) (\<lambda>child.
                 if child = JNull then Inr () else validate_schema child item (path @ ''.'' @ key))) d
           | JList xs \<Rightarrow> (let items = dget0 sch ''items'' in
                 if items = JNull then Inr []
                 else emap (\<lambda>(i, item). validate_schema items item (path @ ''['' @ nat_str i @ '']'')) (enumerate 0 xs))
           | _ \<Rightarrow> Inr []) (\<lambda>_. Inr ()))
      | _ \<Rightarrow> Inl (bad_schema schema))"
  by pat_completeness auto
termination
  by (relation "measure (\<lambda>(schema, v, path). size v)") (use child_smaller in fastforce)+

declare validate_schema.simps [simp del]

section \<open>The invariants of the binding\<close>

definition require_non_empty_string :: "jdict \<Rightarrow> string \<Rightarrow> unit res" where
  "require_non_empty_string r key =
     fail_if (\<not> (is_str (dget0 r key) \<and> truthy (dget0 r key))) (key @ '': expected non-empty string'')"

definition require_non_empty_list :: "jdict \<Rightarrow> string \<Rightarrow> unit res" where
  "require_non_empty_list r key = (let v = dget0 r key in
     ebind (fail_if (\<not> nonempty_list v) (key @ '': expected non-empty list'')) (\<lambda>_.
     fail_if (case v of JList xs \<Rightarrow> \<not> list_all (\<lambda>x. is_str x \<and> truthy x) xs | _ \<Rightarrow> False) (key @ '': expected non-empty string refs'')))"

definition STRING_REFS :: "string list" where
  "STRING_REFS = [''workroomRef'', ''workOrderRef'', ''actorRef'', ''sessionRef'', ''stateIntegrityReportRef'']"
definition LIST_REFS :: "string list" where
  "LIST_REFS = [''indexLaneRefs'', ''eventRefs'', ''evidenceRefs'']"
definition NARRATIVE_KEYS :: "string list" where
  "NARRATIVE_KEYS = [''summary'', ''why'', ''nextAction'', ''riskRemaining'']"

definition validate_invariants :: "json \<Rightarrow> unit res" where
  "validate_invariants v =
     ebind (as_dict v) (\<lambda>r.
     ebind (emap (require_non_empty_string r) STRING_REFS) (\<lambda>_.
     ebind (emap (require_non_empty_list r) LIST_REFS) (\<lambda>_.
     ebind (as_dict (dget r ''operatorNarrative'' (JObj []))) (\<lambda>narrative.
     ebind (emap (\<lambda>key. fail_if (\<not> (is_str (dget0 narrative key) \<and> truthy (dget0 narrative key)))
        (''operatorNarrative.'' @ key @ '': expected non-empty string'')) NARRATIVE_KEYS) (\<lambda>_.
     ebind (jsub (JObj r) ''provenance'') (\<lambda>p.
     ebind (as_dict p) (\<lambda>provenance.
     fail_if (dget0 provenance ''nonSecret'' \<noteq> JBool True) ''provenance.nonSecret must be true'')))))))"

text \<open>A file is absent, does not parse, or holds a value.\<close>

datatype file_content = Absent | Garbled string | Holds json

definition load_binding :: "string \<Rightarrow> file_content \<Rightarrow> json res" where
  "load_binding rel c =
     (case c of Absent \<Rightarrow> orggov_fail (''missing file: '' @ rel)
      | Garbled why \<Rightarrow> orggov_fail (''invalid JSON in '' @ rel @ '': '' @ why) | Holds v \<Rightarrow> Inr v)"

definition BINDING_SCHEMA :: string where
  "BINDING_SCHEMA = ''schemas/orggov-state-integrity-binding.v0.1.schema.json''"
definition BINDING_EXAMPLE :: string where
  "BINDING_EXAMPLE = ''examples/orggov/state-integrity-binding.v0.1.example.json''"

definition check_binding :: "file_content \<Rightarrow> file_content \<Rightarrow> unit res" where
  "check_binding schema_file example_file =
     ebind (load_binding BINDING_SCHEMA schema_file) (\<lambda>schema.
     ebind (load_binding BINDING_EXAMPLE example_file) (\<lambda>v.
     ebind (validate_schema schema v ''$'') (\<lambda>_. validate_invariants v)))"

definition validate_binding :: "file_content \<Rightarrow> file_content \<Rightarrow> exit_result res" where
  "validate_binding schema_file example_file =
     (case check_binding schema_file example_file of
        Inr u \<Rightarrow> Inr (exits [''ok: examples/orggov/state-integrity-binding.v0.1.example.json validates'',
          ''OK: OrgGov state integrity binding validation passed''])
      | Inl (ValidationError msg) \<Rightarrow> Inr \<lparr>ex_code = 2, ex_out = [], ex_err = [''ERR: '' @ msg]\<rparr>
      | Inl e \<Rightarrow> Inl e)"

section \<open>What the interpreter accepts\<close>

text \<open>
  Conformance is stated on the schema and the value alone, with none of the interpreter's own functions: the schema of a member, the pairs of a schema and a value that
  are parts of a pair, the named types, and what a schema asks of a value at its own place.
\<close>

inductive member_schema :: "jdict \<Rightarrow> string \<Rightarrow> json \<Rightarrow> bool" where
  named: "map_of sch ''properties'' = Some (JObj props) \<Longrightarrow> map_of props k = Some s \<Longrightarrow> s \<noteq> JNull \<Longrightarrow> member_schema sch k s"
| additional: "map_of sch ''additionalProperties'' = Some (JObj a) \<Longrightarrow>
    (\<And>props s. map_of sch ''properties'' = Some (JObj props) \<Longrightarrow> map_of props k = Some s \<Longrightarrow> s = JNull) \<Longrightarrow> member_schema sch k (JObj a)"

inductive_simps member_schema_simps: "member_schema sch k s"

inductive part_of :: "json \<times> json \<Rightarrow> json \<times> json \<Rightarrow> bool" where
  member: "(key, x) \<in> set d \<Longrightarrow> member_schema sch key s \<Longrightarrow> part_of (JObj sch, JObj d) (s, x)"
| element: "x \<in> set xs \<Longrightarrow> map_of sch ''items'' = Some s \<Longrightarrow> s \<noteq> JNull \<Longrightarrow> part_of (JObj sch, JList xs) (s, x)"

inductive_cases part_ofE: "part_of (s, v) (s', v')"

inductive has_type :: "json \<Rightarrow> string \<Rightarrow> bool" where
  "has_type JNull ''null''"
| "has_type (JBool b) ''boolean''"
| "has_type (JInt i) ''integer''"
| "has_type (JInt i) ''number''"
| "has_type (JFloat x) ''number''"
| "has_type (JStr s) ''string''"
| "has_type (JList xs) ''array''"
| "has_type (JObj d) ''object''"

inductive_simps has_type_simps: "has_type v t"

text \<open>The types a schema names, and the names it requires; a string or an object is read name by name, as Python iterates it.\<close>

inductive names_type :: "json \<Rightarrow> string \<Rightarrow> bool" where
  "names_type (JStr t) t"
| "JStr t \<in> set ts \<Longrightarrow> names_type (JList ts) t"

inductive_simps names_type_simps: "names_type e t"

inductive lists_names :: "json \<Rightarrow> string set \<Rightarrow> bool" where
  "lists_names (JList (map JStr names)) (set names)"
| "lists_names (JStr t) ((\<lambda>c. [c]) ` set t)"
| "lists_names (JObj d) (dom (map_of d))"

inductive_simps lists_names_simps: "lists_names (JList xs) N" "lists_names (JStr t) N" "lists_names (JObj d) N"
  "lists_names JNull N" "lists_names (JBool b) N" "lists_names (JInt i) N" "lists_names (JFloat x) N"

text \<open>A value is in an enumeration: equal to an element of a list, a key of an object, or a part of a string.\<close>

inductive enumerates :: "json \<Rightarrow> json \<Rightarrow> bool" where
  "x \<in> set xs \<Longrightarrow> same x v \<Longrightarrow> enumerates (JList xs) v"
| "map_of d k \<noteq> None \<Longrightarrow> enumerates (JObj d) (JStr k)"
| "contains s t \<Longrightarrow> enumerates (JStr t) (JStr s)"

inductive_simps enumerates_simps: "enumerates (JList xs) v" "enumerates (JObj d) v" "enumerates (JStr t) v"
  "enumerates JNull v" "enumerates (JBool b) v" "enumerates (JInt i) v" "enumerates (JFloat x) v"

text \<open>
  What a schema asks of an object: the required names are there; with \<open>additionalProperties\<close> false every key is declared; and the declarations can be read, an object
  for an object that has members, anything \<open>set\<close> accepts for an empty one.
\<close>

definition readable_set :: "json \<Rightarrow> bool" where
  "readable_set p \<longleftrightarrow> (\<exists>d. p = JObj d) \<or> (\<exists>t. p = JStr t) \<or> (\<exists>xs. p = JList xs \<and> (\<forall>x \<in> set xs. hashable x))"

definition object_ok :: "jdict \<Rightarrow> jdict \<Rightarrow> bool" where
  "object_ok sch d \<longleftrightarrow>
     (\<forall>r. map_of sch ''required'' = Some r \<longrightarrow> (\<exists>names. lists_names r names \<and> names \<subseteq> dom (map_of d)))
     \<and> (map_of sch ''additionalProperties'' = Some (JBool False) \<longrightarrow>
          (\<forall>p. map_of sch ''properties'' = Some p \<longrightarrow> readable_set p)
          \<and> (\<forall>k \<in> dom (map_of d). \<exists>props. map_of sch ''properties'' = Some (JObj props) \<and> k \<in> dom (map_of props)))
     \<and> (d \<noteq> [] \<longrightarrow> (\<forall>p. map_of sch ''properties'' = Some p \<longrightarrow> (\<exists>props. p = JObj props)))"

definition local_ok :: "jdict \<Rightarrow> json \<Rightarrow> bool" where
  "local_ok sch v \<longleftrightarrow>
     (\<forall>c. map_of sch ''const'' = Some c \<longrightarrow> json_equal v c)
     \<and> (\<forall>e. map_of sch ''enum'' = Some e \<longrightarrow> enumerates e v)
     \<and> (\<forall>e. map_of sch ''type'' = Some e \<and> e \<noteq> JNull \<longrightarrow> (\<exists>t. names_type e t \<and> has_type v t))
     \<and> (\<forall>d. v = JObj d \<longrightarrow> object_ok sch d)"

definition schema_conforms :: "json \<Rightarrow> json \<Rightarrow> bool" where
  "schema_conforms schema v \<longleftrightarrow> (\<forall>s x. part_of\<^sup>*\<^sup>* (schema, v) (s, x) \<longrightarrow> (\<exists>sch. s = JObj sch \<and> local_ok sch x))"

lemma schema_conforms_unfold:
  "schema_conforms schema v \<longleftrightarrow> (\<exists>sch. schema = JObj sch \<and> local_ok sch v) \<and> (\<forall>s x. part_of (schema, v) (s, x) \<longrightarrow> schema_conforms s x)"
  (is "_ \<longleftrightarrow> ?r")
proof
  show "schema_conforms schema v \<Longrightarrow> ?r"
    unfolding schema_conforms_def by (blast intro: converse_rtranclp_into_rtranclp)
  assume r: ?r
  show "schema_conforms schema v"
    unfolding schema_conforms_def
  proof (intro allI impI)
    fix s x assume "part_of\<^sup>*\<^sup>* (schema, v) (s, x)"
    then show "\<exists>sch. s = JObj sch \<and> local_ok sch x"
    proof (cases rule: converse_rtranclpE)
      case base then show ?thesis using r by simp
    next
      case (step y)
      then show ?thesis using r by (cases y) (auto simp: schema_conforms_def)
    qed
  qed
qed

lemma dhas_in_value: "in_value k (JObj d) = Inr True \<longleftrightarrow> (\<exists>s. k = JStr s \<and> dhas d s)"
  by (cases k) (auto simp: dhas_map_of map_of_eq_None_iff)

lemma fail_bool: "ebind r (\<lambda>b. fail_if (\<not> b) msg) = Inr u \<longleftrightarrow> r = Inr True"
  by (auto simp: res_simps)

lemma emap_then_unit: "ebind (emap f xs) (\<lambda>us. Inr ()) = Inr u \<longleftrightarrow> (\<forall>x \<in> set xs. \<exists>y. f x = Inr y)"
  by (simp add: res_simps emap_unit_iff)

lemma check_const_Inr: "check_const sch v path = Inr u \<longleftrightarrow> (\<forall>c. map_of sch ''const'' = Some c \<longrightarrow> json_equal v c)"
  by (auto simp: check_const_def dhas_map_of dget_def split: option.splits)

lemma in_value_enumerates: "in_value v e = Inr True \<longleftrightarrow> enumerates e v"
proof (cases e)
  case (JObj d)
  then show ?thesis by (auto simp: dhas_in_value dhas_map_of enumerates_simps simp del: in_value.simps)
qed (cases v; auto simp: enumerates_simps)+

lemma check_enum_Inr: "check_enum sch v path = Inr u \<longleftrightarrow> (\<forall>e. map_of sch ''enum'' = Some e \<longrightarrow> enumerates e v)"
  by (auto simp: check_enum_def fail_bool in_value_enumerates dhas_map_of dget_def simp del: in_value.simps)

lemma type_matches_has_type: "type_matches v e \<longleftrightarrow> (\<exists>t. e = JStr t \<and> has_type v t)"
  by (cases v) (auto simp: type_matches_def has_type_simps)

lemma expected_names_type: "JStr t \<in> set (expected_types e) \<longleftrightarrow> names_type e t"
  by (auto simp: expected_types_def names_type_simps split: json.splits)

lemma check_type_Inr: "check_type sch v path = Inr u \<longleftrightarrow>
    (\<forall>e. map_of sch ''type'' = Some e \<and> e \<noteq> JNull \<longrightarrow> (\<exists>t. names_type e t \<and> has_type v t))"
  by (auto simp: check_type_def Let_def list_ex_iff type_matches_has_type expected_names_type [symmetric] dget_def
      split: option.splits)

lemma dhas_key: "dhas d k \<longleftrightarrow> k \<in> fst ` set d"
  by (auto simp: dhas_map_of map_of_eq_None_iff)

lemma iterated_names: "(\<exists>keys. py_iter r = Inr keys \<and> (\<forall>k \<in> set keys. \<exists>s. k = JStr s \<and> dhas d s))
    \<longleftrightarrow> (\<exists>names. lists_names r names \<and> names \<subseteq> dom (map_of d))"
proof (cases r)
  case (JList xs)
  have "(\<forall>k \<in> set xs. \<exists>s. k = JStr s \<and> dhas d s) \<longleftrightarrow> (\<exists>names. xs = map JStr names \<and> set names \<subseteq> dom (map_of d))" (is "?l \<longleftrightarrow> ?r")
  proof
    assume l: ?l
    then have "xs = map JStr (map str_value xs)" "set (map str_value xs) \<subseteq> dom (map_of d)"
      by (induction xs) (auto simp: dhas_map_of)
    then show ?r by blast
  qed (fastforce simp: dhas_map_of)
  then show ?thesis by (auto simp: JList lists_names_simps)
qed (auto simp: lists_names_simps dhas_key image_subset_iff dom_map_of_conv_image_fst split_def)

lemma check_required_Inr: "check_required sch d path = Inr u \<longleftrightarrow>
    (\<forall>r. map_of sch ''required'' = Some r \<longrightarrow> (\<exists>names. lists_names r names \<and> names \<subseteq> dom (map_of d)))"
proof -
  have "check_required sch d path = Inr u \<longleftrightarrow>
      (\<exists>keys. py_iter (dget sch ''required'' (JList [])) = Inr keys \<and> (\<forall>k \<in> set keys. \<exists>s. k = JStr s \<and> dhas d s))"
    by (simp add: check_required_def ebind_Inr_iff [of "py_iter _"] emap_then_unit fail_bool dhas_in_value del: in_value.simps)
  then show ?thesis
    unfolding iterated_names by (auto simp: dget_def lists_names_simps split: option.splits)
qed

text \<open>The declared keys: what the code takes out of \<open>properties\<close>, and when it can.\<close>

definition declared_ok :: "jdict \<Rightarrow> jdict \<Rightarrow> bool" where
  "declared_ok sch d \<longleftrightarrow> (\<forall>p. map_of sch ''properties'' = Some p \<longrightarrow> readable_set p)
     \<and> (\<forall>k \<in> dom (map_of d). \<exists>props. map_of sch ''properties'' = Some (JObj props) \<and> k \<in> dom (map_of props))"

lemma set_of_readable: "(\<exists>ps. set_of p = Inr ps) \<longleftrightarrow> readable_set p"
  by (cases p) (auto simp: readable_set_def list_all_iff)

lemma check_extra_Inr:
  assumes "d \<noteq> [] \<longrightarrow> (\<forall>p. map_of sch ''properties'' = Some p \<longrightarrow> (\<exists>props. p = JObj props))"
  shows "check_extra sch d path = Inr u \<longleftrightarrow>
    (map_of sch ''additionalProperties'' = Some (JBool False) \<longrightarrow> declared_ok sch d)"
proof -
  have e: "check_extra sch d path = Inr u \<longleftrightarrow> (dget0 sch ''additionalProperties'' = JBool False \<longrightarrow>
      (\<exists>ps. set_of (dget sch ''properties'' (JObj [])) = Inr ps \<and> (\<forall>k \<in> set (map fst d). JStr k \<in> set ps)))"
    by (auto simp: check_extra_def Let_def ebind_Inr_iff [of "set_of _"] filter_empty_conv)
  have f: "dget0 sch ''additionalProperties'' = JBool False \<longleftrightarrow> map_of sch ''additionalProperties'' = Some (JBool False)"
    by (auto simp: dget_def split: option.splits)
  have "(\<exists>ps. set_of (dget sch ''properties'' (JObj [])) = Inr ps \<and> (\<forall>k \<in> set (map fst d). JStr k \<in> set ps)) \<longleftrightarrow> declared_ok sch d"
  proof (cases "d = []")
    case True
    then show ?thesis
      using set_of_readable [of "dget sch ''properties'' (JObj [])"]
      by (auto simp: declared_ok_def dget_def split: option.splits)
  next
    case False
    then obtain k where "k \<in> set (map fst d)" by (cases d) auto
    with False assms show ?thesis
      by (force simp: declared_ok_def dget_def readable_set_def dom_map_of_conv_image_fst split: option.splits)
  qed
  then show ?thesis unfolding e f by blast
qed

lemma object_ok_alt: "object_ok sch d \<longleftrightarrow>
    (\<forall>r. map_of sch ''required'' = Some r \<longrightarrow> (\<exists>names. lists_names r names \<and> names \<subseteq> dom (map_of d)))
    \<and> (map_of sch ''additionalProperties'' = Some (JBool False) \<longrightarrow> declared_ok sch d)
    \<and> (d \<noteq> [] \<longrightarrow> (\<forall>p. map_of sch ''properties'' = Some p \<longrightarrow> (\<exists>props. p = JObj props)))"
  unfolding object_ok_def declared_ok_def ..

lemma child_schema_readable: "(\<forall>k \<in> set (map fst d). \<exists>s. child_schema sch k = Inr s) \<longleftrightarrow>
    (d \<noteq> [] \<longrightarrow> (\<forall>p. map_of sch ''properties'' = Some p \<longrightarrow> (\<exists>props. p = JObj props)))"
proof -
  have "(\<exists>s. child_schema sch k = Inr s) \<longleftrightarrow> (\<forall>p. map_of sch ''properties'' = Some p \<longrightarrow> (\<exists>props. p = JObj props))" for k
    by (auto simp: child_schema_def res_simps dget_def split: option.splits)
  then show ?thesis by (cases d) auto
qed

lemma is_dict_iff: "is_dict v \<longleftrightarrow> (\<exists>d. v = JObj d)"
  by (cases v) auto

lemma child_schema_member: "child_schema sch k = Inr s \<Longrightarrow> (s \<noteq> JNull \<and> s = s' \<longleftrightarrow> member_schema sch k s')"
  by (auto simp: child_schema_def member_schema_simps dget_def res_simps is_dict_iff split: option.splits if_splits)

lemma local_ok_iff: "local_ok sch v \<longleftrightarrow> check_local sch v path = Inr () \<and>
    (\<forall>d. v = JObj d \<longrightarrow> (\<forall>k \<in> set (map fst d). \<exists>s. child_schema sch k = Inr s))"
proof (cases "\<exists>d. v = JObj d")
  case True
  then obtain d where d: "v = JObj d" by blast
  show ?thesis
  proof (cases "d \<noteq> [] \<longrightarrow> (\<forall>p. map_of sch ''properties'' = Some p \<longrightarrow> (\<exists>props. p = JObj props))")
    case True
    then show ?thesis
      unfolding local_ok_def d object_ok_alt child_schema_readable check_local_def
      by (simp add: ebind_Inr_iff [of "check_const _ _ _"] ebind_Inr_iff [of "check_enum _ _ _"]
          ebind_Inr_iff [of "check_type _ _ _"] ebind_Inr_iff [of "check_required _ _ _"] check_const_Inr check_enum_Inr
          check_type_Inr check_required_Inr check_extra_Inr [OF True])
  next
    case False
    then show ?thesis unfolding local_ok_def d object_ok_alt child_schema_readable json.inject by blast
  qed
next
  case False
  then have "(case v of JObj d \<Rightarrow> ebind (check_required sch d path) (\<lambda>_. check_extra sch d path) | _ \<Rightarrow> Inr ()) = Inr ()"
    by (cases v) auto
  with False show ?thesis
    by (auto simp: local_ok_def check_local_def ebind_Inr_iff [of "check_const _ _ _"] ebind_Inr_iff [of "check_enum _ _ _"]
      ebind_Inr_iff [of "check_type _ _ _"] check_const_Inr check_enum_Inr check_type_Inr)
qed

lemma members_conform:
  assumes "\<forall>k \<in> set (map fst d). \<exists>s. child_schema sch k = Inr s"
  shows "(\<forall>s x. part_of (JObj sch, JObj d) (s, x) \<longrightarrow> schema_conforms s x) \<longleftrightarrow>
    (\<forall>(key, x) \<in> set d. \<forall>s. child_schema sch key = Inr s \<and> s \<noteq> JNull \<longrightarrow> schema_conforms s x)"
proof -
  have "part_of (JObj sch, JObj d) (s, x) \<longleftrightarrow> (\<exists>key. (key, x) \<in> set d \<and> child_schema sch key = Inr s \<and> s \<noteq> JNull)" for s x
  proof
    assume "part_of (JObj sch, JObj d) (s, x)"
    then obtain key where k: "(key, x) \<in> set d" "member_schema sch key s" by (auto elim: part_ofE)
    moreover obtain s' where "child_schema sch key = Inr s'" using assms k(1) by force
    ultimately show "\<exists>key. (key, x) \<in> set d \<and> child_schema sch key = Inr s \<and> s \<noteq> JNull"
      using child_schema_member [of sch key s' s] by blast
  qed (use child_schema_member member in blast)
  then show ?thesis by blast
qed

lemma found_value: "v \<noteq> JNull \<Longrightarrow> dget0 d k = v \<longleftrightarrow> map_of d k = Some v"
  by (auto simp: dget_def split: option.splits)

lemma elements_conform: "(\<forall>s x. part_of (JObj sch, JList xs) (s, x) \<longrightarrow> schema_conforms s x) \<longleftrightarrow>
    (dget0 sch ''items'' \<noteq> JNull \<longrightarrow> (\<forall>x \<in> set xs. schema_conforms (dget0 sch ''items'') x))"
proof -
  have "part_of (JObj sch, JList xs) (s, x) \<longleftrightarrow> x \<in> set xs \<and> dget0 sch ''items'' = s \<and> s \<noteq> JNull" for s x
    using found_value [of s sch "''items''"] by (auto elim: part_ofE intro: element)
  then show ?thesis by auto
qed

lemma set_enumerate: "(\<forall>(i, x) \<in> set (enumerate n xs). P x) \<longleftrightarrow> (\<forall>x \<in> set xs. P x)"
  by (induction xs arbitrary: n) auto

lemma validate_schema_conforms: "validate_schema schema v path = Inr () \<longleftrightarrow> schema_conforms schema v"
proof (induction schema v path rule: validate_schema.induct)
  case (1 schema v path)
  show ?case
  proof (cases "\<exists>sch. schema = JObj sch \<and> check_local sch v path = Inr ()")
    case False
    then have "validate_schema schema v path \<noteq> Inr ()"
      by (auto simp: validate_schema.simps [of schema] ebind_Inr_iff [of "check_local _ _ _"] split: json.splits)
    moreover have "\<not> schema_conforms schema v"
      using False by (auto simp: schema_conforms_unfold [of schema] local_ok_iff [of _ _ path])
    ultimately show ?thesis by blast
  next
    case True
    then obtain sch where sch: "schema = JObj sch" "check_local sch v path = Inr ()" by blast
    show ?thesis
    proof (cases v)
      case v: (JObj d)
      have kid: "ebind (child_schema sch key) (\<lambda>child. if child = JNull then Inr () else validate_schema child x (path @ ''.'' @ key)) = Inr ()
          \<longleftrightarrow> (\<exists>s. child_schema sch key = Inr s \<and> (s \<noteq> JNull \<longrightarrow> schema_conforms s x))" if "(key, x) \<in> set d" for key x
        using 1(2) [OF sch v that refl] by (auto simp: ebind_Inr_iff [of "child_schema _ _"])
      have l: "local_ok sch v \<longleftrightarrow> (\<forall>k \<in> set (map fst d). \<exists>s. child_schema sch k = Inr s)"
        using sch(2) by (simp add: local_ok_iff [of _ _ path] v)
      have "validate_schema schema v path = Inr () \<longleftrightarrow> (\<forall>(key, x) \<in> set d. \<exists>s. child_schema sch key = Inr s \<and> (s \<noteq> JNull \<longrightarrow> schema_conforms s x))"
        using sch kid by (auto simp: validate_schema.simps [of "JObj sch"] v emap_then_unit)
      also have "\<dots> \<longleftrightarrow> (\<forall>k \<in> set (map fst d). \<exists>s. child_schema sch k = Inr s)
          \<and> (\<forall>(key, x) \<in> set d. \<forall>s. child_schema sch key = Inr s \<and> s \<noteq> JNull \<longrightarrow> schema_conforms s x)"
        by fastforce
      also have "\<dots> \<longleftrightarrow> local_ok sch v \<and> (\<forall>s x. part_of (JObj sch, JObj d) (s, x) \<longrightarrow> schema_conforms s x)"
        using l members_conform [of d sch] by blast
      also have "\<dots> \<longleftrightarrow> schema_conforms schema v"
        using schema_conforms_unfold [of "JObj sch" "JObj d"] by (simp add: sch(1) v)
      finally show ?thesis .
    next
      case v: (JList xs)
      have kid: "validate_schema (dget0 sch ''items'') x (path @ ''['' @ nat_str i @ '']'') = Inr () \<longleftrightarrow> schema_conforms (dget0 sch ''items'') x"
        if "(i, x) \<in> set (enumerate 0 xs)" "dget0 sch ''items'' \<noteq> JNull" for i x
        using 1(1) [OF sch v refl that(2,1) refl] by blast
      have "(\<forall>(i, x) \<in> set (enumerate 0 xs). validate_schema (dget0 sch ''items'') x (path @ ''['' @ nat_str i @ '']'') = Inr ())
          \<longleftrightarrow> (\<forall>x \<in> set xs. schema_conforms (dget0 sch ''items'') x)" if "dget0 sch ''items'' \<noteq> JNull"
        using kid [OF _ that] set_enumerate [of 0 xs "schema_conforms (dget0 sch ''items'')"] by fastforce
      then show ?thesis
        unfolding schema_conforms_unfold [of schema] using sch
        by (auto simp: validate_schema.simps [of "JObj sch"] v emap_then_unit elements_conform local_ok_iff [of _ _ path] Let_def split_def)
    qed (use sch in \<open>auto simp: validate_schema.simps [of "JObj sch"] schema_conforms_unfold [of "JObj sch"] local_ok_iff [of _ _ path] elim: part_ofE\<close>)
  qed
qed

definition invariants_ok :: "jdict \<Rightarrow> bool" where
  "invariants_ok r \<longleftrightarrow>
     (\<forall>k \<in> {''workroomRef'', ''workOrderRef'', ''actorRef'', ''sessionRef'', ''stateIntegrityReportRef''}.
        \<exists>s. map_of r k = Some (JStr s) \<and> s \<noteq> '''')
     \<and> (\<forall>k \<in> {''indexLaneRefs'', ''eventRefs'', ''evidenceRefs''}.
        \<exists>refs. map_of r k = Some (JList (map JStr refs)) \<and> refs \<noteq> [] \<and> '''' \<notin> set refs)
     \<and> (\<exists>narrative. map_of r ''operatorNarrative'' = Some (JObj narrative)
        \<and> (\<forall>k \<in> {''summary'', ''why'', ''nextAction'', ''riskRemaining''}. \<exists>s. map_of narrative k = Some (JStr s) \<and> s \<noteq> ''''))
     \<and> (\<exists>provenance. map_of r ''provenance'' = Some (JObj provenance) \<and> map_of provenance ''nonSecret'' = Some (JBool True))"

lemma full_string: "is_str v \<and> truthy v \<longleftrightarrow> (\<exists>s. v = JStr s \<and> s \<noteq> '''')"
  by (cases v) auto

lemma full_strings: "list_all (\<lambda>x. is_str x \<and> truthy x) xs \<longleftrightarrow> (\<exists>refs. xs = map JStr refs \<and> '''' \<notin> set refs)"
proof
  assume l: "list_all (\<lambda>x. is_str x \<and> truthy x) xs"
  then have "xs = map JStr (map str_value xs)" by (induction xs) (auto elim: is_strE)
  moreover have "'''' \<notin> set (map str_value xs)" using l by (induction xs) (auto elim: is_strE)
  ultimately show "\<exists>refs. xs = map JStr refs \<and> '''' \<notin> set refs" by blast
qed (auto simp: list_all_iff)

lemma require_list_Inr: "require_non_empty_list r k = Inr u \<longleftrightarrow> (\<exists>refs. dget0 r k = strs refs \<and> refs \<noteq> [] \<and> '''' \<notin> set refs)"
  by (cases "dget0 r k") (auto simp: require_non_empty_list_def Let_def nonempty_list_def full_strings
      ebind_Inr_iff [of "fail_if _ _"])

lemma narrative_Inr: "(\<exists>narrative. dget r ''operatorNarrative'' (JObj []) = JObj narrative \<and> (\<forall>k \<in> set NARRATIVE_KEYS. \<exists>s. dget0 narrative k = JStr s \<and> s \<noteq> ''''))
   \<longleftrightarrow> (\<exists>narrative. dget0 r ''operatorNarrative'' = JObj narrative \<and> (\<forall>k \<in> set NARRATIVE_KEYS. \<exists>s. dget0 narrative k = JStr s \<and> s \<noteq> ''''))"
  by (auto simp: dget_def NARRATIVE_KEYS_def split: option.splits)

lemma emap_seq: "ebind (emap f xs) (\<lambda>_. g) = Inr u \<longleftrightarrow> (\<forall>x \<in> set xs. \<exists>y. f x = Inr y) \<and> g = Inr u"
  by (auto simp: ebind_Inr_iff emap_unit_iff [symmetric])

lemma validate_invariants_Inr: "validate_invariants (JObj r) = Inr u \<longleftrightarrow> invariants_ok r"
proof -
  have p: "(\<exists>p. jsub (JObj r) ''provenance'' = Inr p \<and> (\<exists>d. p = JObj d \<and> dget0 d ''nonSecret'' = JBool True))
      \<longleftrightarrow> (\<exists>d. dget0 r ''provenance'' = JObj d \<and> dget0 d ''nonSecret'' = JBool True)"
    by (auto simp: dget_def split: option.splits)
  have "validate_invariants (JObj r) = Inr u \<longleftrightarrow>
      (\<forall>k \<in> set STRING_REFS. \<exists>u. require_non_empty_string r k = Inr u) \<and> (\<forall>k \<in> set LIST_REFS. \<exists>u. require_non_empty_list r k = Inr u)
      \<and> (\<exists>narrative. dget r ''operatorNarrative'' (JObj []) = JObj narrative \<and> (\<forall>k \<in> set NARRATIVE_KEYS. \<exists>s. dget0 narrative k = JStr s \<and> s \<noteq> ''''))
      \<and> (\<exists>p. jsub (JObj r) ''provenance'' = Inr p \<and> (\<exists>d. p = JObj d \<and> dget0 d ''nonSecret'' = JBool True))"
    by (simp add: validate_invariants_def ebind_Inr_iff [of "as_dict _"] emap_seq ebind_Inr_iff [of "jsub _ _"] full_string
        del: jsub.simps) blast
  then have "validate_invariants (JObj r) = Inr u \<longleftrightarrow>
      (\<forall>k \<in> set STRING_REFS. \<exists>s. dget0 r k = JStr s \<and> s \<noteq> '''')
      \<and> (\<forall>k \<in> set LIST_REFS. \<exists>refs. dget0 r k = strs refs \<and> refs \<noteq> [] \<and> '''' \<notin> set refs)
      \<and> (\<exists>narrative. dget0 r ''operatorNarrative'' = JObj narrative \<and> (\<forall>k \<in> set NARRATIVE_KEYS. \<exists>s. dget0 narrative k = JStr s \<and> s \<noteq> ''''))
      \<and> (\<exists>provenance. dget0 r ''provenance'' = JObj provenance \<and> dget0 provenance ''nonSecret'' = JBool True)"
    by (simp add: narrative_Inr p require_list_Inr require_non_empty_string_def full_string del: jsub.simps)
  then show ?thesis
    by (simp only: invariants_ok_def found_value json.distinct not_False_eq_True STRING_REFS_def LIST_REFS_def NARRATIVE_KEYS_def list.set)
qed

text \<open>
  C17: the schema interpreter implements conformance, and the check of the binding accepts exactly the bindings that conform and keep the invariants: every pair of a schema and a value that can be reached through
  properties, additional properties and items satisfies the constraints of the schema at that place, and the references, the narrative and the provenance are as required.
\<close>

theorem binding_accepted_iff:
  "(\<exists>r. validate_binding (Holds schema) (Holds (JObj b)) = Inr r \<and> ex_code r = 0) \<longleftrightarrow> schema_conforms schema (JObj b) \<and> invariants_ok b"
proof -
  have "(\<exists>r. validate_binding (Holds schema) (Holds (JObj b)) = Inr r \<and> ex_code r = 0) \<longleftrightarrow>
      check_binding (Holds schema) (Holds (JObj b)) = Inr ()"
    by (auto simp: validate_binding_def split: sum.splits pyerr.splits)
  also have "\<dots> \<longleftrightarrow> schema_conforms schema (JObj b) \<and> invariants_ok b"
    by (simp add: check_binding_def load_binding_def ebind_Inr_iff [of "validate_schema _ _ _"] validate_schema_conforms validate_invariants_Inr)
  finally show ?thesis .
qed

section \<open>The mapping of the Semantic Enterprise release\<close>

definition REQUIRED_SURFACES :: "string list" where
  "REQUIRED_SURFACES = [''artifact_lineage'', ''release_provenance'', ''repair_lineage'', ''rollback_evidence'',
     ''local_first_state_context'', ''named_graph_governance'']"
definition REQUIRED_PROVENANCE :: "string list" where
  "REQUIRED_PROVENANCE = [''source_path'', ''graph_uri'', ''source_system'', ''trust_level'', ''access_class'',
     ''retention_policy'', ''lifecycle_phase'', ''release_tag'']"
definition REQUIRED_BINDINGS :: "string list" where
  "REQUIRED_BINDINGS = [''release_artifact'', ''state_integrity_report'', ''repair_plan'', ''rollback_evidence'']"
definition REQUIRED_CLOSURE_KEYS :: "string list" where
  "REQUIRED_CLOSURE_KEYS = [''inside_source'', ''outside_state_runtime'', ''boundary_membrane'', ''feedback_surface'']"

definition EXPECTED_SOURCE :: "(string \<times> string) list" where
  "EXPECTED_SOURCE = [
     (''repository'', ''SocioProphet/ontogenesis''),
     (''release'', ''semantic-enterprise-v0.1.0''),
     (''manifest_path'', ''manifests/semantic_enterprise_v0_1_manifest.json''),
     (''rollup_registry_path'', ''catalog/semantic_enterprise_v0_1_registry.ttl''),
     (''supply_chain_module_path'', ''Domains/supply-chain.ttl''),
     (''named_graph_fixture_path'', ''examples/named-graphs/semantic_sector_named_graphs.ttl'')]"

definition sorted_repr :: "string list \<Rightarrow> string" where
  "sorted_repr xs = py_repr (strs (sorted_set xs))"

definition source_errors :: "json \<Rightarrow> string list" where
  "source_errors v =
     (case v of
        JObj source \<Rightarrow> concat (map (\<lambda>(key, expected). note_if (dget0 source key \<noteq> JStr expected)
          (''source.'' @ key @ '' expected '' @ repr_str expected @ '', got '' @ py_repr (dget0 source key))) EXPECTED_SOURCE)
      | _ \<Rightarrow> [''source must be an object''])"

text \<open>\<open>required.issubset(set(v or []))\<close>.\<close>

definition subset_errors :: "string \<Rightarrow> string list \<Rightarrow> json \<Rightarrow> string list res" where
  "subset_errors name required v =
     ebind (set_or_empty v) (\<lambda>present.
     let absent = [k \<leftarrow> required. \<not> set_mem k present] in
     Inr (note_if (absent \<noteq> []) (name @ '' missing: '' @ sorted_repr absent)))"

definition binding_surfaces :: "json list \<Rightarrow> json list res" where
  "binding_surfaces bindings =
     (let surfaces = map (\<lambda>b. dget0 b ''sourceos_surface'') (dicts_in bindings)
      in if list_all hashable surfaces then Inr (dedup surfaces) else Inl TypeError)"

definition binding_errors :: "json \<Rightarrow> string list" where
  "binding_errors v =
     (case v of
        JObj b \<Rightarrow> (let surface = py_str (dget0 b ''sourceos_surface'') in
            note_if (\<not> truthy (dget0 b ''semantic_enterprise_class'')) (surface @ '' missing semantic_enterprise_class'')
          @ note_if (\<not> truthy (dget0 b ''evidence_role'')) (surface @ '' missing evidence_role'')
          @ note_if (\<not> nonempty_list (dget0 b ''required_fields'')) (surface @ '' must include required_fields''))
      | _ \<Rightarrow> [''semantic binding must be an object''])"

definition bindings_errors :: "json \<Rightarrow> string list res" where
  "bindings_errors v =
     (case v of
        JList bindings \<Rightarrow>
          ebind (binding_surfaces bindings) (\<lambda>surfaces.
          ebind (if set surfaces = JStr ` set REQUIRED_BINDINGS then Inr []
                 else ebind (sorted_values surfaces) (\<lambda>ys. Inr [''expected sourceos surfaces ''
                   @ sorted_repr REQUIRED_BINDINGS @ '', got '' @ py_repr (JList ys)])) (\<lambda>es.
          Inr (es @ concat (map binding_errors bindings))))
      | _ \<Rightarrow> Inr [''semantic_bindings must be a list''])"

definition context_errors :: "json \<Rightarrow> string list" where
  "context_errors v =
     (case v of
        JObj c \<Rightarrow>
            note_if (dget0 c ''sector'' \<noteq> JStr ''supply-chain'') ''SourceOS v0.1 mapping should bind the supply-chain sector first''
          @ note_if (\<not> starts_with ''examples/scenarios/'' (py_str (dget c ''source_path'' (JStr ''''))))
              ''named graph context source_path must point to examples/scenarios''
          @ note_if (\<not> starts_with ''graphs/scenarios/'' (py_str (dget c ''graph_uri_fragment'' (JStr ''''))))
              ''named graph context graph_uri_fragment must point to graphs/scenarios''
          @ note_falsy c [''source_system'', ''access_class'', ''trust_level'', ''retention_policy'', ''lifecycle_phase'']
              ''named graph context missing ''
      | _ \<Rightarrow> [''named graph context must be an object''])"

definition contexts_errors :: "json \<Rightarrow> string list" where
  "contexts_errors v =
     (case v of
        JList (c # cs) \<Rightarrow> concat (map context_errors (c # cs))
      | _ \<Rightarrow> [''named_graph_contexts must be a non-empty list''])"

definition fixture_errors :: "json \<Rightarrow> string list" where
  "fixture_errors v =
     (case v of
        JObj f \<Rightarrow>
            note_falsy f [''artifact_id'', ''release_tag'', ''state_context'', ''graph_uri_fragment'', ''trust_level'', ''access_class'',
              ''operator_narrative''] ''sourceos_fixture missing ''
          @ note_if (dget0 f ''release_tag'' \<noteq> JStr ''semantic-enterprise-v0.1.0'') ''sourceos_fixture release_tag mismatch''
      | _ \<Rightarrow> [''sourceos_fixture must be an object''])"

text \<open>\<open>order\<close> is the order in which the interpreter iterates a set of strings; it depends on the hashes of the run.\<close>

definition closure_errors :: "(string list \<Rightarrow> string list) \<Rightarrow> json \<Rightarrow> string list" where
  "closure_errors order v =
     (case v of
        JObj c \<Rightarrow> (let absent = missing_keys REQUIRED_CLOSURE_KEYS c in
            note_if (absent \<noteq> []) (''closure_model missing keys: '' @ sorted_repr absent)
          @ concat (map (\<lambda>key. note_if (\<not> (is_str (dget0 c key) \<and> strip (str_value (dget0 c key)) \<noteq> ''''))
              (''closure_model.'' @ key @ '' must be a non-empty string'')) (order [k \<leftarrow> REQUIRED_CLOSURE_KEYS. dhas c k])))
      | _ \<Rightarrow> [''closure_model must be an object''])"

definition mapping_errors :: "(string list \<Rightarrow> string list) \<Rightarrow> jdict \<Rightarrow> string list res" where
  "mapping_errors order d = collect [
     Inr (note_if (dget0 d ''contract'' \<noteq> JStr ''sourceos-syncd.semantic-enterprise.state-integrity'') ''unexpected contract identifier''
       @ note_if (dget0 d ''version'' \<noteq> JStr ''0.1.0'') ''unexpected contract version''
       @ source_errors (dget0 d ''source'')),
     subset_errors ''state_integrity_surfaces'' REQUIRED_SURFACES (dget0 d ''state_integrity_surfaces''),
     subset_errors ''provenance_requirements'' REQUIRED_PROVENANCE (dget0 d ''provenance_requirements''),
     bindings_errors (dget0 d ''semantic_bindings''),
     Inr (contexts_errors (dget0 d ''named_graph_contexts'') @ fixture_errors (dget0 d ''sourceos_fixture'')
       @ closure_errors order (dget0 d ''closure_model''))]"

definition validate_semantic_mapping :: "(string list \<Rightarrow> string list) \<Rightarrow> string \<Rightarrow> file_content \<Rightarrow> exit_result res" where
  "validate_semantic_mapping order fixture content =
     (case content of
        Absent \<Rightarrow> Inr \<lparr>ex_code = 1, ex_out = [''missing fixture: '' @ fixture], ex_err = []\<rparr>
      | Garbled why \<Rightarrow> Inr \<lparr>ex_code = 1, ex_out = [''invalid JSON: '' @ why], ex_err = []\<rparr>
      | Holds v \<Rightarrow>
          ebind (as_dict v) (\<lambda>d.
          ebind (mapping_errors order d) (\<lambda>errors.
          if errors \<noteq> [] then Inr \<lparr>ex_code = 1,
            ex_out = ''Semantic Enterprise state-integrity validation failed:'' # map (\<lambda>e. ''- '' @ e) errors, ex_err = []\<rparr>
          else Inr (exits [''Semantic Enterprise state-integrity validation passed.'']))))"

lemma source_errors_Nil:
  "source_errors v = [] \<longleftrightarrow> (\<exists>source. v = JObj source \<and> (\<forall>(k, s) \<in> set EXPECTED_SOURCE. dget0 source k = JStr s))"
  by (cases v) (simp_all add: source_errors_def case_prod_beta)

lemma dedup_strings:
  assumes "set (dedup xs) = JStr ` S"
  shows "set xs = JStr ` S"
proof -
  have other: "\<exists>y \<in> set (dedup xs). \<not> is_str y" if "x \<in> set xs" "\<not> is_str x" for x
    using that
  proof (induction xs)
    case (Cons z xs)
    show ?case
    proof (cases "is_str z")
      case True
      then obtain y where "y \<in> set (dedup xs)" "\<not> is_str y" using Cons by auto
      moreover have "\<not> py_eq z y" using True \<open>\<not> is_str y\<close> by (auto elim!: is_strE)
      ultimately show ?thesis by auto
    qed simp
  qed simp
  have strings: "is_str x" if "x \<in> set xs" for x
  proof (rule ccontr)
    assume "\<not> is_str x"
    from other [OF that this] show False using assms by auto
  qed
  have "x \<in> set (dedup xs) \<longleftrightarrow> x \<in> set xs" for x
  proof (cases "is_str x")
    case True
    then show ?thesis by (auto elim!: is_strE)
  next
    case False
    then show ?thesis using strings assms by auto
  qed
  then show ?thesis using assms by blast
qed

lemma objects_only: "list_all is_dict vs \<Longrightarrow> map JObj (dicts_in vs) = vs"
proof (induction vs)
  case (Cons v vs)
  then show ?case by (cases v) (simp_all add: dicts_in_def)
qed (simp add: dicts_in_def)

lemma closure_errors_Nil:
  assumes "closure_errors order v = []" and "\<And>xs. set (order xs) = set xs"
  shows "\<exists>closure. v = JObj closure \<and> (\<forall>k \<in> set REQUIRED_CLOSURE_KEYS. \<exists>s. dget0 closure k = JStr s \<and> strip s \<noteq> '''')"
proof -
  obtain c where v: "v = JObj c" using assms(1) by (cases v) (auto simp: closure_errors_def)
  have absent: "missing_keys REQUIRED_CLOSURE_KEYS c = []" using assms(1) by (simp add: v closure_errors_def Let_def)
  have full: "is_str (dget0 c k) \<and> strip (str_value (dget0 c k)) \<noteq> ''''" if k: "k \<in> set REQUIRED_CLOSURE_KEYS" for k
  proof -
    have "k \<in> set (order [k \<leftarrow> REQUIRED_CLOSURE_KEYS. dhas c k])" using k absent by (simp add: assms(2) missing_keys_empty_iff list_all_iff)
    then show ?thesis using assms(1) by (simp add: v closure_errors_def Let_def absent)
  qed
  have "\<exists>s. dget0 c k = JStr s \<and> strip s \<noteq> ''''" if "k \<in> set REQUIRED_CLOSURE_KEYS" for k
    using full [OF that] by (auto elim!: is_strE)
  then show ?thesis using v by blast
qed

text \<open>
  A mapping in which one binding lacks its surface is not reported: next to a binding that has one, the check ends with
  a \<open>TypeError\<close> when it sorts the surfaces.
\<close>

lemma missing_surface_raises:
  assumes "dget0 d ''semantic_bindings'' = JList [JObj [], JObj [(''sourceos_surface'', JStr s)]]"
  shows "bindings_errors (dget0 d ''semantic_bindings'') = Inl TypeError"
proof -
  have "binding_surfaces [JObj [], JObj [(''sourceos_surface'', JStr s)]] = Inr [JNull, JStr s]"
    by (simp add: binding_surfaces_def dicts_in_def)
  moreover have "{JNull, JStr s} \<noteq> JStr ` set REQUIRED_BINDINGS" by auto
  ultimately show ?thesis using assms by (simp add: bindings_errors_def sorted_values_def)
qed

text \<open>
  An accepted mapping binds exactly the four surfaces of the release, declares every required surface and provenance field and names the release of its source, in whatever order sets are iterated.
\<close>

lemma accepted_mapping_is_complete:
  assumes "\<And>xs. set (order xs) = set xs"
    and "validate_semantic_mapping order fixture (Holds (JObj d)) = Inr r" and "ex_code r = 0"
  shows "\<exists>bindings source closure present provenance.
      dget0 d ''semantic_bindings'' = JList (map JObj bindings)
      \<and> (\<lambda>b. dget0 b ''sourceos_surface'') ` set bindings = JStr ` set REQUIRED_BINDINGS
      \<and> set_or_empty (dget0 d ''state_integrity_surfaces'') = Inr present \<and> JStr ` set REQUIRED_SURFACES \<subseteq> set present
      \<and> set_or_empty (dget0 d ''provenance_requirements'') = Inr provenance \<and> JStr ` set REQUIRED_PROVENANCE \<subseteq> set provenance
      \<and> dget0 d ''source'' = JObj source \<and> (\<forall>(k, s) \<in> set EXPECTED_SOURCE. dget0 source k = JStr s)
      \<and> dget0 d ''closure_model'' = JObj closure
      \<and> (\<forall>k \<in> set REQUIRED_CLOSURE_KEYS. \<exists>s. dget0 closure k = JStr s \<and> strip s \<noteq> '''')"
proof -
  have ok: "mapping_errors order d = Inr []"
    using assms(2,3) by (auto simp: validate_semantic_mapping_def as_dict_def ebind_Inr_iff [of "mapping_errors _ _"] split: if_splits)
  note parts = ok [unfolded mapping_errors_def, simplified]
  obtain source where source: "dget0 d ''source'' = JObj source" "\<forall>(k, s) \<in> set EXPECTED_SOURCE. dget0 source k = JStr s"
    using parts source_errors_Nil by blast
  have sub: "\<exists>present. set_or_empty v = Inr present \<and> JStr ` set required \<subseteq> set present"
    if "subset_errors name required v = Inr []" for name required v
    using that by (auto simp: subset_errors_def Let_def ebind_Inr_iff [of "set_or_empty _"] set_mem_def filter_empty_conv)
  obtain bindings surfaces where b: "dget0 d ''semantic_bindings'' = JList bindings" "concat (map binding_errors bindings) = []"
      and surfaces: "binding_surfaces bindings = Inr surfaces" "set surfaces = JStr ` set REQUIRED_BINDINGS"
    using parts by (cases "dget0 d ''semantic_bindings''") (auto simp: bindings_errors_def ebind_Inr_iff split: if_splits)
  have objects: "bindings = map JObj (dicts_in bindings)"
  proof -
    have "is_dict v" if "v \<in> set bindings" for v using b(2) that by (cases v) (auto simp: binding_errors_def)
    then show ?thesis using objects_only [of bindings] by (simp add: list_all_iff)
  qed
  obtain closure where "dget0 d ''closure_model'' = JObj closure"
      "\<forall>k \<in> set REQUIRED_CLOSURE_KEYS. \<exists>s. dget0 closure k = JStr s \<and> strip s \<noteq> ''''"
    using closure_errors_Nil [OF _ assms(1)] parts by blast
  moreover have "(\<lambda>b. dget0 b ''sourceos_surface'') ` set (dicts_in bindings) = JStr ` set REQUIRED_BINDINGS"
    using surfaces dedup_strings [of "map (\<lambda>b. dget0 b ''sourceos_surface'') (dicts_in bindings)"]
    by (simp add: binding_surfaces_def Let_def split: if_splits)
  moreover have "dget0 d ''semantic_bindings'' = JList (map JObj (dicts_in bindings))" using b(1) objects by simp
  moreover obtain present where "set_or_empty (dget0 d ''state_integrity_surfaces'') = Inr present" "JStr ` set REQUIRED_SURFACES \<subseteq> set present"
    using sub parts by blast
  moreover obtain provenance where "set_or_empty (dget0 d ''provenance_requirements'') = Inr provenance"
      "JStr ` set REQUIRED_PROVENANCE \<subseteq> set provenance"
    using sub parts by blast
  ultimately show ?thesis using source by blast
qed

end
