(* ===== verification/Resource_Summary.thy ===== *)
theory Resource_Summary
  imports Tooling
begin

text \<open>
  \<open>tools/resource-event-summary.py\<close>: rows that summarise the resource reports of a host, printed as a table, as CSV or as JSON.  A report is its name, its time of change and its text.
\<close>

section \<open>Rules\<close>

definition SUFFIXES :: "string list" where
  "SUFFIXES = [''.diag'', ''.cpu_resource.diag'', ''.shutdownStall'', ''.ips'']"

text \<open>The labels of the patterns, all of the shape \<open>^label\s*(.+)$\<close>.\<close>

definition PATTERNS :: "(string \<times> string) list" where
  "PATTERNS = [(''date_time'', ''Date/Time:''), (''end_time'', ''End time:''), (''command'', ''Command:''),
     (''identifier'', ''Identifier:''), (''team_id'', ''Team ID:''), (''is_first_party'', ''Is First Party:''),
     (''resource_coalition'', ''Resource Coalition:''), (''event'', ''Event:''), (''action_taken'', ''Action taken:''),
     (''writes'', ''Writes:''), (''cpu'', ''CPU:''), (''duration'', ''Duration:'')]"

text \<open>The rules of a classification are alternatives of literal texts.\<close>

definition CONTROLLERS :: "(string list \<times> string) list" where
  "CONTROLLERS = [
     ([''mds'', ''mdworker'', ''mds_stores'', ''spotlight'', ''corespotlight''], ''Spotlight / Metadata''),
     ([''photolibraryd'', ''photoanalysisd'', ''mediaanalysisd'', ''cloudphotod'', ''Photos''], ''Photos / Media''),
     ([''apfsd''], ''Filesystem''),
     ([''airportd'', ''wifip2p'', ''wifianalytics'', ''corewifi'', ''WiFi''], ''Wireless''),
     ([''networkserviceproxy'', ''nesessionmanager'', ''NetworkExtension'', ''vpn''], ''Network Policy''),
     ([''org.mozilla.updater'', ''firefox''], ''Application Updater''),
     ([''cloudd'', ''fileproviderd'', ''cloudkit'', ''iCloud''], ''Cloud / File Provider''),
     ([''ANECompilerService''], ''ML / Acceleration'')]"

definition STACKS :: "(string list \<times> string) list" where
  "STACKS = [
     ([''SpotlightIndex'', ''CICompact'', ''index_compact'', ''PayloadPulses'', ''mds''], ''index compaction / payload writes''),
     ([''PLCloudPhotoLibraryManager'', ''PLResetSyncStatus'', ''PhotoLibraryServices'', ''NSSQL'', ''sqlite'', ''CoreData''],
       ''media database rewrite''),
     ([''apfsd'', ''fts_read'', ''fts_build'', ''getattrlistbulk'', ''fsctl'', ''fstat'', ''fstatat''], ''filesystem traversal''),
     ([''airportdProcessTrafficEngineeringEvents'', ''LQM'', ''WME'', ''CoreWiFi'', ''IO80211''], ''wireless telemetry''),
     ([''fwrite'', ''write_nocancel''], ''file writes'')]"

fun classify :: "string \<Rightarrow> (string list \<times> string) list \<Rightarrow> string \<Rightarrow> string" where
  "classify text_read [] dflt = dflt"
| "classify text_read ((alternatives, label) # rules) dflt =
     (if list_ex (\<lambda>a. contains (lower a) (lower text_read)) alternatives then label else classify text_read rules dflt)"

section \<open>Fields\<close>

text \<open>
  The text after the white space that follows a label, up to the end of its line, and the search for a label at the start of a line.  White space includes line
  ends, so the value of a label with nothing behind it is on a later line.
\<close>

definition value_after :: "string \<Rightarrow> string" where
  "value_after s = takeWhile (\<lambda>c. c \<noteq> newline) (dropWhile is_space s)"

fun find_label :: "string \<Rightarrow> bool \<Rightarrow> string \<Rightarrow> string" where
  "find_label label at_start [] = ''''"
| "find_label label at_start (c # cs) =
     (if at_start \<and> starts_with label (c # cs) then strip (value_after (drop (length label) (c # cs)))
      else find_label label (c = newline) cs)"

definition field_of :: "string \<Rightarrow> string \<Rightarrow> string" where
  "field_of text_read label = find_label label True text_read"

section \<open>Quantities\<close>

text \<open>\<open>[0-9]+(\.[0-9]+)?\<close> at the start of a text: the digits, the decimals and the rest.\<close>

definition scan_decimal :: "string \<Rightarrow> (string \<times> string \<times> string) option" where
  "scan_decimal s = (let (ds, r) = digit_run s; (fs, r') = frac_part r in if ds = [] then None else Some (ds, fs, r'))"

definition UNITS :: "(string \<times> nat \<times> nat) list" where
  "UNITS = [(''KB'', 0, 1), (''MB'', 0, 0), (''GB'', 1, 0), (''TB'', 2, 0)]"

definition starts_with_ci :: "string \<Rightarrow> string \<Rightarrow> bool" where
  "starts_with_ci p s \<longleftrightarrow> starts_with (lower p) (lower s)"

definition unit_at :: "string \<Rightarrow> (nat \<times> nat) option" where
  "unit_at s = map_option snd (find (\<lambda>(u, scale). starts_with_ci u s) UNITS)"

text \<open>\<open>round(value * scale, 3)\<close>, where the scale is \<open>1024 ^ up / 1024 ^ down\<close>.\<close>

definition scaled :: "string \<Rightarrow> string \<Rightarrow> nat \<Rightarrow> nat \<Rightarrow> pyfloat" where
  "scaled ds fs up down =
     (let x = nearest_double (int (digits_nat (ds @ fs))) (10 ^ length fs) in
      if num_of x \<ge> 2 ^ 1024 * den_of x then PosInf
      else let y = nearest_double (num_of x * 1024 ^ up) (den_of x * 1024 ^ down)
           in read_decimal False (round_half_even (10 ^ 3 * num_of y) (den_of y)) (- 3))"

fun size_mb :: "string \<Rightarrow> json" where
  "size_mb [] = JStr ''''"
| "size_mb (c # cs) =
     (case scan_decimal (c # cs) of
        None \<Rightarrow> size_mb cs
      | Some (ds, fs, r) \<Rightarrow>
          (case unit_at (dropWhile is_space r) of
             None \<Rightarrow> size_mb cs
           | Some (up, down) \<Rightarrow> JFloat (scaled ds fs up down)))"

definition average_at :: "string \<Rightarrow> pyfloat option" where
  "average_at s =
     (if starts_with ''('' s then
        (case scan_decimal (drop 1 s) of
           None \<Rightarrow> None
         | Some (ds, fs, r) \<Rightarrow>
             if starts_with ''%'' r \<and> starts_with_ci ''cpu average)'' (dropWhile is_space (drop 1 r))
             then Some (read_decimal False (int (digits_nat (ds @ fs))) (- int (length fs))) else None)
      else None)"

fun cpu_avg :: "string \<Rightarrow> json" where
  "cpu_avg [] = JStr ''''"
| "cpu_avg (c # cs) = (case average_at (c # cs) of Some x \<Rightarrow> JFloat x | None \<Rightarrow> cpu_avg cs)"

section \<open>Rows\<close>

text \<open>A report file; \<open>rf_text\<close> is its text or what reading it raises.\<close>

record report_file =
  rf_name :: string
  rf_mtime :: string
  rf_text :: "string res"

definition ips_document :: "report_file \<Rightarrow> json" where
  "ips_document f =
     (case rf_text f of Inl e \<Rightarrow> JObj []
      | Inr t \<Rightarrow> (case json_loads t of Inl msg \<Rightarrow> JObj [] | Inr v \<Rightarrow> v))"

definition resource_row :: "json \<Rightarrow> string \<Rightarrow> string \<Rightarrow> string \<Rightarrow> json \<Rightarrow> json \<Rightarrow> string \<Rightarrow> string \<Rightarrow> jdict" where
  "resource_row at_time name command event writes cpu taken stack_text =
     [(''time'', at_time), (''file'', JStr name), (''command'', JStr command),
      (''controller'', JStr (classify (command @ '' '' @ name) CONTROLLERS ''Unclassified'')),
      (''event'', JStr event), (''writes_mb'', writes), (''cpu_avg_pct'', cpu), (''action'', JStr taken),
      (''stack_family'', JStr (classify stack_text STACKS ''Unclassified''))]"

definition parse_report :: "report_file \<Rightarrow> jdict res" where
  "parse_report f =
     (if ends_with ''.ips'' (rf_name f) then
        (let doc = ips_document f in
         ebind (jget doc ''bug_type'' (JStr '''')) (\<lambda>bug_type.
         ebind (jget doc ''procName'' bug_type) (\<lambda>command.
         ebind (jget doc ''timestamp'' (JStr (rf_mtime f))) (\<lambda>at_time.
         Inr (resource_row at_time (rf_name f) (py_str command) ''ips'' (JStr '''') (JStr '''') '''' (take 5000 (json_dumps doc)))))))
      else
        ebind (rf_text f) (\<lambda>t.
        let data = map (\<lambda>(key, label). (key, field_of t label)) PATTERNS; got = (\<lambda>key. dget data key '''') in
        Inr (resource_row (JStr (if got ''date_time'' = '''' then rf_mtime f else got ''date_time'')) (rf_name f) (got ''command'')
          (got ''event'') (size_mb (got ''writes'')) (cpu_avg (got ''cpu'')) (got ''action_taken'') t)))"

section \<open>Output\<close>

definition is_report :: "string \<Rightarrow> bool" where
  "is_report name \<longleftrightarrow> list_ex (\<lambda>s. ends_with s name) SUFFIXES"

text \<open>A path is a file, a directory with its files in order, or neither.\<close>

datatype summary_input = One_File report_file | Directory "report_file list" | Neither

fun iter_inputs :: "summary_input \<Rightarrow> report_file list" where
  "iter_inputs (One_File f) = (if is_report (rf_name f) then [f] else [])"
| "iter_inputs (Directory fs) = [f \<leftarrow> fs. is_report (rf_name f)]"
| "iter_inputs Neither = []"

definition cell :: "jdict \<Rightarrow> string \<Rightarrow> string" where
  "cell row key = py_str (dget0 row key)"

definition markdown_row :: "jdict \<Rightarrow> string" where
  "markdown_row row = ''| '' @ join '' | '' (map (cell row)
     [''time'', ''controller'', ''command'', ''event'', ''writes_mb'', ''cpu_avg_pct'', ''action'', ''stack_family'']) @ '' |'' @ [newline]"

definition write_markdown :: "jdict list \<Rightarrow> string" where
  "write_markdown rows =
     ''# Controller Resource Event Summary'' @ [newline, newline]
     @ ''| Time | Controller | Command | Event | Writes MB | CPU Avg % | Action | Stack family |'' @ [newline]
     @ ''|---|---|---|---|---:|---:|---|---|'' @ [newline] @ concat (map markdown_row rows)"

definition csv_field :: "string \<Rightarrow> string" where
  "csv_field s =
     (if list_ex (\<lambda>c. c \<in> {CHR '','', CHR 0x22, CHR 0x0D, newline}) s
      then [CHR 0x22] @ concat (map (\<lambda>c. if c = CHR 0x22 then [c, c] else [c]) s) @ [CHR 0x22] else s)"

definition CSV_FIELDS :: "string list" where
  "CSV_FIELDS = [''time'', ''file'', ''command'', ''controller'', ''event'', ''writes_mb'', ''cpu_avg_pct'', ''action'', ''stack_family'']"

definition csv_line :: "string list \<Rightarrow> string" where
  "csv_line xs = join '','' (map csv_field xs) @ [CHR 0x0D, newline]"

definition csv_text :: "json \<Rightarrow> string" where
  "csv_text v = (if v = JNull then '''' else py_str v)"

definition write_csv :: "jdict list \<Rightarrow> string" where
  "write_csv rows = csv_line CSV_FIELDS @ concat (map (\<lambda>row. csv_line (map (\<lambda>k. csv_text (dget0 row k)) CSV_FIELDS)) rows)"

datatype summary_format = Markdown | CSV | JSON

definition summarize_reports :: "summary_format \<Rightarrow> summary_input list \<Rightarrow> string res" where
  "summarize_reports format inputs =
     ebind (emap parse_report (concat (map iter_inputs inputs))) (\<lambda>rows.
     Inr (case format of
        JSON \<Rightarrow> pretty_json True (JList (map JObj rows)) | CSV \<Rightarrow> write_csv rows | Markdown \<Rightarrow> write_markdown rows))"

section \<open>A field with nothing behind its label\<close>

lemma dropWhile_stops: "\<exists>c \<in> set xs. \<not> P c \<Longrightarrow> dropWhile P (xs @ ys) = dropWhile P xs @ ys"
  by (induction xs) auto

text \<open>The value of an empty field is the line that follows it, label and all.\<close>

lemma empty_field_takes_next_line:
  assumes "label \<noteq> ''''" and "newline \<notin> set line" and "\<exists>c \<in> set line. \<not> is_space c"
  shows "field_of (label @ [newline] @ line @ [newline] @ rest) label = strip line"
proof -
  have "dropWhile is_space (newline # line @ newline # rest) = dropWhile is_space line @ newline # rest"
    using dropWhile_stops [of line is_space "newline # rest"] assms(3) by (simp add: is_space_def)
  moreover have "takeWhile (\<lambda>c. c \<noteq> newline) (dropWhile is_space line @ newline # rest) = dropWhile is_space line"
    using assms(2) by (subst takeWhile_append2) (auto dest: set_dropWhileD)
  ultimately have "value_after (newline # line @ newline # rest) = dropWhile is_space line" by (simp add: value_after_def)
  moreover obtain c cs where label: "label = c # cs" using assms(1) by (cases label) auto
  moreover have "strip (dropWhile is_space line) = strip line" by (simp add: strip_def lstrip_def)
  ultimately show ?thesis
    using starts_with_append [of label "newline # line @ newline # rest"] by (simp add: field_of_def)
qed

lemma ex_empty_field:
  "field_of (''Action taken:'' @ [newline] @ ''Writes: 5.24 GB'' @ [newline]) ''Action taken:'' = ''Writes: 5.24 GB''"
  by code_simp

text \<open>
  A summary of reports has one row for each report file given, directly or in a directory, and no other; every row names its file, and the rows of readable reports always exist.
\<close>

lemma summary_rows:
  assumes "\<And>f. f \<in> set (concat (map iter_inputs inputs)) \<Longrightarrow> \<exists>t. rf_text f = Inr t \<and> (ends_with ''.ips'' (rf_name f) \<longrightarrow> is_dict (ips_document f))"
  shows "\<exists>rows. emap parse_report (concat (map iter_inputs inputs)) = Inr rows
    \<and> map (\<lambda>row. dget0 row ''file'') rows = map (\<lambda>f. JStr (rf_name f)) (concat (map iter_inputs inputs))
    \<and> summarize_reports Markdown inputs = Inr (write_markdown rows) \<and> summarize_reports CSV inputs = Inr (write_csv rows)"
proof -
  have one: "\<exists>row. parse_report f = Inr row \<and> dget0 row ''file'' = JStr (rf_name f)" if f: "f \<in> set (concat (map iter_inputs inputs))" for f
  proof (cases "ends_with ''.ips'' (rf_name f)")
    case True
    then obtain d where "ips_document f = JObj d" using assms [OF f] by (auto elim: is_dictE)
    then show ?thesis using True by (simp add: parse_report_def Let_def resource_row_def)
  next
    case False
    then show ?thesis using assms [OF f] by (auto simp: parse_report_def Let_def resource_row_def)
  qed
  have rows: "\<exists>rows. emap parse_report fs = Inr rows \<and> map (\<lambda>row. dget0 row ''file'') rows = map (\<lambda>f. JStr (rf_name f)) fs"
    if "\<forall>f \<in> set fs. \<exists>row. parse_report f = Inr row \<and> dget0 row ''file'' = JStr (rf_name f)" for fs
    using that by (induction fs) auto
  obtain rows where "emap parse_report (concat (map iter_inputs inputs)) = Inr rows"
      "map (\<lambda>row. dget0 row ''file'') rows = map (\<lambda>f. JStr (rf_name f)) (concat (map iter_inputs inputs))"
    using rows [of "concat (map iter_inputs inputs)"] one by blast
  then show ?thesis by (auto simp: summarize_reports_def)
qed

end
