(* ===== verification/Schema_Checks.thy ===== *)
theory Schema_Checks
  imports Tooling
begin

text \<open>
  The validators that run the package \<open>jsonschema\<close> over the repository: \<open>validate_events.py\<close>, \<open>validate_json_schemas.py\<close> and, without the package,
  \<open>validate_json_syntax.py\<close>.  The package is a parameter: what \<open>check_schema\<close> says of a schema, the errors a validator yields in its order, and the error
  \<open>validate\<close> raises.  So are the files a pattern matches, in order.
\<close>

section \<open>Event fixtures\<close>

text \<open>A fixture is its path below the root and its document, or what reading it raises.\<close>

type_synonym fixture = "string \<times> json res"

definition slash_location :: "path_part list \<Rightarrow> string" where
  "slash_location p = (let location = join ''/'' (map part_str p) in if location = '''' then ''<root>'' else location)"

definition error_line :: "schema_error \<Rightarrow> string" where
  "error_line e = ''  - '' @ slash_location (se_path e) @ '': '' @ se_message e"

definition fixture_verdict :: "bool \<Rightarrow> string \<Rightarrow> schema_error list \<Rightarrow> string list \<times> nat" where
  "fixture_verdict expect_fail rel errors =
     (if expect_fail then
        (if errors \<noteq> [] then ([''PASS expected failure: '' @ rel], 0)
         else ([''FAIL expected invalid fixture to fail: '' @ rel], 1))
      else if errors \<noteq> [] then
        ((''FAIL invalid valid-fixture: '' @ rel) # map error_line (sort_key se_path errors), 1)
      else ([''PASS valid fixture: '' @ rel], 0))"

fun validate_files :: "(json \<Rightarrow> schema_error list) \<Rightarrow> bool \<Rightarrow> fixture list \<Rightarrow> (string list \<times> nat) res" where
  "validate_files validator expect_fail [] = Inr ([], 0)"
| "validate_files validator expect_fail ((rel, loaded) # files) =
     ebind loaded (\<lambda>v.
     ebind (validate_files validator expect_fail files) (\<lambda>(out, n).
     let p = fixture_verdict expect_fail rel (validator v) in Inr (fst p @ out, snd p + n)))"

definition prints_and_fails :: "string list \<Rightarrow> exit_result" where
  "prints_and_fails out = \<lparr>ex_code = 1, ex_out = out, ex_err = []\<rparr>"

definition validate_events ::
  "(json \<Rightarrow> unit res) \<Rightarrow> (json \<Rightarrow> json \<Rightarrow> schema_error list) \<Rightarrow> json res \<Rightarrow> string \<Rightarrow> string \<Rightarrow> fixture list \<Rightarrow> fixture list
    \<Rightarrow> exit_result res" where
  "validate_events check_schema iter_errors loaded_schema valid_glob invalid_glob valid invalid =
     ebind loaded_schema (\<lambda>schema.
     ebind (check_schema schema) (\<lambda>_.
     if valid = [] then Inr (prints_and_fails [''FAIL no valid fixtures matched '' @ valid_glob])
     else if invalid = [] then Inr (prints_and_fails [''FAIL no invalid fixtures matched '' @ invalid_glob])
     else
       ebind (validate_files (iter_errors schema) False valid) (\<lambda>(out1, n1).
       ebind (validate_files (iter_errors schema) True invalid) (\<lambda>(out2, n2).
       Inr (if n1 + n2 > 0
            then prints_and_fails (out1 @ out2 @ [''Validation completed with '' @ nat_str (n1 + n2) @ '' failure(s).''])
            else exits (out1 @ out2 @ [''Validation completed successfully.'']))))))"

lemma validate_files_zero:
  "validate_files validator b files = Inr (out, 0) \<Longrightarrow>
     \<forall>(rel, loaded) \<in> set files. \<exists>v. loaded = Inr v \<and> (validator v \<noteq> [] \<longleftrightarrow> b)"
proof (induction validator b files arbitrary: out rule: validate_files.induct)
  case (2 validator b rel loaded files)
  from 2(2) obtain v out' where v: "loaded = Inr v" "validate_files validator b files = Inr (out', 0)"
      "snd (fixture_verdict b rel (validator v)) = 0"
    by (auto simp: ebind_Inr_iff Let_def)
  have "validator v \<noteq> [] \<longleftrightarrow> b" using v(3) by (auto simp: fixture_verdict_def split: if_splits)
  then show ?case using 2(1) [OF v(1,2)] v(1) by auto
qed simp

text \<open>
  The event fixtures pass only when they are what they claim to be: the check exits with 0 only if there are fixtures of both kinds, every valid fixture has no schema error and every invalid
  fixture has one.
\<close>

lemma fixtures_pass_only_as_claimed:
  assumes "validate_events check_schema iter_errors (Inr schema) vg ig valid invalid = Inr r" and "ex_code r = 0"
  shows "valid \<noteq> [] \<and> invalid \<noteq> []
    \<and> (\<forall>(rel, loaded) \<in> set valid. \<exists>v. loaded = Inr v \<and> iter_errors schema v = [])
    \<and> (\<forall>(rel, loaded) \<in> set invalid. \<exists>v. loaded = Inr v \<and> iter_errors schema v \<noteq> [])"
proof -
  obtain out1 out2 where "valid \<noteq> []" "invalid \<noteq> []" and runs: "validate_files (iter_errors schema) False valid = Inr (out1, 0)"
      "validate_files (iter_errors schema) True invalid = Inr (out2, 0)"
    using assms by (auto simp: validate_events_def ebind_Inr_iff prints_and_fails_def split: if_splits)
  then show ?thesis using validate_files_zero [OF runs(1)] validate_files_zero [OF runs(2)] by auto
qed

section \<open>Schemas and examples\<close>

text \<open>A file is its path and its document, or the text of what reading it raised.\<close>

definition load_or_message :: "string \<times> (string + json) \<Rightarrow> string + json" where
  "load_or_message f = (case snd f of Inl why \<Rightarrow> Inl (fst f @ '': invalid JSON: '' @ why) | Inr v \<Rightarrow> Inr v)"

definition check_all_schemas :: "(json \<Rightarrow> string option) \<Rightarrow> (string \<times> (string + json)) list \<Rightarrow> string list" where
  "check_all_schemas schema_error files =
     List.map_filter (\<lambda>f. map_option (\<lambda>why. fst f @ '': invalid schema: '' @ why)
       (case load_or_message f of Inl msg \<Rightarrow> Some msg | Inr v \<Rightarrow> schema_error v)) files"

record validation_target =
  vt_schema_path :: string
  vt_example_glob :: string

definition TARGETS :: "validation_target list" where
  "TARGETS = map (\<lambda>(s, g). \<lparr>vt_schema_path = ''schemas/'' @ s, vt_example_glob = g\<rparr>) [
     (''sourceos-event.schema.json'', ''events/*.json''),
     (''sourceos-service.schema.json'', ''services/*.json''),
     (''sourceos-capability.schema.json'', ''capabilities/*.json''),
     (''sourceos-launch-manifest.schema.json'', ''launch/*.json''),
     (''sourceos-incident.schema.json'', ''incidents/*.json''),
     (''sourceos.state-integrity-report.v1alpha1.schema.json'', ''health/*.snapshot.json''),
     (''sourceos.repair-plan.v1alpha1.schema.json'', ''health/*repair-plan*.json'')]"

definition format_validation_error :: "string \<Rightarrow> schema_error \<Rightarrow> string" where
  "format_validation_error path e =
     path @ '': validation failed at '' @ error_location (se_path e) @ '': '' @ se_message e"

text \<open>What the checks find: the root before every path, the schema files, the files a pattern matches, and the package.\<close>

record schema_world =
  ws_root :: string
  ws_schema :: "string \<Rightarrow> (string + json) option"
  ws_examples :: "string \<Rightarrow> (string \<times> (string + json)) list"
  ws_validate :: "json \<Rightarrow> json \<Rightarrow> schema_error option"

definition example_errors :: "schema_world \<Rightarrow> json \<Rightarrow> string \<times> (string + json) \<Rightarrow> string list" where
  "example_errors W schema f =
     (case load_or_message f of
        Inl msg \<Rightarrow> [msg]
      | Inr v \<Rightarrow> (case ws_validate W schema v of None \<Rightarrow> [] | Some e \<Rightarrow> [format_validation_error (fst f) e]))"

definition target_errors :: "schema_world \<Rightarrow> validation_target \<Rightarrow> string list" where
  "target_errors W t =
     (let path = ws_root W @ vt_schema_path t in
      case ws_schema W (vt_schema_path t) of
        None \<Rightarrow> [''missing schema: '' @ path]
      | Some loaded \<Rightarrow>
          (case load_or_message (path, loaded) of
             Inl msg \<Rightarrow> [msg]
           | Inr schema \<Rightarrow>
               (let files = ws_examples W (vt_example_glob t) in
                if files = [] then [path @ '': no examples matched '' @ vt_example_glob t]
                else concat (map (example_errors W schema) files))))"

definition validate_examples :: "schema_world \<Rightarrow> string list" where
  "validate_examples W = concat (map (target_errors W) TARGETS)"

definition validate_json_schemas ::
  "(json \<Rightarrow> string option) \<Rightarrow> (string \<times> (string + json)) list \<Rightarrow> schema_world \<Rightarrow> exit_result" where
  "validate_json_schemas schema_error schemas W =
     (let errors = check_all_schemas schema_error schemas @ validate_examples W in
      if errors \<noteq> [] then fails errors else exits [''SourceOS JSON Schemas and examples validated.''])"

lemma schemas_validated:
  "ex_code (validate_json_schemas schema_error schemas W) = 0 \<longleftrightarrow>
     (\<forall>f \<in> set schemas. \<exists>v. snd f = Inr v \<and> schema_error v = None)
     \<and> (\<forall>t \<in> set TARGETS. \<exists>schema. ws_schema W (vt_schema_path t) = Some (Inr schema) \<and> ws_examples W (vt_example_glob t) \<noteq> []
          \<and> (\<forall>f \<in> set (ws_examples W (vt_example_glob t)). \<exists>v. snd f = Inr v \<and> ws_validate W schema v = None))"
proof -
  have schemas: "check_all_schemas schema_error schemas = [] \<longleftrightarrow> (\<forall>f \<in> set schemas. \<exists>v. snd f = Inr v \<and> schema_error v = None)"
    by (induction schemas) (auto simp: check_all_schemas_def map_filter_def load_or_message_def split: sum.splits option.splits)
  have one: "example_errors W schema f = [] \<longleftrightarrow> (\<exists>v. snd f = Inr v \<and> ws_validate W schema v = None)" for schema f
    by (auto simp: example_errors_def load_or_message_def split: sum.splits option.splits)
  have target: "target_errors W t = [] \<longleftrightarrow> (\<exists>schema. ws_schema W (vt_schema_path t) = Some (Inr schema) \<and> ws_examples W (vt_example_glob t) \<noteq> []
          \<and> (\<forall>f \<in> set (ws_examples W (vt_example_glob t)). \<exists>v. snd f = Inr v \<and> ws_validate W schema v = None))" for t
    by (auto simp: target_errors_def Let_def load_or_message_def one split: sum.splits option.splits)
  show ?thesis by (auto simp: validate_json_schemas_def Let_def schemas target validate_examples_def)
qed

section \<open>Syntax\<close>

definition validate_json_syntax :: "(string \<times> (string + json)) list \<Rightarrow> exit_result" where
  "validate_json_syntax files =
     (let bad = List.map_filter (\<lambda>(rel, loaded). case loaded of Inl why \<Rightarrow> Some (rel @ '': invalid JSON: '' @ why) | Inr v \<Rightarrow> None) files
      in if bad \<noteq> [] then fails bad else exits [''JSON syntax validated.''])"

end
